(* ===== verification/Prelude.thy ===== *)
theory Prelude
  imports Main "HOL-Library.Sublist"
begin

text \<open>
  Shared vocabulary of the development: the Go string operations the gateway uses
  (\<^verbatim>\<open>strings.HasPrefix\<close>, \<^verbatim>\<open>strings.Split\<close>, \<^verbatim>\<open>strings.Cut\<close>, \<^verbatim>\<open>strings.TrimSpace\<close>, ...)
  on byte strings, hexadecimal encoding (\<^verbatim>\<open>encoding/hex\<close>), decimal printing, and the
  collections of hints the component theories extend.  A Go \<^verbatim>\<open>string\<close> or \<^verbatim>\<open>[]byte\<close>
  is a \<^typ>\<open>string\<close>, one \<^typ>\<open>char\<close> per byte.
\<close>

named_theorems go_string_simps "evaluation of the Go string operations"
named_theorems release_defs "unfolding of the release controller's checks"

section \<open>Prefixes, suffixes, splitting\<close>

abbreviation has_prefix :: "string \<Rightarrow> string \<Rightarrow> bool" where
  "has_prefix s p \<equiv> prefix p s"

abbreviation has_suffix :: "string \<Rightarrow> string \<Rightarrow> bool" where
  "has_suffix s p \<equiv> suffix p s"

definition trim_prefix :: "string \<Rightarrow> string \<Rightarrow> string" where
  "trim_prefix s p = (if prefix p s then drop (length p) s else s)"

definition trim_suffix :: "string \<Rightarrow> string \<Rightarrow> string" where
  "trim_suffix s p = (if suffix p s then take (length s - length p) s else s)"

text \<open>\<^verbatim>\<open>strings.Split\<close> at a one-byte separator: always at least one piece.\<close>

fun split_on :: "char \<Rightarrow> string \<Rightarrow> string list" where
  "split_on c [] = [[]]"
| "split_on c (x # xs) =
     (if x = c then [] # split_on c xs
      else (case split_on c xs of [] \<Rightarrow> [[x]] | p # ps \<Rightarrow> (x # p) # ps))"

text \<open>\<^verbatim>\<open>strings.Join\<close> with a one-byte separator.\<close>

fun join_with :: "char \<Rightarrow> string list \<Rightarrow> string" where
  "join_with c [] = []"
| "join_with c [x] = x"
| "join_with c (x # y # ys) = x @ c # join_with c (y # ys)"

text \<open>\<^verbatim>\<open>strings.Cut\<close> at the first occurrence of a byte.\<close>

fun cut_at :: "char \<Rightarrow> string \<Rightarrow> (string \<times> string) option" where
  "cut_at c [] = None"
| "cut_at c (x # xs) =
     (if x = c then Some ([], xs)
      else (case cut_at c xs of None \<Rightarrow> None | Some (k, v) \<Rightarrow> Some (x # k, v)))"

definition contains_any :: "string \<Rightarrow> string \<Rightarrow> bool" where
  "contains_any s cs \<longleftrightarrow> list_ex (\<lambda>c. c \<in> set cs) s"

text \<open>\<^verbatim>\<open>unicode.IsSpace\<close> over the UTF-8 bytes of a Go string: the ASCII members and the
  multi-byte ones, whose first bytes always begin a rune.\<close>

definition ascii_space :: "char \<Rightarrow> bool" where
  "ascii_space c \<longleftrightarrow> of_char c \<in> {9 :: nat, 10, 11, 12, 13, 32}"

definition unicode_spaces :: "string list" where
  "unicode_spaces =
     [[CHR 0xC2, CHR 0x85], [CHR 0xC2, CHR 0xA0], [CHR 0xE1, CHR 0x9A, CHR 0x80],
      [CHR 0xE2, CHR 0x80, CHR 0x80], [CHR 0xE2, CHR 0x80, CHR 0x81], [CHR 0xE2, CHR 0x80, CHR 0x82],
      [CHR 0xE2, CHR 0x80, CHR 0x83], [CHR 0xE2, CHR 0x80, CHR 0x84], [CHR 0xE2, CHR 0x80, CHR 0x85],
      [CHR 0xE2, CHR 0x80, CHR 0x86], [CHR 0xE2, CHR 0x80, CHR 0x87], [CHR 0xE2, CHR 0x80, CHR 0x88],
      [CHR 0xE2, CHR 0x80, CHR 0x89], [CHR 0xE2, CHR 0x80, CHR 0x8A], [CHR 0xE2, CHR 0x80, CHR 0xA8],
      [CHR 0xE2, CHR 0x80, CHR 0xA9], [CHR 0xE2, CHR 0x80, CHR 0xAF], [CHR 0xE2, CHR 0x81, CHR 0x9F],
      [CHR 0xE3, CHR 0x80, CHR 0x80]]"

definition leading_space :: "string \<Rightarrow> nat" where
  "leading_space s =
     (case s of [] \<Rightarrow> 0
      | c # cs \<Rightarrow> if ascii_space c then 1
          else (case List.find (\<lambda>u. prefix u s) unicode_spaces of None \<Rightarrow> 0 | Some u \<Rightarrow> length u))"

definition trailing_space :: "string \<Rightarrow> nat" where
  "trailing_space s =
     (if s = [] then 0
      else if ascii_space (last s) then 1
      else (case List.find (\<lambda>u. suffix u s) unicode_spaces of None \<Rightarrow> 0 | Some u \<Rightarrow> length u))"

function trim_left :: "string \<Rightarrow> string" where
  "trim_left s =
     (if leading_space s = 0 \<or> s = [] then s else trim_left (drop (leading_space s) s))"
  by pat_completeness auto
termination by (relation "measure length") auto

function trim_right :: "string \<Rightarrow> string" where
  "trim_right s =
     (if trailing_space s = 0 \<or> s = [] then s
      else trim_right (take (length s - trailing_space s) s))"
  by pat_completeness auto
termination by (relation "measure length") auto

declare trim_left.simps [simp del] trim_right.simps [simp del]

definition trim_space :: "string \<Rightarrow> string" where
  "trim_space s = trim_right (trim_left s)"

text \<open>A text that starts and ends with plain ASCII has nothing to trim.\<close>

definition plain_byte :: "char \<Rightarrow> bool" where
  "plain_byte c \<longleftrightarrow> \<not> ascii_space c \<and> (of_char c :: nat) < 128"

lemma suffix_last: "suffix u s \<Longrightarrow> u \<noteq> [] \<Longrightarrow> last u = last s"
  by (auto simp: suffix_def)

lemma prefix_hd: "prefix u s \<Longrightarrow> u \<noteq> [] \<Longrightarrow> hd u = hd s"
  by (auto simp: prefix_def)

lemma unicode_spaces_high:
  "u \<in> set unicode_spaces \<Longrightarrow>
     u \<noteq> [] \<and> 128 \<le> (of_char (hd u) :: nat) \<and> 128 \<le> (of_char (last u) :: nat)"
  unfolding unicode_spaces_def by auto

lemma leading_space_plain:
  assumes "plain_byte c"
  shows "leading_space (c # s) = 0"
proof -
  have "\<not> prefix u (c # s)" if "u \<in> set unicode_spaces" for u
    using unicode_spaces_high[OF that] assms prefix_hd[of u "c # s"] by (auto simp: plain_byte_def)
  then have "List.find (\<lambda>u. prefix u (c # s)) unicode_spaces = None" by (simp add: find_None_iff)
  with assms show ?thesis by (simp add: leading_space_def plain_byte_def)
qed

lemma trailing_space_plain:
  assumes "plain_byte (last s)" "s \<noteq> []"
  shows "trailing_space s = 0"
proof -
  have "\<not> suffix u s" if "u \<in> set unicode_spaces" for u
    using unicode_spaces_high[OF that] assms(1) suffix_last[of u s] by (auto simp: plain_byte_def)
  then have "List.find (\<lambda>u. suffix u s) unicode_spaces = None" by (simp add: find_None_iff)
  with assms show ?thesis by (simp add: trailing_space_def plain_byte_def)
qed

lemma trim_space_plain:
  assumes "plain_byte (hd s)" "plain_byte (last s)"
  shows "trim_space s = s"
proof (cases s)
  case Nil
  then show ?thesis by (simp add: trim_space_def trim_left.simps trim_right.simps)
next
  case (Cons c cs)
  with assms(1) have "trim_left s = s" by (simp add: trim_left.simps leading_space_plain)
  moreover from assms(2) Cons have "trim_right s = s" by (simp add: trim_right.simps trailing_space_plain)
  ultimately show ?thesis by (simp add: trim_space_def)
qed

lemma split_on_not_Nil [simp]: "split_on c s \<noteq> []"
  by (induction s) (auto split: list.splits)

lemma join_split_on [simp]: "join_with c (split_on c s) = s"
proof (induction s)
  case Nil
  show ?case by simp
next
  case (Cons x xs)
  obtain p ps where ps: "split_on c xs = p # ps"
    by (cases "split_on c xs") auto
  with Cons.IH have "join_with c (p # ps) = xs" by simp
  with ps show ?case by (cases ps) auto
qed

lemma split_on_no_sep: "p \<in> set (split_on c s) \<Longrightarrow> c \<notin> set p"
proof (induction s arbitrary: p)
  case Nil
  then show ?case by simp
next
  case (Cons x xs)
  obtain q qs where "split_on c xs = q # qs"
    by (cases "split_on c xs") auto
  with Cons show ?case by (auto split: if_splits)
qed

lemma split_on_id: "c \<notin> set s \<Longrightarrow> split_on c s = [s]"
  by (induction s) auto

lemma split_on_append:
  "c \<notin> set p \<Longrightarrow> split_on c (p @ c # s) = p # split_on c s"
  by (induction p) auto

lemma split_join:
  "xs \<noteq> [] \<Longrightarrow> \<forall>x\<in>set xs. c \<notin> set x \<Longrightarrow> split_on c (join_with c xs) = xs"
  by (induction c xs rule: join_with.induct) (auto simp: split_on_id split_on_append)

lemma cut_at_append: "c \<notin> set k \<Longrightarrow> cut_at c (k @ c # v) = Some (k, v)"
  by (induction k) auto

lemma cut_at_Some_D: "cut_at c s = Some (k, v) \<Longrightarrow> s = k @ c # v \<and> c \<notin> set k"
  by (induction s arbitrary: k v) (auto split: option.splits if_splits)

lemma cut_at_Some: "cut_at c s = Some (k, v) \<longleftrightarrow> s = k @ c # v \<and> c \<notin> set k"
  using cut_at_append cut_at_Some_D by metis

lemma cut_at_None: "cut_at c s = None \<longleftrightarrow> c \<notin> set s"
  by (induction s) (auto split: option.splits)

lemma subseq_head_mem: "subseq (x # xs) ys \<Longrightarrow> x \<in> set ys"
  by (rule list_emb_set[of "(=)" "x # xs" ys x]) auto

section \<open>Decimal and hexadecimal\<close>

definition digit_char :: "nat \<Rightarrow> char" where
  "digit_char d = char_of (48 + d)"

fun utoa :: "nat \<Rightarrow> string" where
  "utoa n = (if n < 10 then [digit_char n] else utoa (n div 10) @ [digit_char (n mod 10)])"

declare utoa.simps [simp del]

definition itoa :: "int \<Rightarrow> string" where
  "itoa i = (if i < 0 then CHR ''-'' # utoa (nat (- i)) else utoa (nat i))"

text \<open>
  \<^verbatim>\<open>encoding/hex\<close>: decoding accepts both letter cases and an even number of digits,
  encoding writes lower case.
\<close>

definition hex_val :: "char \<Rightarrow> nat option" where
  "hex_val c =
     (let k = of_char c :: nat in
      if 48 \<le> k \<and> k \<le> 57 then Some (k - 48)
      else if 97 \<le> k \<and> k \<le> 102 then Some (k - 87)
      else if 65 \<le> k \<and> k \<le> 70 then Some (k - 55)
      else None)"

definition hex_digit :: "nat \<Rightarrow> char" where
  "hex_digit d = (if d < 10 then char_of (48 + d) else char_of (87 + d))"

fun hex_decode :: "string \<Rightarrow> nat list option" where
  "hex_decode [] = Some []"
| "hex_decode [_] = None"
| "hex_decode (a # b # s) =
     (case (hex_val a, hex_val b, hex_decode s) of
        (Some x, Some y, Some bs) \<Rightarrow> Some ((16 * x + y) # bs)
      | _ \<Rightarrow> None)"

fun hex_encode :: "nat list \<Rightarrow> string" where
  "hex_encode [] = []"
| "hex_encode (b # bs) = hex_digit (b div 16) # hex_digit (b mod 16) # hex_encode bs"

definition lower_hex :: "char \<Rightarrow> bool" where
  "lower_hex c \<longleftrightarrow> (let k = of_char c :: nat in 48 \<le> k \<and> k \<le> 57 \<or> 97 \<le> k \<and> k \<le> 102)"

lemma hex_val_lt: "hex_val c = Some x \<Longrightarrow> x < 16"
  by (auto simp: hex_val_def Let_def split: if_splits)

lemma hex_digit_of_lower: "lower_hex c \<Longrightarrow> \<exists>x. hex_val c = Some x \<and> hex_digit x = c"
  by (auto simp: lower_hex_def hex_val_def hex_digit_def Let_def)

lemma lower_hex_digit: "x < 16 \<Longrightarrow> lower_hex (hex_digit x)"
  by (auto simp: lower_hex_def hex_digit_def Let_def)

lemma hex_digit_val_lower: "hex_val c = Some x \<Longrightarrow> hex_digit x = c \<Longrightarrow> lower_hex c"
  using hex_val_lt lower_hex_digit by blast

lemma length_hex_encode: "length (hex_encode bs) = 2 * length bs"
  by (induction bs) auto

text \<open>A string survives decode-then-encode exactly when it is lower-case hexadecimal.\<close>

lemma hex_canonical_iff:
  "even (length s) \<Longrightarrow>
   (\<exists>bs. hex_decode s = Some bs \<and> hex_encode bs = s) \<longleftrightarrow> list_all lower_hex s"
proof (induction s rule: hex_decode.induct)
  case 1
  show ?case by simp
next
  case (2 a)
  then show ?case by simp
next
  case (3 a b s)
  have IH: "(\<exists>bs. hex_decode s = Some bs \<and> hex_encode bs = s) \<longleftrightarrow> list_all lower_hex s"
    using 3 by simp
  show ?case
  proof
    assume "\<exists>bs. hex_decode (a # b # s) = Some bs \<and> hex_encode bs = a # b # s"
    then obtain x y cs where x: "hex_val a = Some x" and y: "hex_val b = Some y"
      and cs: "hex_decode s = Some cs"
      and enc: "hex_encode ((16 * x + y) # cs) = a # b # s"
      by (auto split: option.splits)
    from y have "y < 16" by (rule hex_val_lt)
    with enc have "hex_digit x = a" "hex_digit y = b" "hex_encode cs = s" by auto
    with x y cs IH show "list_all lower_hex (a # b # s)"
      using hex_digit_val_lower by auto
  next
    assume all: "list_all lower_hex (a # b # s)"
    then obtain x y where x: "hex_val a = Some x" "hex_digit x = a"
      and y: "hex_val b = Some y" "hex_digit y = b"
      using hex_digit_of_lower[of a] hex_digit_of_lower[of b] by auto
    from all IH obtain cs where "hex_decode s = Some cs" "hex_encode cs = s" by auto
    moreover from y have "y < 16" using hex_val_lt by blast
    ultimately show "\<exists>bs. hex_decode (a # b # s) = Some bs \<and> hex_encode bs = a # b # s"
      using x y by auto
  qed
qed

section \<open>Options as Go error returns\<close>

text \<open>
  Checks that return \<^verbatim>\<open>*Error\<close> or \<^verbatim>\<open>error\<close> are options, \<^const>\<open>None\<close> for \<^verbatim>\<open>nil\<close>.
  \<open>first_err\<close> is a chain of \<^verbatim>\<open>if err := ...; err != nil { return err }\<close>.
\<close>

fun first_err :: "'e option list \<Rightarrow> 'e option" where
  "first_err [] = None"
| "first_err (Some e # _) = Some e"
| "first_err (None # es) = first_err es"

lemma first_err_None: "first_err es = None \<longleftrightarrow> (\<forall>e\<in>set es. e = None)"
  by (induction es rule: first_err.induct) auto

definition fail_if :: "bool \<Rightarrow> 'e \<Rightarrow> 'e option" where
  "fail_if b e = (if b then Some e else None)"

lemma fail_if_simps [simp]: "fail_if True e = Some e" "fail_if False e = None"
  by (simp_all add: fail_if_def)

lemma fail_if_None [simp]: "fail_if b e = None \<longleftrightarrow> \<not> b"
  by (simp add: fail_if_def)

lemma fail_if_Some [simp]: "fail_if b e = Some e' \<longleftrightarrow> b \<and> e = e'"
  by (auto simp: fail_if_def)

end
