(* ===== verification/GoPath.thy ===== *)
theory GoPath
  imports Prelude
begin

text \<open>
  The lexical half of Go's \<^verbatim>\<open>path\<close> and (on Unix) \<^verbatim>\<open>path/filepath\<close> packages, as the
  release controller and the vault use it: \<^verbatim>\<open>Clean\<close>, \<^verbatim>\<open>Join\<close>, \<^verbatim>\<open>Base\<close>, \<^verbatim>\<open>Dir\<close>,
  \<^verbatim>\<open>IsAbs\<close> and \<^verbatim>\<open>Rel\<close>, over the list of a path's segments.
\<close>

definition is_abs :: "string \<Rightarrow> bool" where
  "is_abs p \<longleftrightarrow> prefix ''/'' p"

text \<open>
  The segment stack of \<^verbatim>\<open>Clean\<close>, reversed: empty and \<open>.\<close> segments vanish, \<open>..\<close> pops a
  real segment, is dropped at a root and is kept at the front of a relative path.
\<close>

fun clean_segs :: "bool \<Rightarrow> string list \<Rightarrow> string list \<Rightarrow> string list" where
  "clean_segs rooted st [] = rev st"
| "clean_segs rooted st (s # ss) =
     (if s = '''' \<or> s = ''.'' then clean_segs rooted st ss
      else if s = ''..'' then
        (case st of
           [] \<Rightarrow> clean_segs rooted (if rooted then [] else [''..'']) ss
         | t # ts \<Rightarrow> clean_segs rooted (if t = ''..'' then ''..'' # st else ts) ss)
      else clean_segs rooted (s # st) ss)"

definition path_segs :: "string \<Rightarrow> string list" where
  "path_segs p = clean_segs (is_abs p) [] (split_on CHR ''/'' p)"

definition path_clean :: "string \<Rightarrow> string" where
  "path_clean p =
     (let ss = path_segs p in
      if is_abs p then CHR ''/'' # join_with CHR ''/'' ss
      else if ss = [] then ''.''
      else join_with CHR ''/'' ss)"

definition path_join :: "string list \<Rightarrow> string" where
  "path_join ps =
     (let qs = filter (\<lambda>p. p \<noteq> '''') ps in
      if qs = [] then '''' else path_clean (join_with CHR ''/'' qs))"

definition strip_slashes :: "string \<Rightarrow> string" where
  "strip_slashes p = rev (dropWhile (\<lambda>c. c = CHR ''/'') (rev p))"

definition path_base :: "string \<Rightarrow> string" where
  "path_base p =
     (if p = '''' then ''.''
      else let q = strip_slashes p in
        if q = '''' then ''/'' else last (split_on CHR ''/'' q))"

definition path_dir :: "string \<Rightarrow> string" where
  "path_dir p = path_clean (rev (dropWhile (\<lambda>c. c \<noteq> CHR ''/'') (rev p)))"

fun strip_common :: "string list \<Rightarrow> string list \<Rightarrow> string list \<times> string list" where
  "strip_common (x # xs) (y # ys) = (if x = y then strip_common xs ys else (x # xs, y # ys))"
| "strip_common xs ys = (xs, ys)"

text \<open>\<^verbatim>\<open>filepath.Rel\<close>: \<^const>\<open>None\<close> is its error.\<close>

definition path_rel :: "string \<Rightarrow> string \<Rightarrow> string option" where
  "path_rel base targ =
     (if path_clean base = path_clean targ then Some ''.''
      else if is_abs base \<noteq> is_abs targ then None
      else let (bs, ts) = strip_common (path_segs base) (path_segs targ) in
        if bs \<noteq> [] \<and> hd bs = ''..'' then None
        else Some (join_with CHR ''/'' (replicate (length bs) ''..'' @ ts)))"

section \<open>Normal form\<close>

definition real_seg :: "string \<Rightarrow> bool" where
  "real_seg s \<longleftrightarrow> s \<noteq> '''' \<and> s \<noteq> ''.'' \<and> CHR ''/'' \<notin> set s"

text \<open>A clean segment list: real segments, with \<open>..\<close> only as a leading run of a relative path.\<close>

fun clean_list :: "bool \<Rightarrow> string list \<Rightarrow> bool" where
  "clean_list rooted [] \<longleftrightarrow> True"
| "clean_list rooted (s # ss) \<longleftrightarrow>
     (if s = ''..'' then \<not> rooted \<and> clean_list rooted ss
      else real_seg s \<and> list_all (\<lambda>t. real_seg t \<and> t \<noteq> ''..'') ss)"

lemma real_seg_dotdot [simp]: "real_seg ''..''"
  by (simp add: real_seg_def)

lemma clean_list_snoc:
  "clean_list r xs \<Longrightarrow> real_seg s \<Longrightarrow> s \<noteq> ''..'' \<Longrightarrow> clean_list r (xs @ [s])"
  by (induction xs) (auto split: if_splits)

lemma clean_list_butlast: "clean_list r (xs @ [s]) \<Longrightarrow> clean_list r xs"
  by (induction xs) (auto split: if_splits)

lemma clean_list_dots: "clean_list r (xs @ [''..'']) \<Longrightarrow> clean_list r (xs @ [''..'', ''..''])"
  by (induction xs) (auto split: if_splits)

lemma clean_segs_clean:
  "clean_list r (rev st) \<Longrightarrow> \<forall>s\<in>set ss. CHR ''/'' \<notin> set s \<Longrightarrow> clean_list r (clean_segs r st ss)"
proof (induction ss arbitrary: st)
  case Nil
  then show ?case by simp
next
  case (Cons s ss)
  from Cons.prems(2) have ss: "\<forall>s\<in>set ss. CHR ''/'' \<notin> set s" and s: "CHR ''/'' \<notin> set s" by auto
  show ?case
  proof (cases "s = '''' \<or> s = ''.''")
    case True
    with Cons.IH[OF Cons.prems(1) ss] show ?thesis by auto
  next
    case nskip: False
    show ?thesis
    proof (cases "s = ''..''")
      case False
      with nskip s have "real_seg s" by (simp add: real_seg_def)
      with Cons.prems(1) False have "clean_list r (rev (s # st))"
        by (simp add: clean_list_snoc)
      from Cons.IH[OF this ss] nskip False show ?thesis by simp
    next
      case True
      then show ?thesis
      proof (cases st)
        case Nil
        have "clean_list r (rev (if r then [] else [''..'']))" by simp
        from Cons.IH[OF this ss] Nil True show ?thesis by simp
      next
        case (Cons t ts)
        have "clean_list r (rev (if t = ''..'' then ''..'' # st else ts))"
          using Cons.prems(1) Cons clean_list_dots clean_list_butlast by auto
        from Cons.IH[OF this ss] Cons True show ?thesis by (simp split: if_splits)
      qed
    qed
  qed
qed

lemma path_segs_clean: "clean_list (is_abs p) (path_segs p)"
  unfolding path_segs_def
  by (rule clean_segs_clean) (auto dest: split_on_no_sep)

lemma clean_list_real: "clean_list r ss \<Longrightarrow> s \<in> set ss \<Longrightarrow> real_seg s"
  by (induction ss) (auto split: if_splits simp: list_all_iff)

lemma clean_list_rooted: "clean_list True ss \<Longrightarrow> ''..'' \<notin> set ss"
  by (induction ss) (auto split: if_splits simp: list_all_iff)

text \<open>Cleaning a list that is already clean pushes every segment.\<close>

lemma clean_segs_id_real:
  "list_all (\<lambda>t. real_seg t \<and> t \<noteq> ''..'') ss \<Longrightarrow> clean_segs r st ss = rev st @ ss"
  by (induction ss arbitrary: st) (auto simp: real_seg_def)

lemma clean_segs_id_gen:
  "clean_list r ss \<Longrightarrow> \<forall>t\<in>set st. t = ''..'' \<Longrightarrow> clean_segs r st ss = rev st @ ss"
proof (induction ss arbitrary: st)
  case Nil
  then show ?case by simp
next
  case (Cons s ss)
  show ?case
  proof (cases "s = ''..''")
    case True
    with Cons.prems have r: "\<not> r" and cl: "clean_list r ss" by auto
    have "clean_segs r (''..'' # st) ss = rev (''..'' # st) @ ss"
      using Cons.IH[OF cl, of "''..'' # st"] Cons.prems by simp
    with True r Cons.prems(2) show ?thesis by (cases st) auto
  next
    case False
    with Cons.prems have "real_seg s" "list_all (\<lambda>t. real_seg t \<and> t \<noteq> ''..'') ss" by auto
    with False show ?thesis by (simp add: clean_segs_id_real real_seg_def)
  qed
qed

lemma clean_segs_id: "clean_list r ss \<Longrightarrow> clean_segs r [] ss = ss"
  by (simp add: clean_segs_id_gen)

lemma is_abs_Cons [simp]: "is_abs (c # s) \<longleftrightarrow> c = CHR ''/''"
  by (auto simp: is_abs_def)

lemma not_is_abs_Nil [simp]: "\<not> is_abs []"
  by (simp add: is_abs_def)

lemma join_with_no_slash_head:
  "ss \<noteq> [] \<Longrightarrow> \<forall>s\<in>set ss. real_seg s \<Longrightarrow> \<not> is_abs (join_with CHR ''/'' ss)"
  by (induction "CHR ''/''" ss rule: join_with.induct)
    (auto simp: real_seg_def is_abs_def prefix_def Cons_eq_append_conv append_eq_Cons_conv)

lemma is_abs_clean [simp]: "is_abs (path_clean p) = is_abs p"
proof -
  have "\<forall>s\<in>set (path_segs p). real_seg s"
    using clean_list_real[OF path_segs_clean] by blast
  then show ?thesis
    by (auto simp: path_clean_def Let_def join_with_no_slash_head)
qed

lemma path_segs_path_clean [simp]: "path_segs (path_clean p) = path_segs p"
proof -
  have cl: "clean_list (is_abs p) (path_segs p)" by (rule path_segs_clean)
  have ns: "\<forall>s\<in>set (path_segs p). CHR ''/'' \<notin> set s"
    using clean_list_real[OF cl] by (auto simp: real_seg_def)
  show ?thesis
  proof (cases "path_segs p = []")
    case True
    then show ?thesis
      by (auto simp: path_clean_def path_segs_def Let_def)
  next
    case False
    then have sj: "split_on CHR ''/'' (join_with CHR ''/'' (path_segs p)) = path_segs p"
      using ns by (rule split_join)
    show ?thesis
    proof (cases "is_abs p")
      case True
      with False sj cl show ?thesis
        by (simp add: path_clean_def path_segs_def[of "CHR ''/'' # _"] clean_segs_id)
    next
      case nabs: False
      have "\<not> is_abs (join_with CHR ''/'' (path_segs p))"
        using join_with_no_slash_head[OF False] clean_list_real[OF cl] by blast
      with nabs False sj cl show ?thesis
        by (simp add: path_clean_def path_segs_def[of "join_with _ _"] clean_segs_id)
    qed
  qed
qed

lemma path_clean_idem [simp]: "path_clean (path_clean p) = path_clean p"
  by (simp add: path_clean_def[of "path_clean p"]) (simp add: path_clean_def)

section \<open>Joining a directory and a name\<close>

lemma clean_segs_snoc:
  "real_seg s \<Longrightarrow> s \<noteq> ''..'' \<Longrightarrow> clean_segs r st (xs @ [s]) = clean_segs r st xs @ [s]"
  by (induction r st xs rule: clean_segs.induct)
    (auto simp: real_seg_def split: list.split)

lemma split_on_append_gen:
  "split_on c (p @ c # s) = split_on c p @ split_on c s"
proof (induction p)
  case (Cons x p)
  then show ?case by (cases "split_on c p") auto
qed simp

lemma path_clean_not_Nil [simp]: "path_clean p \<noteq> ''''"
proof -
  have "s \<noteq> ''''" if "s \<in> set (path_segs p)" for s
    using clean_list_real[OF path_segs_clean that] by (simp add: real_seg_def)
  then show ?thesis
    by (cases "path_segs p" rule: list.exhaust; cases "tl (path_segs p)")
      (auto simp: path_clean_def Let_def)
qed

lemma path_segs_join:
  assumes "d \<noteq> ''''" "s \<noteq> ''''"
  shows "path_segs (path_join [d, s]) = clean_segs (is_abs d) [] (split_on CHR ''/'' d @ split_on CHR ''/'' s)"
proof -
  have "is_abs (d @ CHR ''/'' # s) = is_abs d" using assms(1) by (cases d) simp_all
  then show ?thesis
    using assms by (simp add: path_join_def Let_def) (simp add: path_segs_def split_on_append_gen)
qed

lemma path_segs_join_name:
  assumes "d \<noteq> ''''" "real_seg s" "s \<noteq> ''..''"
  shows "path_segs (path_join [d, s]) = path_segs d @ [s]"
proof -
  have "s \<noteq> ''''" "CHR ''/'' \<notin> set s" using assms(2) by (auto simp: real_seg_def)
  then show ?thesis
    using assms by (simp add: path_segs_join split_on_id clean_segs_snoc) (simp add: path_segs_def)
qed

lemma dropWhile_last: "xs \<noteq> [] \<Longrightarrow> \<not> P (last xs) \<Longrightarrow> dropWhile P (rev xs) = rev xs"
  by (cases xs rule: rev_cases) auto

lemma strip_slashes_id: "p \<noteq> '''' \<Longrightarrow> last p \<noteq> CHR ''/'' \<Longrightarrow> strip_slashes p = p"
  by (simp add: strip_slashes_def dropWhile_last)

lemma last_join_with:
  "xs \<noteq> [] \<Longrightarrow> last xs \<noteq> [] \<Longrightarrow> last (join_with c xs) = last (last xs) \<and> join_with c xs \<noteq> []"
  by (induction c xs rule: join_with.induct) auto

text \<open>The base name of a clean absolute path is its last segment.\<close>

lemma path_base_clean:
  assumes "is_abs p" "path_clean p = p" "path_segs p \<noteq> []"
  shows "path_base p = last (path_segs p)"
proof -
  let ?ss = "path_segs p"
  have real: "\<forall>s\<in>set ?ss. real_seg s" using clean_list_real[OF path_segs_clean] by blast
  then have l: "last ?ss \<noteq> []" "CHR ''/'' \<notin> set (last ?ss)"
    using assms(3) by (auto simp: real_seg_def)
  have p: "p = CHR ''/'' # join_with CHR ''/'' ?ss"
    using assms by (simp add: path_clean_def)
  have lj: "last (join_with CHR ''/'' ?ss) = last (last ?ss)" "join_with CHR ''/'' ?ss \<noteq> []"
    using last_join_with[OF assms(3) l(1)] by auto
  then have "last p = last (last ?ss)" by (subst p) simp
  then have "last p \<noteq> CHR ''/''" using l by (metis last_in_set)
  moreover have "p \<noteq> ''''" by (subst p) simp
  ultimately have "path_base p = last (split_on CHR ''/'' p)"
    by (simp add: path_base_def strip_slashes_id)
  also have "\<dots> = last ?ss"
    using real assms(3) by (subst p) (simp add: split_join real_seg_def)
  finally show ?thesis .
qed

text \<open>A path is never the result of joining a directory with a name that extends its own
  base name, which is how temporary files beside a target are called.\<close>

lemma join_extends_base_neq:
  assumes "is_abs t" "CHR ''/'' \<notin> set x" "x \<noteq> ''''" "x \<noteq> ''.''"
  shows "path_join [path_dir t, ''.'' @ path_base t @ CHR ''.'' # x] \<noteq> t"
proof
  let ?s = "''.'' @ path_base t @ CHR ''.'' # x"
  assume j: "path_join [path_dir t, ?s] = t"
  have d: "path_dir t \<noteq> ''''" by (simp add: path_dir_def)
  have clean: "path_clean t = t"
    by (subst j[symmetric]) (simp add: path_join_def Let_def d, subst j[symmetric],
      simp add: path_join_def Let_def d)
  show False
  proof (cases "CHR ''/'' \<in> set (path_base t)")
    case False
    have "length ?s > 2" using assms(3) by (cases x; cases "path_base t") (simp_all add: path_base_def)
    then have "length ?s \<noteq> length ''..''" by simp
    then have "?s \<noteq> ''..''" by metis
    moreover have "real_seg ?s" using assms False by (auto simp: real_seg_def)
    ultimately have "real_seg ?s" "?s \<noteq> ''..''" by blast+
    from path_segs_join_name[OF d this] j have segs: "path_segs t = path_segs (path_dir t) @ [?s]"
      by simp
    then have "path_base t = ?s" using path_base_clean[OF assms(1) clean] by simp
    then have "length (path_base t) = length ?s" by (rule arg_cong)
    then show False by simp
  next
    case True
    then have b: "path_base t = ''/''"
      by (auto simp: path_base_def Let_def split: if_splits dest: split_on_no_sep last_in_set)
        (metis last_in_set split_on_no_sep split_on_not_Nil)
    have x: "real_seg (CHR ''.'' # x)" "CHR ''.'' # x \<noteq> ''..''"
      using assms by (auto simp: real_seg_def)
    have "path_segs t = clean_segs (is_abs (path_dir t)) []
        ((split_on CHR ''/'' (path_dir t) @ [''.'']) @ [CHR ''.'' # x])"
      using path_segs_join[OF d, of ?s] j b assms(2) by (simp add: split_on_id)
    then have "path_segs t \<noteq> []" "last (path_segs t) = CHR ''.'' # x"
      by (simp_all only: clean_segs_snoc[OF x]) simp_all
    with path_base_clean[OF assms(1) clean] b show False by simp
  qed
qed

end
