(* ===== verification/ReleaseTypes.thy ===== *)
theory ReleaseTypes
  imports GoPath
begin

text \<open>
  The release controller's data (\<^verbatim>\<open>internal/releaseactivation/types.go\<close>): the durable
  manifest, the lifecycle states and events, the observations, the commands a decision
  carries, and the failure taxonomy.  A Go string type with named constants is a datatype
  with one constructor per constant and one for every other string, since a decoded
  manifest or a caller may hold any string.
\<close>

section \<open>States, events, service descriptors\<close>

datatype lc_state =
    StateClear | StatePrepared | StatePending | StateAccepting | StateRollingBack
  | StateOther string

datatype lc_event =
    EventPrepare | EventResume | EventDeploymentReady | EventAccept | EventRollback
  | EventOther string

record service_descriptor =
  s_server :: string
  s_label :: string
  s_plist_path :: string
  s_plist_sha :: string
  s_wrapper_path :: string
  s_wrapper_sha :: string
  s_mcp_wrapper_path :: string
  s_mcp_wrapper_sha :: string
  s_stdout_path :: string
  s_stderr_path :: string
  s_environment_path :: string
  s_environment_sha :: string
  s_health_url_file :: string

record service_candidate =
  k_server :: string
  k_label :: string
  k_plist_path :: string
  k_wrapper_path :: string
  k_mcp_wrapper_path :: string
  k_stdout_path :: string
  k_stderr_path :: string
  k_environment_path :: string
  k_health_url_file :: string

definition ManifestVersion :: int where
  "ManifestVersion = 4"

section \<open>The durable transaction record\<close>

record manifest =
  m_version :: int
  m_state :: lc_state
  m_id :: string
  m_commit :: string
  m_dependency_sha :: string
  m_candidate_file :: string
  m_candidate_sha :: string
  m_authority_file :: string
  m_authority_sha :: string
  m_previous_present :: bool
  m_previous_file :: string
  m_previous_sha :: string
  m_target_path :: string
  m_effective_uid :: int
  m_label :: string
  m_plist_path :: string
  m_plist_sha :: string
  m_wrapper_path :: string
  m_wrapper_sha :: string
  m_mcp_wrapper_path :: string
  m_mcp_wrapper_sha :: string
  m_stdout_path :: string
  m_stderr_path :: string
  m_environment_path :: string
  m_environment_sha :: string
  m_health_url_file :: string
  m_ready_timeout_seconds :: int
  m_ready_poll_milliseconds :: int
  m_services :: "service_descriptor list"

text \<open>\<^verbatim>\<open>Snapshot\<close>: its manifest pointer is nil exactly when the slot is clear.\<close>

type_synonym snapshot = "manifest option"

record observed =
  o_candidate_sha :: string
  o_authority_artifact_sha :: string
  o_controller_sha :: string
  o_previous_sha :: string
  o_installed_present :: bool
  o_installed_sha :: string
  o_plist_sha :: string
  o_wrapper_sha :: string
  o_mcp_wrapper_sha :: string
  o_environment_sha :: string
  o_runtime_ready :: bool
  o_supervisor_unloaded :: bool

text \<open>Go's zero \<^verbatim>\<open>Observed{}\<close>.\<close>

definition zero_observed :: observed where
  "zero_observed =
     \<lparr>o_candidate_sha = '''', o_authority_artifact_sha = '''', o_controller_sha = '''',
      o_previous_sha = '''', o_installed_present = False, o_installed_sha = '''',
      o_plist_sha = '''', o_wrapper_sha = '''', o_mcp_wrapper_sha = '''',
      o_environment_sha = '''', o_runtime_ready = False, o_supervisor_unloaded = False\<rparr>"

text \<open>\<^verbatim>\<open>Context\<close>, with the attempt-local \<^verbatim>\<open>rollbackReady\<close> receipt.\<close>

record decide_context =
  c_release_id :: string
  c_prepared :: "manifest option"
  c_observed :: observed
  c_rollback_ready :: bool

definition lc_context :: "string \<Rightarrow> observed \<Rightarrow> decide_context" where
  "lc_context i obs =
     \<lparr>c_release_id = i, c_prepared = None, c_observed = obs, c_rollback_ready = False\<rparr>"

section \<open>Commands and errors\<close>

datatype command_kind =
    CommandPublishPrepared | CommandPersistState | CommandResumeDeployment
  | CommandResumeRollback | CommandClearTransaction

datatype error_code =
    ErrorNoPending | ErrorBusy | ErrorIdentityMismatch | ErrorAuthorityMismatch
  | ErrorInstalledMismatch | ErrorStateMalformed | ErrorArtifactMismatch
  | ErrorRuntimeDrift | ErrorStateConflict | ErrorRecoveryUnconfirmed
  | ErrorHostEffectFailed | ErrorRolledBack | ErrorUpdateFailed

record lc_error =
  e_code :: error_code
  e_message :: string

fun error_message :: "error_code \<Rightarrow> string" where
  "error_message ErrorNoPending = ''no unresolved release exists''"
| "error_message ErrorBusy = ''release state is busy''"
| "error_message ErrorIdentityMismatch = ''release identity does not match''"
| "error_message ErrorAuthorityMismatch = ''release controller identity does not match''"
| "error_message ErrorInstalledMismatch = ''installed target does not match release state''"
| "error_message ErrorStateMalformed = ''release state is malformed''"
| "error_message ErrorArtifactMismatch = ''release artifact does not match''"
| "error_message ErrorRuntimeDrift = ''supervised runtime configuration changed''"
| "error_message ErrorStateConflict = ''event conflicts with release state''"
| "error_message ErrorRecoveryUnconfirmed = ''recovery could not be confirmed''"
| "error_message ErrorHostEffectFailed = ''a host effect failed''"
| "error_message ErrorRolledBack = ''candidate failed; previous runtime restored''"
| "error_message ErrorUpdateFailed = ''update precondition or fast-forward check failed''"

definition lifecycle_error :: "error_code \<Rightarrow> lc_error" where
  "lifecycle_error c = \<lparr>e_code = c, e_message = error_message c\<rparr>"

lemma lifecycle_error_inject [simp]:
  "lifecycle_error a = lifecycle_error b \<longleftrightarrow> a = b"
  "e_code (lifecycle_error a) = a"
  "e_message (lifecycle_error a) = error_message a"
  by (auto simp: lifecycle_error_def)

record decision =
  d_current :: snapshot
  d_next :: snapshot
  d_commands :: "command_kind list"
  d_applied :: bool
  d_err :: "lc_error option"

text \<open>
  The Go errors that circulate in the package.  Wrapping with \<^verbatim>\<open>%w\<close> does not change
  what \<^verbatim>\<open>errors.Is\<close> and \<^verbatim>\<open>errors.As\<close> find, so a wrapped sentinel is the sentinel; a
  \<open>RuntimeErr\<close> keeps the cause it unwraps to, and \<open>Joined\<close> is \<^verbatim>\<open>errors.Join\<close>.
\<close>

datatype sentinel = ErrBusy | ErrStateConflict | ErrStateMalformed | ErrArtifactMismatch
  | ErrUpdateCheckFailed

datatype topology_kind =
    SourceNotAbsolute | SourceInsideStore | SourceAlias | ActiveArtifact
  | RuntimeNotAbsolute | RuntimeInsideStore | RuntimeAlias | PreviousTarget

datatype go_err =
    Lifecycle lc_error
  | RolledBack string
  | RuntimeErr string go_err
  | Topology topology_kind string string
  | Sentinel sentinel
  | ExitStatus int
  | DeadlineExceeded
  | Canceled
  | Joined "go_err list"
  | OtherErr string

abbreviation lc_err :: "error_code \<Rightarrow> go_err" where
  "lc_err c \<equiv> Lifecycle (lifecycle_error c)"

end
