(* ===== verification/ReleasePaths.thy ===== *)
theory ReleasePaths
  imports ReleaseTypes
begin

text \<open>
  Path validation of the release controller
  (\<^verbatim>\<open>internal/releaseactivation/path_validation.go\<close>): launchd labels, the topology of the
  immutable sources, the operational roles of a manifest, and the alias rules between them.
  The operating system is a parameter: \<^verbatim>\<open>filepath.EvalSymlinks\<close> and \<^verbatim>\<open>os.Stat\<close> answer
  through \<open>os_view\<close>.
\<close>

section \<open>Launch agent labels\<close>

definition ascii_alphanumeric :: "char \<Rightarrow> bool" where
  "ascii_alphanumeric b \<longleftrightarrow>
     (let k = of_char b :: nat in
      97 \<le> k \<and> k \<le> 122 \<or> 65 \<le> k \<and> k \<le> 90 \<or> 48 \<le> k \<and> k \<le> 57)"

definition valid_label_segment :: "string \<Rightarrow> bool" where
  "valid_label_segment seg \<longleftrightarrow>
     seg \<noteq> '''' \<and> ascii_alphanumeric (hd seg) \<and> ascii_alphanumeric (last seg) \<and>
     list_all (\<lambda>c. ascii_alphanumeric c \<or> c = CHR ''-'' \<or> c = CHR ''_'') (butlast (tl seg))"

definition ValidLaunchAgentLabel :: "string \<Rightarrow> bool" where
  "ValidLaunchAgentLabel label \<longleftrightarrow>
     \<not> (length label = 0 \<or> length label > 255 \<or> label = ''.'' \<or> label = ''..'' \<or>
        path_base label \<noteq> label) \<and>
     list_all valid_label_segment (split_on CHR ''.'' label)"

section \<open>The operating system's view of a path\<close>

text \<open>
  What \<^verbatim>\<open>EvalSymlinks\<close> and \<^verbatim>\<open>Stat\<close> report: success, \<^verbatim>\<open>os.ErrNotExist\<close>, or another
  failure.  A stat result is the file's identity (device and inode), which is what
  \<^verbatim>\<open>os.SameFile\<close> compares.
\<close>

datatype 'a os_result = OsOk 'a | OsNotExist | OsFail string

record os_view =
  os_eval_symlinks :: "string \<Rightarrow> string os_result"
  os_stat :: "string \<Rightarrow> (nat \<times> nat) os_result"

text \<open>
  \<^verbatim>\<open>canonicalizeAllowMissing\<close>: evaluate the deepest existing ancestor and re-attach the
  missing components.  The loop climbs one segment per round, so the number of segments
  bounds it; the fuel is one more than that.
\<close>

fun canonicalize_loop :: "os_view \<Rightarrow> nat \<Rightarrow> string \<Rightarrow> string list \<Rightarrow> go_err + string" where
  "canonicalize_loop os 0 current missing = Inl (OtherErr ''loop bound'')"
| "canonicalize_loop os (Suc fuel) current missing =
     (case os_eval_symlinks os current of
        OsOk resolved \<Rightarrow> Inr (path_clean (foldl (\<lambda>r m. path_join [r, m]) resolved missing))
      | OsFail e \<Rightarrow> Inl (OtherErr e)
      | OsNotExist \<Rightarrow>
          (let parent = path_dir current in
           if parent = current then Inl (OtherErr ''not exist'')
           else canonicalize_loop os fuel parent (path_base current # missing)))"

definition canonicalize_allow_missing :: "os_view \<Rightarrow> string \<Rightarrow> go_err + string" where
  "canonicalize_allow_missing os path0 =
     (let p = path_clean path0 in
      if \<not> is_abs p then Inl (OtherErr ''path is not absolute'')
      else canonicalize_loop os (length (path_segs p) + 1) p [])"

definition path_within :: "string \<Rightarrow> string \<Rightarrow> bool" where
  "path_within root p =
     (case path_rel root p of
        None \<Rightarrow> False
      | Some rel \<Rightarrow> rel \<noteq> ''..'' \<and> \<not> prefix ''../'' rel)"

section \<open>Operational roles\<close>

type_synonym role_path = "string \<times> string"

definition base_roles :: "manifest \<Rightarrow> role_path list" where
  "base_roles m =
     [(''target'', m_target_path m), (''plist'', m_plist_path m),
      (''wrapper'', m_wrapper_path m), (''mcp_wrapper'', m_mcp_wrapper_path m),
      (''environment'', m_environment_path m), (''health_url'', m_health_url_file m),
      (''stdout'', m_stdout_path m), (''stderr'', m_stderr_path m)]"

definition service_roles :: "service_descriptor \<Rightarrow> role_path list" where
  "service_roles s =
     (if s_server s = ''obsidian'' then []
      else (if s_mcp_wrapper_path s \<noteq> ''''
            then [(''service_'' @ s_server s @ ''_mcp_wrapper'', s_mcp_wrapper_path s)] else []) @
        [(''service_'' @ s_server s @ ''_plist'', s_plist_path s),
         (''service_'' @ s_server s @ ''_wrapper'', s_wrapper_path s),
         (''service_'' @ s_server s @ ''_environment'', s_environment_path s),
         (''service_'' @ s_server s @ ''_health'', s_health_url_file s),
         (''service_'' @ s_server s @ ''_stdout'', s_stdout_path s),
         (''service_'' @ s_server s @ ''_stderr'', s_stderr_path s)])"

definition operational_roles :: "manifest \<Rightarrow> role_path list" where
  "operational_roles m = base_roles m @ concat (map service_roles (m_services m))"

definition service_env_sharing :: "(string \<times> string) list" where
  "service_env_sharing = [(''obsidian-http'', ''obsidian''), (''ynab-http'', ''ynab'')]"

definition environment_role :: "string \<Rightarrow> string" where
  "environment_role server =
     (if server = ''obsidian'' then ''environment''
      else ''service_'' @ server @ ''_environment'')"

definition environment_alias_allowed :: "string \<Rightarrow> string \<Rightarrow> bool" where
  "environment_alias_allowed a b \<longleftrightarrow>
     list_ex (\<lambda>(server, shares).
        (a = environment_role server \<and> b = environment_role shares) \<or>
        (a = environment_role shares \<and> b = environment_role server)) service_env_sharing"

section \<open>Topology checks\<close>

record resolved_path =
  r_role :: string
  r_canonical :: string
  r_info :: "(nat \<times> nat) option"

text \<open>\<^verbatim>\<open>samePathIdentity\<close>: equal canonical names, or the same inode where both exist.\<close>

definition same_identity :: "resolved_path \<Rightarrow> resolved_path \<Rightarrow> bool" where
  "same_identity x y \<longleftrightarrow>
     r_canonical x = r_canonical y \<or>
     (case (r_info x, r_info y) of (Some i, Some j) \<Rightarrow> i = j | _ \<Rightarrow> False)"

text \<open>The path's canonical name and identity; a missing file has no identity.\<close>

definition resolve_path :: "os_view \<Rightarrow> string \<Rightarrow> string \<Rightarrow> go_err + resolved_path" where
  "resolve_path os role p =
     (case canonicalize_allow_missing os p of
        Inl e \<Rightarrow> Inl e
      | Inr c \<Rightarrow>
          (case os_stat os p of
             OsOk i \<Rightarrow> Inr \<lparr>r_role = role, r_canonical = c, r_info = Some i\<rparr>
           | OsNotExist \<Rightarrow> Inr \<lparr>r_role = role, r_canonical = c, r_info = None\<rparr>
           | OsFail e \<Rightarrow> Inl (OtherErr e)))"

record artifact_sources =
  src_candidate :: string
  src_authority :: string
  src_previous :: string

text \<open>
  \<^verbatim>\<open>ValidateSourceTopology\<close> walks candidate, authority and (when selected) previous in
  order.  Each must be absolute, outside the store, present, and distinct from those
  before it; \<open>seen\<close> holds the ones already accepted.
\<close>

fun source_loop ::
  "os_view \<Rightarrow> string \<Rightarrow> resolved_path list \<Rightarrow> role_path list \<Rightarrow> go_err option" where
  "source_loop os root seen [] = None"
| "source_loop os root seen ((role, p) # rest) =
     (if \<not> is_abs p then Some (Topology SourceNotAbsolute role '''')
      else case canonicalize_allow_missing os p of
        Inl e \<Rightarrow> Some e
      | Inr c \<Rightarrow>
          if path_within root c then Some (Topology SourceInsideStore role '''')
          else (case os_stat os p of
             OsNotExist \<Rightarrow> Some (OtherErr ''stat source'')
           | OsFail e \<Rightarrow> Some (OtherErr e)
           | OsOk i \<Rightarrow>
               (let x = \<lparr>r_role = role, r_canonical = c, r_info = Some i\<rparr> in
                case find (\<lambda>y. same_identity x y) seen of
                  Some y \<Rightarrow> Some (Topology SourceAlias role (r_role y))
                | None \<Rightarrow> source_loop os root (seen @ [x]) rest)))"

definition selected_sources :: "artifact_sources \<Rightarrow> role_path list" where
  "selected_sources src =
     [(''candidate'', src_candidate src), (''authority'', src_authority src)] @
     (if src_previous src \<noteq> '''' then [(''previous'', src_previous src)] else [])"

definition ValidateSourceTopology ::
  "os_view \<Rightarrow> string option \<Rightarrow> artifact_sources \<Rightarrow> go_err option" where
  "ValidateSourceTopology os store src =
     (case store of
        None \<Rightarrow> Some (Topology SourceInsideStore ''store'' '''')
      | Some root \<Rightarrow>
          (case canonicalize_allow_missing os root of
             Inl e \<Rightarrow> Some e
           | Inr croot \<Rightarrow> source_loop os croot [] (selected_sources src)))"

text \<open>\<^verbatim>\<open>validateRuntimeTopology\<close>: the same walk over the operational roles, where a role
  may be missing and the environment files of paired services may coincide.\<close>

fun runtime_loop ::
  "os_view \<Rightarrow> string \<Rightarrow> resolved_path list \<Rightarrow> role_path list \<Rightarrow> go_err option" where
  "runtime_loop os root seen [] = None"
| "runtime_loop os root seen ((role, p) # rest) =
     (if \<not> is_abs p then Some (Topology RuntimeNotAbsolute role '''')
      else case canonicalize_allow_missing os p of
        Inl e \<Rightarrow> Some e
      | Inr c \<Rightarrow>
          if path_within root c then Some (Topology RuntimeInsideStore role '''')
          else (case resolve_path os role p of
             Inl e \<Rightarrow> Some e
           | Inr x \<Rightarrow>
               (case find (\<lambda>y. same_identity x y \<and> \<not> environment_alias_allowed role (r_role y)) seen of
                  Some y \<Rightarrow> Some (Topology RuntimeAlias role (r_role y))
                | None \<Rightarrow> runtime_loop os root (seen @ [x]) rest)))"

definition validate_runtime_topology :: "os_view \<Rightarrow> string \<Rightarrow> manifest \<Rightarrow> go_err option" where
  "validate_runtime_topology os root m =
     (case canonicalize_allow_missing os root of
        Inl e \<Rightarrow> Some e
      | Inr croot \<Rightarrow> runtime_loop os croot [] (operational_roles m))"

text \<open>
  \<^verbatim>\<open>ValidatePrepareTopology\<close>: sources valid, runtime roles valid, previous and target the
  same file, and neither candidate nor authority aliasing any operational role.
\<close>

fun prepare_loop :: "os_view \<Rightarrow> resolved_path list \<Rightarrow> role_path list \<Rightarrow> go_err option" where
  "prepare_loop os selected [] = None"
| "prepare_loop os selected ((role, p) # rest) =
     (case resolve_path os role p of
        Inl e \<Rightarrow> Some e
      | Inr x \<Rightarrow>
          (case find (\<lambda>y. same_identity y x) selected of
             Some y \<Rightarrow> Some (Topology RuntimeAlias role (r_role y))
           | None \<Rightarrow> prepare_loop os selected rest))"

definition previous_is_target ::
  "os_view \<Rightarrow> artifact_sources \<Rightarrow> manifest \<Rightarrow> go_err option" where
  "previous_is_target os src m =
     (if src_previous src = '''' then None
      else case resolve_path os ''previous'' (src_previous src) of
        Inl e \<Rightarrow> Some e
      | Inr prv \<Rightarrow>
          (case resolve_path os ''target'' (m_target_path m) of
             Inl e \<Rightarrow> Some e
           | Inr tgt \<Rightarrow>
               if same_identity prv tgt then None
               else Some (Topology PreviousTarget ''previous'' ''target'')))"

definition ValidatePrepareTopology ::
  "os_view \<Rightarrow> string option \<Rightarrow> artifact_sources \<Rightarrow> manifest option \<Rightarrow> go_err option" where
  "ValidatePrepareTopology os store src man =
     (case ValidateSourceTopology os store src of
        Some e \<Rightarrow> Some e
      | None \<Rightarrow>
          (case (store, man) of
             (Some root, Some m) \<Rightarrow>
               (case validate_runtime_topology os root m of
                  Some e \<Rightarrow> Some e
                | None \<Rightarrow>
                    (case resolve_path os ''candidate'' (src_candidate src) of
                       Inl e \<Rightarrow> Some e
                     | Inr cand \<Rightarrow>
                         (case resolve_path os ''authority'' (src_authority src) of
                            Inl e \<Rightarrow> Some e
                          | Inr auth \<Rightarrow>
                              (case previous_is_target os src m of
                                 Some e \<Rightarrow> Some e
                               | None \<Rightarrow> prepare_loop os [cand, auth] (operational_roles m)))))
           | _ \<Rightarrow> Some (Topology RuntimeAlias ''manifest'' '''')))"

text \<open>\<^verbatim>\<open>ValidateActiveTopology\<close>: the artifact names are the fixed direct children of
  \<^verbatim>\<open>active/\<close>, and the runtime roles are valid.\<close>

definition active_artifacts :: "manifest \<Rightarrow> (string \<times> string \<times> string) list" where
  "active_artifacts m =
     [(''candidate'', m_candidate_file m, ''candidate''),
      (''authority'', m_authority_file m, ''authority'')] @
     (if m_previous_present m then [(''previous'', m_previous_file m, ''previous'')] else [])"

fun active_loop ::
  "os_view \<Rightarrow> string \<Rightarrow> string \<Rightarrow> (string \<times> string \<times> string) list \<Rightarrow> go_err option" where
  "active_loop os root cactive [] = None"
| "active_loop os root cactive ((role, name, want) # rest) =
     (if name \<noteq> want \<or> path_base name \<noteq> name then Some (Topology ActiveArtifact role '''')
      else case canonicalize_allow_missing os (path_join [root, ''active'', name]) of
        Inl e \<Rightarrow> Some e
      | Inr c \<Rightarrow>
          if c \<noteq> path_join [cactive, want] then Some (Topology ActiveArtifact role '''')
          else active_loop os root cactive rest)"

definition ValidateActiveTopology ::
  "os_view \<Rightarrow> string option \<Rightarrow> manifest option \<Rightarrow> go_err option" where
  "ValidateActiveTopology os store man =
     (case (store, man) of
        (Some root, Some m) \<Rightarrow>
          (case canonicalize_allow_missing os (path_join [root, ''active'']) of
             Inl e \<Rightarrow> Some e
           | Inr cactive \<Rightarrow>
               (case active_loop os root cactive (active_artifacts m) of
                  Some e \<Rightarrow> Some e
                | None \<Rightarrow> validate_runtime_topology os root m))
      | _ \<Rightarrow> Some (Topology ActiveArtifact ''manifest'' ''''))"

end
