(* ===== verification/ReleaseModel.thy ===== *)
theory ReleaseModel
  imports ReleasePaths
begin

text \<open>
  The pure lifecycle model of the release controller
  (\<^verbatim>\<open>internal/releaseactivation/model.go\<close>): the validation of a snapshot and the
  decision function from one state, one event and one set of observations to the next
  snapshot and the commands the manager must carry out.
\<close>

section \<open>Validation\<close>

definition valid_sha256 :: "string \<Rightarrow> bool" where
  "valid_sha256 v \<longleftrightarrow>
     (if length v \<noteq> 64 then False
      else case hex_decode v of None \<Rightarrow> False | Some bs \<Rightarrow> hex_encode bs = v)"

definition valid_release_id :: "string \<Rightarrow> bool" where
  "valid_release_id i \<longleftrightarrow> valid_sha256 i"

definition valid_commit :: "string \<Rightarrow> bool" where
  "valid_commit v \<longleftrightarrow>
     (if length v \<noteq> 40 \<and> length v \<noteq> 64 then False
      else case hex_decode v of None \<Rightarrow> False | Some bs \<Rightarrow> hex_encode bs = v)"

definition absolute_paths :: "string list \<Rightarrow> bool" where
  "absolute_paths ps \<longleftrightarrow> list_all is_abs ps"

definition valid_manifest_version :: "int \<Rightarrow> bool" where
  "valid_manifest_version v \<longleftrightarrow> v = 2 \<or> v = 3 \<or> v = ManifestVersion"

fun is_active_state :: "lc_state \<Rightarrow> bool" where
  "is_active_state StatePrepared = True"
| "is_active_state StatePending = True"
| "is_active_state StateAccepting = True"
| "is_active_state StateRollingBack = True"
| "is_active_state _ = False"

fun valid_event :: "lc_event \<Rightarrow> bool" where
  "valid_event (EventOther _) = False"
| "valid_event _ = True"

fun event_allowed :: "lc_state \<Rightarrow> lc_event \<Rightarrow> bool" where
  "event_allowed StatePrepared e = (e = EventResume \<or> e = EventDeploymentReady \<or> e = EventRollback)"
| "event_allowed StatePending e = (e = EventAccept \<or> e = EventRollback)"
| "event_allowed StateAccepting e = (e = EventAccept)"
| "event_allowed StateRollingBack e = (e = EventRollback)"
| "event_allowed _ e = False"

definition canonical_service_order :: "string list" where
  "canonical_service_order = [''obsidian'', ''ynab'', ''obsidian-http'', ''ynab-http'']"

fun index_of :: "string \<Rightarrow> int \<Rightarrow> string list \<Rightarrow> int" where
  "index_of s i [] = -1"
| "index_of s i (x # xs) = (if x = s then i else index_of s (i + 1) xs)"

definition canonical_service_index :: "string \<Rightarrow> int" where
  "canonical_service_index server = index_of server 0 canonical_service_order"

fun service_order_loop :: "int \<Rightarrow> int \<Rightarrow> service_descriptor list \<Rightarrow> bool" where
  "service_order_loop max_index cursor [] = True"
| "service_order_loop max_index cursor (s # ss) =
     (let index = canonical_service_index (s_server s) in
      if index < 0 \<or> index > max_index \<or> index \<le> cursor then False
      else service_order_loop max_index index ss)"

definition valid_service_order :: "service_descriptor list \<Rightarrow> int \<Rightarrow> bool" where
  "valid_service_order services max_index \<longleftrightarrow>
     (if services = [] \<or> s_server (hd services) \<noteq> hd canonical_service_order then False
      else service_order_loop max_index (-1) services)"

definition valid_tunnel_service_descriptor :: "service_descriptor \<Rightarrow> bool" where
  "valid_tunnel_service_descriptor s \<longleftrightarrow>
     ValidLaunchAgentLabel (s_label s) \<and>
     absolute_paths [s_plist_path s, s_wrapper_path s, s_mcp_wrapper_path s, s_stdout_path s,
       s_stderr_path s, s_environment_path s, s_health_url_file s] \<and>
     valid_sha256 (s_plist_sha s) \<and> valid_sha256 (s_wrapper_sha s) \<and>
     valid_sha256 (s_mcp_wrapper_sha s) \<and> valid_sha256 (s_environment_sha s)"

definition valid_http_service_descriptor :: "service_descriptor \<Rightarrow> bool" where
  "valid_http_service_descriptor s \<longleftrightarrow>
     ValidLaunchAgentLabel (s_label s) \<and>
     absolute_paths [s_plist_path s, s_wrapper_path s, s_stdout_path s, s_stderr_path s,
       s_environment_path s, s_health_url_file s] \<and>
     s_mcp_wrapper_path s = '''' \<and> s_mcp_wrapper_sha s = '''' \<and>
     valid_sha256 (s_plist_sha s) \<and> valid_sha256 (s_wrapper_sha s) \<and>
     valid_sha256 (s_environment_sha s)"

definition valid_service_descriptor :: "service_descriptor \<Rightarrow> bool" where
  "valid_service_descriptor s \<longleftrightarrow>
     (if s_server s = ''obsidian'' \<or> s_server s = ''ynab'' then valid_tunnel_service_descriptor s
      else if s_server s = ''obsidian-http'' \<or> s_server s = ''ynab-http''
      then valid_http_service_descriptor s
      else False)"

definition valid_core :: "manifest \<Rightarrow> bool" where
  "valid_core m \<longleftrightarrow>
     valid_manifest_version (m_version m) \<and> is_active_state (m_state m) \<and>
     valid_release_id (m_id m) \<and> valid_commit (m_commit m) \<and> valid_sha256 (m_dependency_sha m) \<and>
     m_candidate_file m \<noteq> '''' \<and> valid_sha256 (m_candidate_sha m) \<and>
     m_authority_file m \<noteq> '''' \<and> valid_sha256 (m_authority_sha m) \<and>
     absolute_paths [m_target_path m, m_plist_path m, m_wrapper_path m, m_mcp_wrapper_path m,
       m_stdout_path m, m_stderr_path m, m_environment_path m, m_health_url_file m] \<and>
     m_effective_uid m \<ge> 0 \<and> ValidLaunchAgentLabel (m_label m) \<and>
     valid_sha256 (m_plist_sha m) \<and> valid_sha256 (m_wrapper_sha m) \<and>
     valid_sha256 (m_mcp_wrapper_sha m) \<and> valid_sha256 (m_environment_sha m) \<and>
     0 < m_ready_timeout_seconds m \<and> m_ready_timeout_seconds m \<le> 600 \<and>
     0 < m_ready_poll_milliseconds m \<and> m_ready_poll_milliseconds m \<le> 30000"

definition valid_services :: "manifest \<Rightarrow> bool" where
  "valid_services m \<longleftrightarrow>
     (if m_services m = [] then True
      else let max_index =
             (if m_version m = ManifestVersion then int (length canonical_service_order) - 1
              else if m_version m = 3 then 1 else -1) in
        \<not> (max_index < 0 \<or> \<not> valid_service_order (m_services m) max_index) \<and>
        list_all valid_service_descriptor (m_services m))"

definition valid_previous :: "manifest \<Rightarrow> bool" where
  "valid_previous m \<longleftrightarrow>
     (if m_previous_present m then m_previous_file m \<noteq> '''' \<and> valid_sha256 (m_previous_sha m)
      else m_previous_file m = '''' \<and> m_previous_sha m = '''')"

definition ValidateSnapshot :: "snapshot \<Rightarrow> lc_error option" where
  "ValidateSnapshot snap =
     (case snap of
        None \<Rightarrow> None
      | Some m \<Rightarrow>
          if \<not> valid_core m then Some (lifecycle_error ErrorStateMalformed)
          else if \<not> valid_services m then Some (lifecycle_error ErrorStateMalformed)
          else if \<not> valid_previous m then Some (lifecycle_error ErrorStateMalformed)
          else None)"

section \<open>Observations\<close>

definition target_allowed :: "manifest \<Rightarrow> observed \<Rightarrow> bool" where
  "target_allowed m obs \<longleftrightarrow>
     (if \<not> o_installed_present obs then \<not> m_previous_present m
      else if o_installed_sha obs = m_candidate_sha m then True
      else m_previous_present m \<and> o_installed_sha obs = m_previous_sha m)"

definition recovery_confirmed :: "manifest \<Rightarrow> observed \<Rightarrow> bool \<Rightarrow> bool" where
  "recovery_confirmed m obs rollback_ready \<longleftrightarrow>
     (if m_previous_present m
      then rollback_ready \<and> o_installed_present obs \<and> o_installed_sha obs = m_previous_sha m \<and>
           o_runtime_ready obs
      else \<not> o_installed_present obs \<and> o_supervisor_unloaded obs)"

definition validate_active_observations :: "manifest \<Rightarrow> observed \<Rightarrow> lc_error option" where
  "validate_active_observations m obs =
     (if o_controller_sha obs \<noteq> m_authority_sha m
      then Some (lifecycle_error ErrorAuthorityMismatch)
      else if o_authority_artifact_sha obs \<noteq> m_authority_sha m \<or>
              o_candidate_sha obs \<noteq> m_candidate_sha m \<or>
              m_previous_present m \<and> o_previous_sha obs \<noteq> m_previous_sha m
      then Some (lifecycle_error ErrorArtifactMismatch)
      else None)"

definition validate_runtime :: "manifest \<Rightarrow> observed \<Rightarrow> lc_error option" where
  "validate_runtime m obs =
     (if o_plist_sha obs \<noteq> m_plist_sha m \<or> o_wrapper_sha obs \<noteq> m_wrapper_sha m \<or>
         o_mcp_wrapper_sha obs \<noteq> m_mcp_wrapper_sha m \<or>
         o_environment_sha obs \<noteq> m_environment_sha m
      then Some (lifecycle_error ErrorRuntimeDrift) else None)"

definition validate_acceptance_readiness :: "manifest \<Rightarrow> observed \<Rightarrow> lc_error option" where
  "validate_acceptance_readiness m obs =
     (case validate_runtime m obs of
        Some e \<Rightarrow> Some e
      | None \<Rightarrow>
          if \<not> o_installed_present obs \<or> o_installed_sha obs \<noteq> m_candidate_sha m
          then Some (lifecycle_error ErrorInstalledMismatch)
          else if o_supervisor_unloaded obs \<or> \<not> o_runtime_ready obs
          then Some (lifecycle_error ErrorRecoveryUnconfirmed)
          else None)"

definition validate_prepare_observations :: "manifest \<Rightarrow> observed \<Rightarrow> lc_error option" where
  "validate_prepare_observations m obs =
     (case validate_active_observations m obs of
        Some e \<Rightarrow> Some e
      | None \<Rightarrow>
          if m_previous_present m then
            (if \<not> o_installed_present obs \<or> o_installed_sha obs \<noteq> m_previous_sha m
             then Some (lifecycle_error ErrorInstalledMismatch)
             else validate_runtime m obs)
          else if o_installed_present obs
          then Some (lifecycle_error ErrorInstalledMismatch)
          else validate_runtime m obs)"

section \<open>Decisions\<close>

definition rejected :: "decision \<Rightarrow> lc_error \<Rightarrow> decision" where
  "rejected d e =
     d\<lparr>d_next := d_current d, d_commands := [], d_applied := False, d_err := Some e\<rparr>"

definition applied :: "decision \<Rightarrow> snapshot \<Rightarrow> command_kind \<Rightarrow> decision" where
  "applied d nxt c = d\<lparr>d_next := nxt, d_commands := [c], d_applied := True\<rparr>"

definition transition_to :: "decision \<Rightarrow> manifest \<Rightarrow> lc_state \<Rightarrow> command_kind \<Rightarrow> decision" where
  "transition_to d m st c = applied d (Some (m\<lparr>m_state := st\<rparr>)) c"

definition decide_prepare :: "decision \<Rightarrow> decide_context \<Rightarrow> decision" where
  "decide_prepare d c =
     (case c_prepared c of
        None \<Rightarrow> rejected d (lifecycle_error ErrorStateMalformed)
      | Some m \<Rightarrow>
          if m_state m \<noteq> StatePrepared \<or> c_release_id c \<noteq> '''' \<and> c_release_id c \<noteq> m_id m
          then rejected d (lifecycle_error ErrorIdentityMismatch)
          else (case ValidateSnapshot (Some m) of
             Some e \<Rightarrow> rejected d e
           | None \<Rightarrow>
               (case validate_prepare_observations m (c_observed c) of
                  Some e \<Rightarrow> rejected d e
                | None \<Rightarrow> applied d (Some m) CommandPublishPrepared)))"

definition decide_prepared ::
  "decision \<Rightarrow> lc_event \<Rightarrow> manifest \<Rightarrow> observed \<Rightarrow> decision" where
  "decide_prepared d ev m obs =
     (case ev of
        EventResume \<Rightarrow>
          (case validate_runtime m obs of
             Some e \<Rightarrow> rejected d e
           | None \<Rightarrow>
               if \<not> target_allowed m obs then rejected d (lifecycle_error ErrorInstalledMismatch)
               else d\<lparr>d_commands := [CommandResumeDeployment], d_applied := True\<rparr>)
      | EventDeploymentReady \<Rightarrow>
          (case validate_runtime m obs of
             Some e \<Rightarrow> rejected d e
           | None \<Rightarrow>
               if \<not> o_installed_present obs \<or> o_installed_sha obs \<noteq> m_candidate_sha m
               then rejected d (lifecycle_error ErrorInstalledMismatch)
               else if \<not> o_runtime_ready obs
               then rejected d (lifecycle_error ErrorRecoveryUnconfirmed)
               else transition_to d m StatePending CommandPersistState)
      | EventRollback \<Rightarrow>
          (case validate_runtime m obs of
             Some e \<Rightarrow> rejected d e
           | None \<Rightarrow>
               if \<not> target_allowed m obs then rejected d (lifecycle_error ErrorInstalledMismatch)
               else transition_to d m StateRollingBack CommandPersistState)
      | _ \<Rightarrow> rejected d (lifecycle_error ErrorStateConflict))"

definition decide_pending ::
  "decision \<Rightarrow> lc_event \<Rightarrow> manifest \<Rightarrow> observed \<Rightarrow> decision" where
  "decide_pending d ev m obs =
     (if \<not> o_installed_present obs \<or> o_installed_sha obs \<noteq> m_candidate_sha m
      then rejected d (lifecycle_error ErrorInstalledMismatch)
      else case ev of
        EventAccept \<Rightarrow>
          (case validate_acceptance_readiness m obs of
             Some e \<Rightarrow> rejected d e
           | None \<Rightarrow> transition_to d m StateAccepting CommandPersistState)
      | EventRollback \<Rightarrow>
          (case validate_runtime m obs of
             Some e \<Rightarrow> rejected d e
           | None \<Rightarrow> transition_to d m StateRollingBack CommandPersistState)
      | _ \<Rightarrow> rejected d (lifecycle_error ErrorStateConflict))"

definition decide_accepting :: "decision \<Rightarrow> manifest \<Rightarrow> observed \<Rightarrow> decision" where
  "decide_accepting d m obs =
     (case validate_acceptance_readiness m obs of
        Some e \<Rightarrow> rejected d e
      | None \<Rightarrow> applied d None CommandClearTransaction)"

definition decide_rolling_back :: "decision \<Rightarrow> manifest \<Rightarrow> observed \<Rightarrow> bool \<Rightarrow> decision" where
  "decide_rolling_back d m obs rollback_ready =
     (case validate_runtime m obs of
        Some e \<Rightarrow> rejected d e
      | None \<Rightarrow>
          if \<not> target_allowed m obs then rejected d (lifecycle_error ErrorInstalledMismatch)
          else if recovery_confirmed m obs rollback_ready
          then applied d None CommandClearTransaction
          else d\<lparr>d_commands := [CommandResumeRollback], d_applied := True\<rparr>)"

definition Decide :: "snapshot \<Rightarrow> lc_event \<Rightarrow> decide_context \<Rightarrow> decision" where
  "Decide snap ev c =
     (let d = \<lparr>d_current = snap, d_next = snap, d_commands = [], d_applied = False, d_err = None\<rparr> in
      case ValidateSnapshot snap of
        Some e \<Rightarrow> rejected d e
      | None \<Rightarrow>
          if \<not> valid_event ev then rejected d (lifecycle_error ErrorStateConflict)
          else (case snap of
             None \<Rightarrow>
               if ev \<noteq> EventPrepare then rejected d (lifecycle_error ErrorNoPending)
               else decide_prepare d c
           | Some m \<Rightarrow>
               if ev = EventPrepare then rejected d (lifecycle_error ErrorStateConflict)
               else if c_release_id c \<noteq> m_id m
               then rejected d (lifecycle_error ErrorIdentityMismatch)
               else if \<not> event_allowed (m_state m) ev
               then rejected d (lifecycle_error ErrorStateConflict)
               else (case validate_active_observations m (c_observed c) of
                  Some e \<Rightarrow> rejected d e
                | None \<Rightarrow>
                    (case m_state m of
                       StatePrepared \<Rightarrow> decide_prepared d ev m (c_observed c)
                     | StatePending \<Rightarrow> decide_pending d ev m (c_observed c)
                     | StateAccepting \<Rightarrow> decide_accepting d m (c_observed c)
                     | StateRollingBack \<Rightarrow>
                         decide_rolling_back d m (c_observed c) (c_rollback_ready c)
                     | _ \<Rightarrow> rejected d (lifecycle_error ErrorStateMalformed)))))"

section \<open>Facts about validation\<close>

lemmas check_defs [release_defs] =
  validate_active_observations_def validate_runtime_def validate_acceptance_readiness_def
  validate_prepare_observations_def

lemmas decide_defs [release_defs] =
  decide_prepare_def decide_prepared_def decide_pending_def decide_accepting_def
  decide_rolling_back_def rejected_def applied_def transition_to_def

lemma valid_sha256_iff: "valid_sha256 v \<longleftrightarrow> length v = 64 \<and> list_all lower_hex v"
  using hex_canonical_iff[of v] by (auto simp: valid_sha256_def split: option.splits)

lemma valid_commit_iff:
  "valid_commit v \<longleftrightarrow> (length v = 40 \<or> length v = 64) \<and> list_all lower_hex v"
  using hex_canonical_iff[of v] by (auto simp: valid_commit_def split: option.splits)

text \<open>Validation looks at the state field only to see that it is an active one.\<close>

lemma ValidateSnapshot_Some:
  "ValidateSnapshot (Some m) = None \<longleftrightarrow> valid_core m \<and> valid_services m \<and> valid_previous m"
  by (simp add: ValidateSnapshot_def)

lemma ValidateSnapshot_clear [simp]: "ValidateSnapshot None = None"
  by (simp add: ValidateSnapshot_def)

lemma valid_parts_set_state [simp]:
  "valid_services (m\<lparr>m_state := st\<rparr>) = valid_services m"
  "valid_previous (m\<lparr>m_state := st\<rparr>) = valid_previous m"
  by (simp_all add: valid_services_def valid_previous_def)

lemma ValidateSnapshot_set_state:
  "ValidateSnapshot (Some m) = None \<Longrightarrow> is_active_state st \<Longrightarrow>
   ValidateSnapshot (Some (m\<lparr>m_state := st\<rparr>)) = None"
  by (simp add: ValidateSnapshot_Some valid_core_def)

lemma ValidateSnapshot_active: "ValidateSnapshot (Some m) = None \<Longrightarrow> is_active_state (m_state m)"
  by (simp add: ValidateSnapshot_Some valid_core_def)

text \<open>
  The order loop over the fixed service table: what is accepted is exactly a subsequence
  of the table's first \<open>max_index + 1\<close> names.
\<close>

lemma index_of_range: "index_of s i xs = -1 \<or> i \<le> index_of s i xs" if "0 \<le> i"
  using that by (induction s i xs rule: index_of.induct) auto

lemma subseq_drop_index:
  assumes "distinct L" "i < length L" "x = L ! i"
  shows "subseq (x # xs) (drop j L) \<longleftrightarrow> j \<le> i \<and> subseq xs (drop (Suc i) L)"
  using assms
proof (induction L arbitrary: i j)
  case Nil
  then show ?case by simp
next
  case (Cons y L)
  show ?case
  proof (cases i)
    case 0
    with Cons.prems have x: "x = y" "x \<notin> set L" by auto
    from x have "\<not> subseq (x # xs) (drop k L)" for k
      by (meson in_set_dropD subseq_head_mem)
    with 0 x show ?thesis by (cases j) auto
  next
    case (Suc i')
    with Cons.prems have xi: "x = L ! i'" "i' < length L" "distinct L" and ne: "x \<noteq> y" by auto
    show ?thesis
    proof (cases j)
      case 0
      have "subseq (x # xs) (drop 0 L) \<longleftrightarrow> 0 \<le> i' \<and> subseq xs (drop (Suc i') L)"
        using Cons.IH xi by blast
      with 0 Suc ne show ?thesis by (simp add: subseq_Cons2_neq)
    next
      case (Suc j')
      have "subseq (x # xs) (drop j' L) \<longleftrightarrow> j' \<le> i' \<and> subseq xs (drop (Suc i') L)"
        using Cons.IH xi by blast
      with \<open>i = Suc i'\<close> Suc show ?thesis by simp
    qed
  qed
qed

text \<open>The head of a decision: what an applied decision on an active slot has already checked.\<close>

lemma Decide_active_ok:
  assumes "d_err (Decide (Some m) ev c) = None"
  shows "ValidateSnapshot (Some m) = None" "c_release_id c = m_id m" "event_allowed (m_state m) ev"
    "validate_active_observations m (c_observed c) = None"
  using assms by (auto simp: Decide_def rejected_def Let_def split: option.splits if_splits)

lemma Decide_prepared:
  "d_err (Decide (Some m) ev c) = None \<Longrightarrow> m_state m = StatePrepared \<Longrightarrow>
   Decide (Some m) ev c =
     decide_prepared \<lparr>d_current = Some m, d_next = Some m, d_commands = [], d_applied = False,
       d_err = None\<rparr> ev m (c_observed c)"
  by (auto simp: Decide_def rejected_def Let_def split: option.splits if_splits)

lemma Decide_pending:
  "d_err (Decide (Some m) ev c) = None \<Longrightarrow> m_state m = StatePending \<Longrightarrow>
   Decide (Some m) ev c =
     decide_pending \<lparr>d_current = Some m, d_next = Some m, d_commands = [], d_applied = False,
       d_err = None\<rparr> ev m (c_observed c)"
  by (auto simp: Decide_def rejected_def Let_def split: option.splits if_splits)

lemma Decide_accepting:
  "d_err (Decide (Some m) ev c) = None \<Longrightarrow> m_state m = StateAccepting \<Longrightarrow>
   Decide (Some m) ev c =
     decide_accepting \<lparr>d_current = Some m, d_next = Some m, d_commands = [], d_applied = False,
       d_err = None\<rparr> m (c_observed c)"
  by (auto simp: Decide_def rejected_def Let_def split: option.splits if_splits)

lemma Decide_rolling_back:
  "d_err (Decide (Some m) ev c) = None \<Longrightarrow> m_state m = StateRollingBack \<Longrightarrow>
   Decide (Some m) ev c =
     decide_rolling_back \<lparr>d_current = Some m, d_next = Some m, d_commands = [],
       d_applied = False, d_err = None\<rparr> m (c_observed c) (c_rollback_ready c)"
  by (auto simp: Decide_def rejected_def Let_def split: option.splits if_splits)

lemmas Decide_by_state = Decide_prepared Decide_pending Decide_accepting Decide_rolling_back

lemma active_state_cases:
  assumes "is_active_state st"
  obtains "st = StatePrepared" | "st = StatePending" | "st = StateAccepting" | "st = StateRollingBack"
  using assms by (cases st) auto

section \<open>The lifecycle as an abstract machine\<close>

text \<open>
  What the decision function promises, without observations: which commands an event can
  lead to in which state, and the state after it.  \<^const>\<open>None\<close> is the clear slot.
\<close>

inductive slot_step :: "snapshot \<Rightarrow> lc_event \<Rightarrow> command_kind \<Rightarrow> snapshot \<Rightarrow> bool" where
  publish: "m_state m = StatePrepared \<Longrightarrow>
    slot_step None EventPrepare CommandPublishPrepared (Some m)"
| resume: "m_state m = StatePrepared \<Longrightarrow>
    slot_step (Some m) EventResume CommandResumeDeployment (Some m)"
| deployed: "m_state m = StatePrepared \<Longrightarrow>
    slot_step (Some m) EventDeploymentReady CommandPersistState (Some (m\<lparr>m_state := StatePending\<rparr>))"
| choose_accept: "m_state m = StatePending \<Longrightarrow>
    slot_step (Some m) EventAccept CommandPersistState (Some (m\<lparr>m_state := StateAccepting\<rparr>))"
| choose_rollback: "m_state m = StatePrepared \<or> m_state m = StatePending \<Longrightarrow>
    slot_step (Some m) EventRollback CommandPersistState (Some (m\<lparr>m_state := StateRollingBack\<rparr>))"
| finish_accept: "m_state m = StateAccepting \<Longrightarrow>
    slot_step (Some m) EventAccept CommandClearTransaction None"
| resume_rollback: "m_state m = StateRollingBack \<Longrightarrow>
    slot_step (Some m) EventRollback CommandResumeRollback (Some m)"
| finish_rollback: "m_state m = StateRollingBack \<Longrightarrow>
    slot_step (Some m) EventRollback CommandClearTransaction None"

inductive_cases slot_step_clearE: "slot_step snap ev CommandClearTransaction snap'"
inductive_cases slot_step_SomeE: "slot_step (Some m) ev c snap'"
inductive_cases slot_step_NoneE: "slot_step None ev c snap'"
inductive_simps slot_step_from_clear: "slot_step None ev c snap'"

text \<open>Slots reachable from the clear one under the machine.\<close>

inductive slot_reach :: "snapshot \<Rightarrow> snapshot \<Rightarrow> bool" where
  here: "slot_reach s s"
| later: "slot_reach s t \<Longrightarrow> slot_step t ev c u \<Longrightarrow> slot_reach s u"

text \<open>The release a slot belongs to: everything in the manifest but its state.\<close>

definition release_of :: "manifest \<Rightarrow> manifest" where
  "release_of m = m\<lparr>m_state := StateClear\<rparr>"

lemma release_of_set_state [simp]: "release_of (m\<lparr>m_state := st\<rparr>) = release_of m"
  by (simp add: release_of_def)

lemma slot_step_same_release:
  "slot_step (Some m) ev c (Some m') \<Longrightarrow> release_of m' = release_of m"
  by (erule slot_step_SomeE) auto

lemma Decide_None_ok:
  assumes "d_err (Decide None ev c) = None"
  obtains m where "ev = EventPrepare" "c_prepared c = Some m" "m_state m = StatePrepared"
    "ValidateSnapshot (Some m) = None" "validate_prepare_observations m (c_observed c) = None"
    "d_commands (Decide None ev c) = [CommandPublishPrepared]" "d_applied (Decide None ev c)"
    "d_next (Decide None ev c) = Some m"
proof -
  from assms have ev: "ev = EventPrepare"
    by (auto simp: Decide_def rejected_def Let_def split: if_splits)
  with assms show ?thesis
    by (intro that[of "the (c_prepared c)"])
      (auto simp: Decide_def decide_prepare_def rejected_def applied_def Let_def
        split: option.splits if_splits)
qed

text \<open>An applied decision carries exactly one command and moves the slot as the machine allows.\<close>

lemma Decide_active_step:
  assumes ok: "d_err (Decide (Some m) ev c) = None"
  shows "\<exists>k. d_commands (Decide (Some m) ev c) = [k] \<and> d_applied (Decide (Some m) ev c) \<and>
             slot_step (Some m) ev k (d_next (Decide (Some m) ev c))"
proof (rule active_state_cases[OF ValidateSnapshot_active[OF Decide_active_ok(1)[OF ok]]])
  assume st: "m_state m = StatePrepared"
  from ok show ?thesis
    unfolding Decide_prepared[OF ok st]
    by (cases ev)
      (auto simp: decide_defs st intro: slot_step.intros split: option.splits if_splits)
next
  assume st: "m_state m = StatePending"
  from ok show ?thesis
    unfolding Decide_pending[OF ok st]
    by (cases ev)
      (auto simp: decide_defs st intro: slot_step.intros split: option.splits if_splits)
next
  assume st: "m_state m = StateAccepting"
  with Decide_active_ok(3)[OF ok] have "ev = EventAccept" by simp
  with ok show ?thesis
    unfolding Decide_accepting[OF ok st]
    by (auto simp: decide_defs st intro: slot_step.intros split: option.splits if_splits)
next
  assume st: "m_state m = StateRollingBack"
  with Decide_active_ok(3)[OF ok] have "ev = EventRollback" by simp
  with ok show ?thesis
    unfolding Decide_rolling_back[OF ok st]
    by (auto simp: decide_defs st intro: slot_step.intros split: option.splits if_splits)
qed

lemma Decide_step:
  assumes ok: "d_err (Decide snap ev c) = None"
  shows "\<exists>k. d_commands (Decide snap ev c) = [k] \<and> d_applied (Decide snap ev c) \<and>
             slot_step snap ev k (d_next (Decide snap ev c))"
proof (cases snap)
  case None
  with ok show ?thesis
    by (auto elim!: Decide_None_ok intro: slot_step.publish)
next
  case (Some m)
  with ok Decide_active_step[of m ev c] show ?thesis by simp
qed

text \<open>A rejection is recorded by \<^const>\<open>rejected\<close> and nothing else.\<close>

definition well_rejected :: "snapshot \<Rightarrow> decision \<Rightarrow> bool" where
  "well_rejected snap d \<longleftrightarrow> d_current d = snap \<and>
     (d_err d \<noteq> None \<longrightarrow> d_next d = snap \<and> d_commands d = [] \<and> \<not> d_applied d)"

lemma well_rejected_rejected: "d_current d = snap \<Longrightarrow> well_rejected snap (rejected d e)"
  by (simp add: well_rejected_def rejected_def)

lemma well_rejected_applied:
  "d_current d = snap \<Longrightarrow> d_err d = None \<Longrightarrow> well_rejected snap (applied d nxt c)"
  "d_current d = snap \<Longrightarrow> d_err d = None \<Longrightarrow>
     well_rejected snap (d\<lparr>d_commands := cs, d_applied := True\<rparr>)"
  by (simp_all add: well_rejected_def applied_def)

lemmas well_rejected_intros = well_rejected_rejected well_rejected_applied

lemma decide_cases_well_rejected:
  assumes "d_current d = snap" "d_err d = None"
  shows "well_rejected snap (decide_prepare d c)"
    "well_rejected snap (decide_prepared d ev m obs)"
    "well_rejected snap (decide_pending d ev m obs)"
    "well_rejected snap (decide_accepting d m obs)"
    "well_rejected snap (decide_rolling_back d m obs r)"
  using assms
  by (auto simp: decide_prepare_def decide_prepared_def decide_pending_def decide_accepting_def
      decide_rolling_back_def transition_to_def intro: well_rejected_intros
      split: option.splits if_splits lc_event.splits)

lemma Decide_well_rejected: "well_rejected snap (Decide snap ev c)"
  unfolding Decide_def Let_def
  by (auto intro!: well_rejected_rejected decide_cases_well_rejected
      split: option.split lc_state.split)

lemma Decide_current [simp]: "d_current (Decide snap ev c) = snap"
  using Decide_well_rejected by (simp add: well_rejected_def)

lemma Decide_err_next:
  "d_err (Decide snap ev c) = Some e \<Longrightarrow>
   d_next (Decide snap ev c) = snap \<and> d_commands (Decide snap ev c) = [] \<and>
   \<not> d_applied (Decide snap ev c)"
  using Decide_well_rejected[of snap ev c] by (simp add: well_rejected_def)

section \<open>Correctness of decisions\<close>

text \<open>Runs of the decision function: the slot after each event.\<close>

fun decide_trace :: "snapshot \<Rightarrow> (lc_event \<times> decide_context) list \<Rightarrow> snapshot list" where
  "decide_trace snap [] = []"
| "decide_trace snap ((ev, c) # ins) =
     (let nxt = d_next (Decide snap ev c) in nxt # decide_trace nxt ins)"

lemma service_order_loop_subseq:
  "-1 \<le> c \<Longrightarrow> k < 4 \<Longrightarrow>
   service_order_loop k c ss \<longleftrightarrow>
     subseq (map s_server ss) (drop (nat (c + 1)) (take (nat (k + 1)) canonical_service_order))"
proof (induction ss arbitrary: c)
  case Nil
  then show ?case by simp
next
  case (Cons s ss)
  let ?L = "take (nat (k + 1)) canonical_service_order"
  let ?i = "canonical_service_index (s_server s)"
  have dist: "distinct ?L"
    by (rule distinct_take) (simp add: canonical_service_order_def)
  have idx: "?i = -1 \<and> s_server s \<notin> set canonical_service_order \<or>
      0 \<le> ?i \<and> ?i < 4 \<and> s_server s = canonical_service_order ! nat ?i"
    by (auto simp: canonical_service_index_def canonical_service_order_def)
  show ?case
  proof (cases "0 \<le> ?i \<and> ?i \<le> k")
    case True
    with idx have nth: "nat ?i < length ?L" "s_server s = ?L ! nat ?i"
      by (auto simp: canonical_service_order_def)
    have "subseq (map s_server (s # ss)) (drop (nat (c + 1)) ?L) \<longleftrightarrow>
        nat (c + 1) \<le> nat ?i \<and> subseq (map s_server ss) (drop (Suc (nat ?i)) ?L)"
      using subseq_drop_index[OF dist nth] by simp
    also have "\<dots> \<longleftrightarrow> c < ?i \<and> service_order_loop k ?i ss"
      using Cons.IH[of ?i] True Cons.prems by (auto simp: nat_add_distrib)
    finally show ?thesis using True by (auto simp: Let_def)
  next
    case False
    have "s_server s \<notin> set ?L"
    proof
      assume "s_server s \<in> set ?L"
      then obtain j where j: "j < length ?L" "s_server s = ?L ! j" by (metis in_set_conv_nth)
      then have j4: "j < 4" "int j \<le> k" and jn: "s_server s = canonical_service_order ! j"
        by (auto simp: canonical_service_order_def)
      from j4(1) jn have "?i = int j"
        by (cases j; cases "j - 1"; cases "j - 2"; cases "j - 3")
          (auto simp: canonical_service_index_def canonical_service_order_def)
      with False j4 show False by simp
    qed
    then have "\<not> subseq (s_server s # map s_server ss) (drop (nat (c + 1)) ?L)"
      by (meson in_set_dropD subseq_head_mem)
    with False idx show ?thesis by (auto simp: Let_def)
  qed
qed

lemma decide_clear_cases:
  assumes "CommandClearTransaction \<in> set (d_commands (Decide snap ev c))"
  obtains m where "snap = Some m" "d_err (Decide snap ev c) = None"
    "d_next (Decide snap ev c) = None"
    "(m_state m = StateAccepting \<and> ev = EventAccept \<and>
        validate_acceptance_readiness m (c_observed c) = None) \<or>
     (m_state m = StateRollingBack \<and> ev = EventRollback \<and>
        validate_runtime m (c_observed c) = None \<and>
        recovery_confirmed m (c_observed c) (c_rollback_ready c))"
proof -
  have ok: "d_err (Decide snap ev c) = None"
    using assms Decide_err_next by (cases "d_err (Decide snap ev c)") fastforce+
  then obtain k where k: "d_commands (Decide snap ev c) = [k]"
    and step: "slot_step snap ev k (d_next (Decide snap ev c))"
    using Decide_step by blast
  with assms have "slot_step snap ev CommandClearTransaction (d_next (Decide snap ev c))" by simp
  then consider (acc) m where "snap = Some m" "ev = EventAccept" "m_state m = StateAccepting"
    | (roll) m where "snap = Some m" "ev = EventRollback" "m_state m = StateRollingBack"
    by (auto elim: slot_step_clearE)
  then show ?thesis
  proof cases
    case (acc m)
    from ok acc have ok': "d_err (Decide (Some m) ev c) = None" by simp
    note eq = Decide_accepting[OF ok' acc(3)]
    have "d_next (Decide (Some m) ev c) = None"
      using ok' assms unfolding acc(1) eq
      by (simp add: decide_accepting_def rejected_def applied_def split: option.splits if_splits)
    with ok' assms show ?thesis
      unfolding acc(1) eq
      by (intro that[OF acc(1) ok]; use acc eq in \<open>simp add: decide_accepting_def rejected_def applied_def
          split: option.splits if_splits\<close>)
  next
    case (roll m)
    from ok roll have ok': "d_err (Decide (Some m) ev c) = None" by simp
    note eq = Decide_rolling_back[OF ok' roll(3)]
    have "d_next (Decide (Some m) ev c) = None"
      using ok' assms unfolding roll(1) eq
      by (simp add: decide_rolling_back_def rejected_def applied_def split: option.splits if_splits)
    with ok' assms show ?thesis
      unfolding roll(1) eq
      by (intro that[OF roll(1) ok]; use roll eq in \<open>simp add: decide_rolling_back_def rejected_def applied_def
          split: option.splits if_splits\<close>)
  qed
qed

lemma decide_next_valid_aux:
  assumes ok: "d_err (Decide snap ev c) = None" and valid: "ValidateSnapshot snap = None"
  shows "ValidateSnapshot (d_next (Decide snap ev c)) = None"
proof (cases snap)
  case None
  with ok show ?thesis by (auto elim!: Decide_None_ok)
next
  case (Some m)
  with ok obtain k where "slot_step (Some m) ev k (d_next (Decide snap ev c))"
    using Decide_step by blast
  then show ?thesis
    using valid Some by (cases rule: slot_step_SomeE) (auto simp: ValidateSnapshot_set_state)
qed

text \<open>The irrevocable directions: from accepting and from rolling back only the clear slot follows.\<close>

lemma decide_trace_stuck:
  assumes "m_state m = StateAccepting \<or> m_state m = StateRollingBack"
  shows "s \<in> set (takeWhile (\<lambda>t. t \<noteq> None) (decide_trace (Some m) ins)) \<Longrightarrow> s = Some m"
proof (induction ins)
  case Nil
  then show ?case by simp
next
  case (Cons i ins)
  obtain ev c where i: "i = (ev, c)" by (cases i)
  let ?n = "d_next (Decide (Some m) ev c)"
  have "?n = Some m \<or> ?n = None"
  proof (cases "d_err (Decide (Some m) ev c)")
    case None
    then obtain k where "slot_step (Some m) ev k ?n" using Decide_step by blast
    then show ?thesis using assms by (cases rule: slot_step_SomeE) auto
  next
    case (Some e)
    then show ?thesis using Decide_err_next by blast
  qed
  with Cons i show ?case by (auto simp: Let_def)
qed

section \<open>A concrete release\<close>

definition sample_sha :: "char \<Rightarrow> string" where
  "sample_sha c = replicate 64 c"

definition sample_manifest :: manifest where
  "sample_manifest =
     \<lparr>m_version = 4, m_state = StatePrepared, m_id = sample_sha CHR ''1'',
      m_commit = replicate 40 CHR ''c'', m_dependency_sha = sample_sha CHR ''d'',
      m_candidate_file = ''candidate'', m_candidate_sha = sample_sha CHR ''a'',
      m_authority_file = ''authority'', m_authority_sha = sample_sha CHR ''b'',
      m_previous_present = True, m_previous_file = ''previous'',
      m_previous_sha = sample_sha CHR ''e'',
      m_target_path = ''/opt/gateway'', m_effective_uid = 501, m_label = ''com.example.gateway'',
      m_plist_path = ''/lib/a.plist'', m_plist_sha = sample_sha CHR ''2'',
      m_wrapper_path = ''/opt/run.sh'', m_wrapper_sha = sample_sha CHR ''3'',
      m_mcp_wrapper_path = ''/opt/mcp.sh'', m_mcp_wrapper_sha = sample_sha CHR ''4'',
      m_stdout_path = ''/log/out'', m_stderr_path = ''/log/err'',
      m_environment_path = ''/opt/env'', m_environment_sha = sample_sha CHR ''5'',
      m_health_url_file = ''/tmp/health'', m_ready_timeout_seconds = 45,
      m_ready_poll_milliseconds = 1000, m_services = []\<rparr>"

definition sample_service :: "string \<Rightarrow> service_descriptor" where
  "sample_service server =
     \<lparr>s_server = server, s_label = ''com.example.service'',
      s_plist_path = ''/lib/s.plist'', s_plist_sha = sample_sha CHR ''2'',
      s_wrapper_path = ''/opt/s.sh'', s_wrapper_sha = sample_sha CHR ''3'',
      s_mcp_wrapper_path = ''/opt/smcp.sh'', s_mcp_wrapper_sha = sample_sha CHR ''4'',
      s_stdout_path = ''/log/sout'', s_stderr_path = ''/log/serr'',
      s_environment_path = ''/opt/senv'', s_environment_sha = sample_sha CHR ''5'',
      s_health_url_file = ''/tmp/shealth''\<rparr>"

definition sample_observed :: observed where
  "sample_observed =
     \<lparr>o_candidate_sha = sample_sha CHR ''a'', o_authority_artifact_sha = sample_sha CHR ''b'',
      o_controller_sha = sample_sha CHR ''b'', o_previous_sha = sample_sha CHR ''e'',
      o_installed_present = True, o_installed_sha = sample_sha CHR ''a'',
      o_plist_sha = sample_sha CHR ''2'', o_wrapper_sha = sample_sha CHR ''3'',
      o_mcp_wrapper_sha = sample_sha CHR ''4'', o_environment_sha = sample_sha CHR ''5'',
      o_runtime_ready = True, o_supervisor_unloaded = False\<rparr>"

lemma sample_sha_valid [simp]: "lower_hex c \<Longrightarrow> valid_sha256 (sample_sha c)"
  by (simp add: valid_sha256_iff sample_sha_def list_all_iff)

lemma sample_sha_eq [simp]: "sample_sha c = sample_sha d \<longleftrightarrow> c = d"
  by (simp add: sample_sha_def)

lemma sample_valid [simp]: "ValidateSnapshot (Some sample_manifest) = None"
proof -
  have "valid_commit (replicate 40 CHR ''c'')"
    by (simp add: valid_commit_iff list_all_iff lower_hex_def)
  moreover have "ValidLaunchAgentLabel ''com.example.gateway''"
    by code_simp
  ultimately show ?thesis
    by (simp add: ValidateSnapshot_Some valid_core_def valid_services_def valid_previous_def
        sample_manifest_def valid_manifest_version_def valid_release_id_def absolute_paths_def
        ManifestVersion_def
        lower_hex_def)
qed

lemma sample_valid_state [simp]:
  "is_active_state st \<Longrightarrow> ValidateSnapshot (Some (sample_manifest\<lparr>m_state := st\<rparr>)) = None"
  by (simp add: ValidateSnapshot_set_state)

section \<open>Properties\<close>

text \<open>C5. Every decision refines the abstract lifecycle: without an error it is applied, carries
  exactly one command and moves the slot along a \<^const>\<open>slot_step\<close> for that event and command;
  with an error it leaves the snapshot as it was and carries no command.\<close>

theorem decide_refines_lifecycle:
  "case d_err (Decide snap ev c) of
     None \<Rightarrow> \<exists>k. d_commands (Decide snap ev c) = [k] \<and> d_applied (Decide snap ev c) \<and>
                slot_step snap ev k (d_next (Decide snap ev c))
   | Some e \<Rightarrow> d_next (Decide snap ev c) = snap \<and> d_commands (Decide snap ev c) = [] \<and>
                \<not> d_applied (Decide snap ev c)"
  using Decide_step[of snap ev c] Decide_err_next[of snap ev c]
  by (auto split: option.split)



text \<open>Decisions keep the manifest well formed: from a valid snapshot every decision, applied
  or rejected, leads to a valid snapshot, and the release identity (every field but the state)
  never changes while the slot stays active.\<close>

theorem decide_preserves_validity:
  assumes "ValidateSnapshot snap = None"
  shows "ValidateSnapshot (d_next (Decide snap ev c)) = None \<and>
    (\<forall>m m'. snap = Some m \<and> d_next (Decide snap ev c) = Some m' \<longrightarrow> release_of m' = release_of m)"
proof (cases "d_err (Decide snap ev c)")
  case None
  then have "release_of m' = release_of m"
    if "snap = Some m" "d_next (Decide snap ev c) = Some m'" for m m'
    using Decide_step[OF None] that slot_step_same_release by auto
  with decide_next_valid_aux[OF None assms] show ?thesis by blast
next
  case (Some e)
  with Decide_err_next assms show ?thesis by fastforce
qed

theorem decide_preserves_validity_witness:
  "ValidateSnapshot (d_next (Decide (Some sample_manifest) EventDeploymentReady
     (lc_context (sample_sha CHR ''1'') sample_observed))) = None"
  using decide_preserves_validity[of "Some sample_manifest" EventDeploymentReady
      "lc_context (sample_sha CHR ''1'') sample_observed"] by simp

text \<open>The chosen direction is irrevocable: once a release is accepting or rolling back, no
  sequence of events and observations moves it to another state; until the slot is cleared it
  stays exactly the same manifest.\<close>

theorem chosen_direction_irrevocable:
  assumes "m_state m = StateAccepting \<or> m_state m = StateRollingBack"
  shows "\<forall>s \<in> set (takeWhile (\<lambda>t. t \<noteq> None) (decide_trace (Some m) ins)). s = Some m"
  using decide_trace_stuck[OF assms] by blast

theorem chosen_direction_irrevocable_witness:
  "hd (decide_trace (Some (sample_manifest\<lparr>m_state := StateRollingBack\<rparr>))
     [(EventAccept, lc_context (sample_sha CHR ''1'') sample_observed)])
   = Some (sample_manifest\<lparr>m_state := StateRollingBack\<rparr>)"
proof -
  let ?m = "sample_manifest\<lparr>m_state := StateRollingBack\<rparr>"
  let ?c = "lc_context (sample_sha CHR ''1'') sample_observed"
  have "d_next (Decide (Some ?m) EventAccept ?c) \<noteq> None"
    by (simp add: Decide_def Let_def lc_context_def check_defs rejected_def
        sample_valid_state[simplified])
  with chosen_direction_irrevocable[of ?m "[(EventAccept, ?c)]"] show ?thesis
    by (simp add: Let_def)
qed

text \<open>The observation of a release whose candidate is installed, loaded and ready.\<close>

definition healthy_observed :: "manifest \<Rightarrow> observed" where
  "healthy_observed m =
     \<lparr>o_candidate_sha = m_candidate_sha m, o_authority_artifact_sha = m_authority_sha m,
      o_controller_sha = m_authority_sha m, o_previous_sha = m_previous_sha m,
      o_installed_present = True, o_installed_sha = m_candidate_sha m,
      o_plist_sha = m_plist_sha m, o_wrapper_sha = m_wrapper_sha m,
      o_mcp_wrapper_sha = m_mcp_wrapper_sha m, o_environment_sha = m_environment_sha m,
      o_runtime_ready = True, o_supervisor_unloaded = False\<rparr>"

definition recovered_observed :: "manifest \<Rightarrow> observed" where
  "recovered_observed m =
     (healthy_observed m)\<lparr>o_installed_present := m_previous_present m,
        o_installed_sha := m_previous_sha m,
        o_supervisor_unloaded := \<not> m_previous_present m\<rparr>"

lemma healthy_checks [simp]:
  "validate_active_observations m (healthy_observed m) = None"
  "validate_acceptance_readiness m (healthy_observed m) = None"
  "validate_runtime m (healthy_observed m) = None"
  "validate_active_observations m (recovered_observed m) = None"
  "validate_runtime m (recovered_observed m) = None"
  "target_allowed m (recovered_observed m)"
  "recovery_confirmed m (recovered_observed m) True"
  by (auto simp: check_defs healthy_observed_def recovered_observed_def target_allowed_def
      recovery_confirmed_def)

lemma Decide_healthy:
  assumes "ValidateSnapshot (Some m) = None"
  shows "m_state m = StatePrepared \<Longrightarrow>
      d_next (Decide (Some m) EventDeploymentReady (lc_context (m_id m) (healthy_observed m)))
        = Some (m\<lparr>m_state := StatePending\<rparr>)"
    "m_state m = StatePending \<Longrightarrow>
      d_next (Decide (Some m) EventAccept (lc_context (m_id m) (healthy_observed m)))
        = Some (m\<lparr>m_state := StateAccepting\<rparr>)"
    "m_state m = StateAccepting \<Longrightarrow>
      d_next (Decide (Some m) EventAccept (lc_context (m_id m) (healthy_observed m))) = None"
    "m_state m = StateRollingBack \<Longrightarrow>
      d_next (Decide (Some m) EventRollback
        ((lc_context (m_id m) (recovered_observed m))\<lparr>c_rollback_ready := True\<rparr>)) = None"
proof -
  have inst: "o_installed_present (healthy_observed m)"
    "o_installed_sha (healthy_observed m) = m_candidate_sha m" "o_runtime_ready (healthy_observed m)"
    by (simp_all add: healthy_observed_def)
  show "m_state m = StatePrepared \<Longrightarrow>
      d_next (Decide (Some m) EventDeploymentReady (lc_context (m_id m) (healthy_observed m)))
        = Some (m\<lparr>m_state := StatePending\<rparr>)"
    using assms inst
    by (simp add: Decide_def Let_def lc_context_def decide_prepared_def transition_to_def applied_def)
  show "m_state m = StatePending \<Longrightarrow>
      d_next (Decide (Some m) EventAccept (lc_context (m_id m) (healthy_observed m)))
        = Some (m\<lparr>m_state := StateAccepting\<rparr>)"
    using assms inst
    by (simp add: Decide_def Let_def lc_context_def decide_pending_def transition_to_def applied_def)
  show "m_state m = StateAccepting \<Longrightarrow>
      d_next (Decide (Some m) EventAccept (lc_context (m_id m) (healthy_observed m))) = None"
    using assms inst
    by (simp add: Decide_def Let_def lc_context_def decide_accepting_def applied_def)
  show "m_state m = StateRollingBack \<Longrightarrow>
      d_next (Decide (Some m) EventRollback
        ((lc_context (m_id m) (recovered_observed m))\<lparr>c_rollback_ready := True\<rparr>)) = None"
    using assms
    by (simp add: Decide_def Let_def lc_context_def decide_rolling_back_def applied_def)
qed

lemma healthy_set_state [simp]: "healthy_observed (m\<lparr>m_state := st\<rparr>) = healthy_observed m"
  by (simp add: healthy_observed_def)

text \<open>No active release is stuck: from every valid active manifest at most three events with
  suitable observations lead to the clear slot.\<close>

theorem active_release_can_clear:
  assumes v: "ValidateSnapshot (Some m) = None"
  shows "\<exists>ins. ins \<noteq> [] \<and> length ins \<le> 3 \<and> last (decide_trace (Some m) ins) = None"
proof -
  let ?h = "lc_context (m_id m) (healthy_observed m)"
  note step = Decide_healthy[OF v]
    and pend = Decide_healthy[OF ValidateSnapshot_set_state[OF v, of StatePending], simplified]
    and acc = Decide_healthy[OF ValidateSnapshot_set_state[OF v, of StateAccepting], simplified]
  show ?thesis
  proof (rule active_state_cases[OF ValidateSnapshot_active[OF v]])
    assume "m_state m = StatePrepared"
    with step pend acc show ?thesis
      by (intro exI[of _ "[(EventDeploymentReady, ?h), (EventAccept, ?h), (EventAccept, ?h)]"])
        (simp add: Let_def)
  next
    assume "m_state m = StatePending"
    with step acc show ?thesis
      by (intro exI[of _ "[(EventAccept, ?h), (EventAccept, ?h)]"]) (simp add: Let_def)
  next
    assume "m_state m = StateAccepting"
    with step show ?thesis by (intro exI[of _ "[(EventAccept, ?h)]"]) simp
  next
    assume "m_state m = StateRollingBack"
    with step show ?thesis
      by (intro exI[of _ "[(EventRollback,
            (lc_context (m_id m) (recovered_observed m))\<lparr>c_rollback_ready := True\<rparr>)]"]) simp
  qed
qed

theorem active_release_can_clear_witness:
  "\<exists>ins. ins \<noteq> [] \<and> length ins \<le> 3 \<and> last (decide_trace (Some sample_manifest) ins) = None"
  by (rule active_release_can_clear) simp

text \<open>The supervised services of a manifest are accepted exactly when their names form a
  subsequence of the fixed table, cut at the version's bound, that starts with \<^verbatim>\<open>obsidian\<close>: no
  duplicates, no reordering, no unknown service.\<close>

theorem valid_service_order_iff:
  assumes "k < 4"
  shows "valid_service_order ss k \<longleftrightarrow>
    (ss \<noteq> [] \<and> s_server (hd ss) = ''obsidian'' \<and>
     subseq (map s_server ss) (take (nat (k + 1)) canonical_service_order))"
  using service_order_loop_subseq[of "-1" k ss] assms
  by (auto simp: valid_service_order_def canonical_service_order_def)

theorem valid_service_order_iff_witness:
  "valid_service_order [sample_service ''obsidian'', sample_service ''ynab-http''] 3 \<and>
   \<not> valid_service_order [sample_service ''ynab-http'', sample_service ''obsidian''] 3"
  by (simp add: valid_service_order_iff sample_service_def canonical_service_order_def)

text \<open>Identities are compared in one canonical spelling: a digest is accepted exactly when it
  is 64 lower-case hexadecimal digits, and a commit when it is 40 or 64 of them, so decoding and
  re-encoding is the identity on every accepted value.\<close>

theorem identity_spelling:
  "(valid_sha256 v \<longleftrightarrow> length v = 64 \<and> list_all lower_hex v) \<and>
   (valid_commit v \<longleftrightarrow> (length v = 40 \<or> length v = 64) \<and> list_all lower_hex v)"
  by (simp add: valid_sha256_iff valid_commit_iff)

end
