(* ===== verification/ReleaseStore.thy ===== *)
theory ReleaseStore
  imports ReleaseModel "HOL-Library.AList" "HOL-Library.Char_ord" "HOL-Library.List_Lexorder"
begin

text \<open>
  The durable release slot (\<^verbatim>\<open>internal/releaseactivation/store.go\<close>).  The store owns one
  private directory: a permanent lock file, at most one \<^verbatim>\<open>active/\<close> transaction, and
  orphans of interrupted operations (\<^verbatim>\<open>active.next.<id>/\<close>, \<^verbatim>\<open>cleanup.<id>/\<close>).  The model
  keeps that directory as a tree and lets every system call and every persistence hook fail:
  an error returned in the middle of an operation leaves exactly the tree the code leaves.

  Outside the model and therefore parameters (\<open>store_env\<close>): SHA-256, the strict JSON decoder
  and the encoder of a manifest, the files of the host outside the store, and which calls
  the operating system refuses.
\<close>

section \<open>The directory\<close>

text \<open>A file has its permission bits and bytes, a directory its bits and entries.\<close>

datatype node = File nat string | Dir nat "(string \<times> node) list" | Special

datatype root_node = RootAbsent | RootDir nat | RootOther
datatype lock_node = LockAbsent | LockFile nat nat | LockOther

text \<open>
  \<open>k_lock\<close> is what the pathname \<^verbatim>\<open>lock\<close> denotes (inode and permission bits), \<open>k_flock\<close>
  whether some process holds the advisory lock, \<open>k_rng\<close> the random suffixes still to be
  drawn (an exhausted list is a failing \<^verbatim>\<open>rand.Read\<close>).
\<close>

record store_disk =
  k_root :: root_node
  k_kids :: "(string \<times> node) list"
  k_lock :: lock_node
  k_flock :: bool
  k_next_ino :: nat
  k_rng :: "string list"

datatype hook_point =
    BeforeManifestTempWrite | AfterManifestTempWrite | BeforeManifestTempSync
  | AfterManifestTempSync | BeforeManifestPublish | AfterManifestPublish
  | BeforeManifestDirSync | AfterManifestDirSync | BeforeActivePublish | AfterActivePublish
  | BeforeActiveParentSync | AfterActiveParentSync | BeforeClearPublish | AfterClearPublish
  | BeforeClearParentSync | AfterClearParentSync | BeforeClearCleanup | AfterClearCleanup
  | BeforeOrphanCleanup | AfterOrphanCleanup

datatype syscall =
    SysMkdirAll | SysLstat string | SysOpen string | SysRead string | SysMkdir string
  | SysCreate string | SysWrite string | SysChmod string | SysSync string | SysClose string
  | SysRename string string | SysRemove string | SysRemoveAll string | SysReadDir string
  | SysFlock

text \<open>The store operation a call belongs to, so that a call may fail in one and not in another.\<close>

datatype store_op = OpAcquire | OpInspect | OpLoad | OpCleanup | OpPrepare | OpRewrite | OpClear

record store_env =
  v_root :: string
  v_uid :: int
  v_hook :: "hook_point \<Rightarrow> go_err option"
  v_fault :: "store_op \<Rightarrow> syscall \<Rightarrow> go_err option"
  v_sha :: "string \<Rightarrow> string"
  v_enc :: "manifest \<Rightarrow> string"
  v_dec :: "string \<Rightarrow> manifest option"
  v_os :: os_view
  v_src :: "string \<Rightarrow> node option"

record artifact_paths =
  a_candidate :: string
  a_authority :: string
  a_previous :: string

text \<open>\<^verbatim>\<open>LockedStore\<close>: the open lock file, \<^const>\<open>None\<close> after \<^verbatim>\<open>Close\<close>.\<close>

record locked_store =
  l_ino :: "nat option"

definition max_artifact_size :: nat where
  "max_artifact_size = 268435456"

definition max_manifest_size :: nat where
  "max_manifest_size = 1048576"

definition mode_0500 :: nat where "mode_0500 = 320"
definition mode_0600 :: nat where "mode_0600 = 384"
definition mode_0700 :: nat where "mode_0700 = 448"

lemmas modes = mode_0500_def mode_0600_def mode_0700_def

definition active_candidate_path :: "string \<Rightarrow> string" where
  "active_candidate_path root = path_join [root, ''active'', ''candidate'']"

definition active_authority_path :: "string \<Rightarrow> string" where
  "active_authority_path root = path_join [root, ''active'', ''authority'']"

definition active_previous_path :: "string \<Rightarrow> string" where
  "active_previous_path root = path_join [root, ''active'', ''previous'']"

definition NewStoreAt :: "string \<Rightarrow> go_err + string" where
  "NewStoreAt root =
     (if \<not> is_abs root then Inl (OtherErr ''release state root must be absolute'')
      else Inr (path_clean root))"

section \<open>Entries\<close>

definition put_node :: "string \<Rightarrow> node \<Rightarrow> store_disk \<Rightarrow> store_disk" where
  "put_node n x d = d\<lparr>k_kids := AList.update n x (k_kids d)\<rparr>"

definition del_node :: "string \<Rightarrow> store_disk \<Rightarrow> store_disk" where
  "del_node n d = d\<lparr>k_kids := AList.delete n (k_kids d)\<rparr>"

definition get_node :: "string \<Rightarrow> store_disk \<Rightarrow> node option" where
  "get_node n d = map_of (k_kids d) n"

text \<open>Entries of a subdirectory; a path that is no directory has none.\<close>

definition dir_kids :: "string \<Rightarrow> store_disk \<Rightarrow> (string \<times> node) list" where
  "dir_kids dir d = (case get_node dir d of Some (Dir m ks) \<Rightarrow> ks | _ \<Rightarrow> [])"

definition set_kids :: "string \<Rightarrow> (string \<times> node) list \<Rightarrow> store_disk \<Rightarrow> store_disk" where
  "set_kids dir ks d =
     (case get_node dir d of Some (Dir m _) \<Rightarrow> put_node dir (Dir m ks) d | _ \<Rightarrow> d)"

definition put_file :: "string \<Rightarrow> string \<Rightarrow> node \<Rightarrow> store_disk \<Rightarrow> store_disk" where
  "put_file dir n x d = set_kids dir (AList.update n x (dir_kids dir d)) d"

definition del_file :: "string \<Rightarrow> string \<Rightarrow> store_disk \<Rightarrow> store_disk" where
  "del_file dir n d = set_kids dir (AList.delete n (dir_kids dir d)) d"

definition rename_file :: "string \<Rightarrow> string \<Rightarrow> string \<Rightarrow> store_disk \<Rightarrow> store_disk" where
  "rename_file dir a b d =
     (case map_of (dir_kids dir d) a of
        None \<Rightarrow> d
      | Some x \<Rightarrow> set_kids dir (AList.update b x (AList.delete a (dir_kids dir d))) d)"

definition rename_node :: "string \<Rightarrow> string \<Rightarrow> store_disk \<Rightarrow> store_disk" where
  "rename_node a b d =
     (case get_node a d of None \<Rightarrow> d | Some x \<Rightarrow> put_node b x (del_node a d))"

section \<open>Root and lock\<close>

definition validate_root_if_present :: "store_env \<Rightarrow> store_op \<Rightarrow> store_disk \<Rightarrow> go_err option" where
  "validate_root_if_present env op d =
     (case v_fault env op (SysLstat ''.'') of
        Some e \<Rightarrow> Some e
      | None \<Rightarrow>
          (case k_root d of
             RootAbsent \<Rightarrow> None
           | RootOther \<Rightarrow> Some (Sentinel ErrStateMalformed)
           | RootDir m \<Rightarrow> fail_if (m \<noteq> mode_0700) (Sentinel ErrStateMalformed)))"

definition ensure_root ::
  "store_env \<Rightarrow> store_op \<Rightarrow> store_disk \<Rightarrow> go_err option \<times> store_disk" where
  "ensure_root env op d =
     (case v_fault env op SysMkdirAll of
        Some e \<Rightarrow> (Some e, d)
      | None \<Rightarrow>
          (let d1 = (if k_root d = RootAbsent then d\<lparr>k_root := RootDir mode_0700\<rparr> else d) in
           if k_root d = RootOther then (Some (OtherErr ''create release state root''), d)
           else (validate_root_if_present env op d1, d1)))"

text \<open>\<^verbatim>\<open>validateOpenRegular\<close> on the lock: the path still names the opened inode, mode 0600.\<close>

definition validate_open_lock :: "store_env \<Rightarrow> store_op \<Rightarrow> nat \<Rightarrow> store_disk \<Rightarrow> go_err option" where
  "validate_open_lock env op ino d =
     (case v_fault env op (SysLstat ''lock'') of
        Some e \<Rightarrow> Some e
      | None \<Rightarrow>
          (case k_lock d of
             LockFile i m \<Rightarrow>
               if i \<noteq> ino then Some (OtherErr ''path is not the opened regular inode'')
               else fail_if (m \<noteq> mode_0600) (OtherErr ''permissions'')
           | _ \<Rightarrow> Some (OtherErr ''path is not the opened regular inode'')))"

definition Acquire :: "store_env \<Rightarrow> store_disk \<Rightarrow> (go_err + locked_store) \<times> store_disk" where
  "Acquire env d0 =
     (case ensure_root env OpAcquire d0 of
        (Some e, d) \<Rightarrow> (Inl e, d)
      | (None, d) \<Rightarrow>
          (case v_fault env OpAcquire (SysOpen ''lock'') of
             Some e \<Rightarrow> (Inl e, d)
           | None \<Rightarrow>
               (let d1 = (if k_lock d = LockAbsent
                    then d\<lparr>k_lock := LockFile (k_next_ino d) mode_0600, k_next_ino := k_next_ino d + 1\<rparr>
                    else d) in
                case k_lock d1 of
                  LockFile ino m \<Rightarrow>
                    (case validate_open_lock env OpAcquire ino d1 of
                       Some e \<Rightarrow> (Inl e, d1)
                     | None \<Rightarrow>
                         if k_flock d1 then (Inl (Sentinel ErrBusy), d1)
                         else (case v_fault env OpAcquire SysFlock of
                            Some e \<Rightarrow> (Inl e, d1)
                          | None \<Rightarrow>
                              (case validate_open_lock env OpAcquire ino d1 of
                                 Some e \<Rightarrow> (Inl e, d1)
                               | None \<Rightarrow> (Inr \<lparr>l_ino = Some ino\<rparr>, d1\<lparr>k_flock := True\<rparr>))))
                | _ \<Rightarrow> (Inl (OtherErr ''open lifecycle lock''), d1))))"

definition Close :: "locked_store \<Rightarrow> store_disk \<Rightarrow> locked_store \<times> store_disk" where
  "Close l d =
     (case l_ino l of
        None \<Rightarrow> (l, d)
      | Some ino \<Rightarrow> (l\<lparr>l_ino := None\<rparr>, d\<lparr>k_flock := False\<rparr>))"

text \<open>\<^verbatim>\<open>valid\<close>: the lock is held and its inode has not been replaced.\<close>

definition lock_valid :: "store_env \<Rightarrow> store_op \<Rightarrow> locked_store \<Rightarrow> store_disk \<Rightarrow> go_err option" where
  "lock_valid env op l d =
     (case l_ino l of
        None \<Rightarrow> Some (OtherErr ''release activation lock is not held'')
      | Some ino \<Rightarrow> validate_open_lock env op ino d)"

section \<open>Loading\<close>

definition read_regular ::
  "store_env \<Rightarrow> store_op \<Rightarrow> string \<Rightarrow> string \<Rightarrow> nat \<Rightarrow> nat \<Rightarrow> store_disk \<Rightarrow> go_err + string" where
  "read_regular env op dir name mode limit d =
     (case first_err [v_fault env op (SysOpen (dir @ ''/'' @ name)),
                      v_fault env op (SysRead (dir @ ''/'' @ name))] of
        Some e \<Rightarrow> Inl e
      | None \<Rightarrow>
          (case map_of (dir_kids dir d) name of
             Some (File m data) \<Rightarrow>
               if m \<noteq> mode then Inl (OtherErr ''permissions'')
               else if length data > limit then Inl (OtherErr ''file exceeds size limit'')
               else Inr data
           | _ \<Rightarrow> Inl (OtherErr ''open'')))"

definition validate_artifact ::
  "store_env \<Rightarrow> store_op \<Rightarrow> string \<Rightarrow> string \<Rightarrow> string \<Rightarrow> store_disk \<Rightarrow> go_err option" where
  "validate_artifact env op recorded expected want d =
     (if recorded \<noteq> expected then Some (Sentinel ErrStateMalformed)
      else case read_regular env op ''active'' expected mode_0500 max_artifact_size d of
        Inl e \<Rightarrow> Some (Sentinel ErrStateMalformed)
      | Inr data \<Rightarrow> fail_if (v_sha env data \<noteq> want) (Sentinel ErrStateMalformed))"

definition validate_manifest :: "manifest \<Rightarrow> int \<Rightarrow> go_err option" where
  "validate_manifest m uid =
     (if m_version m \<noteq> ManifestVersion then Some (Sentinel ErrStateMalformed)
      else if m_state m = StateClear \<or> \<not> valid_release_id (m_id m)
      then Some (Sentinel ErrStateMalformed)
      else if m_effective_uid m \<noteq> uid then Some (Sentinel ErrStateMalformed)
      else if \<not> ValidLaunchAgentLabel (m_label m) then Some (Sentinel ErrStateMalformed)
      else if \<not> valid_sha256 (m_candidate_sha m) \<or> \<not> valid_sha256 (m_authority_sha m)
      then Some (Sentinel ErrStateMalformed)
      else if m_candidate_file m \<noteq> ''candidate'' \<or> m_authority_file m \<noteq> ''authority''
      then Some (Sentinel ErrStateMalformed)
      else if m_previous_present m \<and>
              (m_previous_file m \<noteq> ''previous'' \<or> \<not> valid_sha256 (m_previous_sha m))
      then Some (Sentinel ErrStateMalformed)
      else if \<not> m_previous_present m \<and> (m_previous_file m \<noteq> '''' \<or> m_previous_sha m \<noteq> '''')
      then Some (Sentinel ErrStateMalformed)
      else case ValidateSnapshot (Some m) of
        Some e \<Rightarrow> Some (Sentinel ErrStateMalformed)
      | None \<Rightarrow> None)"

text \<open>The checks on a decoded manifest, in the order of \<^verbatim>\<open>loadActive\<close>.\<close>

definition load_checks ::
  "store_env \<Rightarrow> store_op \<Rightarrow> manifest \<Rightarrow> store_disk \<Rightarrow> go_err option" where
  "load_checks env op m d =
     first_err
       [validate_manifest m (v_uid env),
        validate_artifact env op (m_candidate_file m) ''candidate'' (m_candidate_sha m) d,
        validate_artifact env op (m_authority_file m) ''authority'' (m_authority_sha m) d,
        (if m_previous_present m
         then validate_artifact env op (m_previous_file m) ''previous'' (m_previous_sha m) d
         else fail_if (m_previous_file m \<noteq> '''' \<or> m_previous_sha m \<noteq> '''')
                (Sentinel ErrStateMalformed)),
        map_option (\<lambda>_. Sentinel ErrStateMalformed)
          (ValidateActiveTopology (v_os env) (Some (v_root env)) (Some m))]"

definition load_active ::
  "store_env \<Rightarrow> store_op \<Rightarrow> store_disk \<Rightarrow> go_err + manifest option" where
  "load_active env op d =
     (case v_fault env op (SysLstat ''active'') of
        Some e \<Rightarrow> Inl e
      | None \<Rightarrow>
          (case get_node ''active'' d of
             None \<Rightarrow> Inr None
           | Some (Dir mode ks) \<Rightarrow>
               if mode \<noteq> mode_0700 then Inl (Sentinel ErrStateMalformed)
               else (case read_regular env op ''active'' ''manifest.json'' mode_0600 max_manifest_size d of
                  Inl e \<Rightarrow> Inl (Sentinel ErrStateMalformed)
                | Inr data \<Rightarrow>
                    (case v_dec env data of
                       None \<Rightarrow> Inl (Sentinel ErrStateMalformed)
                     | Some m \<Rightarrow>
                         (case load_checks env op m d of
                            Some e \<Rightarrow> Inl e
                          | None \<Rightarrow> Inr (Some m))))
           | Some _ \<Rightarrow> Inl (Sentinel ErrStateMalformed)))"

definition Inspect :: "store_env \<Rightarrow> store_disk \<Rightarrow> go_err + manifest option" where
  "Inspect env d =
     (case validate_root_if_present env OpInspect d of
        Some e \<Rightarrow> Inl e
      | None \<Rightarrow> load_active env OpInspect d)"

definition Load :: "store_env \<Rightarrow> locked_store \<Rightarrow> store_disk \<Rightarrow> go_err + manifest option" where
  "Load env l d =
     (case lock_valid env OpLoad l d of Some e \<Rightarrow> Inl e | None \<Rightarrow> load_active env OpLoad d)"

section \<open>Orphans\<close>

definition manifest_temp :: "string \<Rightarrow> bool" where
  "manifest_temp n \<longleftrightarrow> prefix ''.manifest.'' n \<and> suffix ''.tmp'' n"

definition root_orphan :: "string \<Rightarrow> bool" where
  "root_orphan n \<longleftrightarrow> prefix ''active.next.'' n \<or> prefix ''cleanup.'' n"

text \<open>Both loops walk the sorted listing of \<^verbatim>\<open>os.ReadDir\<close> and stop at the first entry that
  cannot be removed.\<close>

fun remove_temps :: "store_env \<Rightarrow> string list \<Rightarrow> store_disk \<Rightarrow> go_err option \<times> store_disk" where
  "remove_temps env [] d = (None, d)"
| "remove_temps env (n # ns) d =
     (if manifest_temp n then
        (case v_fault env OpCleanup (SysRemove n) of
           Some e \<Rightarrow> (Some e, d)
         | None \<Rightarrow> remove_temps env ns (del_file ''active'' n d))
      else remove_temps env ns d)"

fun remove_orphans :: "store_env \<Rightarrow> string list \<Rightarrow> store_disk \<Rightarrow> go_err option \<times> store_disk" where
  "remove_orphans env [] d = (None, d)"
| "remove_orphans env (n # ns) d =
     (if root_orphan n then
        (case v_fault env OpCleanup (SysRemoveAll n) of
           Some e \<Rightarrow> (Some e, d)
         | None \<Rightarrow> remove_orphans env ns (del_node n d))
      else remove_orphans env ns d)"

definition cleanup_manifest_temps :: "store_env \<Rightarrow> store_disk \<Rightarrow> go_err option \<times> store_disk" where
  "cleanup_manifest_temps env d =
     (case get_node ''active'' d of
        None \<Rightarrow> (None, d)
      | Some (Dir m ks) \<Rightarrow>
          (case v_fault env OpCleanup (SysReadDir ''active'') of
             Some e \<Rightarrow> (Some e, d)
           | None \<Rightarrow> remove_temps env (sort (map fst ks)) d)
      | Some _ \<Rightarrow> (Some (OtherErr ''not a directory''), d))"

definition cleanup_root_orphans :: "store_env \<Rightarrow> store_disk \<Rightarrow> go_err option \<times> store_disk" where
  "cleanup_root_orphans env d =
     (case v_fault env OpCleanup (SysReadDir ''.'') of
        Some e \<Rightarrow> (Some e, d)
      | None \<Rightarrow> remove_orphans env (sort (map fst (k_kids d))) d)"

definition CleanupOrphans ::
  "store_env \<Rightarrow> locked_store \<Rightarrow> store_disk \<Rightarrow> go_err option \<times> store_disk" where
  "CleanupOrphans env l d =
     (case first_err [lock_valid env OpCleanup l d, v_hook env BeforeOrphanCleanup] of
        Some e \<Rightarrow> (Some e, d)
      | None \<Rightarrow>
          (case cleanup_manifest_temps env d of
             (Some e, d1) \<Rightarrow> (Some e, d1)
           | (None, d1) \<Rightarrow>
               (case cleanup_root_orphans env d1 of
                  (Some e, d2) \<Rightarrow> (Some e, d2)
                | (None, d2) \<Rightarrow> (v_hook env AfterOrphanCleanup, d2))))"

section \<open>Writing the manifest\<close>

text \<open>
  \<^verbatim>\<open>writeManifestAtomic\<close>: a fresh temporary file, its bytes, sync, rename over
  \<^verbatim>\<open>manifest.json\<close>, directory sync.  Until the rename every failure removes the temporary
  file again (unless the removal fails too); after it the new manifest is published.
\<close>

definition drop_temp ::
  "store_env \<Rightarrow> store_op \<Rightarrow> string \<Rightarrow> string \<Rightarrow> store_disk \<Rightarrow> store_disk" where
  "drop_temp env op dir tmp d =
     (case v_fault env op (SysRemove tmp) of Some e \<Rightarrow> d | None \<Rightarrow> del_file dir tmp d)"

definition temp_name :: "string \<Rightarrow> string" where
  "temp_name suffx = ''.manifest.'' @ suffx @ ''.tmp''"

definition write_manifest_atomic ::
  "store_env \<Rightarrow> store_op \<Rightarrow> string \<Rightarrow> manifest \<Rightarrow> store_disk \<Rightarrow> go_err option \<times> store_disk" where
  "write_manifest_atomic env op dir m d =
     (case k_rng d of
        [] \<Rightarrow> (Some (OtherErr ''generate random suffix''), d)
      | suffx # rng \<Rightarrow>
          (let d0 = d\<lparr>k_rng := rng\<rparr>; tmp = temp_name suffx in
           case first_err
             [v_fault env op (SysCreate tmp),
              fail_if (map_of (dir_kids dir d) tmp \<noteq> None) (OtherErr ''exists'')] of
             Some e \<Rightarrow> (Some e, d0)
           | None \<Rightarrow>
               (let d1 = put_file dir tmp (File mode_0600 []) d0 in
                case first_err [v_hook env BeforeManifestTempWrite, v_fault env op (SysWrite tmp)] of
                  Some e \<Rightarrow> (Some e, drop_temp env op dir tmp d1)
                | None \<Rightarrow>
                    (let d2 = put_file dir tmp (File mode_0600 (v_enc env m)) d1 in
                     case first_err
                       [v_hook env AfterManifestTempWrite, v_hook env BeforeManifestTempSync,
                        v_fault env op (SysSync tmp), v_hook env AfterManifestTempSync,
                        v_fault env op (SysClose tmp), v_hook env BeforeManifestPublish,
                        v_fault env op (SysRename tmp ''manifest.json'')] of
                       Some e \<Rightarrow> (Some e, drop_temp env op dir tmp d2)
                     | None \<Rightarrow>
                         (let d3 = rename_file dir tmp ''manifest.json'' d2 in
                          (first_err
                             [v_hook env AfterManifestPublish, v_hook env BeforeManifestDirSync,
                              v_fault env op (SysSync dir), v_hook env AfterManifestDirSync],
                           d3))))))"

section \<open>Prepare\<close>

text \<open>
  \<^verbatim>\<open>copyRegular\<close>: the source must be a bounded regular file; on success the destination
  holds its bytes and the digest of those bytes is returned.  A failed copy removes what it
  had created.
\<close>

definition copy_regular ::
  "store_env \<Rightarrow> string \<Rightarrow> string \<Rightarrow> string \<Rightarrow> nat \<Rightarrow> store_disk \<Rightarrow> (go_err + string) \<times> store_disk" where
  "copy_regular env source dir dest mode d =
     (case first_err [v_fault env OpPrepare (SysOpen source), v_fault env OpPrepare (SysLstat source)] of
        Some e \<Rightarrow> (Inl e, d)
      | None \<Rightarrow>
          (case v_src env source of
             Some (File m data) \<Rightarrow>
               if length data > max_artifact_size
               then (Inl (OtherErr ''source exceeds artifact size limit''), d)
               else (case first_err
                   [v_fault env OpPrepare (SysCreate dest),
                    fail_if (map_of (dir_kids dir d) dest \<noteq> None) (OtherErr ''exists'')] of
                   Some e \<Rightarrow> (Inl e, d)
                 | None \<Rightarrow>
                     (let d1 = put_file dir dest (File mode data) d in
                      case first_err
                        [v_fault env OpPrepare (SysRead source), v_fault env OpPrepare (SysWrite dest),
                         v_fault env OpPrepare (SysChmod dest), v_fault env OpPrepare (SysSync dest),
                         v_fault env OpPrepare (SysClose dest)] of
                        Some e \<Rightarrow> (Inl e, drop_temp env OpPrepare dir dest d1)
                      | None \<Rightarrow> (Inr (v_sha env data), d1)))
           | _ \<Rightarrow> (Inl (OtherErr ''source is not a regular file''), d)))"

text \<open>The manifest as \<^verbatim>\<open>Prepare\<close> publishes it.\<close>

definition sealed_manifest :: "store_env \<Rightarrow> manifest \<Rightarrow> manifest" where
  "sealed_manifest env m =
     m\<lparr>m_version := ManifestVersion, m_effective_uid := v_uid env,
       m_candidate_file := ''candidate'', m_authority_file := ''authority'',
       m_previous_file := (if m_previous_present m then ''previous'' else ''''),
       m_previous_sha := (if m_previous_present m then m_previous_sha m else '''')\<rparr>"

text \<open>The deferred removal of an unpublished transaction.\<close>

definition abandon_next :: "store_env \<Rightarrow> string \<Rightarrow> store_disk \<Rightarrow> store_disk" where
  "abandon_next env next d =
     (case v_fault env OpPrepare (SysRemoveAll next) of Some e \<Rightarrow> d | None \<Rightarrow> del_node next d)"

text \<open>The checks before anything is created.\<close>

definition prepare_checks :: "store_env \<Rightarrow> manifest \<Rightarrow> artifact_sources \<Rightarrow> store_disk \<Rightarrow> go_err option" where
  "prepare_checks env m src d =
     first_err
       [v_fault env OpPrepare (SysLstat ''active''),
        fail_if (get_node ''active'' d \<noteq> None) (Sentinel ErrStateConflict),
        map_option (\<lambda>_. Sentinel ErrStateMalformed)
          (ValidatePrepareTopology (v_os env) (Some (v_root env)) src (Some m)),
        fail_if (\<not> valid_release_id (m_id m)) (Sentinel ErrStateMalformed),
        fail_if (m_state m \<noteq> StatePrepared) (Sentinel ErrStateMalformed),
        fail_if (m_previous_present m \<noteq> (src_previous src \<noteq> '''')) (Sentinel ErrStateMalformed)]"

text \<open>Candidate, authority and previous are copied in that order; the first two digests are
  compared before previous is copied.\<close>

definition copy_artifacts ::
  "store_env \<Rightarrow> manifest \<Rightarrow> artifact_sources \<Rightarrow> string \<Rightarrow> store_disk \<Rightarrow> go_err option \<times> store_disk" where
  "copy_artifacts env m src nxt d =
     (case copy_regular env (src_candidate src) nxt ''candidate'' mode_0500 d of
        (Inl e, d1) \<Rightarrow> (Some e, d1)
      | (Inr ch, d1) \<Rightarrow>
          (case copy_regular env (src_authority src) nxt ''authority'' mode_0500 d1 of
             (Inl e, d2) \<Rightarrow> (Some e, d2)
           | (Inr ah, d2) \<Rightarrow>
               if ch \<noteq> m_candidate_sha m \<or> ah \<noteq> m_authority_sha m
               then (Some (Sentinel ErrArtifactMismatch), d2)
               else if \<not> m_previous_present m then (None, d2)
               else (case copy_regular env (src_previous src) nxt ''previous'' mode_0500 d2 of
                  (Inl e, d3) \<Rightarrow> (Some e, d3)
                | (Inr ph, d3) \<Rightarrow>
                    (fail_if (ph \<noteq> m_previous_sha m) (Sentinel ErrArtifactMismatch), d3))))"

definition next_dir :: "string \<Rightarrow> string" where
  "next_dir i = ''active.next.'' @ i"

definition cleanup_dir :: "string \<Rightarrow> string" where
  "cleanup_dir i = ''cleanup.'' @ i"

text \<open>From the sealed manifest to the published directory.\<close>

definition publish_next ::
  "store_env \<Rightarrow> manifest \<Rightarrow> string \<Rightarrow> store_disk \<Rightarrow> (go_err + manifest) \<times> store_disk" where
  "publish_next env sm nxt d =
     (case first_err
        [map_option (\<lambda>_. Sentinel ErrStateMalformed)
           (ValidateActiveTopology (v_os env) (Some (v_root env)) (Some sm)),
         validate_manifest sm (v_uid env)] of
        Some e \<Rightarrow> (Inl e, abandon_next env nxt d)
      | None \<Rightarrow>
          (case write_manifest_atomic env OpPrepare nxt sm d of
             (Some e, d1) \<Rightarrow> (Inl e, abandon_next env nxt d1)
           | (None, d1) \<Rightarrow>
               (case first_err
                  [v_hook env BeforeActivePublish, v_fault env OpPrepare (SysRename nxt ''active'')] of
                  Some e \<Rightarrow> (Inl e, abandon_next env nxt d1)
                | None \<Rightarrow>
                    (let d2 = rename_node nxt ''active'' d1 in
                     case first_err
                       [v_hook env AfterActivePublish, v_hook env BeforeActiveParentSync,
                        v_fault env OpPrepare (SysSync ''.''), v_hook env AfterActiveParentSync] of
                       Some e \<Rightarrow> (Inl e, d2)
                     | None \<Rightarrow> (Inr sm, d2)))))"

definition Prepare ::
  "store_env \<Rightarrow> locked_store \<Rightarrow> manifest \<Rightarrow> artifact_sources \<Rightarrow> store_disk
     \<Rightarrow> (go_err + manifest) \<times> store_disk" where
  "Prepare env l m src d0 =
     (case lock_valid env OpPrepare l d0 of
        Some e \<Rightarrow> (Inl e, d0)
      | None \<Rightarrow>
          (case ensure_root env OpPrepare d0 of
             (Some e, d) \<Rightarrow> (Inl e, d)
           | (None, d) \<Rightarrow>
               (let nxt = next_dir (m_id m) in
                case first_err
                  [prepare_checks env m src d, v_fault env OpPrepare (SysMkdir nxt),
                   fail_if (get_node nxt d \<noteq> None) (OtherErr ''create next transaction'')] of
                  Some e \<Rightarrow> (Inl e, d)
                | None \<Rightarrow>
                    (case copy_artifacts env m src nxt (put_node nxt (Dir mode_0700 []) d) of
                       (Some e, d1) \<Rightarrow> (Inl e, abandon_next env nxt d1)
                     | (None, d1) \<Rightarrow> publish_next env (sealed_manifest env m) nxt d1))))"

section \<open>Rewrite and clear\<close>

definition Rewrite ::
  "store_env \<Rightarrow> locked_store \<Rightarrow> manifest \<Rightarrow> store_disk \<Rightarrow> go_err option \<times> store_disk" where
  "Rewrite env l m d =
     (case lock_valid env OpRewrite l d of
        Some e \<Rightarrow> (Some e, d)
      | None \<Rightarrow>
          (case load_active env OpRewrite d of
             Inl e \<Rightarrow> (Some e, d)
           | Inr None \<Rightarrow> (Some (Sentinel ErrStateConflict), d)
           | Inr (Some current) \<Rightarrow>
               if m\<lparr>m_state := m_state current\<rparr> \<noteq> current
               then (Some (Sentinel ErrStateConflict), d)
               else (case validate_manifest m (v_uid env) of
                  Some e \<Rightarrow> (Some e, d)
                | None \<Rightarrow> write_manifest_atomic env OpRewrite ''active'' m d)))"

text \<open>
  \<^verbatim>\<open>Clear\<close>: the rename of \<^verbatim>\<open>active/\<close> is the commit point; what fails after it is only
  reported as a warning, except the hook right after the rename.
\<close>

definition clear_warnings ::
  "store_env \<Rightarrow> string \<Rightarrow> store_disk \<Rightarrow> go_err list \<times> store_disk" where
  "clear_warnings env cleanup d =
     (let w1 = (case first_err [v_hook env BeforeClearParentSync, v_fault env OpClear (SysSync ''.''),
                                v_hook env AfterClearParentSync] of
                  Some e \<Rightarrow> [e] | None \<Rightarrow> []) in
      case first_err [v_hook env BeforeClearCleanup, v_fault env OpClear (SysRemoveAll cleanup)] of
        Some e \<Rightarrow> (w1 @ [e], d)
      | None \<Rightarrow>
          (case v_hook env AfterClearCleanup of
             Some e \<Rightarrow> (w1 @ [e], del_node cleanup d)
           | None \<Rightarrow> (w1, del_node cleanup d)))"

text \<open>A stale \<^verbatim>\<open>cleanup.<id>\<close> of an earlier interrupted clear is removed first.\<close>

definition drop_stale_cleanup ::
  "store_env \<Rightarrow> string \<Rightarrow> store_disk \<Rightarrow> go_err option \<times> store_disk" where
  "drop_stale_cleanup env cleanup d =
     (case v_fault env OpClear (SysLstat cleanup) of
        Some e \<Rightarrow> (Some e, d)
      | None \<Rightarrow>
          if get_node cleanup d = None then (None, d)
          else (case v_fault env OpClear (SysRemoveAll cleanup) of
             Some e \<Rightarrow> (Some e, d)
           | None \<Rightarrow> (None, del_node cleanup d)))"

definition Clear ::
  "store_env \<Rightarrow> locked_store \<Rightarrow> string \<Rightarrow> store_disk \<Rightarrow> (go_err + go_err list) \<times> store_disk" where
  "Clear env l i d =
     (case lock_valid env OpClear l d of
        Some e \<Rightarrow> (Inl e, d)
      | None \<Rightarrow>
          (case load_active env OpClear d of
             Inl e \<Rightarrow> (Inl e, d)
           | Inr None \<Rightarrow> (Inl (Sentinel ErrStateConflict), d)
           | Inr (Some current) \<Rightarrow>
               if m_id current \<noteq> i then (Inl (Sentinel ErrStateConflict), d)
               else (case drop_stale_cleanup env (cleanup_dir i) d of
                  (Some e, d1) \<Rightarrow> (Inl e, d1)
                | (None, d1) \<Rightarrow>
                    (case first_err
                       [v_hook env BeforeClearPublish,
                        v_fault env OpClear (SysRename ''active'' (cleanup_dir i))] of
                       Some e \<Rightarrow> (Inl e, d1)
                     | None \<Rightarrow>
                         (let d2 = rename_node ''active'' (cleanup_dir i) d1 in
                          case v_hook env AfterClearPublish of
                            Some e \<Rightarrow> (Inl e, d2)
                          | None \<Rightarrow>
                              (case clear_warnings env (cleanup_dir i) d2 of
                                 (ws, d3) \<Rightarrow> (Inr ws, d3)))))))"

section \<open>The directory as a keyed store\<close>

text \<open>
  The contract both levels of the tree offer their clients, the removal loops and the
  manifest writer: what a lookup returns after an entry was put or deleted, under an
  invariant every operation keeps.
\<close>

locale entry_store =
  fixes ok :: "'d \<Rightarrow> bool"
    and get :: "string \<Rightarrow> 'd \<Rightarrow> node option"
    and put :: "string \<Rightarrow> node \<Rightarrow> 'd \<Rightarrow> 'd"
    and del :: "string \<Rightarrow> 'd \<Rightarrow> 'd"
  assumes get_put: "ok d \<Longrightarrow> get a (put b x d) = (if a = b then Some x else get a d)"
    and get_del: "ok d \<Longrightarrow> get a (del b d) = (if a = b then None else get a d)"
    and ok_put: "ok d \<Longrightarrow> ok (put b x d)"
    and ok_del: "ok d \<Longrightarrow> ok (del b d)"
begin

lemmas entry_laws = get_put get_del ok_put ok_del

lemma get_rename:
  "ok d \<Longrightarrow> a \<noteq> b \<Longrightarrow>
   get n (put b x (del a d)) = (if n = b then Some x else if n = a then None else get n d)"
  by (simp add: entry_laws)

text \<open>A loop that deletes the entries its predicate selects, until a deletion is refused.\<close>

lemma removal_loop:
  assumes step: "\<And>n ns d. loop (n # ns) d =
      (if P n then (case refuse n of Some e \<Rightarrow> (Some e, d) | None \<Rightarrow> loop ns (del n d))
       else loop ns d)"
    and stop: "\<And>d. loop [] d = (None, d)"
    and ok: "ok d"
  shows "ok (snd (loop ns d)) \<and> (\<not> P a \<longrightarrow> get a (snd (loop ns d)) = get a d) \<and>
    (get a (snd (loop ns d)) = None \<or> get a (snd (loop ns d)) = get a d) \<and>
    (fst (loop ns d) = None \<and> P a \<and> (a \<in> set ns \<or> get a d = None)
       \<longrightarrow> get a (snd (loop ns d)) = None)"
  using ok
proof (induction ns arbitrary: d)
  case Nil
  then show ?case by (simp add: stop)
next
  case (Cons n ns)
  show ?case
  proof (cases "P n")
    case False
    with Cons.IH[OF Cons.prems] show ?thesis by (auto simp: step)
  next
    case True
    show ?thesis
    proof (cases "refuse n")
      case (Some e)
      with True Cons.prems show ?thesis by (simp add: step)
    next
      case None
      have l: "loop (n # ns) d = loop ns (del n d)" using True None by (simp add: step)
      have ok': "ok (del n d)" using Cons.prems by (rule ok_del)
      have "get a (del n d) = (if a = n then None else get a d)"
        using Cons.prems by (rule get_del)
      with Cons.IH[OF ok'] True show ?thesis unfolding l by (cases "a = n") auto
    qed
  qed
qed

end

definition file_at :: "string \<Rightarrow> string \<Rightarrow> store_disk \<Rightarrow> node option" where
  "file_at dir n d = map_of (dir_kids dir d) n"

definition is_dir :: "string \<Rightarrow> store_disk \<Rightarrow> bool" where
  "is_dir dir d \<longleftrightarrow> (\<exists>m ks. get_node dir d = Some (Dir m ks))"

definition dir_mode :: "string \<Rightarrow> store_disk \<Rightarrow> nat option" where
  "dir_mode dir d = (case get_node dir d of Some (Dir m ks) \<Rightarrow> Some m | _ \<Rightarrow> None)"

lemma get_node_put [simp]: "get_node a (put_node b x d) = (if a = b then Some x else get_node a d)"
  by (simp add: get_node_def put_node_def update_conv')

lemma get_node_del [simp]: "get_node a (del_node b d) = (if a = b then None else get_node a d)"
  by (simp add: get_node_def del_node_def delete_conv')

lemma get_node_rng [simp]: "get_node a (d\<lparr>k_rng := r\<rparr>) = get_node a d"
  by (simp add: get_node_def)

lemma get_node_set_kids [simp]:
  "get_node a (set_kids dir ks d) =
     (if a = dir then map_option (\<lambda>x. case x of Dir m _ \<Rightarrow> Dir m ks | _ \<Rightarrow> x) (get_node a d)
      else get_node a d)"
  by (auto simp: set_kids_def split: option.splits node.splits)

lemma dir_kids_set_kids [simp]:
  "dir_kids a (set_kids dir ks d) = (if a = dir \<and> is_dir dir d then ks else dir_kids a d)"
  by (auto simp: dir_kids_def is_dir_def split: option.splits node.splits)

lemma is_dir_set_kids [simp]: "is_dir a (set_kids dir ks d) = is_dir a d"
proof (cases "get_node dir d")
  case None
  then show ?thesis by (auto simp: is_dir_def)
next
  case (Some x)
  then show ?thesis by (cases x) (auto simp: is_dir_def)
qed

lemma file_at_put_file:
  "is_dir dir d \<Longrightarrow> file_at dir a (put_file dir b x d) = (if a = b then Some x else file_at dir a d)"
  by (simp add: file_at_def put_file_def update_conv')

lemma file_at_del_file:
  "is_dir dir d \<Longrightarrow> file_at dir a (del_file dir b d) = (if a = b then None else file_at dir a d)"
  by (simp add: file_at_def del_file_def delete_conv')

lemma is_dir_put_del_file [simp]:
  "is_dir a (put_file dir n x d) = is_dir a d" "is_dir a (del_file dir n d) = is_dir a d"
  by (simp_all add: put_file_def del_file_def)

lemma is_dir_rng [simp]: "is_dir a (d\<lparr>k_rng := r\<rparr>) = is_dir a d"
  by (simp add: is_dir_def)

lemma file_at_rng [simp]: "file_at dir a (d\<lparr>k_rng := r\<rparr>) = file_at dir a d"
  by (simp add: file_at_def dir_kids_def)

text \<open>The root directory and the active directory both keep the contract.\<close>

interpretation root_entries: entry_store "\<lambda>_. True" get_node put_node del_node
  by unfold_locales auto

interpretation active_files: entry_store "is_dir ''active''" "file_at ''active''"
    "put_file ''active''" "del_file ''active''"
  by unfold_locales (simp_all add: file_at_put_file file_at_del_file)

section \<open>What the manifest writer touches\<close>

text \<open>
  \<open>manifest_frame dir d d'\<close>: between \<open>d\<close> and \<open>d'\<close> only the manifest and manifest
  temporaries inside \<open>dir\<close> changed.
\<close>

definition manifest_frame :: "string \<Rightarrow> store_disk \<Rightarrow> store_disk \<Rightarrow> bool" where
  "manifest_frame dir d d' \<longleftrightarrow>
     (\<forall>n. n \<noteq> dir \<longrightarrow> get_node n d' = get_node n d) \<and> dir_mode dir d' = dir_mode dir d \<and>
     is_dir dir d' = is_dir dir d \<and>
     (\<forall>n. n \<noteq> ''manifest.json'' \<and> \<not> manifest_temp n \<longrightarrow> file_at dir n d' = file_at dir n d) \<and>
     k_root d' = k_root d \<and> k_lock d' = k_lock d \<and> k_flock d' = k_flock d \<and>
     k_next_ino d' = k_next_ino d"

lemma manifest_frame_refl [simp]: "manifest_frame dir d d"
  by (simp add: manifest_frame_def)

lemma manifest_frame_trans:
  "manifest_frame dir d e \<Longrightarrow> manifest_frame dir e f \<Longrightarrow> manifest_frame dir d f"
  by (simp add: manifest_frame_def)

lemma set_kids_other [simp]:
  "k_root (set_kids dir ks d) = k_root d" "k_lock (set_kids dir ks d) = k_lock d"
  "k_flock (set_kids dir ks d) = k_flock d" "k_next_ino (set_kids dir ks d) = k_next_ino d"
  "k_rng (set_kids dir ks d) = k_rng d"
  by (auto simp: set_kids_def put_node_def split: option.splits node.splits)

lemma dir_mode_set_kids [simp]: "dir_mode a (set_kids dir ks d) = dir_mode a d"
  by (auto simp: dir_mode_def split: option.splits node.splits)

lemma manifest_frame_files:
  assumes "is_dir dir d" "manifest_temp n"
  shows "manifest_frame dir d (put_file dir n x d)" "manifest_frame dir d (del_file dir n d)"
  using assms
  by (auto simp: manifest_frame_def file_at_put_file file_at_del_file)
    (auto simp: put_file_def del_file_def)

lemma manifest_frame_rng: "manifest_frame dir d (d\<lparr>k_rng := r\<rparr>)"
  by (simp add: manifest_frame_def dir_mode_def)

lemma temp_name_temp [simp]: "manifest_temp (temp_name s)"
  by (auto simp: manifest_temp_def temp_name_def suffix_def intro: exI[of _ "''.manifest.'' @ s"])

lemma temp_not_manifest [simp]: "manifest_temp n \<Longrightarrow> n \<noteq> ''manifest.json''"
  by (auto simp: manifest_temp_def)

lemma rename_file_at:
  assumes "is_dir dir d" "file_at dir a d = Some x" "a \<noteq> b"
  shows "file_at dir n (rename_file dir a b d) =
      (if n = b then Some x else if n = a then None else file_at dir n d)"
    "is_dir dir (rename_file dir a b d)"
  using assms by (auto simp: rename_file_def file_at_def update_conv' delete_conv')

lemma manifest_frame_rename:
  assumes "is_dir dir d" "file_at dir n d = Some x" "manifest_temp n"
  shows "manifest_frame dir d (rename_file dir n ''manifest.json'' d)"
  using assms rename_file_at[OF assms(1,2), of "''manifest.json''"]
  by (auto simp: manifest_frame_def) (auto simp: rename_file_def file_at_def)

lemma manifest_frame_drop:
  "is_dir dir d \<Longrightarrow> manifest_temp n \<Longrightarrow> manifest_frame dir d (drop_temp env op dir n d)"
  by (auto simp: drop_temp_def manifest_frame_files split: option.split)

lemma file_at_drop:
  "is_dir dir d \<Longrightarrow> a \<noteq> n \<Longrightarrow> file_at dir a (drop_temp env op dir n d) = file_at dir a d"
  by (auto simp: drop_temp_def file_at_del_file split: option.split)

text \<open>
  The writer: whatever fails, nothing but the manifest and temporaries of its directory
  changes, and the manifest is either the old file or, in full, the new one.
\<close>

lemma write_manifest_outcome:
  assumes dir: "is_dir dir d" and w: "write_manifest_atomic env op dir m d = (r, d')"
  shows "manifest_frame dir d d' \<and>
    (file_at dir ''manifest.json'' d' = Some (File mode_0600 (v_enc env m)) \<or>
     r \<noteq> None \<and> file_at dir ''manifest.json'' d' = file_at dir ''manifest.json'' d)"
proof (cases "k_rng d")
  case Nil
  with w show ?thesis by (auto simp: write_manifest_atomic_def)
next
  case (Cons suffx rng)
  let ?t = "temp_name suffx"
  let ?d0 = "d\<lparr>k_rng := rng\<rparr>"
  let ?d1 = "put_file dir ?t (File mode_0600 []) ?d0"
  let ?d2 = "put_file dir ?t (File mode_0600 (v_enc env m)) ?d1"
  let ?d3 = "rename_file dir ?t ''manifest.json'' ?d2"
  have f0: "manifest_frame dir d ?d0" by (rule manifest_frame_rng)
  have f1: "manifest_frame dir d ?d1"
    using f0 dir by (rule_tac manifest_frame_trans[OF f0]) (simp add: manifest_frame_files)
  have f2: "manifest_frame dir d ?d2"
    using dir by (rule_tac manifest_frame_trans[OF f1]) (simp add: manifest_frame_files)
  have t2: "file_at dir ?t ?d2 = Some (File mode_0600 (v_enc env m))"
    using dir by (simp add: file_at_put_file)
  have f3: "manifest_frame dir d ?d3"
    using dir t2 by (rule_tac manifest_frame_trans[OF f2]) (simp add: manifest_frame_rename)
  have m3: "file_at dir ''manifest.json'' ?d3 = Some (File mode_0600 (v_enc env m))"
    using dir t2 by (simp add: rename_file_at)
  have ne: "''manifest.json'' \<noteq> ?t"
    using temp_not_manifest[OF temp_name_temp[of suffx]] by metis
  have dr: "manifest_frame dir d (drop_temp env op dir ?t e) \<and>
      file_at dir ''manifest.json'' (drop_temp env op dir ?t e) = file_at dir ''manifest.json'' d"
    if "e = ?d1 \<or> e = ?d2" for e
  proof -
    from that f1 f2 have e: "manifest_frame dir d e" by blast
    from that dir have de: "is_dir dir e" by auto
    have "file_at dir ''manifest.json'' e = file_at dir ''manifest.json'' d"
      using that dir ne by (auto simp: file_at_put_file)
    with de e ne show ?thesis
      using manifest_frame_trans[OF e manifest_frame_drop[OF de]] by (simp add: file_at_drop)
  qed
  from w Cons f0 dr m3 f3 show ?thesis
    by (auto simp: write_manifest_atomic_def Let_def split: option.splits) metis+
qed

section \<open>Loading again after a write\<close>

lemma first_err_Cons: "first_err (a # as) = None \<longleftrightarrow> a = None \<and> first_err as = None"
  by (cases a) auto

lemma load_active_Some_iff:
  "load_active env op d = Inr (Some m) \<longleftrightarrow>
     v_fault env op (SysLstat ''active'') = None \<and> dir_mode ''active'' d = Some mode_0700 \<and>
     (\<exists>data. read_regular env op ''active'' ''manifest.json'' mode_0600 max_manifest_size d = Inr data \<and>
        v_dec env data = Some m) \<and>
     load_checks env op m d = None"
  by (auto simp: load_active_def dir_mode_def split: option.splits node.splits sum.splits)

lemma load_active_None_iff:
  "load_active env op d = Inr None \<longleftrightarrow>
     v_fault env op (SysLstat ''active'') = None \<and> get_node ''active'' d = None"
  by (auto simp: load_active_def split: option.splits node.splits sum.splits if_splits)

lemma read_regular_same:
  assumes "file_at dir n d' = file_at dir n d"
  shows "read_regular env op dir n mode limit d' = read_regular env op dir n mode limit d"
  unfolding read_regular_def using assms[unfolded file_at_def] by (simp only:)

lemma read_regular_frame:
  assumes "manifest_frame dir d d'" "n \<noteq> ''manifest.json''" "\<not> manifest_temp n"
  shows "read_regular env op dir n mode limit d' = read_regular env op dir n mode limit d"
  by (rule read_regular_same) (use assms in \<open>simp add: manifest_frame_def\<close>)

lemma artifact_names:
  "\<not> manifest_temp ''candidate''" "\<not> manifest_temp ''authority''" "\<not> manifest_temp ''previous''"
  by (simp_all add: manifest_temp_def)

lemma load_checks_frame:
  "manifest_frame ''active'' d d' \<Longrightarrow> load_checks env op m d' = load_checks env op m d"
  by (simp add: load_checks_def validate_artifact_def read_regular_frame artifact_names)

lemma active_artifacts_set_state [simp]:
  "active_artifacts (m\<lparr>m_state := s\<rparr>) = active_artifacts m"
  by (simp add: active_artifacts_def)

lemma operational_roles_set_state [simp]:
  "operational_roles (m\<lparr>m_state := s\<rparr>) = operational_roles m"
  by (simp add: operational_roles_def base_roles_def)

lemma runtime_topology_set_state [simp]:
  "validate_runtime_topology os root (m\<lparr>m_state := s\<rparr>) = validate_runtime_topology os root m"
  unfolding validate_runtime_topology_def operational_roles_set_state ..

lemma topology_set_state [simp]:
  "ValidateActiveTopology os st (Some (m\<lparr>m_state := s\<rparr>)) = ValidateActiveTopology os st (Some m)"
  unfolding ValidateActiveTopology_def
  by (cases st) (simp_all only: prod.case option.case active_artifacts_set_state
      runtime_topology_set_state)

lemma load_checks_set_state:
  assumes "load_checks env op cur d = None" "m\<lparr>m_state := m_state cur\<rparr> = cur"
    "validate_manifest m (v_uid env) = None"
  shows "load_checks env op m d = None"
proof -
  have m: "m = cur\<lparr>m_state := m_state m\<rparr>" using assms(2) by (metis manifest.surjective manifest.update_convs(2))
  have t: "ValidateActiveTopology (v_os env) (Some (v_root env)) (Some m) =
      ValidateActiveTopology (v_os env) (Some (v_root env)) (Some cur)"
    by (subst m) (rule topology_set_state)
  have sel: "m_candidate_file m = m_candidate_file cur" "m_candidate_sha m = m_candidate_sha cur"
    "m_authority_file m = m_authority_file cur" "m_authority_sha m = m_authority_sha cur"
    "m_previous_present m = m_previous_present cur" "m_previous_file m = m_previous_file cur"
    "m_previous_sha m = m_previous_sha cur"
    by (subst m, simp)+
  from assms(1,3) show ?thesis
    by (auto simp: load_checks_def first_err_Cons sel t split: if_splits)
qed

text \<open>The outcome of a rewrite, for the manifest a fault-free reader sees.\<close>

lemma Rewrite_cases:
  assumes "Rewrite env l m d = (r, d')"
  shows "d' = d \<and> r \<noteq> None \<or>
    (\<exists>cur. load_active env OpRewrite d = Inr (Some cur) \<and> m\<lparr>m_state := m_state cur\<rparr> = cur \<and>
       lock_valid env OpRewrite l d = None \<and>
       validate_manifest m (v_uid env) = None \<and>
       write_manifest_atomic env OpRewrite ''active'' m d = (r, d'))"
  using assms by (auto simp: Rewrite_def split: option.splits sum.splits if_splits) metis+

lemma read_manifest_same:
  "read_regular env op ''active'' n mode lim d = Inr data \<Longrightarrow>
   read_regular env op' ''active'' n mode lim d = Inr data' \<Longrightarrow> data' = data"
  by (auto simp: read_regular_def split: option.splits node.splits if_splits)

lemma load_same:
  "load_active env op d = Inr (Some a) \<Longrightarrow> load_active env op' d = Inr (Some b) \<Longrightarrow> a = b"
  using read_manifest_same by (fastforce simp: load_active_Some_iff)

lemma rewrite_atomic_aux:
  assumes old: "load_active env OpLoad d = Inr (Some old)"
    and codec: "v_dec env (v_enc env m) = Some m" "length (v_enc env m) \<le> max_manifest_size"
    and run: "Rewrite env l m d = (r, d')"
  shows "(load_active env OpLoad d' = Inr (Some m) \<and> m\<lparr>m_state := m_state old\<rparr> = old) \<or>
    (r \<noteq> None \<and> load_active env OpLoad d' = Inr (Some old))"
  using Rewrite_cases[OF run]
proof
  assume "d' = d \<and> r \<noteq> None"
  with old show ?thesis by simp
next
  assume "\<exists>cur. load_active env OpRewrite d = Inr (Some cur) \<and> m\<lparr>m_state := m_state cur\<rparr> = cur \<and>
       lock_valid env OpRewrite l d = None \<and>
       validate_manifest m (v_uid env) = None \<and>
       write_manifest_atomic env OpRewrite ''active'' m d = (r, d')"
  then have same: "m\<lparr>m_state := m_state old\<rparr> = old" and v: "validate_manifest m (v_uid env) = None"
    and w: "write_manifest_atomic env OpRewrite ''active'' m d = (r, d')"
    using load_same[OF old] by auto
  from old have o: "v_fault env OpLoad (SysLstat ''active'') = None"
      "dir_mode ''active'' d = Some mode_0700" "load_checks env OpLoad old d = None"
    and rd: "\<exists>data. read_regular env OpLoad ''active'' ''manifest.json'' mode_0600 max_manifest_size d
        = Inr data \<and> v_dec env data = Some old"
    by (auto simp: load_active_Some_iff)
  then have dir: "is_dir ''active'' d" by (auto simp: dir_mode_def is_dir_def split: option.splits node.splits)
  from write_manifest_outcome[OF dir w]
  have fr: "manifest_frame ''active'' d d'"
    and fl: "file_at ''active'' ''manifest.json'' d' = Some (File mode_0600 (v_enc env m)) \<or>
      r \<noteq> None \<and> file_at ''active'' ''manifest.json'' d' = file_at ''active'' ''manifest.json'' d"
    by auto
  from fr o have o': "dir_mode ''active'' d' = Some mode_0700" by (simp add: manifest_frame_def)
  note lc = load_checks_frame[OF fr]
  from fl show ?thesis
  proof
    assume f: "file_at ''active'' ''manifest.json'' d' = Some (File mode_0600 (v_enc env m))"
    have "read_regular env OpLoad ''active'' ''manifest.json'' mode_0600 max_manifest_size d'
        = Inr (v_enc env m)"
      using f rd codec(2)
      by (auto simp: read_regular_def file_at_def split: option.splits node.splits if_splits)
    with o o' codec(1) lc load_checks_set_state[OF o(3) same v] same show ?thesis
      by (simp add: load_active_Some_iff)
  next
    assume f: "r \<noteq> None \<and> file_at ''active'' ''manifest.json'' d' = file_at ''active'' ''manifest.json'' d"
    then have "read_regular env OpLoad ''active'' ''manifest.json'' mode_0600 max_manifest_size d'
        = read_regular env OpLoad ''active'' ''manifest.json'' mode_0600 max_manifest_size d"
      by (blast intro: read_regular_same)
    with o o' rd lc f show ?thesis by (simp add: load_active_Some_iff)
  qed
qed

section \<open>Clearing\<close>

lemma next_cleanup_names [simp]:
  "next_dir i \<noteq> ''active''" "cleanup_dir i \<noteq> ''active''"
  "''active'' \<noteq> next_dir i" "''active'' \<noteq> cleanup_dir i"
  by (simp_all add: next_dir_def cleanup_dir_def)

lemma drop_stale_active:
  "drop_stale_cleanup env (cleanup_dir i) d = (r, d') \<Longrightarrow>
   get_node ''active'' d' = get_node ''active'' d"
  by (auto simp: drop_stale_cleanup_def split: option.splits if_splits)

lemma clear_warnings_active:
  "get_node ''active'' (snd (clear_warnings env (cleanup_dir i) d)) = get_node ''active'' d"
  by (auto simp: clear_warnings_def Let_def split: option.splits)

lemma Clear_outcome:
  assumes run: "Clear env l i d = (r, d')"
  shows "(get_node ''active'' d' = None \<and>
      (\<exists>cur. load_active env OpClear d = Inr (Some cur) \<and> m_id cur = i)) \<or>
    ((\<exists>e. r = Inl e) \<and> get_node ''active'' d' = get_node ''active'' d)"
proof (cases "lock_valid env OpClear l d")
  case (Some e)
  with run show ?thesis by (auto simp: Clear_def)
next
  case lock: None
  consider (bad) "\<not> (\<exists>cur. load_active env OpClear d = Inr (Some cur) \<and> m_id cur = i)"
    | (good) cur where "load_active env OpClear d = Inr (Some cur)" "m_id cur = i" by blast
  then show ?thesis
  proof cases
    case bad
    with run lock show ?thesis
      by (auto simp: Clear_def split: option.splits sum.splits if_splits)
  next
    case (good cur)
    obtain r1 d1 where dr: "drop_stale_cleanup env (cleanup_dir i) d = (r1, d1)" by fastforce
    from drop_stale_active[OF dr] have a1: "get_node ''active'' d1 = get_node ''active'' d" .
    have a2: "get_node ''active'' (rename_node ''active'' (cleanup_dir i) d1) = None"
      by (auto simp: rename_node_def split: option.split)
    have a3: "get_node ''active''
        (snd (clear_warnings env (cleanup_dir i) (rename_node ''active'' (cleanup_dir i) d1))) = None"
      by (simp add: clear_warnings_active a2)
    from run lock good dr a1 a2 a3 show ?thesis
      by (auto simp: Clear_def Let_def split: option.splits prod.splits)
  qed
qed

end
