(* ===== verification/ReleaseStoreSafety.thy ===== *)
theory ReleaseStoreSafety
  imports ReleaseStore
begin

text \<open>
  What the durable slot promises its controller: the lock excludes a second process, what
  is loaded has been authenticated, a transaction is published whole or not at all, a
  rewrite leaves the old or the new manifest, clearing has one commit point, and removing
  orphans never touches the authority.  Every statement quantifies over the failures
  \<open>v_hook\<close> and \<open>v_fault\<close> may inject.
\<close>

section \<open>Samples\<close>

definition sample_os :: os_view where
  "sample_os =
     \<lparr>os_eval_symlinks = (\<lambda>p. OsOk p),
      os_stat = (\<lambda>p. if p = ''/src/c'' then OsOk (1, 1) else if p = ''/src/a'' then OsOk (1, 2)
                     else if p = ''/opt/gateway'' then OsOk (1, 3) else OsNotExist)\<rparr>"

definition sample_digest :: "string \<Rightarrow> string" where
  "sample_digest data = (case data of [] \<Rightarrow> '''' | c # _ \<Rightarrow> sample_sha c)"

definition sample_enc :: "manifest \<Rightarrow> string" where
  "sample_enc m =
     (case m_state m of StatePrepared \<Rightarrow> ''P'' | StateAccepting \<Rightarrow> ''A'' | StateRollingBack \<Rightarrow> ''R''
      | _ \<Rightarrow> ''X'')"

definition sample_dec :: "string \<Rightarrow> manifest option" where
  "sample_dec s =
     (if s = ''P'' then Some sample_manifest
      else if s = ''A'' then Some (sample_manifest\<lparr>m_state := StateAccepting\<rparr>)
      else if s = ''R'' then Some (sample_manifest\<lparr>m_state := StateRollingBack\<rparr>)
      else if s = ''X'' then Some (sample_manifest\<lparr>m_state := StatePending\<rparr>) else None)"

definition sample_env :: store_env where
  "sample_env =
     \<lparr>v_root = ''/store'', v_uid = 501, v_hook = (\<lambda>_. None), v_fault = (\<lambda>_ _. None),
      v_sha = sample_digest, v_enc = sample_enc, v_dec = sample_dec, v_os = sample_os,
      v_src = (\<lambda>p. if p = ''/src/c'' then Some (File mode_0500 ''a-binary'')
                   else if p = ''/src/a'' then Some (File mode_0500 ''b-binary'')
                   else if p = ''/opt/gateway'' then Some (File mode_0500 ''e-binary'') else None)\<rparr>"

definition sample_active :: node where
  "sample_active =
     Dir mode_0700 [(''manifest.json'', File mode_0600 ''P''), (''candidate'', File mode_0500 ''a-binary''),
       (''authority'', File mode_0500 ''b-binary''), (''previous'', File mode_0500 ''e-binary'')]"

definition sample_disk :: store_disk where
  "sample_disk =
     \<lparr>k_root = RootDir mode_0700, k_kids = [(''active'', sample_active)],
      k_lock = LockFile 0 mode_0600, k_flock = True, k_next_ino = 1, k_rng = [''r1'', ''r2'']\<rparr>"

definition sample_lock :: locked_store where
  "sample_lock = \<lparr>l_ino = Some 0\<rparr>"

lemmas sample_defs = sample_env_def sample_os_def sample_disk_def sample_lock_def sample_active_def

lemma sample_canonical:
  "canonicalize_allow_missing sample_os p =
     (if is_abs p then Inr (path_clean p) else Inl (OtherErr ''path is not absolute''))"
  by (simp add: canonicalize_allow_missing_def sample_os_def is_abs_clean path_clean_idem Let_def)

lemma sample_topology:
  "ValidateActiveTopology sample_os (Some ''/store'') (Some sample_manifest) = None"
  by code_simp

lemma sample_modes [simp]: "mode_0500 = 320" "mode_0600 = 384" "mode_0700 = 448"
    "max_artifact_size = 268435456" "max_manifest_size = 1048576"
  by (simp_all add: modes max_artifact_size_def max_manifest_size_def)

lemma sample_fields [simp]:
  "m_version sample_manifest = ManifestVersion" "m_state sample_manifest = StatePrepared"
  "m_id sample_manifest = sample_sha CHR ''1''" "m_effective_uid sample_manifest = 501"
  "m_candidate_file sample_manifest = ''candidate''" "m_authority_file sample_manifest = ''authority''"
  "m_previous_file sample_manifest = ''previous''" "m_previous_present sample_manifest"
  "m_candidate_sha sample_manifest = sample_sha CHR ''a''"
  "m_authority_sha sample_manifest = sample_sha CHR ''b''"
  "m_previous_sha sample_manifest = sample_sha CHR ''e''"
  "ValidLaunchAgentLabel (m_label sample_manifest)"
  "valid_release_id (sample_sha CHR ''1'')"
  by (simp_all add: sample_manifest_def ManifestVersion_def valid_release_id_def lower_hex_def) code_simp

lemma sample_validate [simp]:
  "is_active_state s \<Longrightarrow> validate_manifest (sample_manifest\<lparr>m_state := s\<rparr>) 501 = None"
  "validate_manifest sample_manifest 501 = None"
  by (auto simp: validate_manifest_def lower_hex_def)

lemma sample_load: "load_active sample_env OpLoad sample_disk = Inr (Some sample_manifest)"
  using sample_topology
  by (simp add: load_active_Some_iff dir_mode_def get_node_def read_regular_def dir_kids_def
     load_checks_def first_err_Cons validate_artifact_def sample_env_def sample_disk_def
     sample_active_def sample_dec_def sample_digest_def)

lemma sample_lock_valid [simp]: "lock_valid sample_env op sample_lock sample_disk = None"
  by (simp add: lock_valid_def validate_open_lock_def sample_lock_def sample_disk_def sample_env_def)

section \<open>What a load depends on\<close>

definition same_authority :: "store_disk \<Rightarrow> store_disk \<Rightarrow> bool" where
  "same_authority d d' \<longleftrightarrow>
     (get_node ''active'' d' = None \<longleftrightarrow> get_node ''active'' d = None) \<and>
     dir_mode ''active'' d' = dir_mode ''active'' d \<and>
     (\<forall>n. \<not> manifest_temp n \<longrightarrow> file_at ''active'' n d' = file_at ''active'' n d)"

lemma load_active_alt:
  "load_active env op d =
     (case v_fault env op (SysLstat ''active'') of
        Some e \<Rightarrow> Inl e
      | None \<Rightarrow>
          if get_node ''active'' d = None then Inr None
          else if dir_mode ''active'' d \<noteq> Some mode_0700 then Inl (Sentinel ErrStateMalformed)
          else (case read_regular env op ''active'' ''manifest.json'' mode_0600 max_manifest_size d of
             Inl e \<Rightarrow> Inl (Sentinel ErrStateMalformed)
           | Inr data \<Rightarrow>
               (case v_dec env data of
                  None \<Rightarrow> Inl (Sentinel ErrStateMalformed)
                | Some m \<Rightarrow>
                    (case load_checks env op m d of Some e \<Rightarrow> Inl e | None \<Rightarrow> Inr (Some m)))))"
  by (auto simp: load_active_def dir_mode_def split: option.split node.split)

lemma load_active_same:
  assumes "same_authority d d'"
  shows "load_active env op d' = load_active env op d"
proof -
  have rd: "read_regular env op ''active'' n mode lim d' = read_regular env op ''active'' n mode lim d"
    if "\<not> manifest_temp n" for n mode lim
    using assms that by (intro read_regular_same) (simp add: same_authority_def)
  have mt: "\<not> manifest_temp ''manifest.json''" by (simp add: manifest_temp_def)
  have lc: "load_checks env op m d' = load_checks env op m d" for m
    by (simp add: load_checks_def validate_artifact_def rd artifact_names)
  have gn: "(get_node ''active'' d' = None) = (get_node ''active'' d = None)"
    and dm: "dir_mode ''active'' d' = dir_mode ''active'' d"
    using assms by (simp_all add: same_authority_def)
  show ?thesis unfolding load_active_alt lc rd[OF mt] gn dm ..
qed

section \<open>Loading\<close>

text \<open>The immutable artifact \<open>name\<close> is in \<open>dir\<close>, bounded, read-only and with digest \<open>sha\<close>.\<close>

definition has_artifact :: "store_env \<Rightarrow> string \<Rightarrow> string \<Rightarrow> string \<Rightarrow> store_disk \<Rightarrow> bool" where
  "has_artifact env dir name sha d \<longleftrightarrow>
     (\<exists>data. file_at dir name d = Some (File mode_0500 data) \<and> length data \<le> max_artifact_size \<and>
        v_sha env data = sha)"

definition has_artifacts :: "store_env \<Rightarrow> string \<Rightarrow> manifest \<Rightarrow> store_disk \<Rightarrow> bool" where
  "has_artifacts env dir m d \<longleftrightarrow>
     has_artifact env dir ''candidate'' (m_candidate_sha m) d \<and>
     has_artifact env dir ''authority'' (m_authority_sha m) d \<and>
     (m_previous_present m \<longrightarrow> has_artifact env dir ''previous'' (m_previous_sha m) d)"

lemma read_regular_Inr:
  "read_regular env op dir n mode lim d = Inr data \<longleftrightarrow>
     v_fault env op (SysOpen (dir @ ''/'' @ n)) = None \<and>
     v_fault env op (SysRead (dir @ ''/'' @ n)) = None \<and>
     file_at dir n d = Some (File mode data) \<and> length data \<le> lim"
  by (auto simp: read_regular_def file_at_def first_err_None split: option.splits node.splits)

lemma validate_artifact_None:
  "validate_artifact env op recorded name want d = None \<longleftrightarrow>
     recorded = name \<and> has_artifact env ''active'' name want d \<and>
     v_fault env op (SysOpen (''active/'' @ name)) = None \<and>
     v_fault env op (SysRead (''active/'' @ name)) = None"
proof -
  have "validate_artifact env op recorded name want d = None \<longleftrightarrow>
      recorded = name \<and> (\<exists>data. read_regular env op ''active'' name mode_0500 max_artifact_size d
        = Inr data \<and> v_sha env data = want)"
    by (auto simp: validate_artifact_def split: sum.splits)
  then show ?thesis by (auto simp: read_regular_Inr has_artifact_def)
qed

lemma validate_manifest_None:
  "validate_manifest m uid = None \<Longrightarrow>
     m_version m = ManifestVersion \<and> m_effective_uid m = uid \<and> ValidateSnapshot (Some m) = None"
  by (auto simp: validate_manifest_def split: if_splits option.splits)

lemma load_checks_None:
  assumes "load_checks env op m d = None"
  shows "m_version m = ManifestVersion \<and> m_effective_uid m = v_uid env \<and>
    ValidateSnapshot (Some m) = None \<and> has_artifacts env ''active'' m d"
  using assms validate_manifest_None[of m "v_uid env"]
  by (auto simp: load_checks_def first_err_Cons validate_artifact_None has_artifacts_def)

text \<open>C8. What \<^verbatim>\<open>Load\<close> hands to an effectful caller has been authenticated: the permanent
  lock file is still the one that was locked, the manifest has the current version, the
  store's owner and a valid shape, and every artifact it names lies in \<^verbatim>\<open>active/\<close> with mode
  0500 and the recorded SHA-256.\<close>

theorem load_authenticates:
  assumes "Load env l d = Inr (Some m)"
  shows "(\<exists>ino. l_ino l = Some ino \<and> k_lock d = LockFile ino mode_0600) \<and>
    dir_mode ''active'' d = Some mode_0700 \<and>
    m_version m = ManifestVersion \<and> m_effective_uid m = v_uid env \<and>
    ValidateSnapshot (Some m) = None \<and> has_artifacts env ''active'' m d"
proof -
  from assms have lock: "lock_valid env OpLoad l d = None"
    and load: "load_active env OpLoad d = Inr (Some m)"
    by (auto simp: Load_def split: option.splits)
  from lock have "\<exists>ino. l_ino l = Some ino \<and> k_lock d = LockFile ino mode_0600"
    by (auto simp: lock_valid_def validate_open_lock_def split: option.splits lock_node.splits if_splits)
  with load load_checks_None[of env OpLoad m d] show ?thesis
    by (auto simp: load_active_Some_iff)
qed

theorem load_authenticates_witness:
  "m_effective_uid sample_manifest = 501 \<and>
   has_artifacts sample_env ''active'' sample_manifest sample_disk"
proof -
  have "Load sample_env sample_lock sample_disk = Inr (Some sample_manifest)"
    using sample_load by (simp add: Load_def)
  from load_authenticates[OF this] show ?thesis by (simp add: sample_env_def)
qed

section \<open>Rewriting\<close>

text \<open>C7. A rewrite is atomic against every fault: when the encoder and decoder agree on the new
  manifest and it fits the size limit, the slot afterwards loads as the new manifest, which
  differs from the old one in its state alone, or the rewrite reports an error and the slot
  still loads as the old one.  A rewrite that reports success has published the new one.\<close>

theorem rewrite_atomic:
  assumes "load_active env OpLoad d = Inr (Some old)"
    and "v_dec env (v_enc env m) = Some m" "length (v_enc env m) \<le> max_manifest_size"
    and "Rewrite env l m d = (r, d')"
  shows "(load_active env OpLoad d' = Inr (Some m) \<and> m\<lparr>m_state := m_state old\<rparr> = old) \<or>
    (r \<noteq> None \<and> load_active env OpLoad d' = Inr (Some old))"
  using assms by (rule rewrite_atomic_aux)

theorem rewrite_atomic_witness:
  "\<exists>r d'. Rewrite sample_env sample_lock (sample_manifest\<lparr>m_state := StatePending\<rparr>) sample_disk
      = (r, d') \<and>
    (load_active sample_env OpLoad d' = Inr (Some (sample_manifest\<lparr>m_state := StatePending\<rparr>)) \<or>
     load_active sample_env OpLoad d' = Inr (Some sample_manifest))"
proof -
  let ?m = "sample_manifest\<lparr>m_state := StatePending\<rparr>"
  obtain r d' where run: "Rewrite sample_env sample_lock ?m sample_disk = (r, d')" by fastforce
  have "v_dec sample_env (v_enc sample_env ?m) = Some ?m"
    "length (v_enc sample_env ?m) \<le> max_manifest_size"
    by (simp_all add: sample_env_def sample_enc_def sample_dec_def)
  from rewrite_atomic[OF sample_load this run] run show ?thesis by blast
qed

section \<open>Clearing\<close>

text \<open>C9. Clearing has one commit point.  Either \<^verbatim>\<open>active/\<close> is gone, and then what was
  cleared was an authenticated transaction with the given identifier, or the call reports an
  error and the authority is untouched.  A call that reports success, with whatever
  warnings, has cleared the slot.\<close>

theorem clear_commit_point:
  assumes "Clear env l i d = (r, d')"
  shows "(get_node ''active'' d' = None \<and>
      (\<exists>cur. load_active env OpClear d = Inr (Some cur) \<and> m_id cur = i)) \<or>
    ((\<exists>e. r = Inl e) \<and> get_node ''active'' d' = get_node ''active'' d)"
  using assms by (rule Clear_outcome)

theorem clear_commit_point_witness:
  "\<exists>r d'. Clear sample_env sample_lock (sample_sha CHR ''9'') sample_disk = (r, d') \<and>
     get_node ''active'' d' = get_node ''active'' sample_disk"
proof -
  have ld: "load_active sample_env OpClear sample_disk = Inr (Some sample_manifest)"
    using sample_load by (simp add: load_active_Some_iff load_checks_def validate_artifact_None
        read_regular_Inr first_err_Cons sample_env_def)
  obtain r d' where run: "Clear sample_env sample_lock (sample_sha CHR ''9'') sample_disk = (r, d')"
    by fastforce
  from clear_commit_point[OF run] ld have "get_node ''active'' d' = get_node ''active'' sample_disk"
    by auto
  with run show ?thesis by blast
qed

section \<open>Orphans\<close>

lemma remove_orphans_loop:
  "get_node a (snd (remove_orphans env ns d)) \<in> {None, get_node a d} \<and>
   (\<not> root_orphan a \<longrightarrow> get_node a (snd (remove_orphans env ns d)) = get_node a d) \<and>
   (fst (remove_orphans env ns d) = None \<and> root_orphan a \<and> (a \<in> set ns \<or> get_node a d = None)
      \<longrightarrow> get_node a (snd (remove_orphans env ns d)) = None)"
  using root_entries.removal_loop[where loop = "remove_orphans env" and P = root_orphan
      and refuse = "\<lambda>n. v_fault env OpCleanup (SysRemoveAll n)" and d = d and a = a and ns = ns]
  by simp

lemma remove_temps_loop:
  assumes "is_dir ''active'' d"
  shows "is_dir ''active'' (snd (remove_temps env ns d)) \<and>
   (\<not> manifest_temp a \<longrightarrow>
      file_at ''active'' a (snd (remove_temps env ns d)) = file_at ''active'' a d) \<and>
   (fst (remove_temps env ns d) = None \<and> manifest_temp a \<and>
      (a \<in> set ns \<or> file_at ''active'' a d = None)
      \<longrightarrow> file_at ''active'' a (snd (remove_temps env ns d)) = None)"
  using active_files.removal_loop[where loop = "remove_temps env" and P = manifest_temp
      and refuse = "\<lambda>n. v_fault env OpCleanup (SysRemove n)" and d = d and a = a and ns = ns] assms
  by simp

lemma remove_temps_frame:
  "is_dir ''active'' d \<Longrightarrow> manifest_frame ''active'' d (snd (remove_temps env ns d))"
proof (induction ns arbitrary: d)
  case (Cons n ns)
  then show ?case
    using manifest_frame_trans[OF manifest_frame_files(2)[of "''active''" d n]
        Cons.IH[of "del_file ''active'' n d"]]
    by (auto split: option.split)
qed simp

lemma file_at_listed: "file_at dir a d \<noteq> None \<Longrightarrow> a \<in> set (map fst (dir_kids dir d))"
  by (metis file_at_def image_eqI list.set_map map_of_eq_None_iff)

lemma get_node_listed: "get_node a d \<noteq> None \<Longrightarrow> a \<in> set (map fst (k_kids d))"
  by (metis get_node_def image_eqI list.set_map map_of_eq_None_iff)

lemma frame_same_authority:
  assumes "manifest_frame ''active'' d d'" "is_dir ''active'' d"
    "file_at ''active'' ''manifest.json'' d' = file_at ''active'' ''manifest.json'' d"
  shows "same_authority d d'"
proof -
  have "file_at ''active'' n d' = file_at ''active'' n d" if "\<not> manifest_temp n" for n
    using assms(1,3) that by (cases "n = ''manifest.json''") (simp_all add: manifest_frame_def)
  with assms(1,2) show ?thesis by (auto simp: same_authority_def manifest_frame_def is_dir_def)
qed

lemma same_authority_refl [simp]: "same_authority d d"
  by (simp add: same_authority_def)

lemma same_authority_node:
  assumes "get_node ''active'' d' = get_node ''active'' d"
  shows "same_authority d d'"
proof -
  have "dir_kids ''active'' d' = dir_kids ''active'' d" using assms by (simp add: dir_kids_def)
  with assms show ?thesis by (simp add: same_authority_def dir_mode_def file_at_def)
qed

lemma cleanup_temps_outcome:
  assumes "cleanup_manifest_temps env d = (r, d')"
  shows "same_authority d d' \<and>
    (r = None \<longrightarrow> (\<forall>n. manifest_temp n \<longrightarrow> file_at ''active'' n d' = None))"
proof (cases "is_dir ''active'' d")
  case False
  with assms have "d' = d" "r = None \<Longrightarrow> get_node ''active'' d = None"
    by (auto simp: cleanup_manifest_temps_def is_dir_def split: option.splits node.splits)
  then show ?thesis by (simp add: file_at_def dir_kids_def)
next
  case True
  show ?thesis
  proof (cases "d' = d \<and> r \<noteq> None")
    case False
    let ?ns = "sort (map fst (dir_kids ''active'' d))"
    have run: "remove_temps env ?ns d = (r, d')"
      using assms True False
      by (auto simp: cleanup_manifest_temps_def is_dir_def dir_kids_def split: option.splits)
    note l = remove_temps_loop[OF True, of env ?ns, unfolded run snd_conv fst_conv]
    have "same_authority d d'"
      using frame_same_authority[OF remove_temps_frame[OF True, of env ?ns] True]
        l[of "''manifest.json''"] run by (simp add: manifest_temp_def)
    moreover have "file_at ''active'' n d' = None" if "r = None" "manifest_temp n" for n
      using l[of n] that file_at_listed[of "''active''" n d] by auto
    ultimately show ?thesis by blast
  qed auto
qed

lemma file_at_node: "get_node dir d' = get_node dir d \<Longrightarrow> file_at dir n d' = file_at dir n d"
  by (simp add: file_at_def dir_kids_def)

lemma cleanup_roots_outcome:
  assumes "cleanup_root_orphans env d = (r, d')"
  shows "get_node ''active'' d' = get_node ''active'' d \<and>
    (r = None \<longrightarrow> (\<forall>n. root_orphan n \<longrightarrow> get_node n d' = None))"
proof (cases "d' = d \<and> r \<noteq> None")
  case False
  let ?ns = "sort (map fst (k_kids d))"
  have run: "remove_orphans env ?ns d = (r, d')"
    using assms False by (auto simp: cleanup_root_orphans_def split: option.splits)
  note l = remove_orphans_loop[of _ env ?ns d, unfolded run snd_conv fst_conv]
  have "get_node n d' = None" if "r = None" "root_orphan n" for n
    using l[of n] that get_node_listed[of n d] by auto
  with l[of "''active''"] show ?thesis by (simp add: root_orphan_def)
qed auto

lemma cleanup_orphans_outcome:
  assumes "CleanupOrphans env l d = (r, d')"
  shows "load_active env op d' = load_active env op d \<and>
    (r = None \<longrightarrow> (\<forall>n. root_orphan n \<longrightarrow> get_node n d' = None) \<and>
                   (\<forall>n. manifest_temp n \<longrightarrow> file_at ''active'' n d' = None))"
proof (cases "d' = d \<and> r \<noteq> None")
  case True
  then show ?thesis by auto
next
  case False
  obtain r1 d1 where temps: "cleanup_manifest_temps env d = (r1, d1)" by fastforce
  obtain r2 d2 where roots: "cleanup_root_orphans env d1 = (r2, d2)" by fastforce
  note t = cleanup_temps_outcome[OF temps] and o = cleanup_roots_outcome[OF roots]
  from assms False temps roots have c: "d' = d1 \<and> r1 \<noteq> None \<and> r = r1 \<or>
      d' = d2 \<and> (r = None \<longrightarrow> r1 = None \<and> r2 = None)"
    by (auto simp: CleanupOrphans_def split: option.splits)
  have "load_active env op d2 = load_active env op d"
    using t o load_active_same[of d d1] load_active_same[OF same_authority_node, of d2 d1] by simp
  with c t o load_active_same[of d d1] file_at_node[of "''active''" d2 d1] show ?thesis by auto
qed

text \<open>Removing orphans never touches the authority, whatever fails on the way: the slot
  loads exactly as before, and a run without error leaves no unpublished transaction, no
  retired one and no manifest temporary behind.\<close>

theorem orphan_cleanup_preserves_authority:
  assumes "CleanupOrphans env l d = (r, d')"
  shows "load_active env op d' = load_active env op d \<and>
    (r = None \<longrightarrow> (\<forall>n. root_orphan n \<longrightarrow> get_node n d' = None) \<and>
                   (\<forall>n. manifest_temp n \<longrightarrow> file_at ''active'' n d' = None))"
  using assms by (rule cleanup_orphans_outcome)

theorem orphan_cleanup_preserves_authority_witness:
  "\<exists>r d'. CleanupOrphans sample_env sample_lock
       (put_node ''active.next.x'' (Dir mode_0700 []) sample_disk) = (r, d') \<and>
     load_active sample_env OpLoad d' = Inr (Some sample_manifest)"
proof -
  let ?d = "put_node ''active.next.x'' (Dir mode_0700 []) sample_disk"
  obtain r d' where run: "CleanupOrphans sample_env sample_lock ?d = (r, d')" by fastforce
  have "load_active sample_env OpLoad ?d = load_active sample_env OpLoad sample_disk"
    by (rule load_active_same, rule same_authority_node) simp
  with orphan_cleanup_preserves_authority[OF run, of OpLoad] run sample_load show ?thesis by auto
qed

section \<open>Preparing\<close>

text \<open>\<open>dir_frame dir S d d'\<close>: only entries of \<open>dir\<close> named in \<open>S\<close> changed.\<close>

definition dir_frame :: "string \<Rightarrow> string set \<Rightarrow> store_disk \<Rightarrow> store_disk \<Rightarrow> bool" where
  "dir_frame dir S d d' \<longleftrightarrow>
     is_dir dir d' = is_dir dir d \<and> dir_mode dir d' = dir_mode dir d \<and>
     (\<forall>n. n \<noteq> dir \<longrightarrow> get_node n d' = get_node n d) \<and>
     (\<forall>n. n \<notin> S \<longrightarrow> file_at dir n d' = file_at dir n d)"

lemma dir_frame_trans:
  "dir_frame dir S d e \<Longrightarrow> dir_frame dir S e f \<Longrightarrow> dir_frame dir S d f"
  by (simp add: dir_frame_def)

lemma dir_frame_mono: "dir_frame dir S d e \<Longrightarrow> S \<subseteq> T \<Longrightarrow> dir_frame dir T d e"
  by (auto simp: dir_frame_def)

lemma dir_frame_refl [simp]: "dir_frame dir S d d"
  by (simp add: dir_frame_def)

lemma dir_frame_put:
  assumes "is_dir dir d"
  shows "dir_frame dir {n} d (put_file dir n x d)" "dir_frame dir {n} d (del_file dir n d)"
  using assms by (simp_all add: dir_frame_def file_at_put_file file_at_del_file)
    (simp_all add: put_file_def del_file_def)

lemma dir_frame_drop: "is_dir dir d \<Longrightarrow> dir_frame dir {n} d (drop_temp env op dir n d)"
  by (auto simp: drop_temp_def dir_frame_put split: option.split)

lemma copy_regular_outcome:
  assumes dir: "is_dir dir d" and run: "copy_regular env source dir dest mode d = (r, d')"
  shows "dir_frame dir {dest} d d' \<and>
    (\<forall>h. r = Inr h \<longrightarrow> (\<exists>data. file_at dir dest d' = Some (File mode data) \<and>
       length data \<le> max_artifact_size \<and> v_sha env data = h))"
proof -
  have put: "dir_frame dir {dest} d (put_file dir dest x d)" for x
    using dir by (rule dir_frame_put)
  have drop: "dir_frame dir {dest} d (drop_temp env OpPrepare dir dest (put_file dir dest x d))" for x
    using dir by (intro dir_frame_trans[OF put dir_frame_drop]) simp
  from run dir put drop show ?thesis
    by (auto simp: copy_regular_def Let_def file_at_put_file split: option.splits node.splits if_splits)
qed

lemma dir_frame_artifact:
  "dir_frame dir S d d' \<Longrightarrow> n \<notin> S \<Longrightarrow> has_artifact env dir n sha d' = has_artifact env dir n sha d"
  by (simp add: dir_frame_def has_artifact_def)

lemma dir_frame_is_dir: "dir_frame dir S d d' \<Longrightarrow> is_dir dir d' = is_dir dir d"
  by (simp add: dir_frame_def)

lemma copy_artifacts_outcome:
  assumes dir: "is_dir nxt d" and run: "copy_artifacts env m src nxt d = (r, d')"
  shows "dir_frame nxt {''candidate'', ''authority'', ''previous''} d d' \<and>
    (r = None \<longrightarrow> has_artifacts env nxt m d')"
proof -
  obtain r1 d1 where c1: "copy_regular env (src_candidate src) nxt ''candidate'' mode_0500 d = (r1, d1)"
    by fastforce
  obtain r2 d2 where c2: "copy_regular env (src_authority src) nxt ''authority'' mode_0500 d1 = (r2, d2)"
    by fastforce
  obtain r3 d3 where c3: "copy_regular env (src_previous src) nxt ''previous'' mode_0500 d2 = (r3, d3)"
    by fastforce
  let ?S = "{''candidate'', ''authority'', ''previous''}"
  note o1 = copy_regular_outcome[OF dir c1]
  have dir1: "is_dir nxt d1" using o1 dir dir_frame_is_dir by blast
  note o2 = copy_regular_outcome[OF dir1 c2]
  have dir2: "is_dir nxt d2" using o2 dir1 dir_frame_is_dir by blast
  note o3 = copy_regular_outcome[OF dir2 c3]
  from o1 have f1: "dir_frame nxt ?S d d1" by (blast intro: dir_frame_mono)
  from o2 have f2: "dir_frame nxt ?S d d2" by (blast intro: dir_frame_trans[OF f1] dir_frame_mono)
  from o3 have f3: "dir_frame nxt ?S d d3" by (blast intro: dir_frame_trans[OF f2] dir_frame_mono)
  have a1: "has_artifact env nxt ''candidate'' h d1" if "r1 = Inr h" for h
    using o1 that by (auto simp: has_artifact_def)
  have a2: "has_artifact env nxt ''authority'' h d2" if "r2 = Inr h" for h
    using o2 that by (auto simp: has_artifact_def)
  have a3: "has_artifact env nxt ''previous'' h d3" if "r3 = Inr h" for h
    using o3 that by (auto simp: has_artifact_def)
  have k12: "has_artifact env nxt ''candidate'' h d2 = has_artifact env nxt ''candidate'' h d1" for h
    using o2 by (intro dir_frame_artifact[of nxt "{''authority''}"]) auto
  have k23: "n \<noteq> ''previous'' \<Longrightarrow> has_artifact env nxt n h d3 = has_artifact env nxt n h d2" for n h
    using o3 by (intro dir_frame_artifact[of nxt "{''previous''}"]) auto
  from run c1 c2 c3 f1 f2 f3 a1 a2 a3 k12 k23 show ?thesis
    by (auto simp: copy_artifacts_def has_artifacts_def split: sum.splits if_splits)
qed

lemma write_success:
  assumes "is_dir dir d" "write_manifest_atomic env op dir m d = (None, d')"
  shows "manifest_frame dir d d' \<and>
    file_at dir ''manifest.json'' d' = Some (File mode_0600 (v_enc env m))"
  using write_manifest_outcome[OF assms] by simp

lemma abandon_active [simp]:
  "get_node ''active'' (abandon_next env (next_dir i) d) = get_node ''active'' d"
  by (simp add: abandon_next_def split: option.split)

lemma file_at_renamed:
  assumes "get_node a d = Some x"
  shows "file_at b n (rename_node a b d) = file_at a n d" "dir_mode b (rename_node a b d) = dir_mode a d"
  using assms by (simp_all add: file_at_def dir_kids_def dir_mode_def rename_node_def)

text \<open>A directory that holds a sealed manifest and its artifacts loads once it is \<^verbatim>\<open>active/\<close>.\<close>

lemma complete_loads:
  assumes faults: "\<And>s. v_fault env OpLoad s = None"
    and codec: "v_dec env (v_enc env sm) = Some sm" "length (v_enc env sm) \<le> max_manifest_size"
    and mode: "dir_mode ''active'' d = Some mode_0700"
    and man: "file_at ''active'' ''manifest.json'' d = Some (File mode_0600 (v_enc env sm))"
    and arts: "has_artifacts env ''active'' sm d"
    and valid: "validate_manifest sm (v_uid env) = None"
    and topo: "ValidateActiveTopology (v_os env) (Some (v_root env)) (Some sm) = None"
  shows "load_active env OpLoad d = Inr (Some sm)"
proof -
  from valid have names: "m_candidate_file sm = ''candidate''" "m_authority_file sm = ''authority''"
    "m_previous_present sm \<Longrightarrow> m_previous_file sm = ''previous''"
    "\<not> m_previous_present sm \<Longrightarrow> m_previous_file sm = '''' \<and> m_previous_sha sm = ''''"
    by (auto simp: validate_manifest_def split: if_splits)
  have "load_checks env OpLoad sm d = None"
    using arts valid topo names faults
    by (simp add: load_checks_def first_err_Cons validate_artifact_None has_artifacts_def)
  with codec mode man faults show ?thesis by (simp add: load_active_Some_iff read_regular_Inr)
qed

lemma publish_outcome:
  assumes nxt: "is_dir (next_dir i) d" "dir_mode (next_dir i) d = Some mode_0700"
    and arts: "has_artifacts env (next_dir i) sm d"
    and clear: "get_node ''active'' d = None"
    and faults: "\<And>s. v_fault env OpLoad s = None"
    and codec: "v_dec env (v_enc env sm) = Some sm" "length (v_enc env sm) \<le> max_manifest_size"
    and run: "publish_next env sm (next_dir i) d = (r, d')"
  shows "(get_node ''active'' d' = None \<and> (\<exists>e. r = Inl e)) \<or>
    (load_active env OpLoad d' = Inr (Some sm) \<and> (r = Inr sm \<or> (\<exists>e. r = Inl e)))"
proof -
  obtain r1 d1 where w: "write_manifest_atomic env OpPrepare (next_dir i) sm d = (r1, d1)" by fastforce
  have fr: "manifest_frame (next_dir i) d d1"
    using write_manifest_outcome[OF nxt(1) w] by simp
  then have c1: "get_node ''active'' d1 = None" using clear by (simp add: manifest_frame_def)
  show ?thesis
  proof (cases "(\<exists>e. r = Inl e) \<and> get_node ''active'' d' = None")
    case False
    with run clear c1 w have r1: "r1 = None"
      and checks: "validate_manifest sm (v_uid env) = None"
        "ValidateActiveTopology (v_os env) (Some (v_root env)) (Some sm) = None"
      and d': "d' = rename_node (next_dir i) ''active'' d1" and r: "r = Inr sm \<or> (\<exists>e. r = Inl e)"
      by (auto simp: publish_next_def first_err_Cons Let_def split: option.splits)
    have man: "file_at (next_dir i) ''manifest.json'' d1 = Some (File mode_0600 (v_enc env sm))"
      using write_success[OF nxt(1)] w r1 by blast
    have mode: "dir_mode (next_dir i) d1 = Some mode_0700"
      using fr nxt(2) by (simp add: manifest_frame_def)
    have "is_dir (next_dir i) d1" using fr nxt(1) by (simp add: manifest_frame_def)
    then obtain x where x: "get_node (next_dir i) d1 = Some x" by (auto simp: is_dir_def)
    have keep: "file_at (next_dir i) n d1 = file_at (next_dir i) n d"
      if "n = ''candidate'' \<or> n = ''authority'' \<or> n = ''previous''" for n
      using fr that by (auto simp: manifest_frame_def artifact_names)
    have "load_active env OpLoad d' = Inr (Some sm)"
      using complete_loads[OF faults codec _ _ _ checks, of d'] man mode arts keep
      by (simp add: d' file_at_renamed[OF x] has_artifacts_def has_artifact_def)
    with r show ?thesis by blast
  qed blast
qed

text \<open>C4. A transaction is published whole or not at all.  Whatever fails, \<^verbatim>\<open>Prepare\<close> leaves the
  authority it found, or the slot was clear and now loads as the sealed manifest with every
  artifact present and matching its digest; a call that succeeds returns that manifest, and
  a call on an occupied slot is refused.\<close>

theorem prepare_all_or_nothing:
  assumes faults: "\<And>s. v_fault env OpLoad s = None"
    and codec: "v_dec env (v_enc env (sealed_manifest env m)) = Some (sealed_manifest env m)"
      "length (v_enc env (sealed_manifest env m)) \<le> max_manifest_size"
    and run: "Prepare env l m src d = (r, d')"
  shows "((\<exists>e. r = Inl e) \<and> get_node ''active'' d' = get_node ''active'' d) \<or>
    (get_node ''active'' d = None \<and>
     load_active env OpLoad d' = Inr (Some (sealed_manifest env m)) \<and>
     (r = Inr (sealed_manifest env m) \<or> (\<exists>e. r = Inl e)))"
proof (cases "(\<exists>e. r = Inl e) \<and> get_node ''active'' d' = get_node ''active'' d")
  case False
  let ?i = "m_id m"
  obtain e0 d0 where root: "ensure_root env OpPrepare d = (e0, d0)" by fastforce
  then have a0: "get_node a d0 = get_node a d" for a
    by (auto simp: ensure_root_def Let_def get_node_def split: option.splits if_splits)
  let ?dn = "put_node (next_dir ?i) (Dir mode_0700 []) d0"
  obtain e1 d1 where copy: "copy_artifacts env m src (next_dir ?i) ?dn = (e1, d1)" by fastforce
  have dn: "is_dir (next_dir ?i) ?dn" by (simp add: is_dir_def)
  note c = copy_artifacts_outcome[OF dn copy]
  have a1: "get_node ''active'' d1 = get_node ''active'' d" using c a0 by (simp add: dir_frame_def)
  from False run root copy a0 a1 have e1: "e1 = None" and clear: "get_node ''active'' d = None"
    and pub: "publish_next env (sealed_manifest env m) (next_dir ?i) d1 = (r, d')"
    by (auto simp: Prepare_def Let_def prepare_checks_def first_err_Cons split: option.splits)
  have m1: "is_dir (next_dir ?i) d1" "dir_mode (next_dir ?i) d1 = Some mode_0700"
    using c dn by (auto simp: dir_frame_def dir_mode_def)
  have "has_artifacts env (next_dir ?i) (sealed_manifest env m) d1"
    using c e1 by (auto simp: has_artifacts_def sealed_manifest_def)
  from publish_outcome[OF m1 this _ faults codec pub] a1 clear show ?thesis by auto
qed blast

theorem prepare_all_or_nothing_witness:
  "\<exists>r d'. Prepare sample_env sample_lock sample_manifest \<lparr>src_candidate = ''/src/c'',
       src_authority = ''/src/a'', src_previous = ''/opt/gateway''\<rparr> (sample_disk\<lparr>k_kids := []\<rparr>) = (r, d') \<and>
     ((\<exists>e. r = Inl e) \<or> load_active sample_env OpLoad d' = Inr (Some sample_manifest))"
proof -
  let ?src = "\<lparr>src_candidate = ''/src/c'', src_authority = ''/src/a'', src_previous = ''/opt/gateway''\<rparr>"
  obtain r d' where run: "Prepare sample_env sample_lock sample_manifest ?src
      (sample_disk\<lparr>k_kids := []\<rparr>) = (r, d')" by fastforce
  have "sealed_manifest sample_env sample_manifest = sample_manifest"
    by (simp add: sealed_manifest_def sample_env_def sample_manifest_def ManifestVersion_def)
  then have "v_dec sample_env (v_enc sample_env (sealed_manifest sample_env sample_manifest))
      = Some (sealed_manifest sample_env sample_manifest)"
    "length (v_enc sample_env (sealed_manifest sample_env sample_manifest)) \<le> max_manifest_size"
    "sealed_manifest sample_env sample_manifest = sample_manifest"
    by (simp_all add: sample_env_def sample_enc_def sample_dec_def)
  with prepare_all_or_nothing[OF _ this(1,2) run] run show ?thesis by (auto simp: sample_env_def)
qed

section \<open>The lifecycle lock\<close>

text \<open>The lock is exclusive and permanent.  While it is held every further \<^verbatim>\<open>Acquire\<close> fails,
  leaves the lock held and the same inode in place; a successful one held nothing before;
  \<^verbatim>\<open>Close\<close> releases it, and a second \<^verbatim>\<open>Close\<close> changes nothing.\<close>

theorem lock_exclusive:
  assumes "Acquire env d = (r, d')"
  shows "(k_flock d \<longrightarrow> (\<exists>e. r = Inl e) \<and> k_flock d') \<and>
    (\<forall>l. r = Inr l \<longrightarrow> \<not> k_flock d \<and> k_flock d' \<and> lock_valid env OpAcquire l d' = None \<and>
       \<not> k_flock (snd (Close l d')) \<and>
       Close (fst (Close l d')) (snd (Close l d')) = Close l d') \<and>
    ((\<exists>e. r = Inl e) \<longrightarrow> k_flock d' = k_flock d) \<and>
    (k_lock d \<noteq> LockAbsent \<longrightarrow> k_lock d' = k_lock d) \<and> k_kids d' = k_kids d"
proof -
  obtain e0 d0 where root: "ensure_root env OpAcquire d = (e0, d0)" by fastforce
  then have r0: "k_flock d0 = k_flock d" "k_lock d0 = k_lock d" "k_kids d0 = k_kids d"
    by (auto simp: ensure_root_def Let_def split: option.splits if_splits)
  have flock: "validate_open_lock env op i (x\<lparr>k_flock := b\<rparr>) = validate_open_lock env op i x" for op i x b
    by (simp add: validate_open_lock_def split: option.split)
  from assms root r0 show ?thesis
    by (auto simp: Acquire_def Let_def lock_valid_def Close_def flock
        split: option.splits lock_node.splits if_splits)
qed

theorem lock_exclusive_witness:
  "\<exists>e d'. Acquire sample_env sample_disk = (Inl e, d')"
  using lock_exclusive[of sample_env sample_disk "fst (Acquire sample_env sample_disk)"
      "snd (Acquire sample_env sample_disk)"]
  by (cases "Acquire sample_env sample_disk") (auto simp: sample_disk_def)

end
