(* ===== verification/ReleaseRuntime.thy ===== *)
theory ReleaseRuntime
  imports ReleaseStoreSafety
begin

text \<open>
  The host adapter (\<^verbatim>\<open>internal/releaseactivation/runtime.go\<close>): observations, the replacement
  of the installed target, launchd calls and the bounded readiness loop.

  The world is the store's directory and the host beside it.  A child process, an HTTP probe
  and a sleep act on the host only: none of them is handed the store.  What they do is a
  parameter (\<open>'x deps\<close>), as is which system call fails.
\<close>

section \<open>The world\<close>

text \<open>\<open>h_files\<close> is what a pathname outside the store denotes, \<open>h_rng\<close> the random suffixes
  still to be drawn, \<open>h_ext\<close> the state of launchd, the network and the clock.\<close>

record 'x host =
  h_files :: "string \<Rightarrow> node option"
  h_rng :: "string list"
  h_ext :: 'x

record 'x world =
  w_disk :: store_disk
  w_host :: "'x host"

definition store_artifact :: "store_env \<Rightarrow> string \<Rightarrow> string option" where
  "store_artifact env p =
     (if p = active_candidate_path (v_root env) then Some ''candidate''
      else if p = active_authority_path (v_root env) then Some ''authority''
      else if p = active_previous_path (v_root env) then Some ''previous''
      else None)"

definition node_at :: "store_env \<Rightarrow> string \<Rightarrow> 'x world \<Rightarrow> node option" where
  "node_at env p w =
     (case store_artifact env p of
        Some n \<Rightarrow> map_of (dir_kids ''active'' (w_disk w)) n
      | None \<Rightarrow> h_files (w_host w) p)"

definition set_host_file :: "string \<Rightarrow> node option \<Rightarrow> 'x world \<Rightarrow> 'x world" where
  "set_host_file p x w = w\<lparr>w_host := (w_host w)\<lparr>h_files := (h_files (w_host w))(p := x)\<rparr>\<rparr>"

section \<open>Dependencies\<close>

record command_result =
  r_stdout :: string
  r_stderr :: string
  r_exit :: int
  r_truncated :: bool

text \<open>A response arrived with a body, which then closed or did not; or none arrived.\<close>

datatype http_result = HttpFailed | HttpNoBody | HttpResponse int bool

text \<open>
  \<open>dp_ctx\<close> is \<^verbatim>\<open>ctx.Err()\<close> of the caller's context and \<open>dp_now\<close> the clock in nanoseconds;
  a call under a derived context gets its deadline.
\<close>

record 'x deps =
  dp_run :: "int option \<Rightarrow> string \<Rightarrow> string list \<Rightarrow> 'x host \<Rightarrow> (command_result \<times> go_err option) \<times> 'x host"
  dp_get :: "int option \<Rightarrow> string \<Rightarrow> 'x host \<Rightarrow> http_result \<times> 'x host"
  dp_sleep :: "int \<Rightarrow> int \<Rightarrow> 'x host \<Rightarrow> go_err option \<times> 'x host"
  dp_ctx :: "'x host \<Rightarrow> go_err option"
  dp_now :: "'x host \<Rightarrow> int"
  dp_fault :: "syscall \<Rightarrow> go_err option"

definition on_host :: "('x host \<Rightarrow> 'a \<times> 'x host) \<Rightarrow> 'x world \<Rightarrow> 'a \<times> 'x world" where
  "on_host f w = (case f (w_host w) of (a, h) \<Rightarrow> (a, w\<lparr>w_host := h\<rparr>))"

abbreviation runtime_failure :: "string \<Rightarrow> go_err \<Rightarrow> go_err" where
  "runtime_failure \<equiv> RuntimeErr"

definition exit_error :: "int \<Rightarrow> go_err option" where
  "exit_error code = (if code = 0 then None else Some (ExitStatus code))"

text \<open>\<^verbatim>\<open>errors.Join(err, exitError(code))\<close>; nil members are dropped.\<close>

definition join_errors :: "go_err option list \<Rightarrow> go_err" where
  "join_errors es = Joined (concat (map (\<lambda>e. case e of None \<Rightarrow> [] | Some x \<Rightarrow> [x]) es))"

definition nanos_per_second :: int where "nanos_per_second = 1000000000"
definition nanos_per_milli :: int where "nanos_per_milli = 1000000"
definition launchctl_not_found :: int where "launchctl_not_found = 113"
definition max_health_url_bytes :: nat where "max_health_url_bytes = 512"
definition max_child_output :: nat where "max_child_output = 32768"
definition max_ready_timeout_seconds :: int where "max_ready_timeout_seconds = 600"
definition max_ready_poll_millis :: int where "max_ready_poll_millis = 30000"

lemmas runtime_constants =
  nanos_per_second_def nanos_per_milli_def launchctl_not_found_def max_health_url_bytes_def
  max_child_output_def max_ready_timeout_seconds_def max_ready_poll_millis_def

section \<open>Files\<close>

text \<open>\<^verbatim>\<open>Perm() & 0o111\<close>\<close>

definition executable_mode :: "nat \<Rightarrow> bool" where
  "executable_mode m \<longleftrightarrow> odd m \<or> odd (m div 8) \<or> odd (m div 64)"

definition mode_0755 :: nat where "mode_0755 = 493"

definition hash_runtime_file ::
  "store_env \<Rightarrow> 'x deps \<Rightarrow> string \<Rightarrow> bool \<Rightarrow> 'x world \<Rightarrow> go_err + string" where
  "hash_runtime_file env dp p executable w =
     (if p = '''' \<or> \<not> is_abs p then Inl (OtherErr ''runtime path is invalid'')
      else case dp_fault dp (SysOpen p) of
        Some e \<Rightarrow> Inl e
      | None \<Rightarrow>
          (case node_at env p w of
             Some (File m data) \<Rightarrow>
               if executable \<and> \<not> executable_mode m then Inl (OtherErr ''runtime file is not executable'')
               else if length data > max_artifact_size then Inl (OtherErr ''runtime file exceeds size limit'')
               else (case dp_fault dp (SysRead p) of
                  Some e \<Rightarrow> Inl (OtherErr ''runtime file could not be hashed'')
                | None \<Rightarrow> Inr (v_sha env data))
           | Some _ \<Rightarrow> Inl (OtherErr ''runtime path is not a regular file'')
           | None \<Rightarrow> Inl (OtherErr ''not exist'')))"

text \<open>\<^verbatim>\<open>HashRegular\<close> of \<^verbatim>\<open>store.go\<close>: the same without the path and mode checks.\<close>

definition HashRegular :: "store_env \<Rightarrow> 'x deps \<Rightarrow> string \<Rightarrow> 'x world \<Rightarrow> go_err + string" where
  "HashRegular env dp p w =
     (case dp_fault dp (SysOpen p) of
        Some e \<Rightarrow> Inl e
      | None \<Rightarrow>
          (case node_at env p w of
             Some (File m data) \<Rightarrow>
               if length data > max_artifact_size then Inl (OtherErr ''file exceeds size limit'')
               else (case dp_fault dp (SysRead p) of Some e \<Rightarrow> Inl e | None \<Rightarrow> Inr (v_sha env data))
           | Some _ \<Rightarrow> Inl (OtherErr ''path is not the opened regular inode'')
           | None \<Rightarrow> Inl (OtherErr ''not exist'')))"

definition observe_target ::
  "store_env \<Rightarrow> 'x deps \<Rightarrow> string \<Rightarrow> 'x world \<Rightarrow> go_err + bool \<times> string" where
  "observe_target env dp p w =
     (case dp_fault dp (SysLstat p) of
        Some e \<Rightarrow> Inl e
      | None \<Rightarrow>
          if node_at env p w = None then Inr (False, '''')
          else (case hash_runtime_file env dp p True w of Inl e \<Rightarrow> Inl e | Inr h \<Rightarrow> Inr (True, h)))"

definition read_regular_any_mode ::
  "store_env \<Rightarrow> 'x deps \<Rightarrow> string \<Rightarrow> nat \<Rightarrow> 'x world \<Rightarrow> go_err + string" where
  "read_regular_any_mode env dp p limit w =
     (case dp_fault dp (SysOpen p) of
        Some e \<Rightarrow> Inl e
      | None \<Rightarrow>
          (case node_at env p w of
             Some (File m data) \<Rightarrow>
               if dp_fault dp (SysRead p) \<noteq> None \<or> length data > limit
               then Inl (OtherErr ''file exceeds read limit'') else Inr data
           | _ \<Rightarrow> Inl (OtherErr ''path is not a regular file'')))"

text \<open>\<^verbatim>\<open>copyRegular\<close> into a fresh host file, which a failure removes again.\<close>

definition remove_host_file :: "'x deps \<Rightarrow> string \<Rightarrow> 'x world \<Rightarrow> 'x world" where
  "remove_host_file dp p w = (case dp_fault dp (SysRemove p) of Some e \<Rightarrow> w | None \<Rightarrow> set_host_file p None w)"

definition copy_to_host ::
  "store_env \<Rightarrow> 'x deps \<Rightarrow> string \<Rightarrow> string \<Rightarrow> nat \<Rightarrow> 'x world \<Rightarrow> (go_err + string) \<times> 'x world" where
  "copy_to_host env dp source dest mode w =
     (case dp_fault dp (SysOpen source) of
        Some e \<Rightarrow> (Inl e, w)
      | None \<Rightarrow>
          (case node_at env source w of
             Some (File m data) \<Rightarrow>
               if length data > max_artifact_size
               then (Inl (OtherErr ''source exceeds artifact size limit''), w)
               else (case first_err
                   [dp_fault dp (SysCreate dest),
                    fail_if (h_files (w_host w) dest \<noteq> None) (OtherErr ''exists'')] of
                   Some e \<Rightarrow> (Inl e, w)
                 | None \<Rightarrow>
                     (let w1 = set_host_file dest (Some (File mode data)) w in
                      case first_err
                        [dp_fault dp (SysRead source), dp_fault dp (SysWrite dest),
                         dp_fault dp (SysChmod dest), dp_fault dp (SysSync dest),
                         dp_fault dp (SysClose dest)] of
                        Some e \<Rightarrow> (Inl e, remove_host_file dp dest w1)
                      | None \<Rightarrow> (Inr (v_sha env data), w1)))
           | _ \<Rightarrow> (Inl (OtherErr ''source is not a regular file''), w)))"

text \<open>\<^verbatim>\<open>"."+filepath.Base(target)+".release."+suffix\<close> beside the target\<close>

definition replacement_name :: "string \<Rightarrow> string \<Rightarrow> string" where
  "replacement_name targ suffx =
     path_join [path_dir targ, ''.'' @ path_base targ @ ''.release.'' @ suffx]"

definition replace_target ::
  "store_env \<Rightarrow> 'x deps \<Rightarrow> string \<Rightarrow> string \<Rightarrow> string \<Rightarrow> 'x world \<Rightarrow> go_err option \<times> 'x world" where
  "replace_target env dp source targ want w =
     (if \<not> is_abs source \<or> \<not> is_abs targ \<or> \<not> valid_sha256 want
      then (Some (OtherErr ''replacement inputs are invalid''), w)
      else case h_rng (w_host w) of
        [] \<Rightarrow> (Some (OtherErr ''generate random suffix''), w)
      | suffx # rng \<Rightarrow>
          (let w0 = w\<lparr>w_host := (w_host w)\<lparr>h_rng := rng\<rparr>\<rparr>; tmp = replacement_name targ suffx in
           case copy_to_host env dp source tmp mode_0755 w0 of
             (Inl e, w1) \<Rightarrow> (Some e, w1)
           | (Inr h, w1) \<Rightarrow>
               if h \<noteq> want
               then (Some (OtherErr ''replacement source hash does not match''), remove_host_file dp tmp w1)
               else (case dp_fault dp (SysRename tmp targ) of
                  Some e \<Rightarrow> (Some e, remove_host_file dp tmp w1)
                | None \<Rightarrow>
                    (let w2 = set_host_file targ (h_files (w_host w1) tmp)
                                (set_host_file tmp None w1) in
                     case dp_fault dp (SysSync (path_dir targ)) of
                       Some e \<Rightarrow> (Some e, w2)
                     | None \<Rightarrow>
                         (case hash_runtime_file env dp targ True w2 of
                            Inl e \<Rightarrow> (Some (OtherErr ''replacement could not be confirmed''), w2)
                          | Inr h2 \<Rightarrow>
                              (fail_if (h2 \<noteq> want) (OtherErr ''replacement could not be confirmed''), w2))))))"

definition remove_health_marker ::
  "store_env \<Rightarrow> 'x deps \<Rightarrow> string \<Rightarrow> 'x world \<Rightarrow> go_err option \<times> 'x world" where
  "remove_health_marker env dp p w =
     (if \<not> is_abs p then (Some (OtherErr ''health URL file path is not absolute''), w)
      else case dp_fault dp (SysLstat p) of
        Some e \<Rightarrow> (Some e, w)
      | None \<Rightarrow>
          (case node_at env p w of
             None \<Rightarrow> (None, w)
           | Some (File m data) \<Rightarrow>
               (case dp_fault dp (SysRemove p) of
                  Some e \<Rightarrow> (Some e, w)
                | None \<Rightarrow> (dp_fault dp (SysSync (path_dir p)), set_host_file p None w))
           | _ \<Rightarrow> (Some (OtherErr ''health URL file is not a regular file''), w)))"

section \<open>Launchd\<close>

definition launch_service :: "manifest \<Rightarrow> string" where
  "launch_service m = ''gui/'' @ itoa (m_effective_uid m) @ ''/'' @ m_label m"

definition program_matches :: "string \<Rightarrow> string \<Rightarrow> bool" where
  "program_matches output expected \<longleftrightarrow>
     list_ex (\<lambda>line. trim_space line = ''program = '' @ expected) (split_on (CHR 0x0A) output)"

definition launch_agent_loaded ::
  "'x deps \<Rightarrow> int option \<Rightarrow> manifest \<Rightarrow> 'x world \<Rightarrow> (go_err + bool) \<times> 'x world" where
  "launch_agent_loaded dp dl m w =
     (case on_host (dp_run dp dl ''launchctl'' [''print'', launch_service m]) w of
        ((r, Some e), w1) \<Rightarrow> (Inl (runtime_failure ''supervisor observation'' e), w1)
      | ((r, None), w1) \<Rightarrow>
          if r_exit r \<noteq> 0 then
            (if r_exit r = launchctl_not_found then Inr False
             else Inl (runtime_failure ''supervisor observation'' (ExitStatus (r_exit r))), w1)
          else if \<not> program_matches (r_stdout r) (m_wrapper_path m)
          then (Inl (lc_err ErrorRuntimeDrift), w1)
          else (Inr True, w1))"

section \<open>The health probe\<close>

text \<open>
  What \<^verbatim>\<open>url.Parse\<close> and the checks after it accept of one line: the port of a URL with
  scheme http, host exactly 127.0.0.1, no user, query or fragment, and an empty path or
  \<open>/\<close>.  Host names that would need unescaping never denote that address, and a second colon
  in the host is an error of the parser.
\<close>

definition control_byte :: "char \<Rightarrow> bool" where
  "control_byte c \<longleftrightarrow> (of_char c :: nat) < 32 \<or> (of_char c :: nat) = 127"

definition lower_ascii :: "char \<Rightarrow> char" where
  "lower_ascii c =
     (let k = of_char c :: nat in if 65 \<le> k \<and> k \<le> 90 then char_of (k + 32) else c)"

definition digit_byte :: "char \<Rightarrow> bool" where
  "digit_byte c \<longleftrightarrow> 48 \<le> (of_char c :: nat) \<and> (of_char c :: nat) \<le> 57"

definition digits_value :: "string \<Rightarrow> nat" where
  "digits_value s = foldl (\<lambda>n c. 10 * n + (of_char c - 48)) 0 s"

definition loopback_port :: "string \<Rightarrow> int option" where
  "loopback_port raw =
     (if list_ex control_byte raw then None
      else
        let (url, frag) = (case cut_at CHR ''#'' raw of None \<Rightarrow> (raw, '''') | Some uf \<Rightarrow> uf) in
        if frag \<noteq> '''' then None
        else case cut_at CHR '':'' url of
          None \<Rightarrow> None
        | Some (scheme, rest0) \<Rightarrow>
            (let (rest, query) = (case cut_at CHR ''?'' rest0 of None \<Rightarrow> (rest0, '''') | Some rq \<Rightarrow> rq) in
             if map lower_ascii scheme \<noteq> ''http'' \<or> query \<noteq> '''' \<or> \<not> prefix ''//'' rest then None
             else
               let (authority, pth) = (case cut_at CHR ''/'' (drop 2 rest) of
                      None \<Rightarrow> (drop 2 rest, '''') | Some (a, p) \<Rightarrow> (a, CHR ''/'' # p)) in
               if pth \<noteq> '''' \<and> pth \<noteq> ''/'' then None
               else case cut_at CHR '':'' authority of
                 None \<Rightarrow> None
               | Some (hst, port) \<Rightarrow>
                   if hst = ''127.0.0.1'' \<and> port \<noteq> '''' \<and> list_all digit_byte port \<and>
                      1 \<le> digits_value port \<and> digits_value port \<le> 65535
                   then Some (int (digits_value port)) else None))"

definition first_line :: "string \<Rightarrow> string" where
  "first_line data = trim_space (hd (split_on (CHR 0x0A) data))"

definition read_health_url ::
  "store_env \<Rightarrow> 'x deps \<Rightarrow> string \<Rightarrow> 'x world \<Rightarrow> go_err + string" where
  "read_health_url env dp p w =
     (case read_regular_any_mode env dp p max_health_url_bytes w of
        Inl e \<Rightarrow> Inl e
      | Inr data \<Rightarrow>
          (case loopback_port (first_line data) of
             None \<Rightarrow> Inl (OtherErr ''health URL is not strict loopback HTTP'')
           | Some port \<Rightarrow> Inr (''http://127.0.0.1:'' @ itoa port)))"

fun probe_paths ::
  "'x deps \<Rightarrow> int option \<Rightarrow> string \<Rightarrow> string list \<Rightarrow> 'x world \<Rightarrow> bool \<times> 'x world" where
  "probe_paths dp dl base [] w = (True, w)"
| "probe_paths dp dl base (p # ps) w =
     (case on_host (dp_get dp dl (base @ p)) w of
        (HttpResponse status closed, w1) \<Rightarrow>
          if status \<noteq> 200 \<or> \<not> closed then (False, w1) else probe_paths dp dl base ps w1
      | (_, w1) \<Rightarrow> (False, w1))"

definition ready_once ::
  "store_env \<Rightarrow> 'x deps \<Rightarrow> int option \<Rightarrow> manifest \<Rightarrow> 'x world \<Rightarrow> bool \<times> 'x world" where
  "ready_once env dp dl m w =
     (case read_health_url env dp (m_health_url_file m) w of
        Inl e \<Rightarrow> (False, w)
      | Inr base \<Rightarrow> probe_paths dp dl base [''/healthz'', ''/readyz''] w)"

section \<open>Observation\<close>

definition observed_of :: "string list \<Rightarrow> bool \<times> string \<Rightarrow> observed" where
  "observed_of hs targ =
     zero_observed\<lparr>o_candidate_sha := hs ! 0, o_authority_artifact_sha := hs ! 1,
       o_controller_sha := hs ! 2, o_previous_sha := hs ! 3, o_plist_sha := hs ! 4,
       o_wrapper_sha := hs ! 5, o_mcp_wrapper_sha := hs ! 6, o_environment_sha := hs ! 7,
       o_installed_present := fst targ, o_installed_sha := snd targ\<rparr>"

text \<open>Fingerprints are taken in order until one fails; \<open>f\<close> is what one entry yields.\<close>

fun all_results :: "(go_err + string) list \<Rightarrow> go_err + string list" where
  "all_results [] = Inr []"
| "all_results (Inl e # rs) = Inl (runtime_failure ''observation'' e)"
| "all_results (Inr h # rs) = (case all_results rs of Inl e \<Rightarrow> Inl e | Inr hs \<Rightarrow> Inr (h # hs))"

definition fingerprints ::
  "store_env \<Rightarrow> 'x deps \<Rightarrow> manifest \<Rightarrow> string \<Rightarrow> artifact_paths \<Rightarrow> 'x world \<Rightarrow> (go_err + string) list" where
  "fingerprints env dp m controller a w =
     (let h = (\<lambda>p x. hash_runtime_file env dp p x w) in
      [h (a_candidate a) False, h (a_authority a) True,
       (if path_clean controller = path_clean (a_authority a) then h (a_authority a) True
        else h controller True),
       (if m_previous_present m then h (a_previous a) False else Inr ''''),
       h (m_plist_path m) False, h (m_wrapper_path m) True,
       (if m_mcp_wrapper_path m \<noteq> '''' then h (m_mcp_wrapper_path m) True else Inr ''''),
       h (m_environment_path m) False])"

definition Observe ::
  "store_env \<Rightarrow> 'x deps \<Rightarrow> manifest \<Rightarrow> string \<Rightarrow> artifact_paths \<Rightarrow> 'x world
     \<Rightarrow> (go_err + observed) \<times> 'x world" where
  "Observe env dp m controller a w =
     (case all_results (fingerprints env dp m controller a w) of
        Inl e \<Rightarrow> (Inl e, w)
      | Inr hs \<Rightarrow>
          (case observe_target env dp (m_target_path m) w of
             Inl e \<Rightarrow> (Inl (runtime_failure ''observation'' e), w)
           | Inr targ \<Rightarrow>
               (case launch_agent_loaded dp None m w of
                  (Inl e, w1) \<Rightarrow> (Inl e, w1)
                | (Inr loaded, w1) \<Rightarrow>
                    (let ob = (observed_of hs targ)\<lparr>o_supervisor_unloaded := \<not> loaded\<rparr> in
                     if loaded then
                       (case ready_once env dp None m w1 of
                          (ready, w2) \<Rightarrow> (Inr (ob\<lparr>o_runtime_ready := ready\<rparr>), w2))
                     else (Inr ob, w1)))))"

section \<open>Effects\<close>

definition InstallCandidate ::
  "store_env \<Rightarrow> 'x deps \<Rightarrow> manifest \<Rightarrow> artifact_paths \<Rightarrow> 'x world \<Rightarrow> go_err option \<times> 'x world" where
  "InstallCandidate env dp m a w =
     (case dp_ctx dp (w_host w) of
        Some e \<Rightarrow> (Some (runtime_failure ''candidate installation'' e), w)
      | None \<Rightarrow>
          (case replace_target env dp (a_candidate a) (m_target_path m) (m_candidate_sha m) w of
             (Some e, w1) \<Rightarrow> (Some (runtime_failure ''candidate installation'' e), w1)
           | (None, w1) \<Rightarrow> (None, w1)))"

definition RestorePrevious ::
  "store_env \<Rightarrow> 'x deps \<Rightarrow> manifest \<Rightarrow> artifact_paths \<Rightarrow> 'x world \<Rightarrow> go_err option \<times> 'x world" where
  "RestorePrevious env dp m a w =
     (let f = runtime_failure ''previous runtime restoration'' in
      case dp_ctx dp (w_host w) of
        Some e \<Rightarrow> (Some (f e), w)
      | None \<Rightarrow>
          if \<not> m_previous_present m \<or> a_previous a = ''''
          then (Some (f (OtherErr ''previous artifact is absent'')), w)
          else (case replace_target env dp (a_previous a) (m_target_path m) (m_previous_sha m) w of
             (Some e, w1) \<Rightarrow> (Some (f e), w1)
           | (None, w1) \<Rightarrow> (None, w1)))"

definition RemoveTarget ::
  "store_env \<Rightarrow> 'x deps \<Rightarrow> manifest \<Rightarrow> 'x world \<Rightarrow> go_err option \<times> 'x world" where
  "RemoveTarget env dp m w =
     (let f = runtime_failure ''target removal''; p = m_target_path m in
      case dp_ctx dp (w_host w) of
        Some e \<Rightarrow> (Some (f e), w)
      | None \<Rightarrow>
          (case (dp_fault dp (SysLstat p), node_at env p w) of
             (Some e, _) \<Rightarrow> (Some (f (OtherErr ''target is not a regular file'')), w)
           | (None, None) \<Rightarrow> (None, w)
           | (None, Some (File md data)) \<Rightarrow>
               (case dp_fault dp (SysRemove p) of
                  Some e \<Rightarrow> (Some (f e), w)
                | None \<Rightarrow>
                    (map_option f (dp_fault dp (SysSync (path_dir p))), set_host_file p None w))
           | _ \<Rightarrow> (Some (f (OtherErr ''target is not a regular file'')), w)))"

definition failed_run :: "command_result \<Rightarrow> go_err option \<Rightarrow> bool" where
  "failed_run r err \<longleftrightarrow> err \<noteq> None \<or> r_exit r \<noteq> 0"

definition Restart ::
  "store_env \<Rightarrow> 'x deps \<Rightarrow> manifest \<Rightarrow> 'x world \<Rightarrow> go_err option \<times> 'x world" where
  "Restart env dp m w =
     (case remove_health_marker env dp (m_health_url_file m) w of
        (Some e, w1) \<Rightarrow> (Some (runtime_failure ''runtime restart'' e), w1)
      | (None, w1) \<Rightarrow>
          (case on_host (dp_run dp None ''launchctl'' [''kickstart'', ''-k'', launch_service m]) w1 of
             ((r, err), w2) \<Rightarrow>
               (if failed_run r err
                then Some (runtime_failure ''runtime restart'' (join_errors [err, exit_error (r_exit r)]))
                else None, w2)))"

definition Bootout :: "'x deps \<Rightarrow> manifest \<Rightarrow> 'x world \<Rightarrow> go_err option \<times> 'x world" where
  "Bootout dp m w =
     (case launch_agent_loaded dp None m w of
        (Inl e, w1) \<Rightarrow> (Some e, w1)
      | (Inr loaded, w1) \<Rightarrow>
          if \<not> loaded then (None, w1)
          else (case on_host (dp_run dp None ''launchctl''
                   [''bootout'', ''gui/'' @ itoa (m_effective_uid m), m_plist_path m]) w1 of
             ((r, err), w2) \<Rightarrow>
               (if failed_run r err
                then Some (runtime_failure ''runtime bootout'' (join_errors [err, exit_error (r_exit r)]))
                else None, w2)))"

definition ConfirmUnloaded :: "'x deps \<Rightarrow> manifest \<Rightarrow> 'x world \<Rightarrow> (go_err + bool) \<times> 'x world" where
  "ConfirmUnloaded dp m w =
     (case launch_agent_loaded dp None m w of
        (Inl e, w1) \<Rightarrow> (Inl e, w1) | (Inr loaded, w1) \<Rightarrow> (Inr (\<not> loaded), w1))"

definition invoke_adapter ::
  "store_env \<Rightarrow> 'x deps \<Rightarrow> string \<Rightarrow> string \<Rightarrow> string list \<Rightarrow> 'x world \<Rightarrow> go_err option \<times> 'x world" where
  "invoke_adapter env dp p operation args w =
     (if \<not> is_abs p then (Some (runtime_failure operation (OtherErr ''adapter path is not absolute'')), w)
      else case hash_runtime_file env dp p True w of
        Inl e \<Rightarrow> (Some (runtime_failure operation e), w)
      | Inr h \<Rightarrow>
          (case on_host (dp_run dp None p args) w of
             ((r, err), w1) \<Rightarrow>
               (if failed_run r err
                then Some (runtime_failure operation (join_errors [err, exit_error (r_exit r)]))
                else None, w1)))"

section \<open>Bounded readiness\<close>

text \<open>\<^verbatim>\<open>readyCtx.Err()\<close>: the caller's context first, then the deadline.\<close>

definition ready_ctx :: "'x deps \<Rightarrow> int \<Rightarrow> 'x world \<Rightarrow> go_err option" where
  "ready_ctx dp deadline w =
     (case dp_ctx dp (w_host w) of
        Some e \<Rightarrow> Some e
      | None \<Rightarrow> fail_if (deadline \<le> dp_now dp (w_host w)) DeadlineExceeded)"

text \<open>The loop with the number of attempts that remain; \<open>Suc 0\<close> is the last, after which
  there is no sleep.\<close>

fun ready_loop ::
  "store_env \<Rightarrow> 'x deps \<Rightarrow> int \<Rightarrow> int \<Rightarrow> manifest \<Rightarrow> nat \<Rightarrow> 'x world \<Rightarrow> go_err option \<times> 'x world" where
  "ready_loop env dp deadline poll m 0 w =
     (Some (runtime_failure ''readiness'' (OtherErr ''bounded readiness exhausted'')), w)"
| "ready_loop env dp deadline poll m (Suc k) w =
     (case ready_ctx dp deadline w of
        Some e \<Rightarrow> (Some (runtime_failure ''readiness'' e), w)
      | None \<Rightarrow>
          (case launch_agent_loaded dp (Some deadline) m w of
             (Inl e, w1) \<Rightarrow> (Some e, w1)
           | (Inr loaded, w1) \<Rightarrow>
               (case (if loaded then ready_once env dp (Some deadline) m w1 else (False, w1)) of
                  (True, w2) \<Rightarrow> (None, w2)
                | (False, w2) \<Rightarrow>
                    (case ready_ctx dp deadline w2 of
                       Some e \<Rightarrow> (Some (runtime_failure ''readiness'' e), w2)
                     | None \<Rightarrow>
                         if k = 0 then ready_loop env dp deadline poll m k w2
                         else (case on_host (dp_sleep dp deadline poll) w2 of
                            (Some e, w3) \<Rightarrow> (Some (runtime_failure ''readiness'' e), w3)
                          | (None, w3) \<Rightarrow> ready_loop env dp deadline poll m k w3)))))"

definition ready_attempts :: "manifest \<Rightarrow> nat" where
  "ready_attempts m =
     (let timeout = m_ready_timeout_seconds m * nanos_per_second;
          poll = m_ready_poll_milliseconds m * nanos_per_milli
      in nat ((timeout + poll - 1) div poll))"

definition WaitReady ::
  "store_env \<Rightarrow> 'x deps \<Rightarrow> manifest \<Rightarrow> 'x world \<Rightarrow> go_err option \<times> 'x world" where
  "WaitReady env dp m w =
     (if m_ready_timeout_seconds m \<le> 0 \<or> m_ready_timeout_seconds m > max_ready_timeout_seconds \<or>
         m_ready_poll_milliseconds m \<le> 0 \<or> m_ready_poll_milliseconds m > max_ready_poll_millis
      then (Some (runtime_failure ''readiness'' (OtherErr ''invalid readiness bounds'')), w)
      else
        let deadline = dp_now dp (w_host w) + m_ready_timeout_seconds m * nanos_per_second;
            poll = m_ready_poll_milliseconds m * nanos_per_milli
        in ready_loop env dp deadline poll m (ready_attempts m) w)"

section \<open>Captured output\<close>

record capped_buffer =
  b_data :: string
  b_truncated :: bool

definition capped_write :: "string \<Rightarrow> capped_buffer \<Rightarrow> capped_buffer" where
  "capped_write data b =
     (let remaining = int max_child_output - int (length (b_data b)) in
      if remaining \<le> 0 then b\<lparr>b_truncated := b_truncated b \<or> data \<noteq> []\<rparr>
      else if int (length data) > remaining
      then b\<lparr>b_data := b_data b @ take (nat remaining) data, b_truncated := True\<rparr>
      else b\<lparr>b_data := b_data b @ data\<rparr>)"

section \<open>The interface\<close>

record 'x runtime =
  rt_observe :: "manifest \<Rightarrow> string \<Rightarrow> artifact_paths \<Rightarrow> 'x world \<Rightarrow> (go_err + observed) \<times> 'x world"
  rt_install :: "manifest \<Rightarrow> artifact_paths \<Rightarrow> 'x world \<Rightarrow> go_err option \<times> 'x world"
  rt_restart :: "manifest \<Rightarrow> 'x world \<Rightarrow> go_err option \<times> 'x world"
  rt_wait_ready :: "manifest \<Rightarrow> 'x world \<Rightarrow> go_err option \<times> 'x world"
  rt_restore :: "manifest \<Rightarrow> artifact_paths \<Rightarrow> 'x world \<Rightarrow> go_err option \<times> 'x world"
  rt_bootout :: "manifest \<Rightarrow> 'x world \<Rightarrow> go_err option \<times> 'x world"
  rt_confirm_unloaded :: "manifest \<Rightarrow> 'x world \<Rightarrow> (go_err + bool) \<times> 'x world"
  rt_remove_target :: "manifest \<Rightarrow> 'x world \<Rightarrow> go_err option \<times> 'x world"
  rt_install_adapter :: "string \<Rightarrow> string list \<Rightarrow> 'x world \<Rightarrow> go_err option \<times> 'x world"
  rt_uninstall_adapter :: "string \<Rightarrow> string list \<Rightarrow> 'x world \<Rightarrow> go_err option \<times> 'x world"
  rt_service_loaded :: "manifest \<Rightarrow> 'x world \<Rightarrow> (go_err + bool) \<times> 'x world"
  rt_ready_once :: "manifest \<Rightarrow> 'x world \<Rightarrow> bool \<times> 'x world"

definition os_runtime :: "store_env \<Rightarrow> 'x deps \<Rightarrow> 'x runtime" where
  "os_runtime env dp =
     \<lparr>rt_observe = Observe env dp, rt_install = InstallCandidate env dp,
      rt_restart = Restart env dp, rt_wait_ready = WaitReady env dp,
      rt_restore = RestorePrevious env dp, rt_bootout = Bootout dp,
      rt_confirm_unloaded = ConfirmUnloaded dp, rt_remove_target = RemoveTarget env dp,
      rt_install_adapter = (\<lambda>p. invoke_adapter env dp p ''launch agent installation''),
      rt_uninstall_adapter = (\<lambda>p. invoke_adapter env dp p ''launch agent uninstallation''),
      rt_service_loaded = launch_agent_loaded dp None,
      rt_ready_once = ready_once env dp None\<rparr>"

text \<open>
  What the lifecycle manager relies on: an effect or an observation never changes the
  store's directory, so the recovery authority is the manager's alone to write.
\<close>

locale runtime_frame =
  fixes rt :: "'x runtime"
  assumes observe_disk: "w_disk (snd (rt_observe rt m c a w)) = w_disk w"
    and install_disk: "w_disk (snd (rt_install rt m a w)) = w_disk w"
    and restart_disk: "w_disk (snd (rt_restart rt m w)) = w_disk w"
    and wait_ready_disk: "w_disk (snd (rt_wait_ready rt m w)) = w_disk w"
    and restore_disk: "w_disk (snd (rt_restore rt m a w)) = w_disk w"
    and bootout_disk: "w_disk (snd (rt_bootout rt m w)) = w_disk w"
    and confirm_disk: "w_disk (snd (rt_confirm_unloaded rt m w)) = w_disk w"
    and remove_disk: "w_disk (snd (rt_remove_target rt m w)) = w_disk w"
    and loaded_disk: "w_disk (snd (rt_service_loaded rt m w)) = w_disk w"
begin

lemmas frame_laws = observe_disk install_disk restart_disk wait_ready_disk restore_disk
  bootout_disk confirm_disk remove_disk loaded_disk

lemma frame_rewrites:
  "rt_observe rt m c a w = (r1, w') \<Longrightarrow> w_disk w' = w_disk w"
  "rt_install rt m a w = (r2, w') \<Longrightarrow> w_disk w' = w_disk w"
  "rt_restart rt m w = (r2, w') \<Longrightarrow> w_disk w' = w_disk w"
  "rt_wait_ready rt m w = (r2, w') \<Longrightarrow> w_disk w' = w_disk w"
  "rt_restore rt m a w = (r2, w') \<Longrightarrow> w_disk w' = w_disk w"
  "rt_bootout rt m w = (r2, w') \<Longrightarrow> w_disk w' = w_disk w"
  "rt_confirm_unloaded rt m w = (r3, w') \<Longrightarrow> w_disk w' = w_disk w"
  "rt_remove_target rt m w = (r2, w') \<Longrightarrow> w_disk w' = w_disk w"
  "rt_service_loaded rt m w = (r3, w') \<Longrightarrow> w_disk w' = w_disk w"
  using frame_laws by (metis snd_conv)+

end

lemma on_host_disk [simp]: "w_disk (snd (on_host f w)) = w_disk w"
  by (simp add: on_host_def split: prod.split)

lemma on_host_diskD: "on_host f w = (r, w') \<Longrightarrow> w_disk w' = w_disk w"
  by (metis on_host_disk snd_conv)

lemma set_host_file_disk [simp]: "w_disk (set_host_file p x w) = w_disk w"
  by (simp add: set_host_file_def)

lemma remove_host_file_disk [simp]: "w_disk (remove_host_file dp p w) = w_disk w"
  by (simp add: remove_host_file_def split: option.split)

lemma copy_to_host_disk [simp]: "w_disk (snd (copy_to_host env dp s d m w)) = w_disk w"
  by (simp add: copy_to_host_def Let_def split: option.split node.split)

lemma replace_target_disk [simp]: "w_disk (snd (replace_target env dp s t h w)) = w_disk w"
proof -
  have "w_disk w1 = w_disk w0" if "copy_to_host env dp s d m w0 = (r, w1)" for d m w0 r w1
    by (metis that copy_to_host_disk snd_conv)
  then show ?thesis
    by (auto simp: replace_target_def Let_def split: list.split prod.splits sum.splits option.splits)
qed

lemma launch_agent_loaded_disk [simp]: "w_disk (snd (launch_agent_loaded dp dl m w)) = w_disk w"
  by (auto simp: launch_agent_loaded_def split: prod.splits option.splits dest: on_host_diskD)

lemma launch_agent_loaded_diskD: "launch_agent_loaded dp dl m w = (r, w') \<Longrightarrow> w_disk w' = w_disk w"
  by (metis launch_agent_loaded_disk snd_conv)

lemma probe_paths_disk [simp]: "w_disk (snd (probe_paths dp dl base ps w)) = w_disk w"
proof (induction ps arbitrary: w)
  case (Cons p ps)
  then show ?case by (auto split: prod.split http_result.split dest: on_host_diskD)
qed simp

lemma ready_once_disk [simp]: "w_disk (snd (ready_once env dp dl m w)) = w_disk w"
  by (simp add: ready_once_def del: probe_paths.simps split: sum.split)

lemma ready_once_diskD: "ready_once env dp dl m w = (r, w') \<Longrightarrow> w_disk w' = w_disk w"
  by (metis ready_once_disk snd_conv)

lemma remove_health_marker_disk [simp]: "w_disk (snd (remove_health_marker env dp p w)) = w_disk w"
  by (simp add: remove_health_marker_def split: option.split node.split)

lemma remove_health_marker_diskD:
  "remove_health_marker env dp p w = (r, w') \<Longrightarrow> w_disk w' = w_disk w"
  by (metis remove_health_marker_disk snd_conv)

lemmas world_diskD = on_host_diskD launch_agent_loaded_diskD ready_once_diskD remove_health_marker_diskD

lemma ready_loop_disk: "w_disk (snd (ready_loop env dp dl poll m k w)) = w_disk w"
proof (induction k arbitrary: w)
  case (Suc k)
  then show ?case
    by (auto split: option.split prod.splits sum.splits bool.split if_splits dest!: world_diskD)
qed simp

text \<open>The production adapter keeps the contract, whatever its children do.\<close>

interpretation osrt: runtime_frame "os_runtime env dp"
proof unfold_locales
  fix m :: manifest and c p :: string and a and w
  show "w_disk (snd (rt_observe (os_runtime env dp) m c a w)) = w_disk w"
    by (auto simp: os_runtime_def Observe_def Let_def split: sum.split prod.split dest!: world_diskD)
  show "w_disk (snd (rt_install (os_runtime env dp) m a w)) = w_disk w"
    by (auto simp: os_runtime_def InstallCandidate_def split: option.split prod.split)
      (metis replace_target_disk snd_conv)+
  show "w_disk (snd (rt_restore (os_runtime env dp) m a w)) = w_disk w"
    by (auto simp: os_runtime_def RestorePrevious_def Let_def split: option.split prod.split)
      (metis replace_target_disk snd_conv)+
  show "w_disk (snd (rt_restart (os_runtime env dp) m w)) = w_disk w"
    by (auto simp: os_runtime_def Restart_def split: option.split prod.split dest!: world_diskD)
  show "w_disk (snd (rt_wait_ready (os_runtime env dp) m w)) = w_disk w"
    by (simp add: os_runtime_def WaitReady_def Let_def ready_loop_disk)
  show "w_disk (snd (rt_bootout (os_runtime env dp) m w)) = w_disk w"
    by (auto simp: os_runtime_def Bootout_def split: sum.split prod.split dest!: world_diskD)
  show "w_disk (snd (rt_confirm_unloaded (os_runtime env dp) m w)) = w_disk w"
    by (auto simp: os_runtime_def ConfirmUnloaded_def split: sum.split prod.split dest!: world_diskD)
  show "w_disk (snd (rt_remove_target (os_runtime env dp) m w)) = w_disk w"
    by (simp add: os_runtime_def RemoveTarget_def Let_def split: option.split node.split)
  show "w_disk (snd (rt_service_loaded (os_runtime env dp) m w)) = w_disk w"
    by (simp add: os_runtime_def)
qed

end
