(* ===== verification/ReleaseManager.thy ===== *)
theory ReleaseManager
  imports ReleaseRuntime
begin

text \<open>
  The lifecycle interpreter (\<^verbatim>\<open>internal/releaseactivation/manager.go\<close>).  It holds the
  permanent lock for the whole of an operation, binds every active operation to the pinned
  authority, asks \<^const>\<open>Decide\<close> what may happen, persists a chosen direction before acting on
  it, and reduces every failure to the stable public taxonomy.

  An operation maps a world to its result and the world it leaves.  The host's path topology
  (\<open>v_os\<close>) is taken to be stable while one operation runs.
\<close>

section \<open>The manager\<close>

text \<open>The pointers of \<^verbatim>\<open>Manager\<close> are non-nil by typing.\<close>

record 'x manager =
  g_env :: store_env
  g_deps :: "'x deps"
  g_rt :: "'x runtime"
  g_controller_path :: string
  g_controller_sha :: string

record prepare_request =
  q_commit :: string
  q_candidate_sha :: string
  q_authority_sha :: string
  q_dependency_sha :: string
  q_candidate_path :: string
  q_authority_path :: string
  q_target_path :: string
  q_effective_uid :: int
  q_label :: string
  q_plist_path :: string
  q_wrapper_path :: string
  q_mcp_wrapper_path :: string
  q_stdout_path :: string
  q_stderr_path :: string
  q_environment_path :: string
  q_health_url_file :: string
  q_ready_timeout_seconds :: int
  q_ready_poll_milliseconds :: int
  q_service_candidates :: "service_candidate list"

text \<open>\<^verbatim>\<open>(*Manifest, error)\<close>\<close>

type_synonym outcome = "manifest option \<times> go_err option"

definition on_disk :: "(store_disk \<Rightarrow> 'a \<times> store_disk) \<Rightarrow> 'x world \<Rightarrow> 'a \<times> 'x world" where
  "on_disk f w = (case f (w_disk w) of (a, d) \<Rightarrow> (a, w\<lparr>w_disk := d\<rparr>))"

definition artifacts :: "'x manager \<Rightarrow> artifact_paths" where
  "artifacts g =
     (let root = v_root (g_env g) in
      \<lparr>a_candidate = active_candidate_path root, a_authority = active_authority_path root,
       a_previous = active_previous_path root\<rparr>)"

text \<open>\<^verbatim>\<open>errors.Is\<close> and \<^verbatim>\<open>errors.As\<close> walk a wrapped cause and the members of a join.\<close>

fun err_is :: "go_err \<Rightarrow> go_err \<Rightarrow> bool" where
  "err_is x (RuntimeErr op c) \<longleftrightarrow> err_is x c"
| "err_is x (Joined es) \<longleftrightarrow> list_ex (err_is x) es"
| "err_is x e \<longleftrightarrow> e = x"

fun as_lifecycle :: "go_err \<Rightarrow> lc_error option" where
  "as_lifecycle (Lifecycle l) = Some l"
| "as_lifecycle (RuntimeErr op c) = as_lifecycle c"
| "as_lifecycle (Joined es) = first_err (map as_lifecycle es)"
| "as_lifecycle _ = None"

fun as_rolled_back :: "go_err \<Rightarrow> string option" where
  "as_rolled_back (RolledBack op) = Some op"
| "as_rolled_back (RuntimeErr op c) = as_rolled_back c"
| "as_rolled_back (Joined es) = first_err (map as_rolled_back es)"
| "as_rolled_back _ = None"

fun as_runtime :: "go_err \<Rightarrow> (string \<times> go_err) option" where
  "as_runtime (RuntimeErr op c) = Some (op, c)"
| "as_runtime (Joined es) = first_err (map as_runtime es)"
| "as_runtime _ = None"

fun as_exit_status :: "go_err \<Rightarrow> int option" where
  "as_exit_status (ExitStatus c) = Some c"
| "as_exit_status (RuntimeErr op c) = as_exit_status c"
| "as_exit_status (Joined es) = first_err (map as_exit_status es)"
| "as_exit_status _ = None"

fun has_topology :: "go_err \<Rightarrow> bool" where
  "has_topology (Topology k r q) \<longleftrightarrow> True"
| "has_topology (RuntimeErr op c) \<longleftrightarrow> has_topology c"
| "has_topology (Joined es) \<longleftrightarrow> list_ex has_topology es"
| "has_topology _ \<longleftrightarrow> False"

definition mgr_acquire :: "'x manager \<Rightarrow> 'x world \<Rightarrow> (go_err + locked_store) \<times> 'x world" where
  "mgr_acquire g w =
     (if g_controller_path g = '''' \<or> \<not> valid_sha256 (g_controller_sha g)
      then (Inl (lc_err ErrorStateMalformed), w)
      else (case on_disk (Acquire (g_env g)) w of
         (Inl e, w1) \<Rightarrow> (Inl (if err_is (Sentinel ErrBusy) e then lc_err ErrorBusy else e), w1)
       | (Inr l, w1) \<Rightarrow> (Inr l, w1)))"

text \<open>\<^verbatim>\<open>defer locked.Close()\<close>; its error is dropped.\<close>

definition release_lock :: "locked_store \<Rightarrow> 'x world \<Rightarrow> 'x world" where
  "release_lock l w = w\<lparr>w_disk := snd (Close l (w_disk w))\<rparr>"

definition with_lock ::
  "'x manager \<Rightarrow> (go_err \<Rightarrow> 'a) \<Rightarrow> (locked_store \<Rightarrow> 'x world \<Rightarrow> 'a \<times> 'x world) \<Rightarrow> 'x world \<Rightarrow> 'a \<times> 'x world" where
  "with_lock g fail body w =
     (case mgr_acquire g w of
        (Inl e, w1) \<Rightarrow> (fail e, w1)
      | (Inr l, w1) \<Rightarrow> (case body l w1 of (r, w2) \<Rightarrow> (r, release_lock l w2)))"

definition no_manifest :: "go_err \<Rightarrow> outcome" where
  "no_manifest e = (None, Some e)"

definition validate_current_authority :: "'x manager \<Rightarrow> manifest \<Rightarrow> 'x world \<Rightarrow> go_err option" where
  "validate_current_authority g m w =
     (if g_controller_sha g \<noteq> m_authority_sha m then Some (lc_err ErrorAuthorityMismatch)
      else case hash_runtime_file (g_env g) (g_deps g) (g_controller_path g) True w of
        Inl e \<Rightarrow> Some (lc_err ErrorAuthorityMismatch)
      | Inr h \<Rightarrow> fail_if (h \<noteq> g_controller_sha g) (lc_err ErrorAuthorityMismatch))"

definition validate_requested_event :: "manifest \<Rightarrow> lc_event \<Rightarrow> string \<Rightarrow> go_err option" where
  "validate_requested_event m ev i =
     (if \<not> event_allowed (m_state m) ev \<or> ev = EventDeploymentReady \<or> ev = EventPrepare
      then Some (lc_err ErrorStateConflict)
      else fail_if (i \<noteq> m_id m) (lc_err ErrorIdentityMismatch))"

section \<open>The supervised set\<close>

definition service_manifest :: "manifest \<Rightarrow> service_descriptor \<Rightarrow> manifest" where
  "service_manifest m s =
     m\<lparr>m_label := s_label s, m_plist_path := s_plist_path s, m_plist_sha := s_plist_sha s,
       m_wrapper_path := s_wrapper_path s, m_wrapper_sha := s_wrapper_sha s,
       m_mcp_wrapper_path := s_mcp_wrapper_path s, m_mcp_wrapper_sha := s_mcp_wrapper_sha s,
       m_stdout_path := s_stdout_path s, m_stderr_path := s_stderr_path s,
       m_environment_path := s_environment_path s, m_environment_sha := s_environment_sha s,
       m_health_url_file := s_health_url_file s\<rparr>"

definition service_manifests :: "manifest \<Rightarrow> manifest list" where
  "service_manifests m =
     (if m_services m = [] then [m] else map (service_manifest m) (m_services m))"

definition service_drift :: "manifest \<Rightarrow> observed \<Rightarrow> bool" where
  "service_drift s ob \<longleftrightarrow>
     o_plist_sha ob \<noteq> m_plist_sha s \<or> o_wrapper_sha ob \<noteq> m_wrapper_sha s \<or>
     o_mcp_wrapper_sha ob \<noteq> m_mcp_wrapper_sha s \<or> o_environment_sha ob \<noteq> m_environment_sha s"

fun observe_services ::
  "'x manager \<Rightarrow> observed \<Rightarrow> manifest list \<Rightarrow> 'x world \<Rightarrow> (go_err + observed) \<times> 'x world" where
  "observe_services g ob [] w = (Inr ob, w)"
| "observe_services g ob (s # ss) w =
     (case rt_observe (g_rt g) s (g_controller_path g) (artifacts g) w of
        (Inl e, w1) \<Rightarrow> (Inl e, w1)
      | (Inr so, w1) \<Rightarrow>
          if service_drift s so then (Inl (lc_err ErrorRuntimeDrift), w1)
          else observe_services g
            (ob\<lparr>o_runtime_ready := o_runtime_ready ob \<and> o_runtime_ready so,
                o_supervisor_unloaded := o_supervisor_unloaded ob \<and> o_supervisor_unloaded so\<rparr>) ss w1)"

definition observe :: "'x manager \<Rightarrow> manifest \<Rightarrow> 'x world \<Rightarrow> (go_err + observed) \<times> 'x world" where
  "observe g m w =
     (case rt_observe (g_rt g) m (g_controller_path g) (artifacts g) w of
        (Inl e, w1) \<Rightarrow> (Inl e, w1)
      | (Inr ob, w1) \<Rightarrow>
          if length (m_services m) < 2 then (Inr ob, w1)
          else observe_services g ob (tl (service_manifests m)) w1)"

text \<open>Every supervised service in order: restart it, then wait until it is ready.\<close>

fun restart_services :: "'x manager \<Rightarrow> manifest list \<Rightarrow> 'x world \<Rightarrow> go_err option \<times> 'x world" where
  "restart_services g [] w = (None, w)"
| "restart_services g (s # ss) w =
     (case rt_restart (g_rt g) s w of
        (Some e, w1) \<Rightarrow> (Some e, w1)
      | (None, w1) \<Rightarrow>
          (case rt_wait_ready (g_rt g) s w1 of
             (Some e, w2) \<Rightarrow> (Some e, w2)
           | (None, w2) \<Rightarrow> restart_services g ss w2))"

fun unload_services :: "'x manager \<Rightarrow> manifest list \<Rightarrow> 'x world \<Rightarrow> go_err option \<times> 'x world" where
  "unload_services g [] w = (None, w)"
| "unload_services g (s # ss) w =
     (case rt_bootout (g_rt g) s w of
        (Some e, w1) \<Rightarrow> (Some e, w1)
      | (None, w1) \<Rightarrow>
          (case rt_confirm_unloaded (g_rt g) s w1 of
             (Inl e, w2) \<Rightarrow> (Some (lc_err ErrorRecoveryUnconfirmed), w2)
           | (Inr unloaded, w2) \<Rightarrow>
               if \<not> unloaded then (Some (lc_err ErrorRecoveryUnconfirmed), w2)
               else unload_services g ss w2))"

section \<open>Rolling back\<close>

definition resume_rollback ::
  "'x manager \<Rightarrow> manifest \<Rightarrow> observed \<Rightarrow> 'x world \<Rightarrow> (go_err + bool) \<times> 'x world" where
  "resume_rollback g m ob w =
     (if m_previous_present m then
        (case (if \<not> o_installed_present ob \<or> o_installed_sha ob \<noteq> m_previous_sha m
               then rt_restore (g_rt g) m (artifacts g) w else (None, w)) of
           (Some e, w1) \<Rightarrow> (Inl e, w1)
         | (None, w1) \<Rightarrow>
             (case restart_services g (service_manifests m) w1 of
                (Some e, w2) \<Rightarrow> (Inl e, w2) | (None, w2) \<Rightarrow> (Inr True, w2)))
      else
        (case unload_services g (service_manifests m) w of
           (Some e, w1) \<Rightarrow> (Inl e, w1)
         | (None, w1) \<Rightarrow>
             if o_installed_present ob then
               (case rt_remove_target (g_rt g) m w1 of
                  (Some e, w2) \<Rightarrow> (Inl e, w2) | (None, w2) \<Rightarrow> (Inr False, w2))
             else (Inr False, w1)))"

definition clear_slot :: "'x manager \<Rightarrow> locked_store \<Rightarrow> manifest \<Rightarrow> 'x world \<Rightarrow> outcome \<times> 'x world" where
  "clear_slot g l m w =
     (case on_disk (Clear (g_env g) l (m_id m)) w of
        (Inl e, w1) \<Rightarrow> ((Some m, Some e), w1) | (Inr ws, w1) \<Rightarrow> ((None, None), w1))"

definition finish_rollback ::
  "'x manager \<Rightarrow> locked_store \<Rightarrow> manifest \<Rightarrow> observed \<Rightarrow> 'x world \<Rightarrow> outcome \<times> 'x world" where
  "finish_rollback g l m ob w =
     (let unconfirmed = (Some m, Some (lc_err ErrorRecoveryUnconfirmed));
          dc = Decide (Some m) EventRollback (lc_context (m_id m) ob) in
      if d_err dc \<noteq> None \<or> length (d_commands dc) \<noteq> 1 then (unconfirmed, w)
      else if hd (d_commands dc) = CommandClearTransaction then clear_slot g l m w
      else if hd (d_commands dc) \<noteq> CommandResumeRollback then (unconfirmed, w)
      else (case resume_rollback g m ob w of
         (Inl e, w1) \<Rightarrow> (unconfirmed, w1)
       | (Inr ready, w1) \<Rightarrow>
           (case observe g m w1 of
              (Inl e, w2) \<Rightarrow> (unconfirmed, w2)
            | (Inr fresh, w2) \<Rightarrow>
                (let dc2 = Decide (Some m) EventRollback
                        ((lc_context (m_id m) fresh)\<lparr>c_rollback_ready := ready\<rparr>) in
                 if d_err dc2 \<noteq> None \<or> d_commands dc2 \<noteq> [CommandClearTransaction] then (unconfirmed, w2)
                 else clear_slot g l m w2))))"

definition cause_operation :: "go_err \<Rightarrow> string" where
  "cause_operation cause = (case as_runtime cause of None \<Rightarrow> ''deployment'' | Some (op, c) \<Rightarrow> op)"

definition rolled_back_failure :: "go_err \<Rightarrow> go_err" where
  "rolled_back_failure cause = RolledBack (cause_operation cause)"

definition rewrite_manifest ::
  "'x manager \<Rightarrow> locked_store \<Rightarrow> manifest \<Rightarrow> 'x world \<Rightarrow> go_err option \<times> 'x world" where
  "rewrite_manifest g l m w = on_disk (Rewrite (g_env g) l m) w"

definition rollback_deployment_failure ::
  "'x manager \<Rightarrow> locked_store \<Rightarrow> manifest \<Rightarrow> go_err \<Rightarrow> 'x world \<Rightarrow> go_err \<times> 'x world" where
  "rollback_deployment_failure g l m cause w =
     (case observe g m w of
        (Inl e, w1) \<Rightarrow> (lc_err ErrorRecoveryUnconfirmed, w1)
      | (Inr ob, w1) \<Rightarrow>
          (let dc = Decide (Some m) EventRollback (lc_context (m_id m) ob) in
           case (d_err dc, d_next dc) of
             (None, Some nxt) \<Rightarrow>
               (case rewrite_manifest g l nxt w1 of
                  (Some e, w2) \<Rightarrow> (e, w2)
                | (None, w2) \<Rightarrow>
                    (case finish_rollback g l nxt ob w2 of
                       ((_, Some e), w3) \<Rightarrow> (lc_err ErrorRecoveryUnconfirmed, w3)
                     | ((_, None), w3) \<Rightarrow> (rolled_back_failure cause, w3)))
           | _ \<Rightarrow> (lc_err ErrorRecoveryUnconfirmed, w1)))"

section \<open>Deploying and accepting\<close>

definition not_installed :: "manifest \<Rightarrow> observed \<Rightarrow> bool" where
  "not_installed m ob \<longleftrightarrow> \<not> o_installed_present ob \<or> o_installed_sha ob \<noteq> m_candidate_sha m"

text \<open>The error is the one \<^verbatim>\<open>resumeDeployment\<close> passes to \<^verbatim>\<open>rollbackDeploymentFailure\<close>.\<close>

definition install_step ::
  "'x manager \<Rightarrow> manifest \<Rightarrow> observed \<Rightarrow> 'x world \<Rightarrow> go_err option \<times> 'x world" where
  "install_step g m ob w =
     (if \<not> not_installed m ob then (None, w)
      else case rt_install (g_rt g) m (artifacts g) w of
        (Some e, w1) \<Rightarrow> (Some e, w1)
      | (None, w1) \<Rightarrow>
          (case observe g m w1 of
             (Inl e, w2) \<Rightarrow> (Some e, w2)
           | (Inr ob2, w2) \<Rightarrow>
               (fail_if (not_installed m ob2) (lc_err ErrorInstalledMismatch), w2)))"

definition resume_deployment ::
  "'x manager \<Rightarrow> locked_store \<Rightarrow> manifest \<Rightarrow> observed \<Rightarrow> 'x world \<Rightarrow> go_err option \<times> 'x world" where
  "resume_deployment g l m ob w =
     (let give_up = (\<lambda>e w. case rollback_deployment_failure g l m e w of (e', w') \<Rightarrow> (Some e', w')) in
      case install_step g m ob w of
        (Some e, w1) \<Rightarrow> give_up e w1
      | (None, w1) \<Rightarrow>
          (case restart_services g (service_manifests m) w1 of
             (Some e, w2) \<Rightarrow> give_up e w2
           | (None, w2) \<Rightarrow> (None, w2)))"

definition finish_accept ::
  "'x manager \<Rightarrow> locked_store \<Rightarrow> manifest \<Rightarrow> string \<Rightarrow> 'x world \<Rightarrow> outcome \<times> 'x world" where
  "finish_accept g l m i w =
     (case observe g m w of
        (Inl e, w1) \<Rightarrow> ((Some m, Some e), w1)
      | (Inr fresh, w1) \<Rightarrow>
          (let dc = Decide (Some m) EventAccept (lc_context i fresh) in
           case d_err dc of
             Some e \<Rightarrow> ((Some m, Some (Lifecycle e)), w1)
           | None \<Rightarrow>
               if d_commands dc \<noteq> [CommandClearTransaction]
               then ((Some m, Some (lc_err ErrorRecoveryUnconfirmed)), w1)
               else clear_slot g l m w1))"

text \<open>The \<^verbatim>\<open>CommandResumeDeployment\<close> branch of \<^verbatim>\<open>run\<close>.\<close>

definition deploy ::
  "'x manager \<Rightarrow> locked_store \<Rightarrow> manifest \<Rightarrow> string \<Rightarrow> observed \<Rightarrow> 'x world \<Rightarrow> outcome \<times> 'x world" where
  "deploy g l m i ob w =
     (let give_up = (\<lambda>e w. case rollback_deployment_failure g l m e w of
            (e', w') \<Rightarrow> ((Some m, Some e'), w')) in
      case resume_deployment g l m ob w of
        (Some e, w1) \<Rightarrow> ((Some m, Some e), w1)
      | (None, w1) \<Rightarrow>
          (case observe g m w1 of
             (Inl e, w2) \<Rightarrow> give_up e w2
           | (Inr fresh, w2) \<Rightarrow>
               (let rd = Decide (Some m) EventDeploymentReady (lc_context i fresh) in
                case (d_err rd, d_commands rd, d_next rd) of
                  (None, [CommandPersistState], Some nxt) \<Rightarrow>
                    (case rewrite_manifest g l nxt w2 of
                       (Some e, w3) \<Rightarrow> ((Some m, Some e), w3)
                     | (None, w3) \<Rightarrow> ((Some nxt, None), w3))
                | (err, _, _) \<Rightarrow>
                    give_up (case err of Some e \<Rightarrow> Lifecycle e
                                       | None \<Rightarrow> lc_err ErrorRecoveryUnconfirmed) w2)))"

text \<open>The \<^verbatim>\<open>CommandPersistState\<close> branch: persist the direction, then finish it.\<close>

definition persist_and_finish ::
  "'x manager \<Rightarrow> locked_store \<Rightarrow> manifest \<Rightarrow> snapshot \<Rightarrow> string \<Rightarrow> observed \<Rightarrow> 'x world \<Rightarrow> outcome \<times> 'x world" where
  "persist_and_finish g l m nxt i ob w =
     (case nxt of
        None \<Rightarrow> ((Some m, Some (lc_err ErrorStateMalformed)), w)
      | Some n \<Rightarrow>
          (case rewrite_manifest g l n w of
             (Some e, w1) \<Rightarrow> ((Some m, Some e), w1)
           | (None, w1) \<Rightarrow>
               if m_state n = StateRollingBack then finish_rollback g l n ob w1
               else if m_state n = StateAccepting then finish_accept g l n i w1
               else ((Some n, Some (lc_err ErrorStateConflict)), w1)))"

definition interpret_decision ::
  "'x manager \<Rightarrow> locked_store \<Rightarrow> manifest \<Rightarrow> lc_event \<Rightarrow> string \<Rightarrow> observed \<Rightarrow> 'x world \<Rightarrow> outcome \<times> 'x world" where
  "interpret_decision g l m ev i ob w =
     (let dc = Decide (Some m) ev (lc_context i ob) in
      case d_err dc of
        Some e \<Rightarrow> ((Some m, Some (Lifecycle e)), w)
      | None \<Rightarrow>
          (case d_commands dc of
             [CommandResumeDeployment] \<Rightarrow> deploy g l m i ob w
           | [CommandPersistState] \<Rightarrow> persist_and_finish g l m (d_next dc) i ob w
           | [CommandResumeRollback] \<Rightarrow> finish_rollback g l m ob w
           | [CommandClearTransaction] \<Rightarrow> clear_slot g l m w
           | _ \<Rightarrow> ((Some m, Some (lc_err ErrorStateConflict)), w)))"

text \<open>\<^verbatim>\<open>run\<close> under the lock.  An empty identifier means the loaded release only where the
  caller allows it, the event is resume and the release is prepared.\<close>

definition effective_id :: "manifest \<Rightarrow> lc_event \<Rightarrow> string \<Rightarrow> bool \<Rightarrow> string" where
  "effective_id m ev i allow_current =
     (if allow_current \<and> i = '''' \<and> ev = EventResume \<and> m_state m = StatePrepared then m_id m else i)"

definition run_locked ::
  "'x manager \<Rightarrow> lc_event \<Rightarrow> string \<Rightarrow> bool \<Rightarrow> locked_store \<Rightarrow> 'x world \<Rightarrow> outcome \<times> 'x world" where
  "run_locked g ev i0 allow_current l w =
     (case Load (g_env g) l (w_disk w) of
        Inl e \<Rightarrow> (no_manifest e, w)
      | Inr None \<Rightarrow> (no_manifest (lc_err ErrorNoPending), w)
      | Inr (Some m) \<Rightarrow>
          (let i = effective_id m ev i0 allow_current in
           case first_err [validate_current_authority g m w, validate_requested_event m ev i] of
             Some e \<Rightarrow> ((Some m, Some e), w)
           | None \<Rightarrow>
               (case on_disk (CleanupOrphans (g_env g) l) w of
                  (Some e, w1) \<Rightarrow> ((Some m, Some e), w1)
                | (None, w1) \<Rightarrow>
                    (case observe g m w1 of
                       (Inl e, w2) \<Rightarrow> ((Some m, Some e), w2)
                     | (Inr ob, w2) \<Rightarrow> interpret_decision g l m ev i ob w2))))"

definition mgr_run ::
  "'x manager \<Rightarrow> lc_event \<Rightarrow> string \<Rightarrow> bool \<Rightarrow> 'x world \<Rightarrow> outcome \<times> 'x world" where
  "mgr_run g ev i allow_current = with_lock g no_manifest (run_locked g ev i allow_current)"

definition mgr_resume :: "'x manager \<Rightarrow> string \<Rightarrow> 'x world \<Rightarrow> outcome \<times> 'x world" where
  "mgr_resume g i = mgr_run g EventResume i True"

definition mgr_accept :: "'x manager \<Rightarrow> string \<Rightarrow> 'x world \<Rightarrow> outcome \<times> 'x world" where
  "mgr_accept g i w =
     (if i = '''' then (no_manifest (lc_err ErrorIdentityMismatch), w)
      else mgr_run g EventAccept i False w)"

definition mgr_rollback :: "'x manager \<Rightarrow> string \<Rightarrow> 'x world \<Rightarrow> outcome \<times> 'x world" where
  "mgr_rollback g i w =
     (if i = '''' then (no_manifest (lc_err ErrorIdentityMismatch), w)
      else mgr_run g EventRollback i False w)"

definition mgr_status :: "'x manager \<Rightarrow> 'x world \<Rightarrow> outcome \<times> 'x world" where
  "mgr_status g =
     with_lock g no_manifest (\<lambda>l w.
       (case Load (g_env g) l (w_disk w) of
          Inl e \<Rightarrow> no_manifest e
        | Inr None \<Rightarrow> (None, None)
        | Inr (Some m) \<Rightarrow> (Some m, validate_current_authority g m w), w))"

text \<open>Administrative effects; a nil \<^verbatim>\<open>effect\<close> is \<^const>\<open>None\<close>.\<close>

type_synonym 'x effect = "'x runtime \<Rightarrow> 'x world \<Rightarrow> go_err option \<times> 'x world"

definition mgr_with_clear :: "'x manager \<Rightarrow> 'x effect option \<Rightarrow> 'x world \<Rightarrow> go_err option \<times> 'x world" where
  "mgr_with_clear g eff =
     with_lock g Some (\<lambda>l w.
       case Load (g_env g) l (w_disk w) of
         Inl e \<Rightarrow> (Some e, w)
       | Inr (Some m) \<Rightarrow> (Some (lc_err ErrorStateConflict), w)
       | Inr None \<Rightarrow>
           (case eff of
              None \<Rightarrow> (Some (lc_err ErrorStateConflict), w)
            | Some f \<Rightarrow>
                (case on_disk (CleanupOrphans (g_env g) l) w of
                   (Some e, w1) \<Rightarrow> (Some e, w1) | (None, w1) \<Rightarrow> f (g_rt g) w1)))"

definition mgr_probe :: "'x manager \<Rightarrow> 'x effect option \<Rightarrow> 'x world \<Rightarrow> go_err option \<times> 'x world" where
  "mgr_probe g eff =
     with_lock g Some (\<lambda>l w.
       case eff of None \<Rightarrow> (Some (lc_err ErrorStateConflict), w) | Some f \<Rightarrow> f (g_rt g) w)"

section \<open>The gateway binding of a service\<close>

definition contains_space :: "string \<Rightarrow> bool" where
  "contains_space s \<longleftrightarrow> list_ex ascii_space s \<or> list_ex (\<lambda>u. sublist u s) unicode_spaces"

definition expand_home_prefix :: "string \<Rightarrow> string \<Rightarrow> string option" where
  "expand_home_prefix value home =
     (if value = ''$HOME'' then Some home
      else if prefix ''$HOME/'' value then Some (home @ ''/'' @ trim_prefix value ''$HOME/'')
      else if value = ''${HOME}'' then Some home
      else if prefix ''${HOME}/'' value then Some (home @ ''/'' @ trim_prefix value ''${HOME}/'')
      else if CHR ''$'' \<in> set value then None
      else Some value)"

definition quoted_by :: "char \<Rightarrow> string \<Rightarrow> bool" where
  "quoted_by q s \<longleftrightarrow> 2 \<le> length s \<and> hd s = q \<and> last s = q"

definition parse_gateway_bin :: "string \<Rightarrow> string \<Rightarrow> string option" where
  "parse_gateway_bin raw home =
     (let single = quoted_by (CHR 0x27) raw; double = quoted_by (CHR 0x22) raw;
          v = (if single \<or> double then butlast (tl raw) else raw);
          bad = (if single then CHR 0x27 \<in> set v
                 else if double then contains_any v [CHR 0x60, CHR 0x5C, CHR 0x22]
                 else contains_any v [CHR 0x60, CHR 0x5C, CHR 0x22, CHR 0x27, CHR ''#''] \<or>
                      contains_space v)
      in if bad then None
         else case (if single then Some v else expand_home_prefix v home) of
           None \<Rightarrow> None
         | Some x \<Rightarrow> if is_abs x then Some (path_clean x) else None)"

text \<open>The lines of the environment file, with the value seen so far; \<^const>\<open>None\<close> is malformed.\<close>

fun gateway_binding :: "string \<Rightarrow> string \<Rightarrow> string list \<Rightarrow> string option" where
  "gateway_binding home value [] = Some value"
| "gateway_binding home value (raw # rest) =
     (let line = trim_suffix raw [CHR 0x0D] in
      if length line > 4096 \<or> line = '''' \<or> prefix ''#'' line then gateway_binding home value rest
      else case cut_at CHR ''='' line of
        None \<Rightarrow> None
      | Some (key, v) \<Rightarrow>
          if key = '''' then None
          else if key \<noteq> ''GATEWAY_BIN'' then gateway_binding home value rest
          else if value \<noteq> '''' then None
          else case parse_gateway_bin v home of
            None \<Rightarrow> None
          | Some x \<Rightarrow> gateway_binding home x rest)"

definition validate_service_gateway_binding ::
  "store_env \<Rightarrow> 'x deps \<Rightarrow> string \<Rightarrow> string \<Rightarrow> string \<Rightarrow> 'x world \<Rightarrow> go_err option" where
  "validate_service_gateway_binding env dp envp plistp targ w =
     (let malformed = Some (lc_err ErrorStateMalformed) in
      case (dp_fault dp (SysRead envp), node_at env envp w) of
        (None, Some (File m data)) \<Rightarrow>
          (let home = trim_suffix (path_dir (path_dir plistp)) ''/Library'' in
           if length data > 65536 \<or> home = '''' \<or> \<not> is_abs home then malformed
           else case gateway_binding home '''' (split_on (CHR 0x0A) data) of
             None \<Rightarrow> malformed
           | Some v \<Rightarrow> if v = '''' \<or> v \<noteq> path_clean targ then malformed else None)
      | _ \<Rightarrow> malformed)"

section \<open>Preparing\<close>

definition candidate_well_formed :: "service_candidate \<Rightarrow> bool" where
  "candidate_well_formed c \<longleftrightarrow>
     (let tunnel = k_server c = ''ynab'';
          http = k_server c = ''obsidian-http'' \<or> k_server c = ''ynab-http''
      in (tunnel \<or> http) \<and> ValidLaunchAgentLabel (k_label c) \<and>
         absolute_paths [k_plist_path c, k_wrapper_path c, k_stdout_path c, k_stderr_path c,
           k_environment_path c, k_health_url_file c] \<and>
         (tunnel \<longrightarrow> is_abs (k_mcp_wrapper_path c)) \<and> (http \<longrightarrow> k_mcp_wrapper_path c = ''''))"

definition probe_manifest :: "manifest \<Rightarrow> service_candidate \<Rightarrow> manifest" where
  "probe_manifest base c =
     base\<lparr>m_label := k_label c, m_plist_path := k_plist_path c, m_wrapper_path := k_wrapper_path c,
       m_mcp_wrapper_path := k_mcp_wrapper_path c\<rparr>"

text \<open>Hashes in order; the first that fails is the error.\<close>

fun collect :: "(go_err + string) list \<Rightarrow> go_err + string list" where
  "collect [] = Inr []"
| "collect (Inl e # rs) = Inl e"
| "collect (Inr h # rs) = (case collect rs of Inl e \<Rightarrow> Inl e | Inr hs \<Rightarrow> Inr (h # hs))"

definition captured_descriptor :: "service_candidate \<Rightarrow> string list \<Rightarrow> service_descriptor" where
  "captured_descriptor c hs =
     \<lparr>s_server = k_server c, s_label = k_label c, s_plist_path = k_plist_path c,
      s_plist_sha = hs ! 0, s_wrapper_path = k_wrapper_path c, s_wrapper_sha = hs ! 1,
      s_mcp_wrapper_path = k_mcp_wrapper_path c, s_mcp_wrapper_sha = hs ! 2,
      s_stdout_path = k_stdout_path c, s_stderr_path = k_stderr_path c,
      s_environment_path = k_environment_path c, s_environment_sha = hs ! 3,
      s_health_url_file = k_health_url_file c\<rparr>"

text \<open>\<^const>\<open>None\<close> is a candidate whose job is not loaded: it is left out.\<close>

definition capture_service ::
  "'x manager \<Rightarrow> manifest \<Rightarrow> service_candidate \<Rightarrow> 'x world \<Rightarrow> (go_err + service_descriptor option) \<times> 'x world" where
  "capture_service g base c w =
     (if \<not> candidate_well_formed c then (Inl (lc_err ErrorStateMalformed), w)
      else case rt_service_loaded (g_rt g) (probe_manifest base c) w of
        (Inl e, w1) \<Rightarrow> (Inl e, w1)
      | (Inr False, w1) \<Rightarrow> (Inr None, w1)
      | (Inr True, w1) \<Rightarrow>
          (case validate_service_gateway_binding (g_env g) (g_deps g) (k_environment_path c)
              (k_plist_path c) (m_target_path base) w1 of
             Some e \<Rightarrow> (Inl e, w1)
           | None \<Rightarrow>
               (let h = (\<lambda>p. HashRegular (g_env g) (g_deps g) p w1) in
                case collect [h (k_plist_path c), h (k_wrapper_path c),
                    (if k_server c = ''ynab'' then h (k_mcp_wrapper_path c) else Inr ''''),
                    h (k_environment_path c)] of
                  Inl e \<Rightarrow> (Inl e, w1)
                | Inr hs \<Rightarrow> (Inr (Some (captured_descriptor c hs)), w1))))"

fun capture_services ::
  "'x manager \<Rightarrow> manifest \<Rightarrow> service_candidate list \<Rightarrow> 'x world \<Rightarrow> (go_err + manifest) \<times> 'x world" where
  "capture_services g m [] w = (Inr m, w)"
| "capture_services g m (c # cs) w =
     (case capture_service g m c w of
        (Inl e, w1) \<Rightarrow> (Inl e, w1)
      | (Inr None, w1) \<Rightarrow> capture_services g m cs w1
      | (Inr (Some s), w1) \<Rightarrow> capture_services g (m\<lparr>m_services := m_services m @ [s]\<rparr>) cs w1)"

text \<open>The checks on the request alone.\<close>

definition request_checks :: "'x manager \<Rightarrow> prepare_request \<Rightarrow> go_err option" where
  "request_checks g q =
     first_err
       [fail_if (q_effective_uid q \<noteq> v_uid (g_env g) \<or> \<not> ValidLaunchAgentLabel (q_label q))
          (lc_err ErrorStateMalformed),
        fail_if (\<not> valid_commit (q_commit q) \<or> \<not> valid_sha256 (q_candidate_sha q) \<or>
                 \<not> valid_sha256 (q_authority_sha q) \<or> \<not> valid_sha256 (q_dependency_sha q))
          (lc_err ErrorStateMalformed),
        fail_if (g_controller_sha g \<noteq> q_authority_sha q) (lc_err ErrorAuthorityMismatch)]"

definition path_exists :: "store_env \<Rightarrow> 'x deps \<Rightarrow> string \<Rightarrow> 'x world \<Rightarrow> go_err + bool" where
  "path_exists env dp p w =
     (case dp_fault dp (SysLstat p) of Some e \<Rightarrow> Inl e | None \<Rightarrow> Inr (node_at env p w \<noteq> None))"

definition obsidian_descriptor :: "manifest \<Rightarrow> service_descriptor" where
  "obsidian_descriptor m =
     \<lparr>s_server = ''obsidian'', s_label = m_label m, s_plist_path = m_plist_path m,
      s_plist_sha = m_plist_sha m, s_wrapper_path = m_wrapper_path m,
      s_wrapper_sha = m_wrapper_sha m, s_mcp_wrapper_path = m_mcp_wrapper_path m,
      s_mcp_wrapper_sha = m_mcp_wrapper_sha m, s_stdout_path = m_stdout_path m,
      s_stderr_path = m_stderr_path m, s_environment_path = m_environment_path m,
      s_environment_sha = m_environment_sha m, s_health_url_file = m_health_url_file m\<rparr>"

text \<open>The manifest of a request, from the hashes candidate, plist, wrapper, MCP wrapper,
  environment and previous; \<open>i\<close> is the identifier \<^verbatim>\<open>NewReleaseID\<close> drew.\<close>

definition request_manifest :: "prepare_request \<Rightarrow> string \<Rightarrow> bool \<Rightarrow> string list \<Rightarrow> manifest" where
  "request_manifest q i previous hs =
     (let m =
       \<lparr>m_version = ManifestVersion, m_state = StatePrepared, m_id = i, m_commit = q_commit q,
        m_dependency_sha = q_dependency_sha q, m_candidate_file = ''candidate'',
        m_candidate_sha = hs ! 0, m_authority_file = ''authority'',
        m_authority_sha = q_authority_sha q, m_previous_present = previous,
        m_previous_file = '''', m_previous_sha = hs ! 6, m_target_path = q_target_path q,
        m_effective_uid = q_effective_uid q, m_label = q_label q,
        m_plist_path = q_plist_path q, m_plist_sha = hs ! 2, m_wrapper_path = q_wrapper_path q,
        m_wrapper_sha = hs ! 3, m_mcp_wrapper_path = q_mcp_wrapper_path q,
        m_mcp_wrapper_sha = hs ! 4, m_stdout_path = q_stdout_path q,
        m_stderr_path = q_stderr_path q, m_environment_path = q_environment_path q,
        m_environment_sha = hs ! 5, m_health_url_file = q_health_url_file q,
        m_ready_timeout_seconds = q_ready_timeout_seconds q,
        m_ready_poll_milliseconds = q_ready_poll_milliseconds q, m_services = []\<rparr>
      in m\<lparr>m_services := [obsidian_descriptor m]\<rparr>)"

text \<open>A hash that must equal a requested one.\<close>

definition expect_hash :: "string \<Rightarrow> error_code \<Rightarrow> go_err + string \<Rightarrow> go_err + string" where
  "expect_hash want code r =
     (case r of Inl e \<Rightarrow> Inl e | Inr h \<Rightarrow> if h \<noteq> want then Inl (lc_err code) else Inr h)"

definition request_hashes ::
  "'x manager \<Rightarrow> prepare_request \<Rightarrow> bool \<Rightarrow> 'x world \<Rightarrow> go_err + string list" where
  "request_hashes g q previous w =
     (let h = (\<lambda>p. HashRegular (g_env g) (g_deps g) p w) in
      collect
        [expect_hash (q_candidate_sha q) ErrorArtifactMismatch (h (q_candidate_path q)),
         expect_hash (q_authority_sha q) ErrorAuthorityMismatch (h (q_authority_path q)),
         h (q_plist_path q), h (q_wrapper_path q), h (q_mcp_wrapper_path q),
         h (q_environment_path q),
         (if previous then h (q_target_path q) else Inr '''')])"

text \<open>From the constructed manifest to its publication.\<close>

definition publish_prepared ::
  "'x manager \<Rightarrow> prepare_request \<Rightarrow> artifact_sources \<Rightarrow> manifest \<Rightarrow> locked_store \<Rightarrow> 'x world
     \<Rightarrow> outcome \<times> 'x world" where
  "publish_prepared g q src m l w =
     (let env = g_env g in
      case ValidatePrepareTopology (v_os env) (Some (v_root env)) src (Some m) of
        Some e \<Rightarrow> (no_manifest e, w)
      | None \<Rightarrow>
          (case on_disk (CleanupOrphans env l) w of
             (Some e, w1) \<Rightarrow> (no_manifest e, w1)
           | (None, w1) \<Rightarrow>
               (case rt_observe (g_rt g) m (g_controller_path g)
                   \<lparr>a_candidate = src_candidate src, a_authority = src_authority src,
                    a_previous = src_previous src\<rparr> w1 of
                  (Inl e, w2) \<Rightarrow> (no_manifest e, w2)
                | (Inr ob, w2) \<Rightarrow>
                    (let dc = Decide None EventPrepare
                         \<lparr>c_release_id = '''', c_prepared = Some m, c_observed = ob,
                          c_rollback_ready = False\<rparr> in
                     case d_err dc of
                       Some e \<Rightarrow> (no_manifest (Lifecycle e), w2)
                     | None \<Rightarrow>
                         (case on_disk (Prepare (env\<lparr>v_src := (\<lambda>p. node_at env p w2)\<rparr>) l m src) w2 of
                            (Inl e, w3) \<Rightarrow> (no_manifest e, w3)
                          | (Inr p, w3) \<Rightarrow>
                              if m_candidate_sha p \<noteq> m_candidate_sha m \<or>
                                 m_authority_sha p \<noteq> q_authority_sha q \<or>
                                 m_previous_sha p \<noteq> m_previous_sha m
                              then (no_manifest (lc_err ErrorArtifactMismatch), w3)
                              else ((Some p, None), w3))))))"

definition prepare_locked ::
  "'x manager \<Rightarrow> prepare_request \<Rightarrow> go_err + string \<Rightarrow> locked_store \<Rightarrow> 'x world \<Rightarrow> outcome \<times> 'x world" where
  "prepare_locked g q fresh l w =
     (let env = g_env g in
      case Load env l (w_disk w) of
        Inl e \<Rightarrow> (no_manifest e, w)
      | Inr (Some m) \<Rightarrow> (no_manifest (lc_err ErrorStateConflict), w)
      | Inr None \<Rightarrow>
          (case request_checks g q of
             Some e \<Rightarrow> (no_manifest e, w)
           | None \<Rightarrow>
               (case path_exists env (g_deps g) (q_target_path q) w of
                  Inl e \<Rightarrow> (no_manifest e, w)
                | Inr previous \<Rightarrow>
                    (let src = \<lparr>src_candidate = q_candidate_path q, src_authority = q_authority_path q,
                           src_previous = (if previous then q_target_path q else '''')\<rparr> in
                     case ValidateSourceTopology (v_os env) (Some (v_root env)) src of
                       Some e \<Rightarrow> (no_manifest e, w)
                     | None \<Rightarrow>
                         (case (fresh, request_hashes g q previous w) of
                            (Inl e, _) \<Rightarrow> (no_manifest e, w)
                          | (_, Inl e) \<Rightarrow> (no_manifest e, w)
                          | (Inr i, Inr hs) \<Rightarrow>
                              (case capture_services g (request_manifest q i previous hs)
                                  (q_service_candidates q) w of
                                 (Inl e, w1) \<Rightarrow> (no_manifest e, w1)
                               | (Inr m, w1) \<Rightarrow>
                                   publish_prepared g q src
                                     (if previous then m\<lparr>m_previous_file := ''previous''\<rparr> else m)
                                     l w1))))))"

definition mgr_prepare ::
  "'x manager \<Rightarrow> prepare_request \<Rightarrow> go_err + string \<Rightarrow> 'x world \<Rightarrow> outcome \<times> 'x world" where
  "mgr_prepare g q fresh = with_lock g no_manifest (prepare_locked g q fresh)"

section \<open>The public error\<close>

definition cause_class :: "go_err \<Rightarrow> string" where
  "cause_class cause =
     (if err_is DeadlineExceeded cause then ''timeout''
      else case as_exit_status cause of
        Some c \<Rightarrow> ''exit_status='' @ itoa c
      | None \<Rightarrow> ''failed'')"

definition SanitizedError :: "go_err option \<Rightarrow> lc_error option" where
  "SanitizedError err =
     (case err of
        None \<Rightarrow> None
      | Some e \<Rightarrow> Some
          (case as_lifecycle e of
             Some l \<Rightarrow> lifecycle_error (e_code l)
           | None \<Rightarrow>
               (case as_rolled_back e of
                  Some op \<Rightarrow> \<lparr>e_code = ErrorRolledBack,
                     e_message = ''candidate failed at '' @ op @ ''; previous runtime restored''\<rparr>
                | None \<Rightarrow>
                    (case as_runtime e of
                       Some (op, c) \<Rightarrow> \<lparr>e_code = ErrorHostEffectFailed, e_message = op @ '': '' @ cause_class c\<rparr>
                     | None \<Rightarrow>
                         lifecycle_error
                           (if err_is (Sentinel ErrBusy) e then ErrorBusy
                            else if err_is (Sentinel ErrArtifactMismatch) e then ErrorArtifactMismatch
                            else if err_is (Sentinel ErrStateConflict) e then ErrorStateConflict
                            else if err_is (Sentinel ErrStateMalformed) e then ErrorStateMalformed
                            else if err_is (Sentinel ErrUpdateCheckFailed) e then ErrorUpdateFailed
                            else if has_topology e then ErrorStateMalformed
                            else ErrorRecoveryUnconfirmed)))))"

end
