(* ===== verification/ReleaseRuntimeSafety.thy ===== *)
theory ReleaseRuntimeSafety
  imports ReleaseRuntime
begin

text \<open>
  What the host adapter promises: the installed target is replaced whole or not at all,
  readiness is only reported on evidence and within its bounds, the health probe talks to
  the loopback address alone, and captured child output is bounded.
\<close>

section \<open>Replacing the target\<close>

lemma h_files_set [simp]:
  "h_files (w_host (set_host_file p x w)) q = (if q = p then x else h_files (w_host w) q)"
  by (simp add: set_host_file_def)

lemma copy_to_host_outcome:
  assumes "copy_to_host env dp source dest mode w = (r, w')"
  shows "(\<forall>q. q \<noteq> dest \<longrightarrow> h_files (w_host w') q = h_files (w_host w) q) \<and>
    (\<forall>h. r = Inr h \<longrightarrow> (\<exists>data. h_files (w_host w') dest = Some (File mode data) \<and>
       length data \<le> max_artifact_size \<and> v_sha env data = h))"
  using assms
  by (auto simp: copy_to_host_def Let_def remove_host_file_def
      split: option.splits node.splits if_splits)

text \<open>The target holds, in full, an executable whose bytes have digest \<open>want\<close>.\<close>

definition target_installed :: "store_env \<Rightarrow> string \<Rightarrow> string \<Rightarrow> 'x world \<Rightarrow> bool" where
  "target_installed env targ want w \<longleftrightarrow>
     (\<exists>data. h_files (w_host w) targ = Some (File mode_0755 data) \<and> v_sha env data = want \<and>
        length data \<le> max_artifact_size)"

lemma replacement_name_neq:
  assumes "is_abs targ" "CHR ''/'' \<notin> set suffx"
  shows "replacement_name targ suffx \<noteq> targ"
  using join_extends_base_neq[OF assms(1), of "''release.'' @ suffx"] assms(2)
  by (simp add: replacement_name_def)

lemma replace_target_outcome:
  assumes run: "replace_target env dp source targ want w = (r, w')"
    and rng: "\<forall>s\<in>set (h_rng (w_host w)). CHR ''/'' \<notin> set s"
  shows "(target_installed env targ want w' \<or>
      r \<noteq> None \<and> h_files (w_host w') targ = h_files (w_host w) targ) \<and>
    (\<forall>q. q \<noteq> targ \<and> (\<forall>s. q \<noteq> replacement_name targ s) \<longrightarrow>
       h_files (w_host w') q = h_files (w_host w) q)"
proof (cases "\<not> is_abs source \<or> \<not> is_abs targ \<or> \<not> valid_sha256 want \<or> h_rng (w_host w) = []")
  case True
  with run show ?thesis by (auto simp: replace_target_def split: if_splits list.splits)
next
  case False
  then obtain suffx rest where r: "h_rng (w_host w) = suffx # rest" and abs: "is_abs targ"
    by (cases "h_rng (w_host w)") auto
  let ?tmp = "replacement_name targ suffx"
  have neq: "?tmp \<noteq> targ" using replacement_name_neq[OF abs] rng r by simp
  let ?w0 = "w\<lparr>w_host := (w_host w)\<lparr>h_rng := rest\<rparr>\<rparr>"
  obtain c w1 where copy: "copy_to_host env dp source ?tmp mode_0755 ?w0 = (c, w1)" by fastforce
  note o = copy_to_host_outcome[OF copy]
  from o have f1: "q \<noteq> ?tmp \<Longrightarrow> h_files (w_host w1) q = h_files (w_host w) q" for q by simp
  from run False r copy o f1 neq show ?thesis
    by (auto simp: replace_target_def Let_def remove_host_file_def target_installed_def
        split: sum.splits option.splits if_splits)
qed

text \<open>Installing a candidate is atomic for the target.  Afterwards the target is an executable
  file whose bytes have the candidate's digest, or the call has failed and the target is
  what it was; nothing else on the host changes except temporaries named after the target,
  and neither does the store.\<close>

theorem install_atomic:
  assumes "InstallCandidate env dp m a w = (r, w')"
    and "\<forall>s\<in>set (h_rng (w_host w)). CHR ''/'' \<notin> set s"
  shows "(target_installed env (m_target_path m) (m_candidate_sha m) w' \<or>
      r \<noteq> None \<and> h_files (w_host w') (m_target_path m) = h_files (w_host w) (m_target_path m)) \<and>
    (\<forall>q. q \<noteq> m_target_path m \<and> (\<forall>s. q \<noteq> replacement_name (m_target_path m) s) \<longrightarrow>
       h_files (w_host w') q = h_files (w_host w) q) \<and>
    w_disk w' = w_disk w"
proof -
  have disk: "w_disk w' = w_disk w"
    using osrt.frame_rewrites(2)[of env dp m a w r w'] assms(1) by (simp add: os_runtime_def)
  show ?thesis
  proof (cases "dp_ctx dp (w_host w)")
    case (Some e)
    with assms(1) show ?thesis by (auto simp: InstallCandidate_def)
  next
    case None
    obtain r1 w1 where run: "replace_target env dp (a_candidate a) (m_target_path m)
        (m_candidate_sha m) w = (r1, w1)" by fastforce
    from replace_target_outcome[OF run assms(2)] disk show ?thesis
      using assms(1) None run by (auto simp: InstallCandidate_def split: option.splits)
  qed
qed

text \<open>A quiet host: children succeed, launchd reports the manifest's wrapper, probes answer 200.\<close>

definition sample_deps :: "unit deps" where
  "sample_deps =
     \<lparr>dp_run = (\<lambda>_ _ _ h. ((\<lparr>r_stdout = ''program = /opt/run.sh'', r_stderr = '''', r_exit = 0,
                              r_truncated = False\<rparr>, None), h)),
      dp_get = (\<lambda>_ _ h. (HttpResponse 200 True, h)), dp_sleep = (\<lambda>_ _ h. (None, h)),
      dp_ctx = (\<lambda>_. None), dp_now = (\<lambda>_. 0), dp_fault = (\<lambda>_. None)\<rparr>"

definition sample_world :: "unit world" where
  "sample_world =
     \<lparr>w_disk = sample_disk,
      w_host = \<lparr>h_files = (\<lambda>p. if p = ''/tmp/health'' then Some (File mode_0600 ''http://127.0.0.1:8080'')
                               else None),
                h_rng = [''ab'', ''cd''], h_ext = ()\<rparr>\<rparr>"

theorem install_atomic_witness:
  "\<exists>r w'. InstallCandidate sample_env sample_deps sample_manifest
        \<lparr>a_candidate = ''/store/active/candidate'', a_authority = ''/x'', a_previous = ''/y''\<rparr>
        sample_world = (r, w') \<and> w_disk w' = sample_disk"
proof -
  obtain r w' where run: "InstallCandidate sample_env sample_deps sample_manifest
        \<lparr>a_candidate = ''/store/active/candidate'', a_authority = ''/x'', a_previous = ''/y''\<rparr>
        sample_world = (r, w')" by fastforce
  from install_atomic[OF run] run show ?thesis by (auto simp: sample_world_def)
qed

section \<open>Readiness\<close>

lemma read_health_url_Inr:
  "read_health_url env dp p w = Inr base \<Longrightarrow>
     \<exists>port. 1 \<le> port \<and> port \<le> 65535 \<and> base = ''http://127.0.0.1:'' @ itoa port"
proof -
  have "loopback_port raw = Some port \<Longrightarrow> 1 \<le> port \<and> port \<le> 65535" for raw port
    by (auto simp: loopback_port_def Let_def split: if_splits option.splits prod.splits)
  then show "read_health_url env dp p w = Inr base \<Longrightarrow> ?thesis"
    by (auto simp: read_health_url_def split: sum.splits option.splits)
qed

lemma probe_paths_two:
  assumes "probe_paths dp dl base [p, q] w = (True, w')"
  shows "\<exists>h1. dp_get dp dl (base @ p) (w_host w) = (HttpResponse 200 True, h1) \<and>
    dp_get dp dl (base @ q) h1 = (HttpResponse 200 True, w_host w')"
  using assms
  by (auto simp: on_host_def split: prod.splits http_result.splits if_splits)

text \<open>Both endpoints of the loopback URL the service published answered 200.\<close>

definition health_evidence :: "'x deps \<Rightarrow> int option \<Rightarrow> 'x host \<Rightarrow> 'x host \<Rightarrow> bool" where
  "health_evidence dp dl h h' \<longleftrightarrow>
     (\<exists>port h1. 1 \<le> port \<and> port \<le> 65535 \<and>
        dp_get dp dl (''http://127.0.0.1:'' @ itoa port @ ''/healthz'') h = (HttpResponse 200 True, h1) \<and>
        dp_get dp dl (''http://127.0.0.1:'' @ itoa port @ ''/readyz'') h1 = (HttpResponse 200 True, h'))"

lemma ready_once_evidence_aux:
  assumes "ready_once env dp dl m w = (True, w')"
  shows "health_evidence dp dl (w_host w) (w_host w')"
proof -
  from assms obtain base where b: "read_health_url env dp (m_health_url_file m) w = Inr base"
    and p: "probe_paths dp dl base [''/healthz'', ''/readyz''] w = (True, w')"
    by (auto simp: ready_once_def simp del: probe_paths.simps split: sum.splits)
  from read_health_url_Inr[OF b] probe_paths_two[OF p] show ?thesis
    by (auto simp: health_evidence_def)
qed

lemma ready_loop_evidence:
  assumes "ready_loop env dp dl poll m k w = (None, w')"
  shows "\<exists>w1 w2. ready_ctx dp dl w1 = None \<and>
    launch_agent_loaded dp (Some dl) m w1 = (Inr True, w2) \<and>
    health_evidence dp (Some dl) (w_host w2) (w_host w')"
  using assms
proof (induction k arbitrary: w)
  case (Suc k)
  from Suc.prems obtain l w1 where c: "ready_ctx dp dl w = None"
    and l: "launch_agent_loaded dp (Some dl) m w = (Inr l, w1)"
    by (auto split: option.splits prod.splits sum.splits)
  obtain b w2 where p: "(if l then ready_once env dp (Some dl) m w1 else (False, w1)) = (b, w2)"
    by fastforce
  show ?case
  proof (cases b)
    case True
    with Suc.prems c l p have "w' = w2" "l" by (auto split: if_splits)
    with p True have "ready_once env dp (Some dl) m w1 = (True, w')" by simp
    from ready_once_evidence_aux[OF this] c l \<open>l\<close> show ?thesis by auto
  next
    case False
    with Suc.prems c l p obtain w3 where "ready_loop env dp dl poll m k w3 = (None, w')"
      by (auto split: option.splits if_splits prod.splits)
    then show ?thesis by (rule Suc.IH)
  qed
qed simp

text \<open>Readiness is only reported on evidence and within bounds.  When \<^verbatim>\<open>WaitReady\<close>
  succeeds the manifest's timeout and poll interval were in range, and before the deadline
  launchd reported the job as loaded with the manifest's wrapper, after which both health
  endpoints of a 127.0.0.1 URL answered 200; the loop makes at most 600000 attempts.\<close>

theorem wait_ready_evidence:
  assumes "WaitReady env dp m w = (None, w')"
  shows "0 < m_ready_timeout_seconds m \<and> m_ready_timeout_seconds m \<le> 600 \<and>
    0 < m_ready_poll_milliseconds m \<and> m_ready_poll_milliseconds m \<le> 30000 \<and>
    ready_attempts m \<le> 600000 \<and>
    (\<exists>dl w1 w2. dp_now dp (w_host w1) < dl \<and>
       dl = dp_now dp (w_host w) + m_ready_timeout_seconds m * nanos_per_second \<and>
       launch_agent_loaded dp (Some dl) m w1 = (Inr True, w2) \<and>
       health_evidence dp (Some dl) (w_host w2) (w_host w'))"
proof -
  let ?t = "m_ready_timeout_seconds m" and ?p = "m_ready_poll_milliseconds m"
  let ?dl = "dp_now dp (w_host w) + ?t * nanos_per_second"
  from assms have b: "0 < ?t" "?t \<le> 600" "0 < ?p" "?p \<le> 30000"
    and loop: "ready_loop env dp ?dl (?p * nanos_per_milli) m (ready_attempts m) w = (None, w')"
    by (auto simp: WaitReady_def Let_def runtime_constants split: if_splits)
  have "(?t * nanos_per_second + ?p * nanos_per_milli - 1) div (?p * nanos_per_milli)
      \<le> (600000 * (?p * nanos_per_milli) + (?p * nanos_per_milli - 1)) div (?p * nanos_per_milli)"
    using b by (intro zdiv_mono1) (auto simp: runtime_constants)
  also have "\<dots> = 600000"
    using b by (intro int_div_pos_eq) (auto simp: runtime_constants)
  finally have a: "ready_attempts m \<le> 600000" by (simp add: ready_attempts_def Let_def)
  from ready_loop_evidence[OF loop] obtain w1 w2 where "ready_ctx dp ?dl w1 = None"
    "launch_agent_loaded dp (Some ?dl) m w1 = (Inr True, w2)"
    "health_evidence dp (Some ?dl) (w_host w2) (w_host w')" by blast
  then have "dp_now dp (w_host w1) < ?dl" by (auto simp: ready_ctx_def split: option.splits)
  with a b \<open>launch_agent_loaded dp (Some ?dl) m w1 = (Inr True, w2)\<close>
    \<open>health_evidence dp (Some ?dl) (w_host w2) (w_host w')\<close> show ?thesis by blast
qed

lemma sample_ready:
  "WaitReady sample_env sample_deps sample_manifest sample_world = (None, sample_world)"
proof -
  have m: "m_ready_timeout_seconds sample_manifest = 45" "m_ready_poll_milliseconds sample_manifest = 1000"
    "m_wrapper_path sample_manifest = ''/opt/run.sh''" "m_health_url_file sample_manifest = ''/tmp/health''"
    by (simp_all add: sample_manifest_def)
  have ids: "active_candidate_path ''/store'' \<noteq> ''/tmp/health''"
    "active_authority_path ''/store'' \<noteq> ''/tmp/health''"
    "active_previous_path ''/store'' \<noteq> ''/tmp/health''" by code_simp+
  have host: "on_host (\<lambda>h. (x, h)) w = (x, w)" for x and w :: "unit world" by (simp add: on_host_def)
  have loaded: "launch_agent_loaded sample_deps dl sample_manifest sample_world = (Inr True, sample_world)" for dl
  proof -
    have "trim_space ''program = /opt/run.sh'' = ''program = /opt/run.sh''"
      by (rule trim_space_plain) (simp_all add: plain_byte_def ascii_space_def)
    then have "program_matches ''program = /opt/run.sh'' ''/opt/run.sh''"
      by (simp add: program_matches_def)
    then show ?thesis by (simp add: launch_agent_loaded_def sample_deps_def host m)
  qed
  have url: "loopback_port (first_line ''http://127.0.0.1:8080'') = Some 8080"
  proof -
    have "trim_space ''http://127.0.0.1:8080'' = ''http://127.0.0.1:8080''"
      by (rule trim_space_plain) (simp_all add: plain_byte_def ascii_space_def)
    then have "first_line ''http://127.0.0.1:8080'' = ''http://127.0.0.1:8080''"
      by (simp add: first_line_def)
    then show ?thesis
      by (simp add: loopback_port_def control_byte_def lower_ascii_def digit_byte_def digits_value_def)
  qed
  have ready: "ready_once sample_env sample_deps dl sample_manifest sample_world = (True, sample_world)" for dl
    using url ids
    by (simp add: ready_once_def read_health_url_def read_regular_any_mode_def sample_deps_def host m
      node_at_def store_artifact_def sample_env_def sample_world_def max_health_url_bytes_def)
  have "ready_attempts sample_manifest = nat 45"
    by (simp add: ready_attempts_def m runtime_constants)
  also have "\<dots> = Suc 44" by simp
  finally have "ready_attempts sample_manifest = Suc 44" .
  moreover have "ready_ctx sample_deps 45000000000 sample_world = None"
    by (simp add: ready_ctx_def sample_deps_def)
  moreover have "dp_now sample_deps h = 0" for h by (simp add: sample_deps_def)
  ultimately show ?thesis
    using ready_loop.simps(2)[of sample_env sample_deps 45000000000 1000000000 sample_manifest 44
        sample_world]
    by (simp add: WaitReady_def m runtime_constants Let_def loaded ready)
qed

theorem wait_ready_evidence_witness:
  "\<exists>dl h. health_evidence sample_deps (Some dl) h (w_host sample_world)"
proof -
  from wait_ready_evidence[OF sample_ready]
  have "\<exists>dl w1 w2. dp_now sample_deps (w_host w1) < dl \<and>
       dl = dp_now sample_deps (w_host sample_world) + m_ready_timeout_seconds sample_manifest * nanos_per_second \<and>
       launch_agent_loaded sample_deps (Some dl) sample_manifest w1 = (Inr True, w2) \<and>
       health_evidence sample_deps (Some dl) (w_host w2) (w_host sample_world)"
    by (elim conjE)
  then show ?thesis by blast
qed

section \<open>Restarting\<close>

text \<open>A restart never races a stale health marker: launchd is only asked to restart the job
  on a host where the marker file is gone; when the marker cannot be removed the call fails
  and no child has run.\<close>

theorem restart_drops_marker:
  assumes "Restart env dp m w = (r, w')" "store_artifact env (m_health_url_file m) = None"
  shows "(\<exists>e. r = Some (RuntimeErr ''runtime restart'' e) \<and> h_ext (w_host w') = h_ext (w_host w)) \<or>
    (\<exists>h res err. h_files h (m_health_url_file m) = None \<and> h_ext h = h_ext (w_host w) \<and>
       dp_run dp None ''launchctl'' [''kickstart'', ''-k'', launch_service m] h = ((res, err), w_host w') \<and>
       (r = None \<longleftrightarrow> err = None \<and> r_exit res = 0))"
proof -
  obtain e w1 where rm: "remove_health_marker env dp (m_health_url_file m) w = (e, w1)" by fastforce
  then have ext: "h_ext (w_host w1) = h_ext (w_host w)"
    by (auto simp: remove_health_marker_def set_host_file_def split: if_splits option.splits node.splits)
  from rm assms(2) have gone: "e = None \<Longrightarrow> h_files (w_host w1) (m_health_url_file m) = None"
    by (auto simp: remove_health_marker_def node_at_def split: if_splits option.splits node.splits)
  obtain res err h2 where run: "dp_run dp None ''launchctl'' [''kickstart'', ''-k'', launch_service m]
      (w_host w1) = ((res, err), h2)" by (metis prod.exhaust)
  show ?thesis
  proof (cases e)
    case (Some x)
    with assms(1) rm ext show ?thesis by (auto simp: Restart_def)
  next
    case None
    with assms(1) rm run have "w_host w' = h2" "r = None \<longleftrightarrow> err = None \<and> r_exit res = 0"
      by (auto simp: Restart_def on_host_def failed_run_def split: if_splits)
    with gone[OF None] ext run show ?thesis by blast
  qed
qed

theorem restart_drops_marker_witness:
  "h_files (w_host (snd (Restart sample_env sample_deps sample_manifest sample_world))) ''/tmp/health'' = None"
proof -
  obtain r w' where run: "Restart sample_env sample_deps sample_manifest sample_world = (r, w')"
    by fastforce
  have st: "store_artifact sample_env (m_health_url_file sample_manifest) = None"
    by (simp add: store_artifact_def sample_env_def sample_manifest_def) code_simp
  then have "fst (Restart sample_env sample_deps sample_manifest sample_world) = None"
    by (simp add: Restart_def remove_health_marker_def node_at_def sample_deps_def sample_world_def
        sample_manifest_def on_host_def failed_run_def split: option.splits node.splits)
  moreover have "dp_run sample_deps dl c args h = (x, h') \<longleftrightarrow> h' = h \<and> x = fst (dp_run sample_deps dl c args h)"
    for dl c args h x h' by (auto simp: sample_deps_def)
  moreover have "m_health_url_file sample_manifest = ''/tmp/health''" by (simp add: sample_manifest_def)
  ultimately show ?thesis
    using restart_drops_marker[OF run st] run by auto
qed

section \<open>Captured output\<close>

lemma capped_write_spec:
  assumes "b = \<lparr>b_data = take max_child_output s, b_truncated = (max_child_output < length s)\<rparr>"
  shows "capped_write x b =
    \<lparr>b_data = take max_child_output (s @ x), b_truncated = (max_child_output < length (s @ x))\<rparr>"
proof (cases "max_child_output \<le> length s")
  case True
  then show ?thesis
    by (cases x) (auto simp: capped_write_def assms Let_def min_def)
next
  case False
  then have "nat (int max_child_output - int (length s)) = max_child_output - length s"
    and "length (take max_child_output s) = length s" and t: "take max_child_output s = s" by simp_all
  with False show ?thesis
    by (simp add: capped_write_def assms Let_def)
qed

text \<open>A child's output is bounded and faithful: however the stream is cut into writes, the
  capture holds exactly its first 32768 bytes and says whether anything was dropped.\<close>

theorem capture_is_prefix:
  "foldl (\<lambda>b x. capped_write x b) \<lparr>b_data = [], b_truncated = False\<rparr> chunks =
     \<lparr>b_data = take max_child_output (concat chunks),
      b_truncated = (max_child_output < length (concat chunks))\<rparr>"
proof (induction chunks rule: rev_induct)
  case (snoc x chunks)
  show ?case by (simp add: snoc capped_write_spec[OF refl])
qed simp

end
