(* ===== verification/ReleaseManagerSafety.thy ===== *)
theory ReleaseManagerSafety
  imports ReleaseManager ReleaseRuntimeSafety
begin

text \<open>
  What the lifecycle manager promises end to end, over every runtime that leaves the store
  alone and every failure the store or the host may produce: recovery authority is never
  lost, and it is given up only on evidence.
\<close>

section \<open>What the slot holds\<close>

definition holds :: "store_env \<Rightarrow> manifest \<Rightarrow> 'x world \<Rightarrow> bool" where
  "holds env m w \<longleftrightarrow> load_active env OpLoad (w_disk w) = Inr (Some m)"

definition cleared :: "'x world \<Rightarrow> bool" where
  "cleared w \<longleftrightarrow> get_node ''active'' (w_disk w) = None"

text \<open>Encoder and decoder agree on every state of the release, within the size limit.\<close>

definition codec_for :: "store_env \<Rightarrow> manifest \<Rightarrow> bool" where
  "codec_for env m \<longleftrightarrow>
     (\<forall>s\<in>{StatePrepared, StatePending, StateAccepting, StateRollingBack}.
        v_dec env (v_enc env (m\<lparr>m_state := s\<rparr>)) = Some (m\<lparr>m_state := s\<rparr>) \<and>
        length (v_enc env (m\<lparr>m_state := s\<rparr>)) \<le> max_manifest_size)"

lemma codec_for_set_state [simp]: "codec_for env (m\<lparr>m_state := s\<rparr>) = codec_for env m"
  by (simp add: codec_for_def)

lemma codec_forD:
  assumes "codec_for env m" "is_active_state s"
  shows "v_dec env (v_enc env (m\<lparr>m_state := s\<rparr>)) = Some (m\<lparr>m_state := s\<rparr>)"
    "length (v_enc env (m\<lparr>m_state := s\<rparr>)) \<le> max_manifest_size"
  using assms by (auto simp: codec_for_def elim!: active_state_cases)

text \<open>An observation of the release whose host is still the present one.\<close>

definition observed_last :: "'x manager \<Rightarrow> manifest \<Rightarrow> observed \<Rightarrow> 'x world \<Rightarrow> bool" where
  "observed_last g m ob w \<longleftrightarrow>
     (\<exists>m0 w0 w1. release_of m0 = release_of m \<and> observe g m0 w0 = (Inr ob, w1) \<and>
        w_host w1 = w_host w)"

definition clear_justified :: "manifest \<Rightarrow> observed \<Rightarrow> bool \<Rightarrow> bool" where
  "clear_justified m ob ready \<longleftrightarrow>
     validate_runtime m ob = None \<and>
     (m_state m = StateAccepting \<and> o_installed_present ob \<and> o_installed_sha ob = m_candidate_sha m \<and>
        o_runtime_ready ob \<and> \<not> o_supervisor_unloaded ob \<or>
      m_state m = StateRollingBack \<and> recovery_confirmed m ob ready)"

lemma holds_disk: "w_disk w' = w_disk w \<Longrightarrow> holds env m w' = holds env m w"
  by (simp add: holds_def)

lemma holds_kids: "k_kids (w_disk w') = k_kids (w_disk w) \<Longrightarrow> holds env m w' = holds env m w"
  using load_active_same[OF same_authority_node, of "w_disk w'" "w_disk w"]
  by (simp add: holds_def get_node_def)

lemma Decide_clear:
  assumes "d_err (Decide (Some m) ev c) = None"
    and "CommandClearTransaction \<in> set (d_commands (Decide (Some m) ev c))"
  shows "clear_justified m (c_observed c) (c_rollback_ready c) \<and>
    (m_state m = StateAccepting \<longleftrightarrow> ev = EventAccept)"
  by (rule decide_clear_cases[OF assms(2)])
    (auto simp: clear_justified_def validate_acceptance_readiness_def split: option.splits if_splits)

lemma lc_context_simps [simp]:
  "c_observed (lc_context i ob) = ob" "c_release_id (lc_context i ob) = i"
  "c_rollback_ready (lc_context i ob) = False"
  by (simp_all add: lc_context_def)

section \<open>The store seen from the manager\<close>

lemma clear_slot_outcome:
  assumes "clear_slot g l m w = (out, w')"
  shows "w_host w' = w_host w \<and>
    (cleared w' \<and> (out = (None, None) \<or> (\<exists>e. out = (Some m, Some e))) \<or>
     (\<exists>e. out = (Some m, Some e)) \<and> (\<forall>m'. holds (g_env g) m' w' = holds (g_env g) m' w))"
proof -
  obtain r d where run: "Clear (g_env g) l (m_id m) (w_disk w) = (r, d)" by fastforce
  have same: "holds (g_env g) m' (w\<lparr>w_disk := d\<rparr>) = holds (g_env g) m' w"
    if "get_node ''active'' d = get_node ''active'' (w_disk w)" for m'
    using load_active_same[OF same_authority_node[OF that]] by (simp add: holds_def)
  from assms run Clear_outcome[OF run] same show ?thesis
    by (auto simp: clear_slot_def on_disk_def cleared_def split: sum.splits)
qed

lemma rewrite_manifest_outcome:
  assumes "holds (g_env g) m w" "codec_for (g_env g) m" "is_active_state s"
    and "rewrite_manifest g l (m\<lparr>m_state := s\<rparr>) w = (r, w')"
  shows "w_host w' = w_host w \<and>
    (holds (g_env g) (m\<lparr>m_state := s\<rparr>) w' \<or> r \<noteq> None \<and> holds (g_env g) m w')"
proof -
  obtain r1 d where run: "Rewrite (g_env g) l (m\<lparr>m_state := s\<rparr>) (w_disk w) = (r1, d)" by fastforce
  from assms(1) have h: "load_active (g_env g) OpLoad (w_disk w) = Inr (Some m)"
    by (simp add: holds_def)
  from rewrite_atomic_aux[OF h codec_forD[OF assms(2,3)] run] assms(4) run show ?thesis
    by (auto simp: rewrite_manifest_def on_disk_def holds_def)
qed

section \<open>Effects leave the store alone\<close>

locale managed = runtime_frame "g_rt g" for g :: "'x manager"
begin

lemma observe_services_disk: "observe_services g ob ss w = (r, w') \<Longrightarrow> w_disk w' = w_disk w"
  by (induction ss arbitrary: ob w)
    (auto split: prod.splits sum.splits if_splits dest!: frame_rewrites)

lemma observe_keeps: "observe g m w = (r, w') \<Longrightarrow> w_disk w' = w_disk w"
  by (auto simp: observe_def split: prod.splits sum.splits if_splits
      dest!: frame_rewrites observe_services_disk)

lemma restart_services_disk: "restart_services g ss w = (r, w') \<Longrightarrow> w_disk w' = w_disk w"
  by (induction ss arbitrary: w)
    (auto split: prod.splits option.splits dest!: frame_rewrites)

lemma unload_services_disk: "unload_services g ss w = (r, w') \<Longrightarrow> w_disk w' = w_disk w"
  by (induction ss arbitrary: w)
    (auto split: prod.splits option.splits sum.splits if_splits dest!: frame_rewrites)

lemma resume_rollback_disk: "resume_rollback g m ob w = (r, w') \<Longrightarrow> w_disk w' = w_disk w"
  by (auto simp: resume_rollback_def split: prod.splits option.splits if_splits
      dest!: frame_rewrites restart_services_disk unload_services_disk)

lemma install_step_disk: "install_step g m ob w = (r, w') \<Longrightarrow> w_disk w' = w_disk w"
  by (auto simp: install_step_def split: prod.splits option.splits sum.splits if_splits
      dest!: frame_rewrites observe_keeps)

lemmas keeps_disk = observe_keeps restart_services_disk unload_services_disk
  resume_rollback_disk install_step_disk

end

text \<open>The manager as the release command builds it, on the production runtime.\<close>

definition os_manager :: "store_env \<Rightarrow> 'x deps \<Rightarrow> string \<Rightarrow> string \<Rightarrow> 'x manager" where
  "os_manager env dp path sha =
     \<lparr>g_env = env, g_deps = dp, g_rt = os_runtime env dp, g_controller_path = path,
      g_controller_sha = sha\<rparr>"

interpretation osm: managed "os_manager env dp path sha"
proof -
  have "runtime_frame (os_runtime env dp)" by (rule osrt.runtime_frame_axioms)
  then show "managed (os_manager env dp path sha)"
    by (simp add: managed_def os_manager_def)
qed

section \<open>Finishing a direction\<close>

definition given_up :: "'x manager \<Rightarrow> manifest \<Rightarrow> 'x world \<Rightarrow> bool" where
  "given_up g m w \<longleftrightarrow>
     cleared w \<and> (\<exists>ob ready. observed_last g m ob w \<and> clear_justified m ob ready)"

lemma given_upI:
  "clear_slot g l m w = (out, w') \<Longrightarrow> holds (g_env g) m w \<Longrightarrow> observed_last g m ob w \<Longrightarrow>
   clear_justified m ob ready \<Longrightarrow>
   holds (g_env g) m w' \<and> (\<exists>e. snd out = Some e) \<or> given_up g m w' \<and> (fst out = None \<or> snd out \<noteq> None)"
  using clear_slot_outcome[of g l m w out w'] by (auto simp: given_up_def observed_last_def)

context managed
begin

lemma finish_rollback_outcome:
  assumes h: "holds (g_env g) m w" and o: "observed_last g m ob w"
    and run: "finish_rollback g l m ob w = (out, w')"
  shows "holds (g_env g) m w' \<and> (\<exists>e. snd out = Some e) \<or>
    given_up g m w' \<and> m_state m = StateRollingBack \<and> (fst out = None \<or> snd out \<noteq> None)"
proof -
  let ?dc = "Decide (Some m) EventRollback (lc_context (m_id m) ob)"
  obtain r1 w1 where rr: "resume_rollback g m ob w = (r1, w1)" by fastforce
  obtain r2 w2 where ob2: "observe g m w1 = (r2, w2)" by fastforce
  have d: "w_disk w1 = w_disk w" "w_disk w2 = w_disk w"
    using resume_rollback_disk[OF rr] observe_keeps[OF ob2] by simp_all
  have unconfirmed: "?thesis" if "out = (Some m, Some e)" "w_disk w' = w_disk w" for e
    using that h by (simp add: holds_def)
  consider (rejected) "d_err ?dc \<noteq> None \<or> length (d_commands ?dc) \<noteq> 1"
    | (clear) "d_err ?dc = None" "d_commands ?dc = [CommandClearTransaction]"
    | (other) c where "d_err ?dc = None" "d_commands ?dc = [c]" "c \<noteq> CommandClearTransaction"
    using Decide_active_step[of m EventRollback "lc_context (m_id m) ob"] by fastforce
  then show ?thesis
  proof cases
    case rejected
    with run show ?thesis by (intro unconfirmed) (auto simp: finish_rollback_def Let_def)
  next
    case clear
    then have "clear_slot g l m w = (out, w')" using run by (simp add: finish_rollback_def Let_def)
    from given_upI[OF this h o] Decide_clear[OF clear(1)] clear(2) show ?thesis
      by (auto simp: clear_justified_def)
  next
    case other
    show ?thesis
    proof (cases "c = CommandResumeRollback \<and> (\<exists>ready fresh. r1 = Inr ready \<and> r2 = Inr fresh)")
      case False
      with run other rr ob2 d show ?thesis
        by (cases r1; cases r2; intro unconfirmed)
          (auto simp: finish_rollback_def Let_def split: if_splits)
    next
      case True
      then obtain ready fresh where r: "r1 = Inr ready" "r2 = Inr fresh"
        and c: "c = CommandResumeRollback" by blast
      let ?c2 = "(lc_context (m_id m) fresh)\<lparr>c_rollback_ready := ready\<rparr>"
      obtain err cmds where dc2: "d_err (Decide (Some m) EventRollback ?c2) = err"
        "d_commands (Decide (Some m) EventRollback ?c2) = cmds" by blast
      have out: "(out, w') = (if err \<noteq> None \<or> cmds \<noteq> [CommandClearTransaction]
          then ((Some m, Some (lc_err ErrorRecoveryUnconfirmed)), w2) else clear_slot g l m w2)"
        using run other rr ob2 r c dc2 by (simp add: finish_rollback_def Let_def)
      show ?thesis
      proof (cases "err \<noteq> None \<or> cmds \<noteq> [CommandClearTransaction]")
        case True
        with out d show ?thesis by (intro unconfirmed) auto
      next
        case False
        with out have cl: "clear_slot g l m w2 = (out, w')" by simp
        have o2: "observed_last g m fresh w2" using ob2 r by (auto simp: observed_last_def)
        have h2: "holds (g_env g) m w2" using h d by (simp add: holds_def)
        have "clear_justified m fresh ready \<and> m_state m \<noteq> StateAccepting"
          using Decide_clear[of m EventRollback ?c2] dc2 False by simp
        with given_upI[OF cl h2 o2, of ready] h d show ?thesis
          by (auto simp: clear_justified_def)
      qed
    qed
  qed
qed

lemma finish_accept_outcome:
  assumes h: "holds (g_env g) m w" and run: "finish_accept g l m i w = (out, w')"
  shows "holds (g_env g) m w' \<and> (\<exists>e. snd out = Some e) \<or>
    given_up g m w' \<and> m_state m = StateAccepting \<and> (fst out = None \<or> snd out \<noteq> None)"
proof -
  obtain r1 w1 where ob: "observe g m w = (r1, w1)" by fastforce
  have d: "w_disk w1 = w_disk w" using observe_keeps[OF ob] .
  have kept: "?thesis" if "out = (Some m, Some e)" "w_disk w' = w_disk w" for e
    using that h by (simp add: holds_def)
  show ?thesis
  proof (cases r1)
    case (Inl e)
    with run ob d show ?thesis by (intro kept) (auto simp: finish_accept_def)
  next
    case (Inr fresh)
    let ?c = "lc_context i fresh"
    obtain err cmds where dc: "d_err (Decide (Some m) EventAccept ?c) = err"
      "d_commands (Decide (Some m) EventAccept ?c) = cmds" by blast
    show ?thesis
    proof (cases "err = None \<and> cmds = [CommandClearTransaction]")
      case False
      with run ob d Inr dc show ?thesis
        by (cases err; intro kept) (auto simp: finish_accept_def Let_def)
    next
      case True
      with run ob Inr dc have cl: "clear_slot g l m w1 = (out, w')"
        by (simp add: finish_accept_def Let_def)
      have o1: "observed_last g m fresh w1" using ob Inr by (auto simp: observed_last_def)
      have h1: "holds (g_env g) m w1" using h d by (simp add: holds_def)
      have "clear_justified m fresh False \<and> m_state m = StateAccepting"
        using Decide_clear[of m EventAccept ?c] dc True by simp
      with given_upI[OF cl h1 o1, of False] show ?thesis by blast
    qed
  qed
qed

end

section \<open>Every event\<close>

definition kept :: "'x manager \<Rightarrow> manifest \<Rightarrow> 'x world \<Rightarrow> bool" where
  "kept g m w \<longleftrightarrow>
     (\<exists>m'. holds (g_env g) m' w \<and> release_of m' = release_of m \<and> slot_reach (Some m) (Some m'))"

definition retired :: "'x manager \<Rightarrow> manifest \<Rightarrow> lc_state \<Rightarrow> 'x world \<Rightarrow> bool" where
  "retired g m s w \<longleftrightarrow>
     (\<exists>m'. given_up g m' w \<and> release_of m' = release_of m \<and> slot_reach (Some m) (Some m') \<and>
        m_state m' = s)"

text \<open>The deployment the slot records was observed: candidate installed, ready, no drift.\<close>

definition deployed :: "'x manager \<Rightarrow> manifest \<Rightarrow> 'x world \<Rightarrow> bool" where
  "deployed g m w \<longleftrightarrow>
     holds (g_env g) m w \<and> m_state m = StatePending \<and>
     (\<exists>ob. observed_last g m ob w \<and> validate_runtime m ob = None \<and> o_installed_present ob \<and>
        o_installed_sha ob = m_candidate_sha m \<and> o_runtime_ready ob)"

text \<open>What one decided event leaves, by event.\<close>

definition event_outcome :: "'x manager \<Rightarrow> manifest \<Rightarrow> lc_event \<Rightarrow> outcome \<Rightarrow> 'x world \<Rightarrow> bool" where
  "event_outcome g m ev out w \<longleftrightarrow>
     (kept g m w \<and> (snd out = None \<longrightarrow> ev = EventResume \<and> (\<exists>n. fst out = Some n \<and> deployed g n w))) \<or>
     (retired g m (if ev = EventAccept then StateAccepting else StateRollingBack) w \<and>
        (snd out = None \<longrightarrow> ev \<noteq> EventResume \<and> fst out = None))"

lemma event_keep: "kept g m w \<Longrightarrow> snd out \<noteq> None \<Longrightarrow> event_outcome g m ev out w"
  by (auto simp: event_outcome_def)

lemma event_retire:
  "retired g m s w \<Longrightarrow> s = (if ev = EventAccept then StateAccepting else StateRollingBack) \<Longrightarrow>
   fst out = None \<or> snd out \<noteq> None \<Longrightarrow> ev \<noteq> EventResume \<Longrightarrow> event_outcome g m ev out w"
  by (auto simp: event_outcome_def)


lemma keptI: "holds (g_env g) m w \<Longrightarrow> kept g m w"
  by (auto simp: kept_def intro: slot_reach.here)

lemma keptI_step: "slot_step (Some m) ev c (Some n) \<Longrightarrow> holds (g_env g) n w \<Longrightarrow> kept g m w"
  using slot_step_same_release[of m ev c n] by (auto simp: kept_def intro: slot_reach.intros)

lemma retiredI_step:
  "slot_step (Some m) ev c (Some n) \<Longrightarrow> given_up g n w \<Longrightarrow> m_state n = s \<Longrightarrow> retired g m s w"
  using slot_step_same_release[of m ev c n] by (auto simp: retired_def intro: slot_reach.intros)

lemma retiredI: "given_up g m w \<Longrightarrow> m_state m = s \<Longrightarrow> retired g m s w"
  by (auto simp: retired_def intro: slot_reach.here)

lemma slot_step_next:
  assumes "slot_step (Some m) ev c (Some n)"
  shows "n = m\<lparr>m_state := m_state n\<rparr> \<and> is_active_state (m_state n) \<and>
    (ev = EventRollback \<longrightarrow> m_state n = StateRollingBack) \<and>
    (ev = EventAccept \<longrightarrow> m_state n = StateAccepting) \<and>
    (ev = EventDeploymentReady \<longrightarrow> m_state n = StatePending \<and> m_state m = StatePrepared)"
  using assms by (rule slot_step_SomeE) auto

lemma observed_last_same:
  "observed_last g m ob w \<Longrightarrow> release_of n = release_of m \<Longrightarrow> w_host w' = w_host w \<Longrightarrow>
   observed_last g n ob w'"
  by (auto simp: observed_last_def)

lemma observed_lastI: "observe g m w = (Inr ob, w') \<Longrightarrow> observed_last g m ob w'"
  by (auto simp: observed_last_def)

text \<open>Persisting the next state of a decision.\<close>

lemma persist_outcome:
  assumes h: "holds (g_env g) m w" and c: "codec_for (g_env g) m"
    and st: "slot_step (Some m) ev k (Some n)"
    and run: "rewrite_manifest g l n w = (r, w')"
  shows "w_host w' = w_host w \<and> (holds (g_env g) n w' \<or> r \<noteq> None \<and> holds (g_env g) m w')"
proof -
  from slot_step_next[OF st] have n: "n = m\<lparr>m_state := m_state n\<rparr>" "is_active_state (m_state n)" by auto
  from run n(1) have "rewrite_manifest g l (m\<lparr>m_state := m_state n\<rparr>) w = (r, w')" by simp
  from rewrite_manifest_outcome[OF h c n(2) this] n(1) show ?thesis by simp
qed

context managed
begin

lemma rollback_failure_outcome:
  assumes h: "holds (g_env g) m w" and c: "codec_for (g_env g) m"
    and run: "rollback_deployment_failure g l m cause w = (e, w')"
  shows "kept g m w' \<or> retired g m StateRollingBack w'"
proof -
  obtain r1 w1 where ob: "observe g m w = (r1, w1)" by fastforce
  have h1: "holds (g_env g) m w1" using h observe_keeps[OF ob] by (simp add: holds_def)
  show ?thesis
  proof (cases r1)
    case (Inl e')
    with run ob h1 show ?thesis by (auto simp: rollback_deployment_failure_def intro: keptI)
  next
    case (Inr fresh)
    let ?c = "lc_context (m_id m) fresh"
    obtain err nxt where dc: "d_err (Decide (Some m) EventRollback ?c) = err"
      "d_next (Decide (Some m) EventRollback ?c) = nxt" by blast
    show ?thesis
    proof (cases "err = None \<and> nxt \<noteq> None")
      case False
      with run ob Inr dc h1 show ?thesis
        by (cases err; cases nxt) (auto simp: rollback_deployment_failure_def Let_def intro: keptI)
    next
      case True
      then obtain n where n: "nxt = Some n" by blast
      from Decide_active_step[of m EventRollback ?c] True dc n obtain k where
        st: "slot_step (Some m) EventRollback k (Some n)" by auto
      have nst: "m_state n = StateRollingBack" using slot_step_next[OF st] by simp
      have rel: "release_of n = release_of m" using slot_step_same_release[OF st] .
      obtain r2 w2 where rw: "rewrite_manifest g l n w1 = (r2, w2)" by fastforce
      note p = persist_outcome[OF h1 c st rw]
      show ?thesis
      proof (cases r2)
        case (Some e')
        with run ob Inr dc n True rw have "w' = w2"
          by (simp add: rollback_deployment_failure_def)
        with p show ?thesis using keptI keptI_step[OF st] by blast
      next
        case None
        with p have h2: "holds (g_env g) n w2" by simp
        obtain out w3 where fin: "finish_rollback g l n fresh w2 = (out, w3)" by fastforce
        have "w' = w3"
          using run ob Inr dc n True rw None fin
          by (cases out; cases "snd out") (auto simp: rollback_deployment_failure_def)
        moreover have "observed_last g n fresh w2"
          using observed_lastI[of g m w1] ob Inr p rel by (auto simp: observed_last_def)
        ultimately show ?thesis
          using finish_rollback_outcome[OF h2 _ fin] keptI_step[OF st] retiredI_step[OF st] nst
          by blast
      qed
    qed
  qed
qed

lemma resume_deployment_outcome:
  assumes h: "holds (g_env g) m w" and c: "codec_for (g_env g) m"
    and run: "resume_deployment g l m ob w = (r, w')"
  shows "(r = None \<and> holds (g_env g) m w') \<or>
    (r \<noteq> None \<and> (kept g m w' \<or> retired g m StateRollingBack w'))"
proof -
  obtain r1 w1 where s1: "install_step g m ob w = (r1, w1)" by fastforce
  obtain r2 w2 where s2: "restart_services g (service_manifests m) w1 = (r2, w2)" by fastforce
  have h1: "holds (g_env g) m w1" using h install_step_disk[OF s1] by (simp add: holds_def)
  have h2: "holds (g_env g) m w2" using h1 restart_services_disk[OF s2] by (simp add: holds_def)
  show ?thesis
  proof (cases r1)
    case (Some e)
    obtain e' w3 where f: "rollback_deployment_failure g l m e w1 = (e', w3)" by fastforce
    with rollback_failure_outcome[OF h1 c f] run s1 Some show ?thesis
      by (simp add: resume_deployment_def Let_def) blast
  next
    case None
    show ?thesis
    proof (cases r2)
      case (Some e)
      obtain e' w3 where f: "rollback_deployment_failure g l m e w2 = (e', w3)" by fastforce
      with rollback_failure_outcome[OF h2 c f] run s1 s2 None Some show ?thesis
        by (simp add: resume_deployment_def Let_def) blast
    next
      case None
      with \<open>r1 = None\<close> run s1 s2 h2 show ?thesis by (simp add: resume_deployment_def Let_def)
    qed
  qed
qed

lemma deploy_give_up:
  assumes "holds (g_env g) m w" "codec_for (g_env g) m"
    and "(case rollback_deployment_failure g l m e w of (e', w') \<Rightarrow> ((Some m, Some e'), w')) = (out, w')"
  shows "snd out \<noteq> None \<and> (kept g m w' \<or> retired g m StateRollingBack w')"
proof -
  obtain e1 w1 where f: "rollback_deployment_failure g l m e w = (e1, w1)" by fastforce
  with rollback_failure_outcome[OF assms(1,2) f] assms(3) show ?thesis by auto
qed

lemma Decide_ready_evidence:
  assumes "d_err (Decide (Some m) EventDeploymentReady c) = None"
  shows "m_state m = StatePrepared \<and> validate_runtime m (c_observed c) = None \<and>
    o_installed_present (c_observed c) \<and> o_installed_sha (c_observed c) = m_candidate_sha m \<and>
    o_runtime_ready (c_observed c)"
proof -
  from Decide_active_step[OF assms] obtain k where
    "slot_step (Some m) EventDeploymentReady k (d_next (Decide (Some m) EventDeploymentReady c))" by blast
  then have st: "m_state m = StatePrepared" by (rule slot_step_SomeE) auto
  from assms show ?thesis
    unfolding Decide_prepared[OF assms st]
    by (auto simp: decide_prepared_def rejected_def st split: option.splits if_splits)
qed

lemma deploy_outcome:
  assumes h: "holds (g_env g) m w" and c: "codec_for (g_env g) m"
    and run: "deploy g l m i ob w = (out, w')"
  shows "snd out \<noteq> None \<and> (kept g m w' \<or> retired g m StateRollingBack w') \<or>
    (\<exists>n. out = (Some n, None) \<and> deployed g n w' \<and> kept g m w')"
proof -
  obtain r1 w1 where s1: "resume_deployment g l m ob w = (r1, w1)" by fastforce
  note o1 = resume_deployment_outcome[OF h c s1]
  obtain r2 w2 where s2: "observe g m w1 = (r2, w2)" by fastforce
  show ?thesis
  proof (cases r1)
    case (Some e)
    with run s1 o1 show ?thesis by (auto simp: deploy_def Let_def)
  next
    case None
    with o1 have h2: "holds (g_env g) m w2" using observe_keeps[OF s2] by (simp add: holds_def)
    show ?thesis
    proof (cases r2)
      case (Inl e)
      with run s1 s2 None have
        "(case rollback_deployment_failure g l m e w2 of (e', w') \<Rightarrow> ((Some m, Some e'), w')) = (out, w')"
        by (simp add: deploy_def Let_def)
      from deploy_give_up[OF h2 c this] show ?thesis by blast
    next
      case (Inr fresh)
      let ?c = "lc_context i fresh"
      obtain err cmds nxt where dc: "d_err (Decide (Some m) EventDeploymentReady ?c) = err"
        "d_commands (Decide (Some m) EventDeploymentReady ?c) = cmds"
        "d_next (Decide (Some m) EventDeploymentReady ?c) = nxt" by blast
      show ?thesis
      proof (cases err)
        case (Some e)
        with run s1 s2 None Inr dc have
          "(case rollback_deployment_failure g l m (Lifecycle e) w2 of (e', w') \<Rightarrow> ((Some m, Some e'), w')) = (out, w')"
          by (simp add: deploy_def Let_def)
        from deploy_give_up[OF h2 c this] show ?thesis by blast
      next
        case ok: None
        from Decide_ready_evidence[of m ?c] dc ok have ev: "m_state m = StatePrepared"
          "validate_runtime m fresh = None" "o_installed_present fresh"
          "o_installed_sha fresh = m_candidate_sha m" "o_runtime_ready fresh" by simp_all
        from Decide_active_step[of m EventDeploymentReady ?c] dc ok obtain k where
          st: "slot_step (Some m) EventDeploymentReady k nxt" and k: "cmds = [k]" by auto
        from st have n: "nxt = Some (m\<lparr>m_state := StatePending\<rparr>)" "k = CommandPersistState"
          by (auto elim!: slot_step_SomeE)
        let ?n = "m\<lparr>m_state := StatePending\<rparr>"
        obtain r3 w3 where rw: "rewrite_manifest g l ?n w2 = (r3, w3)" by fastforce
        note p = persist_outcome[OF h2 c st[unfolded n(1)] rw]
        show ?thesis
        proof (cases r3)
          case (Some e)
          with run s1 s2 None Inr dc ok n k rw have "out = (Some m, Some e)" "w' = w3"
            by (simp_all add: deploy_def Let_def)
          with p show ?thesis using keptI keptI_step[OF st[unfolded n(1)]] by auto
        next
          case wrote: None
          with run s1 s2 None Inr dc ok n k rw have o: "out = (Some ?n, None)" "w' = w3"
            by (simp_all add: deploy_def Let_def)
          from wrote p have h3: "holds (g_env g) ?n w3" by simp
          have "observed_last g ?n fresh w3"
            using s2 Inr p by (auto simp: observed_last_def)
          moreover have "validate_runtime ?n fresh = None" using ev(2) by (simp add: validate_runtime_def)
          ultimately have "deployed g ?n w3" using h3 ev by (auto simp: deployed_def)
          with o h3 show ?thesis using keptI_step[OF st[unfolded n(1)]] by blast
        qed
      qed
    qed
  qed
qed

lemma persist_and_finish_outcome:
  assumes h: "holds (g_env g) m w" and c: "codec_for (g_env g) m"
    and st: "slot_step (Some m) ev CommandPersistState nxt" and ev: "ev = EventAccept \<or> ev = EventRollback"
    and o: "observed_last g m ob w"
    and run: "persist_and_finish g l m nxt i ob w = (out, w')"
  shows "event_outcome g m ev out w'"
proof -
  from st ev obtain n where n: "nxt = Some n" by (auto elim!: slot_step_SomeE)
  note st' = st[unfolded n]
  obtain r1 w1 where rw: "rewrite_manifest g l n w = (r1, w1)" by fastforce
  note p = persist_outcome[OF h c st' rw]
  show ?thesis
  proof (cases r1)
    case (Some e)
    with run n rw have "snd out = Some e" "w' = w1" by (auto simp: persist_and_finish_def)
    with p show ?thesis using keptI keptI_step[OF st'] by (auto simp: event_outcome_def)
  next
    case None
    with p have h1: "holds (g_env g) n w1" by simp
    show ?thesis
    proof (cases "ev = EventAccept")
      case True
      with slot_step_next[OF st'] have s: "m_state n = StateAccepting" by simp
      with run n rw None have "finish_accept g l n i w1 = (out, w')"
        by (simp add: persist_and_finish_def)
      from finish_accept_outcome[OF h1 this] show ?thesis
      proof
        assume "holds (g_env g) n w' \<and> (\<exists>e. snd out = Some e)"
        then show ?thesis by (intro event_keep keptI_step[OF st']) auto
      next
        assume "given_up g n w' \<and> m_state n = StateAccepting \<and> (fst out = None \<or> snd out \<noteq> None)"
        with True show ?thesis by (intro event_retire[OF retiredI_step[OF st']]) auto
      qed
    next
      case False
      with ev slot_step_next[OF st'] have s: "m_state n = StateRollingBack" by simp
      with run n rw None have f: "finish_rollback g l n ob w1 = (out, w')"
        by (simp add: persist_and_finish_def)
      have "observed_last g n ob w1"
        using observed_last_same[OF o slot_step_same_release[OF st']] p by simp
      from finish_rollback_outcome[OF h1 this f] show ?thesis
      proof
        assume "holds (g_env g) n w' \<and> (\<exists>e. snd out = Some e)"
        then show ?thesis by (intro event_keep keptI_step[OF st']) auto
      next
        assume "given_up g n w' \<and> m_state n = StateRollingBack \<and> (fst out = None \<or> snd out \<noteq> None)"
        with False ev show ?thesis by (intro event_retire[OF retiredI_step[OF st']]) auto
      qed
    qed
  qed
qed

lemma interpret_outcome:
  assumes h: "holds (g_env g) m w" and c: "codec_for (g_env g) m"
    and o: "observed_last g m ob w"
    and ev: "ev = EventResume \<or> ev = EventAccept \<or> ev = EventRollback"
    and run: "interpret_decision g l m ev i ob w = (out, w')"
  shows "event_outcome g m ev out w'"
proof -
  let ?c = "lc_context i ob"
  obtain err cmds nxt where dc: "d_err (Decide (Some m) ev ?c) = err"
    "d_commands (Decide (Some m) ev ?c) = cmds" "d_next (Decide (Some m) ev ?c) = nxt" by blast
  show ?thesis
  proof (cases err)
    case (Some e)
    with run dc h show ?thesis by (auto simp: interpret_decision_def event_outcome_def intro: keptI)
  next
    case None
    with Decide_active_step[of m ev ?c] dc obtain k where k: "cmds = [k]"
      and st: "slot_step (Some m) ev k nxt" by auto
    have run': "(case k of CommandResumeDeployment \<Rightarrow> deploy g l m i ob w
        | CommandPersistState \<Rightarrow> persist_and_finish g l m nxt i ob w
        | CommandResumeRollback \<Rightarrow> finish_rollback g l m ob w
        | CommandClearTransaction \<Rightarrow> clear_slot g l m w
        | _ \<Rightarrow> ((Some m, Some (lc_err ErrorStateConflict)), w)) = (out, w')"
      using run None k dc by (cases k) (simp_all add: interpret_decision_def Let_def)
    show ?thesis
    proof (cases k)
      case CommandPublishPrepared
      with st show ?thesis by (auto elim: slot_step_SomeE)
    next
      case CommandPersistState
      with st ev have "ev = EventAccept \<or> ev = EventRollback" by (auto elim: slot_step_SomeE)
      from persist_and_finish_outcome[OF h c st[unfolded CommandPersistState] this o] run'
        CommandPersistState show ?thesis by simp
    next
      case CommandResumeDeployment
      with st have "ev = EventResume" by (auto elim: slot_step_SomeE)
      with deploy_outcome[OF h c] run' CommandResumeDeployment show ?thesis
        by (fastforce simp: event_outcome_def)
    next
      case CommandResumeRollback
      with st have e: "ev = EventRollback" by (auto elim: slot_step_SomeE)
      have "finish_rollback g l m ob w = (out, w')" using run' CommandResumeRollback by simp
      from finish_rollback_outcome[OF h o this] show ?thesis
      proof
        assume "holds (g_env g) m w' \<and> (\<exists>e. snd out = Some e)"
        then show ?thesis by (intro event_keep keptI) auto
      next
        assume "given_up g m w' \<and> m_state m = StateRollingBack \<and> (fst out = None \<or> snd out \<noteq> None)"
        with e show ?thesis by (intro event_retire[OF retiredI]) auto
      qed
    next
      case CommandClearTransaction
      with None k dc have j: "clear_justified m ob False" "(m_state m = StateAccepting) = (ev = EventAccept)"
        using Decide_clear[of m ev ?c] by simp_all
      with st CommandClearTransaction have "ev = EventAccept \<or> ev = EventRollback"
        and s: "m_state m = (if ev = EventAccept then StateAccepting else StateRollingBack)"
        by (auto elim: slot_step_SomeE)
      have "clear_slot g l m w = (out, w')" using run' CommandClearTransaction by simp
      from given_upI[OF this h o j(1)] show ?thesis
      proof
        assume "holds (g_env g) m w' \<and> (\<exists>e. snd out = Some e)"
        then show ?thesis by (intro event_keep keptI) auto
      next
        assume "given_up g m w' \<and> (fst out = None \<or> snd out \<noteq> None)"
        with s \<open>ev = EventAccept \<or> ev = EventRollback\<close> show ?thesis
          by (intro event_retire[OF retiredI]) auto
      qed
    qed
  qed
qed

end

section \<open>Under the lock\<close>

lemma Acquire_kids: "Acquire env d = (r, d') \<Longrightarrow> k_kids d' = k_kids d"
proof -
  assume run: "Acquire env d = (r, d')"
  obtain e0 d0 where root: "ensure_root env OpAcquire d = (e0, d0)" by fastforce
  then have "k_kids d0 = k_kids d"
    by (auto simp: ensure_root_def Let_def split: option.splits if_splits)
  with run root show ?thesis
    by (auto simp: Acquire_def Let_def split: option.splits lock_node.splits if_splits)
qed

lemma mgr_acquire_kids: "mgr_acquire g w = (r, w') \<Longrightarrow> k_kids (w_disk w') = k_kids (w_disk w) \<and> w_host w' = w_host w"
  by (auto simp: mgr_acquire_def on_disk_def split: if_splits prod.splits sum.splits dest: Acquire_kids)

lemma release_lock_kids [simp]: "k_kids (w_disk (release_lock l w)) = k_kids (w_disk w)"
  "w_host (release_lock l w) = w_host w"
  by (auto simp: release_lock_def Close_def split: option.split)

lemma release_lock_slot [simp]:
  "holds env m (release_lock l w) = holds env m w" "cleared (release_lock l w) = cleared w"
  using holds_kids[of "release_lock l w" w] by (simp_all add: cleared_def get_node_def)

lemma release_lock_observed [simp]: "observed_last g m ob (release_lock l w) = observed_last g m ob w"
  by (simp add: observed_last_def)

lemma release_lock_given_up [simp]: "given_up g m (release_lock l w) = given_up g m w"
  by (simp add: given_up_def)

lemma release_lock_outcome [simp]: "event_outcome g m ev out (release_lock l w) = event_outcome g m ev out w"
  by (simp add: event_outcome_def kept_def retired_def deployed_def)

lemma cleanup_holds:
  assumes "on_disk (CleanupOrphans env l) w = (r, w')"
  shows "holds env m w' = holds env m w \<and> w_host w' = w_host w"
proof -
  obtain r1 d where run: "CleanupOrphans env l (w_disk w) = (r1, d)" by fastforce
  from cleanup_orphans_outcome[OF run, of OpLoad] assms run show ?thesis
    by (auto simp: on_disk_def holds_def)
qed

lemma Load_holds: "Load env l (w_disk w) = Inr (Some m') \<Longrightarrow> holds env m w \<Longrightarrow> m' = m"
  by (auto simp: Load_def holds_def split: option.splits)

lemma Load_not_None: "holds env m w \<Longrightarrow> Load env l (w_disk w) \<noteq> Inr None"
  by (auto simp: Load_def holds_def split: option.splits)

context managed
begin

lemma run_locked_outcome:
  assumes h: "holds (g_env g) m w" and c: "codec_for (g_env g) m"
    and run: "run_locked g ev i b l w = (out, w')"
  shows "event_outcome g m ev out w'"
proof -
  have keep: "event_outcome g m ev out w'" if "holds (g_env g) m w'" "snd out \<noteq> None"
    using that by (intro event_keep keptI)
  show ?thesis
  proof (cases "Load (g_env g) l (w_disk w)")
    case (Inl e)
    with run h show ?thesis by (intro keep) (auto simp: run_locked_def no_manifest_def)
  next
    case (Inr s)
    with Load_holds[OF _ h] Load_not_None[OF h] have ld: "Load (g_env g) l (w_disk w) = Inr (Some m)"
      by (cases s) auto
    let ?i = "effective_id m ev i b"
    obtain r1 w1 where cl: "on_disk (CleanupOrphans (g_env g) l) w = (r1, w1)" by fastforce
    have h1: "holds (g_env g) m w1" using cleanup_holds[OF cl] h by blast
    obtain r2 w2 where ob: "observe g m w1 = (r2, w2)" by fastforce
    have h2: "holds (g_env g) m w2" using h1 observe_keeps[OF ob] by (simp add: holds_def)
    show ?thesis
    proof (cases "first_err [validate_current_authority g m w, validate_requested_event m ev ?i]")
      case (Some e)
      with run ld h show ?thesis by (intro keep) (auto simp: run_locked_def Let_def)
    next
      case ok: None
      then have "validate_requested_event m ev ?i = None" by (auto simp: first_err_None)
      then have ev: "ev = EventResume \<or> ev = EventAccept \<or> ev = EventRollback"
        by (cases ev; cases "m_state m") (auto simp: validate_requested_event_def)
      show ?thesis
      proof (cases r1)
        case (Some e)
        with run ld ok cl h1 show ?thesis by (intro keep) (auto simp: run_locked_def Let_def)
      next
        case r1: None
        show ?thesis
        proof (cases r2)
          case (Inl e)
          with run ld ok cl r1 ob h2 show ?thesis by (intro keep) (auto simp: run_locked_def Let_def)
        next
          case (Inr fresh)
          with run ld ok cl r1 ob have "interpret_decision g l m ev ?i fresh w2 = (out, w')"
            by (simp add: run_locked_def Let_def)
          from interpret_outcome[OF h2 c _ ev this] ob Inr show ?thesis
            by (simp add: observed_lastI)
        qed
      qed
    qed
  qed
qed

lemma mgr_run_outcome:
  assumes h: "holds (g_env g) m w" and c: "codec_for (g_env g) m"
    and run: "mgr_run g ev i b w = (out, w')"
  shows "event_outcome g m ev out w'"
proof -
  obtain r1 w1 where a: "mgr_acquire g w = (r1, w1)" by fastforce
  have h1: "holds (g_env g) m w1" using holds_kids mgr_acquire_kids[OF a] h by blast
  show ?thesis
  proof (cases r1)
    case (Inl e)
    with run a have "out = no_manifest e" "w' = w1" by (simp_all add: mgr_run_def with_lock_def)
    with h1 show ?thesis by (intro event_keep keptI) (simp_all add: no_manifest_def)
  next
    case (Inr l)
    obtain out2 w2 where b: "run_locked g ev i b l w1 = (out2, w2)" by fastforce
    with run a Inr have "out = out2" "w' = release_lock l w2" by (simp_all add: mgr_run_def with_lock_def)
    with run_locked_outcome[OF h1 c b] show ?thesis by simp
  qed
qed

end

section \<open>Properties\<close>

text \<open>C1. Recovery authority is never lost.  Whatever the host and the store do wrong, after any
  event the slot still loads as the same release in a state reachable in the abstract
  lifecycle, or it was given up after an observation of the present host that justified it:
  the candidate being accepted was installed, loaded and ready without drift, or the
  recovery of a rollback was confirmed.\<close>

theorem authority_never_lost:
  assumes "runtime_frame (g_rt g)"
    and "load_active (g_env g) OpLoad (w_disk w) = Inr (Some m)" "codec_for (g_env g) m"
    and "mgr_run g ev i b w = (out, w')"
  shows "(\<exists>m'. load_active (g_env g) OpLoad (w_disk w') = Inr (Some m') \<and>
        release_of m' = release_of m \<and> slot_reach (Some m) (Some m')) \<or>
    (get_node ''active'' (w_disk w') = None \<and>
     (\<exists>m' ob ready. slot_reach (Some m) (Some m') \<and> release_of m' = release_of m \<and>
        observed_last g m' ob w' \<and> clear_justified m' ob ready))"
proof -
  have "managed g" using assms(1) by (simp add: managed_def)
  from managed.mgr_run_outcome[OF this _ assms(3,4)] assms(2) show ?thesis
    by (auto simp: event_outcome_def kept_def retired_def given_up_def holds_def cleared_def)
qed

lemma sample_codec: "codec_for sample_env sample_manifest"
proof -
  have "sample_manifest\<lparr>m_state := StatePrepared\<rparr> = sample_manifest"
    by (simp add: sample_manifest_def)
  then show ?thesis
    by (simp add: codec_for_def sample_env_def sample_enc_def sample_dec_def)
qed

text \<open>A manager on the sample host, and that host with the store unlocked.\<close>

definition sample_manager :: "unit manager" where
  "sample_manager = os_manager sample_env sample_deps ''/store/active/authority'' (sample_sha CHR ''b'')"

definition sample_idle :: "unit world" where
  "sample_idle = sample_world\<lparr>w_disk := sample_disk\<lparr>k_flock := False\<rparr>\<rparr>"

lemma sample_frame: "runtime_frame (g_rt sample_manager)"
  by (simp add: sample_manager_def os_manager_def osrt.runtime_frame_axioms)

lemma sample_env_of [simp]: "g_env sample_manager = sample_env"
  by (simp add: sample_manager_def os_manager_def)

lemma sample_idle_load: "load_active (g_env sample_manager) OpLoad (w_disk sample_idle) = Inr (Some sample_manifest)"
  using sample_load load_active_same[OF same_authority_node, of "w_disk sample_idle" sample_disk]
  by (simp add: sample_idle_def get_node_def)

theorem authority_never_lost_witness:
  "\<exists>out w'. mgr_run sample_manager EventRollback (sample_sha CHR ''1'') False sample_idle = (out, w') \<and>
     ((\<exists>m'. load_active sample_env OpLoad (w_disk w') = Inr (Some m') \<and>
        release_of m' = release_of sample_manifest) \<or> get_node ''active'' (w_disk w') = None)"
proof -
  obtain out w' where run:
    "mgr_run sample_manager EventRollback (sample_sha CHR ''1'') False sample_idle = (out, w')"
    by fastforce
  have c: "codec_for (g_env sample_manager) sample_manifest" by (simp add: sample_codec)
  from authority_never_lost[OF sample_frame sample_idle_load c run] run show ?thesis by auto
qed

text \<open>C3. A reported success is true.  When \<^verbatim>\<open>Accept\<close> succeeds the slot is clear and the host,
  unchanged since the last observation, had the candidate of the named release installed,
  loaded and ready without drift; when \<^verbatim>\<open>Rollback\<close> succeeds the slot is clear and recovery
  was confirmed by the last observation; when \<^verbatim>\<open>Resume\<close> succeeds the slot loads as the
  pending release it returns, whose candidate was observed installed and ready.\<close>

theorem success_means_done:
  assumes "runtime_frame (g_rt g)"
    and "load_active (g_env g) OpLoad (w_disk w) = Inr (Some m)" "codec_for (g_env g) m"
  shows "(mgr_accept g i w = ((r, None), w') \<longrightarrow>
      r = None \<and> get_node ''active'' (w_disk w') = None \<and>
      (\<exists>m' ob ready. release_of m' = release_of m \<and> m_state m' = StateAccepting \<and>
         observed_last g m' ob w' \<and> clear_justified m' ob ready)) \<and>
    (mgr_rollback g i w = ((r, None), w') \<longrightarrow>
      r = None \<and> get_node ''active'' (w_disk w') = None \<and>
      (\<exists>m' ob ready. release_of m' = release_of m \<and> m_state m' = StateRollingBack \<and>
         observed_last g m' ob w' \<and> clear_justified m' ob ready)) \<and>
    (mgr_resume g i w = ((r, None), w') \<longrightarrow> (\<exists>n. r = Some n \<and> deployed g n w'))"
proof -
  have m: "managed g" using assms(1) by (simp add: managed_def)
  have o: "event_outcome g m ev (r, None) w'" if "mgr_run g ev i b w = ((r, None), w')" for ev b
    using managed.mgr_run_outcome[OF m _ assms(3) that] assms(2) by (simp add: holds_def)
  show ?thesis
    using o[of EventAccept False] o[of EventRollback False] o[of EventResume True]
    by (auto simp: event_outcome_def retired_def given_up_def cleared_def mgr_accept_def
        mgr_rollback_def mgr_resume_def no_manifest_def split: if_splits)
qed

text \<open>A runtime on which every observation is healthy and every effect succeeds.\<close>

definition healthy_runtime :: "unit runtime" where
  "healthy_runtime =
     \<lparr>rt_observe = (\<lambda>m _ _ w. (Inr (healthy_observed m), w)), rt_install = (\<lambda>_ _ w. (None, w)),
      rt_restart = (\<lambda>_ w. (None, w)), rt_wait_ready = (\<lambda>_ w. (None, w)),
      rt_restore = (\<lambda>_ _ w. (None, w)), rt_bootout = (\<lambda>_ w. (None, w)),
      rt_confirm_unloaded = (\<lambda>_ w. (Inr True, w)), rt_remove_target = (\<lambda>_ w. (None, w)),
      rt_install_adapter = (\<lambda>_ _ w. (None, w)), rt_uninstall_adapter = (\<lambda>_ _ w. (None, w)),
      rt_service_loaded = (\<lambda>_ w. (Inr True, w)), rt_ready_once = (\<lambda>_ w. (True, w))\<rparr>"

definition healthy_manager :: "unit manager" where
  "healthy_manager = sample_manager\<lparr>g_rt := healthy_runtime\<rparr>"

lemma healthy_frame: "runtime_frame (g_rt healthy_manager)"
  by unfold_locales (simp_all add: healthy_manager_def healthy_runtime_def)

lemma healthy_fields [simp]:
  "g_env healthy_manager = sample_env" "g_deps healthy_manager = sample_deps"
  "g_controller_path healthy_manager = ''/store/active/authority''"
  "g_controller_sha healthy_manager = sample_sha CHR ''b''"
  "g_rt healthy_manager = healthy_runtime"
  by (simp_all add: healthy_manager_def sample_manager_def os_manager_def)

lemma healthy_observe [simp]: "m_services m = [] \<Longrightarrow> observe healthy_manager m w = (Inr (healthy_observed m), w)"
  by (simp add: observe_def healthy_runtime_def)

lemma sample_no_faults [simp]: "v_fault sample_env op s = None" "v_hook sample_env h = None"
  "v_root sample_env = ''/store''" "v_uid sample_env = 501"
  by (simp_all add: sample_env_def)

lemma healthy_acquire:
  "mgr_acquire healthy_manager sample_idle = (Inr sample_lock, sample_world)"
  by (simp add: mgr_acquire_def on_disk_def Acquire_def ensure_root_def validate_root_if_present_def
      validate_open_lock_def sample_idle_def sample_world_def sample_disk_def sample_lock_def Let_def
      lower_hex_def)

lemma sample_world_disk: "w_disk sample_world = sample_disk"
  by (simp add: sample_world_def)


lemma remove_temps_none: "\<forall>n\<in>set ns. \<not> manifest_temp n \<Longrightarrow> remove_temps env ns d = (None, d)"
  by (induction ns) auto

lemma remove_orphans_none: "\<forall>n\<in>set ns. \<not> root_orphan n \<Longrightarrow> remove_orphans env ns d = (None, d)"
  by (induction ns) auto

lemma sample_cleanup:
  "on_disk (CleanupOrphans sample_env sample_lock) sample_world = (None, sample_world)"
proof -
  have "cleanup_manifest_temps sample_env sample_disk = (None, sample_disk)"
    by (simp add: cleanup_manifest_temps_def sample_disk_def sample_active_def get_node_def
        remove_temps_none manifest_temp_def)
  moreover have "cleanup_root_orphans sample_env sample_disk = (None, sample_disk)"
    by (simp add: cleanup_root_orphans_def sample_disk_def remove_orphans_none root_orphan_def)
  ultimately show ?thesis
    by (simp add: on_disk_def CleanupOrphans_def) (simp add: sample_world_def)
qed

lemma sample_hash:
  "hash_runtime_file sample_env sample_deps ''/store/active/authority'' True sample_world
    = Inr (sample_sha CHR ''b'')"
proof -
  have "store_artifact sample_env ''/store/active/authority'' = Some ''authority''"
    by (simp add: store_artifact_def active_candidate_path_def active_authority_path_def) code_simp
  then have "node_at sample_env ''/store/active/authority'' sample_world = Some (File 320 ''b-binary'')"
    by (simp add: node_at_def sample_world_def sample_disk_def sample_active_def dir_kids_def get_node_def)
  moreover have "dp_fault sample_deps s = None" for s by (simp add: sample_deps_def)
  moreover have "v_sha sample_env ''b-binary'' = sample_sha CHR ''b''"
    by (simp add: sample_env_def sample_digest_def)
  ultimately show ?thesis by (simp add: hash_runtime_file_def executable_mode_def)
qed

lemma healthy_resume_run:
  "\<exists>w'. mgr_resume healthy_manager (sample_sha CHR ''1'') sample_idle
     = ((Some (sample_manifest\<lparr>m_state := StatePending\<rparr>), None), w')"
proof -
  let ?i = "sample_sha CHR ''1''" and ?ob = "healthy_observed sample_manifest"
  let ?n = "sample_manifest\<lparr>m_state := StatePending\<rparr>"
  have svc: "m_services sample_manifest = []" by (simp add: sample_manifest_def)
  have inst: "o_installed_present ?ob" "o_installed_sha ?ob = sample_sha CHR ''a''" "o_runtime_ready ?ob"
    by (simp_all add: healthy_observed_def)
  have load: "Load sample_env sample_lock sample_disk = Inr (Some sample_manifest)"
    using sample_load by (simp add: Load_def)
  have rld: "load_active sample_env OpRewrite sample_disk = Inr (Some sample_manifest)"
    using sample_load by (simp add: load_active_Some_iff load_checks_def validate_artifact_None
        read_regular_Inr first_err_Cons)
  have prior: "?n\<lparr>m_state := StatePrepared\<rparr> = sample_manifest" by (simp add: sample_manifest_def)
  have wr: "\<exists>d. Rewrite sample_env sample_lock ?n sample_disk = (None, d)"
    by (simp add: Rewrite_def rld prior write_manifest_atomic_def Let_def)
      (simp add: sample_disk_def dir_kids_def get_node_def sample_active_def temp_name_def Let_def)
  have dec_resume: "d_err (Decide (Some sample_manifest) EventResume (lc_context ?i ?ob)) = None"
    "d_commands (Decide (Some sample_manifest) EventResume (lc_context ?i ?ob)) = [CommandResumeDeployment]"
    using inst by (simp_all add: Decide_def Let_def decide_prepared_def target_allowed_def)
  have dec_ready: "d_err (Decide (Some sample_manifest) EventDeploymentReady (lc_context ?i ?ob)) = None"
    "d_commands (Decide (Some sample_manifest) EventDeploymentReady (lc_context ?i ?ob)) = [CommandPersistState]"
    "d_next (Decide (Some sample_manifest) EventDeploymentReady (lc_context ?i ?ob)) = Some ?n"
    using inst by (simp_all add: Decide_def Let_def decide_prepared_def transition_to_def applied_def)
  have restart: "restart_services healthy_manager (service_manifests sample_manifest) w = (None, w)" for w
    by (simp add: service_manifests_def svc healthy_runtime_def)
  have deploy: "\<exists>w'. deploy healthy_manager sample_lock sample_manifest ?i ?ob sample_world
      = ((Some ?n, None), w')"
    using wr inst dec_ready
    by (auto simp: deploy_def resume_deployment_def install_step_def not_installed_def restart svc
        rewrite_manifest_def on_disk_def Let_def sample_world_disk)
  have run: "\<exists>w'. run_locked healthy_manager EventResume ?i True sample_lock sample_world
      = ((Some ?n, None), w')"
    using deploy load dec_resume
    by (auto simp: run_locked_def sample_cleanup svc interpret_decision_def Let_def effective_id_def
        validate_current_authority_def sample_hash validate_requested_event_def sample_world_disk)
  then show ?thesis
    by (auto simp: mgr_resume_def mgr_run_def with_lock_def healthy_acquire)
qed

theorem success_means_done_witness:
  "\<exists>w'. deployed healthy_manager (sample_manifest\<lparr>m_state := StatePending\<rparr>) w'"
proof -
  obtain w' where run: "mgr_resume healthy_manager (sample_sha CHR ''1'') sample_idle
     = ((Some (sample_manifest\<lparr>m_state := StatePending\<rparr>), None), w')"
    using healthy_resume_run by blast
  have "load_active (g_env healthy_manager) OpLoad (w_disk sample_idle) = Inr (Some sample_manifest)"
    "codec_for (g_env healthy_manager) sample_manifest"
    using sample_idle_load by (simp_all add: sample_codec)
  from success_means_done[OF healthy_frame this] run show ?thesis by fastforce
qed

end
