(* ===== verification/ReleaseManagerPolicy.thy ===== *)
theory ReleaseManagerPolicy
  imports ReleaseManagerSafety
begin

text \<open>
  The order of persistence and effect, the refusals that touch nothing, and what reaches
  the public error: properties of the manager that speak about its calls rather than about
  the slot it leaves.
\<close>

section \<open>Effects under recorded authority\<close>

text \<open>The state of the release a fault-free reader would load.\<close>

definition phase :: "store_env \<Rightarrow> 'x world \<Rightarrow> lc_state option" where
  "phase env w =
     (case load_active env OpLoad (w_disk w) of Inr (Some m) \<Rightarrow> Some (m_state m) | _ \<Rightarrow> None)"

text \<open>The runtime that refuses an effect unless the slot records the matching direction:
  installing needs a prepared release, restoring, unloading and removing a chosen rollback,
  restarting either of the two.\<close>

definition guarded :: "store_env \<Rightarrow> 'x runtime \<Rightarrow> 'x runtime" where
  "guarded env rt =
     (let refuse = Some (OtherErr ''effect without recorded authority'') in
      rt\<lparr>rt_install := (\<lambda>m a w.
           if phase env w = Some StatePrepared then rt_install rt m a w else (refuse, w)),
         rt_restore := (\<lambda>m a w.
           if phase env w = Some StateRollingBack then rt_restore rt m a w else (refuse, w)),
         rt_bootout := (\<lambda>m w.
           if phase env w = Some StateRollingBack then rt_bootout rt m w else (refuse, w)),
         rt_remove_target := (\<lambda>m w.
           if phase env w = Some StateRollingBack then rt_remove_target rt m w else (refuse, w)),
         rt_restart := (\<lambda>m w.
           if phase env w = Some StatePrepared \<or> phase env w = Some StateRollingBack
           then rt_restart rt m w else (refuse, w))\<rparr>)"

definition guard_manager :: "'x manager \<Rightarrow> 'x manager" where
  "guard_manager g = g\<lparr>g_rt := guarded (g_env g) (g_rt g)\<rparr>"

lemma guard_fields [simp]:
  "g_env (guard_manager g) = g_env g" "g_deps (guard_manager g) = g_deps g"
  "g_controller_path (guard_manager g) = g_controller_path g"
  "g_controller_sha (guard_manager g) = g_controller_sha g"
  "artifacts (guard_manager g) = artifacts g"
  "g_rt (guard_manager g) = guarded (g_env g) (g_rt g)"
  by (simp_all add: guard_manager_def artifacts_def)

lemma guarded_fields [simp]:
  "rt_observe (guarded env rt) = rt_observe rt" "rt_wait_ready (guarded env rt) = rt_wait_ready rt"
  "rt_confirm_unloaded (guarded env rt) = rt_confirm_unloaded rt"
  "rt_service_loaded (guarded env rt) = rt_service_loaded rt"
  by (simp_all add: guarded_def Let_def)

lemma guarded_effects:
  "phase env w = Some StatePrepared \<Longrightarrow> rt_install (guarded env rt) m a w = rt_install rt m a w"
  "phase env w = Some StateRollingBack \<Longrightarrow> rt_restore (guarded env rt) m a w = rt_restore rt m a w"
  "phase env w = Some StateRollingBack \<Longrightarrow> rt_bootout (guarded env rt) m w = rt_bootout rt m w"
  "phase env w = Some StateRollingBack \<Longrightarrow> rt_remove_target (guarded env rt) m w = rt_remove_target rt m w"
  "phase env w = Some StatePrepared \<or> phase env w = Some StateRollingBack \<Longrightarrow>
     rt_restart (guarded env rt) m w = rt_restart rt m w"
  by (simp_all add: guarded_def Let_def)

lemma phase_holds: "holds env m w \<Longrightarrow> phase env w = Some (m_state m)"
  by (simp add: phase_def holds_def)

lemma phase_disk: "w_disk w' = w_disk w \<Longrightarrow> phase env w' = phase env w"
  by (simp add: phase_def)

lemma observe_services_guard: "observe_services (guard_manager g) ob ss w = observe_services g ob ss w"
  by (induction ss arbitrary: ob w) (simp_all split: prod.split sum.split)

lemma observe_guard [simp]: "observe (guard_manager g) m w = observe g m w"
  unfolding observe_def observe_services_guard guard_fields guarded_fields ..

lemma clear_slot_guard [simp]: "clear_slot (guard_manager g) l m w = clear_slot g l m w"
  by (simp add: clear_slot_def)

lemma rewrite_guard [simp]: "rewrite_manifest (guard_manager g) l m w = rewrite_manifest g l m w"
  by (simp add: rewrite_manifest_def)

lemma finish_accept_guard [simp]: "finish_accept (guard_manager g) l m i w = finish_accept g l m i w"
  unfolding finish_accept_def observe_guard clear_slot_guard ..

context managed
begin

lemma restart_services_guard:
  "phase (g_env g) w = Some StatePrepared \<or> phase (g_env g) w = Some StateRollingBack \<Longrightarrow>
   restart_services (guard_manager g) ss w = restart_services g ss w"
proof (induction ss arbitrary: w)
  case (Cons s ss)
  obtain r1 w1 where a: "rt_restart (g_rt g) s w = (r1, w1)" by fastforce
  obtain r2 w2 where b: "rt_wait_ready (g_rt g) s w1 = (r2, w2)" by fastforce
  have "w_disk w2 = w_disk w" using frame_rewrites(3)[OF a] frame_rewrites(4)[OF b] by simp
  from phase_disk[OF this] have "phase (g_env g) w2 = phase (g_env g) w" .
  with Cons a b show ?case by (simp add: guarded_effects split: option.split)
qed simp

lemma unload_services_guard:
  "phase (g_env g) w = Some StateRollingBack \<Longrightarrow>
   unload_services (guard_manager g) ss w = unload_services g ss w"
proof (induction ss arbitrary: w)
  case (Cons s ss)
  obtain r1 w1 where a: "rt_bootout (g_rt g) s w = (r1, w1)" by fastforce
  obtain r2 w2 where b: "rt_confirm_unloaded (g_rt g) s w1 = (r2, w2)" by fastforce
  have "w_disk w2 = w_disk w" using frame_rewrites(6)[OF a] frame_rewrites(7)[OF b] by simp
  from phase_disk[OF this] have "phase (g_env g) w2 = phase (g_env g) w" .
  with Cons a b show ?case by (simp add: guarded_effects split: option.split sum.split)
qed simp

lemma resume_rollback_guard:
  assumes p: "phase (g_env g) w = Some StateRollingBack"
  shows "resume_rollback (guard_manager g) m ob w = resume_rollback g m ob w"
proof (cases "m_previous_present m")
  case True
  obtain r1 w1 where a: "rt_restore (g_rt g) m (artifacts g) w = (r1, w1)" by fastforce
  have "phase (g_env g) w1 = phase (g_env g) w" using phase_disk[OF frame_rewrites(5)[OF a]] .
  with True p a show ?thesis
    by (simp add: resume_rollback_def guarded_effects restart_services_guard split: option.split)
next
  case False
  obtain r1 w1 where a: "unload_services g (service_manifests m) w = (r1, w1)" by fastforce
  have "phase (g_env g) w1 = phase (g_env g) w" using phase_disk[OF unload_services_disk[OF a]] .
  with False p a show ?thesis
    by (simp add: resume_rollback_def guarded_effects unload_services_guard split: option.split)
qed

lemma finish_rollback_guard:
  assumes "holds (g_env g) m w" "m_state m = StateRollingBack"
  shows "finish_rollback (guard_manager g) l m ob w = finish_rollback g l m ob w"
proof -
  have rr: "resume_rollback (guard_manager g) m ob w = resume_rollback g m ob w"
    using phase_holds[OF assms(1)] assms(2) by (intro resume_rollback_guard) simp
  show ?thesis unfolding finish_rollback_def rr observe_guard clear_slot_guard ..
qed

lemma rollback_failure_guard:
  assumes h: "holds (g_env g) m w" and c: "codec_for (g_env g) m"
  shows "rollback_deployment_failure (guard_manager g) l m cause w = rollback_deployment_failure g l m cause w"
proof -
  obtain r1 w1 where ob: "observe g m w = (r1, w1)" by fastforce
  have h1: "holds (g_env g) m w1" using h observe_keeps[OF ob] by (simp add: holds_def)
  show ?thesis
  proof (cases r1)
    case (Inl e)
    with ob show ?thesis by (simp add: rollback_deployment_failure_def)
  next
    case (Inr fresh)
    let ?c = "lc_context (m_id m) fresh"
    obtain err nxt where dc: "d_err (Decide (Some m) EventRollback ?c) = err"
      "d_next (Decide (Some m) EventRollback ?c) = nxt" by blast
    show ?thesis
    proof (cases "err = None \<and> nxt \<noteq> None")
      case False
      with ob Inr dc show ?thesis
        by (cases err; cases nxt) (auto simp: rollback_deployment_failure_def Let_def)
    next
      case True
      then obtain n where n: "nxt = Some n" by blast
      from Decide_active_step[of m EventRollback ?c] True dc n obtain k where
        st: "slot_step (Some m) EventRollback k (Some n)" by auto
      obtain r2 w2 where rw: "rewrite_manifest g l n w1 = (r2, w2)" by fastforce
      have "r2 = None \<Longrightarrow> finish_rollback (guard_manager g) l n fresh w2 = finish_rollback g l n fresh w2"
        using persist_outcome[OF h1 c st rw] slot_step_next[OF st] finish_rollback_guard by simp
      with ob Inr dc n True rw show ?thesis
        by (cases r2) (simp_all add: rollback_deployment_failure_def)
    qed
  qed
qed

lemma install_step_guard:
  assumes h: "holds (g_env g) m w" and s: "m_state m = StatePrepared"
  shows "install_step (guard_manager g) m ob w = install_step g m ob w"
proof -
  have i: "rt_install (g_rt (guard_manager g)) m a w = rt_install (g_rt g) m a w" for a
    using phase_holds[OF h] s by (simp add: guarded_effects)
  show ?thesis unfolding install_step_def i observe_guard guard_fields(5) ..
qed

lemma resume_deployment_guard:
  assumes h: "holds (g_env g) m w" and c: "codec_for (g_env g) m" and s: "m_state m = StatePrepared"
  shows "resume_deployment (guard_manager g) l m ob w = resume_deployment g l m ob w"
proof -
  obtain r1 w1 where s1: "install_step g m ob w = (r1, w1)" by fastforce
  have h1: "holds (g_env g) m w1" using h install_step_disk[OF s1] by (simp add: holds_def)
  obtain r2 w2 where s2: "restart_services g (service_manifests m) w1 = (r2, w2)" by fastforce
  have h2: "holds (g_env g) m w2" using h1 restart_services_disk[OF s2] by (simp add: holds_def)
  have rs: "restart_services (guard_manager g) (service_manifests m) w1 = (r2, w2)"
    using restart_services_guard[of w1] phase_holds[OF h1] s s2 by simp
  from s1 s2 rs rollback_failure_guard[OF h1 c] rollback_failure_guard[OF h2 c]
    install_step_guard[OF h s] show ?thesis
    by (simp add: resume_deployment_def Let_def split: option.split)
qed

lemma deploy_guard:
  assumes h: "holds (g_env g) m w" and c: "codec_for (g_env g) m" and s: "m_state m = StatePrepared"
  shows "deploy (guard_manager g) l m i ob w = deploy g l m i ob w"
proof -
  obtain r1 w1 where s1: "resume_deployment g l m ob w = (r1, w1)" by fastforce
  show ?thesis
  proof (cases r1)
    case (Some e)
    with s1 resume_deployment_guard[OF h c s] show ?thesis by (simp add: deploy_def Let_def)
  next
    case None
    with resume_deployment_outcome[OF h c s1] have h1: "holds (g_env g) m w1" by simp
    obtain r2 w2 where s2: "observe g m w1 = (r2, w2)" by fastforce
    have h2: "holds (g_env g) m w2" using h1 observe_keeps[OF s2] by (simp add: holds_def)
    from None s1 s2 resume_deployment_guard[OF h c s] rollback_failure_guard[OF h2 c] show ?thesis
      by (simp add: deploy_def Let_def
          cong: sum.case_cong option.case_cong list.case_cong command_kind.case_cong prod.case_cong)
  qed
qed

lemma interpret_guard:
  assumes h: "holds (g_env g) m w" and c: "codec_for (g_env g) m"
  shows "interpret_decision (guard_manager g) l m ev i ob w = interpret_decision g l m ev i ob w"
proof (cases "d_err (Decide (Some m) ev (lc_context i ob))")
  case (Some e)
  then show ?thesis by (simp add: interpret_decision_def)
next
  case None
  obtain nxt where nx: "d_next (Decide (Some m) ev (lc_context i ob)) = nxt" by blast
  with Decide_active_step[OF None] obtain k where
    k: "d_commands (Decide (Some m) ev (lc_context i ob)) = [k]" and st: "slot_step (Some m) ev k nxt"
    by auto
  have fin: "finish_rollback (guard_manager g) l m ob w = finish_rollback g l m ob w"
    if "k = CommandResumeRollback"
    using st that finish_rollback_guard[OF h] by (auto elim: slot_step_SomeE)
  have dep: "deploy (guard_manager g) l m i ob w = deploy g l m i ob w" if "k = CommandResumeDeployment"
    using st that deploy_guard[OF h c] by (auto elim: slot_step_SomeE)
  have per: "persist_and_finish (guard_manager g) l m nxt i ob w = persist_and_finish g l m nxt i ob w"
    if "k = CommandPersistState"
  proof (cases nxt)
    case None
    then show ?thesis by (simp add: persist_and_finish_def)
  next
    case (Some n)
    obtain r1 w1 where rw: "rewrite_manifest g l n w = (r1, w1)" by fastforce
    have "r1 = None \<Longrightarrow> m_state n = StateRollingBack \<Longrightarrow>
        finish_rollback (guard_manager g) l n ob w1 = finish_rollback g l n ob w1"
      using persist_outcome[OF h c st[unfolded Some] rw] finish_rollback_guard by simp
    with Some rw show ?thesis by (cases r1) (simp_all add: persist_and_finish_def)
  qed
  from None k nx fin dep per show ?thesis by (cases k) (simp_all add: interpret_decision_def Let_def)
qed

lemma run_locked_guard:
  assumes c: "\<And>m. holds (g_env g) m w \<Longrightarrow> codec_for (g_env g) m"
  shows "run_locked (guard_manager g) ev i b l w = run_locked g ev i b l w"
proof -
  have v: "validate_current_authority (guard_manager g) m w = validate_current_authority g m w" for m
    unfolding validate_current_authority_def guard_fields ..
  obtain r1 w1 where cl: "on_disk (CleanupOrphans (g_env g) l) w = (r1, w1)" by fastforce
  have "interpret_decision (guard_manager g) l m ev j ob w2 = interpret_decision g l m ev j ob w2"
    if "Load (g_env g) l (w_disk w) = Inr (Some m)" "observe g m w1 = (r, w2)" for m j ob w2 r
  proof -
    from that(1) have "holds (g_env g) m w" by (auto simp: Load_def holds_def split: option.splits)
    then have "holds (g_env g) m w2" "codec_for (g_env g) m"
      using cleanup_holds[OF cl] observe_keeps[OF that(2)] c by (simp_all add: holds_def)
    then show ?thesis by (rule interpret_guard)
  qed
  with cl v show ?thesis
    by (auto simp: run_locked_def Let_def split: sum.split option.split prod.split)
qed

end

text \<open>C2. Persist before effect.  No event ever reaches the host ahead of the recovery authority
  that covers it: replacing the runtime by one that refuses to install unless the slot loads
  as a prepared release, to restore, unload or remove unless it loads as one rolling back,
  and to restart unless it is one of the two, changes neither the result nor the world of
  any run.\<close>

theorem effects_follow_authority:
  assumes "runtime_frame (g_rt g)"
    and "\<And>m. load_active (g_env g) OpLoad (w_disk w) = Inr (Some m) \<Longrightarrow> codec_for (g_env g) m"
  shows "mgr_run (guard_manager g) ev i b w = mgr_run g ev i b w"
proof -
  have m: "managed g" using assms(1) by (simp add: managed_def)
  obtain r1 w1 where a: "mgr_acquire g w = (r1, w1)" by fastforce
  then have a': "mgr_acquire (guard_manager g) w = (r1, w1)"
    unfolding mgr_acquire_def guard_fields .
  have "holds (g_env g) n w1 = holds (g_env g) n w" for n
    using holds_kids mgr_acquire_kids[OF a] by blast
  with assms(2) have "codec_for (g_env g) n" if "holds (g_env g) n w1" for n
    using that by (simp add: holds_def)
  from managed.run_locked_guard[OF m this]
  have "run_locked (guard_manager g) ev i b l w1 = run_locked g ev i b l w1" for l by blast
  with a a' show ?thesis by (simp add: mgr_run_def with_lock_def split: sum.split)
qed

theorem effects_follow_authority_witness:
  "mgr_run (guard_manager healthy_manager) EventResume (sample_sha CHR ''1'') True sample_idle
     = mgr_run healthy_manager EventResume (sample_sha CHR ''1'') True sample_idle"
proof (rule effects_follow_authority)
  show "runtime_frame (g_rt healthy_manager)" by (rule healthy_frame)
  show "codec_for (g_env healthy_manager) m"
    if "load_active (g_env healthy_manager) OpLoad (w_disk sample_idle) = Inr (Some m)" for m
    using that sample_idle_load sample_codec by simp
qed

section \<open>Refusals\<close>

text \<open>C10. A stale or foreign request touches nothing.  If the caller is not the authority the
  release pinned, names another release, or asks for an event the state does not allow, the
  run fails with a lifecycle error and leaves the host and every entry of the store exactly
  as they were.\<close>

theorem foreign_request_is_inert:
  assumes "load_active (g_env g) OpLoad (w_disk w) = Inr (Some m)"
    and "g_controller_sha g \<noteq> m_authority_sha m \<or> \<not> event_allowed (m_state m) ev \<or>
         ev = EventDeploymentReady \<or> ev = EventPrepare \<or> effective_id m ev i b \<noteq> m_id m"
    and "mgr_run g ev i b w = (out, w')"
  shows "snd out \<noteq> None \<and> w_host w' = w_host w \<and> k_kids (w_disk w') = k_kids (w_disk w)"
proof -
  obtain r1 w1 where a: "mgr_acquire g w = (r1, w1)" by fastforce
  note k = mgr_acquire_kids[OF a]
  have h: "holds (g_env g) m w1" using assms(1) holds_kids[of w1 w] k by (simp add: holds_def)
  show ?thesis
  proof (cases r1)
    case (Inl e)
    with assms(3) a k show ?thesis by (auto simp: mgr_run_def with_lock_def no_manifest_def)
  next
    case (Inr l)
    have bad: "first_err [validate_current_authority g m w1,
        validate_requested_event m ev (effective_id m ev i b)] \<noteq> None"
      using assms(2) by (auto simp: first_err_None validate_current_authority_def validate_requested_event_def)
    have "snd (fst (run_locked g ev i b l w1)) \<noteq> None \<and> snd (run_locked g ev i b l w1) = w1"
    proof (cases "Load (g_env g) l (w_disk w1)")
      case (Inl e)
      then show ?thesis by (simp add: run_locked_def no_manifest_def)
    next
      case (Inr s)
      with Load_holds[OF _ h] Load_not_None[OF h] have "Load (g_env g) l (w_disk w1) = Inr (Some m)"
        by (cases s) auto
      with bad show ?thesis by (auto simp: run_locked_def Let_def)
    qed
    with assms(3) a Inr k show ?thesis by (auto simp: mgr_run_def with_lock_def split: prod.splits)
  qed
qed

theorem foreign_request_is_inert_witness:
  "k_kids (w_disk (snd (mgr_run healthy_manager EventAccept (sample_sha CHR ''9'') False sample_idle)))
     = k_kids (w_disk sample_idle)"
proof -
  obtain out w' where run:
    "mgr_run healthy_manager EventAccept (sample_sha CHR ''9'') False sample_idle = (out, w')" by fastforce
  have ld: "load_active (g_env healthy_manager) OpLoad (w_disk sample_idle) = Inr (Some sample_manifest)"
    using sample_idle_load by simp
  have "effective_id sample_manifest EventAccept (sample_sha CHR ''9'') False \<noteq> m_id sample_manifest"
    by (simp add: effective_id_def)
  with foreign_request_is_inert[OF ld _ run] run show ?thesis by simp
qed

text \<open>An administrative effect runs only on a clear slot.  \<^verbatim>\<open>WithClear\<close> calls its effect only
  when, under the lock, the slot loads as clear; otherwise it reports an error and neither the
  host nor the authority changes.\<close>

theorem with_clear_is_exclusive:
  assumes "mgr_with_clear g (Some f) w = (r, w')"
  shows "(\<exists>w1 w2. load_active (g_env g) OpLoad (w_disk w1) = Inr None \<and> w_host w1 = w_host w \<and>
        f (g_rt g) w1 = (r, w2) \<and> w_host w' = w_host w2) \<or>
    (r \<noteq> None \<and> w_host w' = w_host w \<and>
     (\<forall>m. holds (g_env g) m w' = holds (g_env g) m w))"
proof -
  obtain r1 w1 where a: "mgr_acquire g w = (r1, w1)" by fastforce
  note k = mgr_acquire_kids[OF a]
  have hk: "holds (g_env g) m w1 = holds (g_env g) m w" for m using holds_kids k by blast
  show ?thesis
  proof (cases r1)
    case (Inl e)
    with assms a k hk show ?thesis by (auto simp: mgr_with_clear_def with_lock_def)
  next
    case (Inr l)
    let ?ld = "Load (g_env g) l (w_disk w1)"
    obtain rc w2 where cl: "on_disk (CleanupOrphans (g_env g) l) w1 = (rc, w2)" by fastforce
    have hc: "holds (g_env g) m w2 = holds (g_env g) m w" "w_host w2 = w_host w" for m
      using cleanup_holds[OF cl] hk k by simp_all
    show ?thesis
    proof (cases "?ld = Inr None \<and> rc = None")
      case True
      obtain d where run: "CleanupOrphans (g_env g) l (w_disk w1) = (rc, d)" "d = w_disk w2"
        using cl by (auto simp: on_disk_def split: prod.splits)
      have "load_active (g_env g) OpLoad (w_disk w1) = Inr None"
        using True by (auto simp: Load_def split: option.splits)
      with cleanup_orphans_outcome[OF run(1), of OpLoad] run(2)
      have ld: "load_active (g_env g) OpLoad (w_disk w2) = Inr None" by simp
      obtain r3 w3 where f: "f (g_rt g) w2 = (r3, w3)" by fastforce
      with assms a Inr True cl have "r = r3" "w' = release_lock l w3"
        by (simp_all add: mgr_with_clear_def with_lock_def)
      with ld hc(2) f show ?thesis by auto
    next
      case False
      have stop: ?thesis if "r \<noteq> None" "w' = release_lock l w1 \<or> w' = release_lock l w2"
        using that k hk hc by auto
      show ?thesis
      proof (cases ?ld)
        case (Inl e)
        with assms a Inr show ?thesis by (intro stop) (auto simp: mgr_with_clear_def with_lock_def)
      next
        case ok: (Inr s)
        show ?thesis
        proof (cases s)
          case (Some m)
          with ok assms a Inr show ?thesis by (intro stop) (auto simp: mgr_with_clear_def with_lock_def)
        next
          case None
          with ok False obtain e where "rc = Some e" by auto
          with ok None assms a Inr cl show ?thesis
            by (intro stop) (auto simp: mgr_with_clear_def with_lock_def)
        qed
      qed
    qed
  qed
qed

theorem with_clear_is_exclusive_witness:
  "w_host (snd (mgr_with_clear healthy_manager (Some (\<lambda>_ w. (None, w))) sample_idle)) = w_host sample_idle"
proof -
  obtain r w' where run:
    "mgr_with_clear healthy_manager (Some (\<lambda>_ w. (None, w))) sample_idle = (r, w')" by fastforce
  from with_clear_is_exclusive[OF run] run show ?thesis by auto
qed

section \<open>What the public error says\<close>

text \<open>\<open>scrub\<close> forgets every free-text detail an error carries: messages of lifecycle errors,
  roles and kinds of topology errors, and the text of unknown errors.  Fixed operation names,
  codes, sentinels and exit statuses stay.\<close>

fun scrub :: "go_err \<Rightarrow> go_err" where
  "scrub (Lifecycle l) = Lifecycle (lifecycle_error (e_code l))"
| "scrub (RuntimeErr op c) = RuntimeErr op (scrub c)"
| "scrub (Topology k r q) = Topology SourceAlias '''' ''''"
| "scrub (Joined es) = Joined (map scrub es)"
| "scrub (OtherErr s) = OtherErr ''''"
| "scrub e = e"

lemma err_is_scrub [simp]:
  "err_is (Sentinel s) (scrub e) = err_is (Sentinel s) e"
  "err_is DeadlineExceeded (scrub e) = err_is DeadlineExceeded e"
  by (induction e) (auto simp: list_ex_iff)

lemma first_err_map_option:
  "(\<And>x. x \<in> set xs \<Longrightarrow> f' x = map_option h (f x)) \<Longrightarrow>
   first_err (map f' xs) = map_option h (first_err (map f xs))"
proof (induction xs)
  case (Cons x xs)
  then show ?case by (cases "f x") auto
qed simp

lemma first_err_cong: "(\<And>x. x \<in> set xs \<Longrightarrow> f' x = f x) \<Longrightarrow> first_err (map f' xs) = first_err (map f xs)"
  by (metis map_cong)

lemma as_scrub:
  "as_lifecycle (scrub e) = map_option (\<lambda>l. lifecycle_error (e_code l)) (as_lifecycle e)"
  "as_rolled_back (scrub e) = as_rolled_back e"
  "as_runtime (scrub e) = map_option (\<lambda>(op, c). (op, scrub c)) (as_runtime e)"
  "as_exit_status (scrub e) = as_exit_status e"
  "has_topology (scrub e) = has_topology e"
  by (induction e)
    (auto simp: list_ex_iff comp_def intro!: first_err_map_option first_err_cong)

lemma cause_class_scrub [simp]: "cause_class (scrub c) = cause_class c"
  by (simp add: cause_class_def as_scrub)

text \<open>The public error leaks nothing.  \<^verbatim>\<open>SanitizedError\<close> cannot tell two failures apart that
  differ only in free text: paths, child output, environment data and messages never reach
  its result.\<close>

theorem sanitized_error_leaks_nothing:
  "SanitizedError (Some (scrub e)) = SanitizedError (Some e)"
  by (auto simp: SanitizedError_def as_scrub split: option.split)

section \<open>The binary a service runs\<close>

text \<open>The raw values an environment file gives \<^verbatim>\<open>GATEWAY_BIN\<close>: comments, blank and overlong
  lines do not count.\<close>

definition gateway_assignments :: "string list \<Rightarrow> string list" where
  "gateway_assignments lines =
     concat (map (\<lambda>raw.
       let line = trim_suffix raw [CHR 0x0D] in
       if length line > 4096 \<or> line = '''' \<or> prefix ''#'' line then []
       else case cut_at CHR ''='' line of
         Some (key, v) \<Rightarrow> if key = ''GATEWAY_BIN'' then [v] else []
       | None \<Rightarrow> []) lines)"

lemma gateway_assignments_Cons:
  "gateway_assignments (raw # rest) =
     (let line = trim_suffix raw [CHR 0x0D] in
      (if length line > 4096 \<or> line = '''' \<or> prefix ''#'' line then []
       else case cut_at CHR ''='' line of
         Some (key, v) \<Rightarrow> if key = ''GATEWAY_BIN'' then [v] else []
       | None \<Rightarrow> [])) @ gateway_assignments rest"
  by (simp add: gateway_assignments_def Let_def)

lemma parse_gateway_bin_clean:
  "parse_gateway_bin raw home = Some v \<Longrightarrow> v \<noteq> '''' \<and> is_abs v \<and> path_clean v = v"
  by (auto simp: parse_gateway_bin_def Let_def split: if_splits option.splits)

lemma gateway_binding_spec:
  "gateway_binding home cur lines = Some v \<Longrightarrow>
     (cur \<noteq> '''' \<longrightarrow> gateway_assignments lines = [] \<and> v = cur) \<and>
     (cur = '''' \<longrightarrow> v = '''' \<and> gateway_assignments lines = [] \<or>
        (\<exists>r. gateway_assignments lines = [r] \<and> parse_gateway_bin r home = Some v))"
proof (induction lines arbitrary: cur)
  case Nil
  then show ?case by (simp add: gateway_assignments_def)
next
  case (Cons raw rest)
  let ?line = "trim_suffix raw [CHR 0x0D]"
  show ?case
  proof (cases "length ?line > 4096 \<or> ?line = '''' \<or> prefix ''#'' ?line")
    case True
    with Cons show ?thesis by (auto simp: gateway_assignments_Cons Let_def)
  next
    case False
    with Cons.prems obtain key r where cut: "cut_at CHR ''='' ?line = Some (key, r)" "key \<noteq> ''''"
      by (auto simp: Let_def split: option.splits if_splits)
    show ?thesis
    proof (cases "key = ''GATEWAY_BIN''")
      case False
      with \<open>\<not> (length ?line > 4096 \<or> ?line = '''' \<or> prefix ''#'' ?line)\<close> Cons cut show ?thesis
        by (auto simp: gateway_assignments_Cons Let_def)
    next
      case True
      with False Cons.prems cut obtain x where val: "cur = ''''"
        and p: "parse_gateway_bin r home = Some x" and rest: "gateway_binding home x rest = Some v"
        by (auto simp: Let_def split: option.splits if_splits)
      from parse_gateway_bin_clean[OF p] Cons.IH[OF rest]
      have "gateway_assignments rest = []" "v = x" by auto
      with val p True False cut show ?thesis by (simp add: gateway_assignments_Cons Let_def)
    qed
  qed
qed

text \<open>A service is only captured if it runs the binary being replaced: the binding check
  succeeds exactly when its environment file assigns \<^verbatim>\<open>GATEWAY_BIN\<close> once, in a form the shell
  loader accepts, to the clean absolute path of the release's target.\<close>

theorem service_binding_sound:
  assumes "validate_service_gateway_binding env dp envp plistp targ w = None"
  shows "\<exists>md data home r.
    node_at env envp w = Some (File md data) \<and> length data \<le> 65536 \<and>
    home = trim_suffix (path_dir (path_dir plistp)) ''/Library'' \<and> is_abs home \<and>
    gateway_assignments (split_on (CHR 0x0A) data) = [r] \<and>
    parse_gateway_bin r home = Some (path_clean targ) \<and> is_abs targ"
proof -
  let ?home = "trim_suffix (path_dir (path_dir plistp)) ''/Library''"
  from assms obtain md data v where n: "node_at env envp w = Some (File md data)" "length data \<le> 65536"
    and h: "is_abs ?home" and b: "gateway_binding ?home '''' (split_on (CHR 0x0A) data) = Some v"
    and v: "v \<noteq> ''''" "v = path_clean targ"
    by (auto simp: validate_service_gateway_binding_def Let_def
        split: option.splits node.splits if_splits)
  from gateway_binding_spec[OF b] v obtain r where
    r: "gateway_assignments (split_on (CHR 0x0A) data) = [r]" "parse_gateway_bin r ?home = Some v" by auto
  with parse_gateway_bin_clean[OF r(2)] v have "is_abs targ" by simp
  with n h r v show ?thesis by blast
qed

definition binding_world :: "unit world" where
  "binding_world = sample_world\<lparr>w_host := (w_host sample_world)\<lparr>h_files :=
     (\<lambda>p. if p = ''/e'' then Some (File mode_0600 ''GATEWAY_BIN=$HOME/g'') else None)\<rparr>\<rparr>"

theorem service_binding_sound_witness:
  "parse_gateway_bin ''$HOME/g'' ''/u'' = Some (path_clean ''/u/g'')"
proof -
  have n: "node_at sample_env ''/e'' binding_world = Some (File mode_0600 ''GATEWAY_BIN=$HOME/g'')"
  proof -
    have "store_artifact sample_env ''/e'' = None"
      by (simp add: store_artifact_def) code_simp
    then show ?thesis by (simp add: node_at_def binding_world_def)
  qed
  have home: "trim_suffix (path_dir (path_dir ''/u/Library/x.plist'')) ''/Library'' = ''/u''"
    by code_simp
  have p: "parse_gateway_bin ''$HOME/g'' ''/u'' = Some (path_clean ''/u/g'')" by code_simp
  have "gateway_binding ''/u'' '''' (split_on (CHR 0x0A) ''GATEWAY_BIN=$HOME/g'') = Some (path_clean ''/u/g'')"
    using p by (simp add: trim_suffix_def suffix_def Let_def)
  then have "validate_service_gateway_binding sample_env sample_deps ''/e'' ''/u/Library/x.plist'' ''/u/g''
      binding_world = None"
    using n home by (simp add: validate_service_gateway_binding_def sample_deps_def Let_def)
  from service_binding_sound[OF this] n home show ?thesis
    by (auto simp: gateway_assignments_def trim_suffix_def suffix_def Let_def)
qed

end
