(* ===== verification/VaultPath.thy ===== *)
theory VaultPath
  imports GoPath
begin

text \<open>
  Vault paths: the lexical normalisation of a request (\<^verbatim>\<open>internal/fsx/fsx.go\<close>), the walk of the
  file system that resolves it segment by segment without following a link
  (\<^verbatim>\<open>internal/fsx/path_unix.go\<close>), and the projection of canonical paths into the
  coordinates of a request's base (\<^verbatim>\<open>internal/tools/obsidian/path_coordinate.go\<close>).
\<close>

section \<open>Codes and limits\<close>

text \<open>The \<^verbatim>\<open>Code\<close> constants; an \<^verbatim>\<open>fsx.Error\<close> is its code.\<close>

datatype fs_code = PathDenied | SymlinkDenied | NotFound | NotDirectory | NotFile | LimitExceeded
  | FsCanceled | InputTooLarge | SourceChanged | FsTimeout
  | DestinationExists | NotEmpty | FsUnsupported | FsUncertain

datatype fs_kind = KindFile | KindDir | KindSymlink | KindOther

definition path_max_bytes :: nat where "path_max_bytes = 4096"
definition path_max_segments :: nat where "path_max_segments = 128"

section \<open>Normalisation\<close>

definition slash_clean :: "string \<Rightarrow> string" where
  "slash_clean s =
     (let t = trim_space (map (\<lambda>c. if c = CHR 0x5C then CHR ''/'' else c) s) in
      if t = '''' then '''' else path_clean t)"

text \<open>On Unix \<^verbatim>\<open>filepath.IsAbs\<close> is the leading slash and \<^verbatim>\<open>VolumeName\<close> is empty.\<close>

definition is_abs_tool_path :: "string \<Rightarrow> bool" where
  "is_abs_tool_path s \<longleftrightarrow>
     s \<noteq> '''' \<and> (has_prefix s ''/'' \<or> has_prefix s [CHR 0x5C] \<or> is_abs s)"

definition denied_segment :: "string \<Rightarrow> bool" where
  "denied_segment seg \<longleftrightarrow> has_prefix seg ''.''"

text \<open>The base and the input, each cleaned, put together.\<close>

definition combine_rel :: "string \<Rightarrow> string \<Rightarrow> string" where
  "combine_rel base input =
     (let b0 = slash_clean base; i = slash_clean input; b = (if b0 = '''' then ''.'' else b0) in
      if b \<noteq> ''.'' \<and> i \<noteq> ''.'' then path_join [b, i]
      else if i = ''.'' then b else i)"

definition check_rel :: "string \<Rightarrow> fs_code + string" where
  "check_rel clean =
     (if clean = ''/'' \<or> clean = ''.'' then Inr ''.''
      else if length clean > path_max_bytes then Inl InputTooLarge
      else if has_prefix clean ''../'' \<or> clean = ''..'' then Inl PathDenied
      else let segments = split_on CHR ''/'' clean in
        if length segments > path_max_segments then Inl InputTooLarge
        else if list_ex (\<lambda>seg. \<not> (seg = '''' \<or> seg = ''.'') \<and> denied_segment seg) segments
        then Inl PathDenied
        else Inr clean)"

definition normalize_rel :: "string \<Rightarrow> string \<Rightarrow> fs_code + string" where
  "normalize_rel base input =
     (if trim_space input = '''' then Inl PathDenied
      else if length base > path_max_bytes \<or> length input > path_max_bytes then Inl InputTooLarge
      else if is_abs_tool_path base \<or> is_abs_tool_path input then Inl PathDenied
      else check_rel (path_clean (combine_rel base input)))"

definition rel_segments :: "string \<Rightarrow> string list" where
  "rel_segments rel = (if rel = ''.'' \<or> rel = '''' then [] else split_on CHR ''/'' rel)"

definition join_rel :: "string \<Rightarrow> string \<Rightarrow> string" where
  "join_rel parent name =
     (if parent = ''.'' \<or> parent = '''' then name else parent @ ''/'' @ name)"

text \<open>Unicode normalisation is a parameter.\<close>

definition nfc_rel :: "(string \<Rightarrow> string) \<Rightarrow> string list \<Rightarrow> string" where
  "nfc_rel nfc parts = (if parts = [] then ''.'' else join_with CHR ''/'' (map nfc parts))"

section \<open>Coordinates of a base\<close>

record path_coordinate =
  pc_base :: string
  pc_segments :: "string list"

definition normalized_path_coordinate :: "string \<Rightarrow> path_coordinate" where
  "normalized_path_coordinate normalized =
     \<lparr>pc_base = normalized,
      pc_segments = (if normalized \<noteq> ''.'' then split_on CHR ''/'' normalized else [])\<rparr>"

definition new_path_coordinate :: "string \<Rightarrow> fs_code + path_coordinate" where
  "new_path_coordinate base =
     (case normalize_rel '''' (if trim_space base = '''' then ''.'' else base) of
        Inl e \<Rightarrow> Inl e
      | Inr n \<Rightarrow> Inr (normalized_path_coordinate n))"

definition project :: "path_coordinate \<Rightarrow> string \<Rightarrow> string" where
  "project c canonical =
     (if pc_base c = ''.'' then canonical
      else if canonical = pc_base c then ''.''
      else if has_prefix canonical (pc_base c @ ''/'') then drop (length (pc_base c @ ''/'')) canonical
      else
        let targ = (if canonical \<noteq> ''.'' then split_on CHR ''/'' canonical else []);
            (bs, ts) = strip_common (pc_segments c) targ;
            parts = map (\<lambda>_. ''..'') bs @ ts in
        if parts = [] then ''.'' else join_with CHR ''/'' parts)"

definition project_child :: "string \<Rightarrow> string \<Rightarrow> string" where
  "project_child parent name = (if parent = ''.'' then name else parent @ ''/'' @ name)"

section \<open>The file system a walk sees\<close>

text \<open>
  A directory descriptor is the list of stored names that led to it.  Each observation of a
  walk is made once, so arbitrary functions of the place stand for a file system that
  others change between any two system calls, and for every fault.  \<open>vf_readdir\<close> gives the
  successive batches of \<^verbatim>\<open>ReadDir(64)\<close>; \<open>vf_restat\<close> is the second look after a failed open.
  \<open>vf_ctx n\<close> is the context's verdict at its \<open>n\<close>-th poll.
\<close>

datatype errno = ELOOP | ENOENT | ENOTDIR | EISDIR | ENXIO | ENODEV | EEXIST | ENOTSUP | ENOTEMPTY | EOther

record file_stat =
  fst_kind :: fs_kind
  fst_size :: int
  fst_modified :: int

record vault_fs =
  vf_root :: "errno + file_stat"
  vf_readdir :: "string list \<Rightarrow> (errno + string list) list"
  vf_stat :: "string list \<Rightarrow> errno + file_stat"
  vf_open :: "string list \<Rightarrow> errno + file_stat"
  vf_fstat :: "string list \<Rightarrow> errno + file_stat"
  vf_restat :: "string list \<Rightarrow> errno + file_stat"
  vf_ctx :: "nat \<Rightarrow> fs_code option"
  vf_nfc :: "string \<Rightarrow> string"
  vf_fold :: "string \<Rightarrow> string \<Rightarrow> bool"

record resolved =
  rv_rel :: string
  rv_exists :: bool
  rv_stat :: "file_stat option"

definition resolved_from_stat :: "string list \<Rightarrow> file_stat \<Rightarrow> resolved" where
  "resolved_from_stat canonical st =
     \<lparr>rv_rel = (if canonical = [] then ''.'' else join_with CHR ''/'' canonical), rv_exists = True,
      rv_stat = Some st\<rparr>"

fun map_open_dir_error :: "errno \<Rightarrow> fs_code" where
  "map_open_dir_error ELOOP = SymlinkDenied"
| "map_open_dir_error ENOENT = NotFound"
| "map_open_dir_error ENOTDIR = NotDirectory"
| "map_open_dir_error _ = NotDirectory"

fun map_path_error :: "errno \<Rightarrow> fs_code" where
  "map_path_error ELOOP = SymlinkDenied"
| "map_path_error ENOENT = NotFound"
| "map_path_error ENOTDIR = NotDirectory"
| "map_path_error _ = PathDenied"

section \<open>Matching one segment\<close>

record segment_matcher =
  sm_caller :: string
  sm_caller_nfc :: string
  sm_nfc_candidate :: string
  sm_nfc_count :: nat
  sm_fold_candidate :: string
  sm_fold_count :: nat

definition new_matcher :: "vault_fs \<Rightarrow> string \<Rightarrow> segment_matcher" where
  "new_matcher fs caller =
     \<lparr>sm_caller = caller, sm_caller_nfc = vf_nfc fs caller, sm_nfc_candidate = '''', sm_nfc_count = 0,
      sm_fold_candidate = '''', sm_fold_count = 0\<rparr>"

definition observe_name ::
  "vault_fs \<Rightarrow> string \<Rightarrow> segment_matcher \<Rightarrow> string option \<times> segment_matcher" where
  "observe_name fs stored m =
     (if stored = sm_caller m then (Some stored, m)
      else
        let snfc = vf_nfc fs stored;
            m1 = (if snfc = sm_caller_nfc m
                  then m\<lparr>sm_nfc_candidate := stored, sm_nfc_count := sm_nfc_count m + 1\<rparr> else m);
            m2 = (if vf_fold fs snfc (sm_caller_nfc m)
                  then m1\<lparr>sm_fold_candidate := stored, sm_fold_count := sm_fold_count m1 + 1\<rparr> else m1)
        in (None, m2))"

definition matcher_result :: "segment_matcher \<Rightarrow> string option" where
  "matcher_result m =
     (if sm_nfc_count m = 1 then Some (sm_nfc_candidate m)
      else if sm_nfc_count m = 0 \<and> sm_fold_count m = 1 then Some (sm_fold_candidate m)
      else None)"

text \<open>\<open>n\<close> counts the polls of the context; one before each batch and one before each entry.\<close>

fun match_entries ::
  "vault_fs \<Rightarrow> segment_matcher \<Rightarrow> nat \<Rightarrow> string list \<Rightarrow>
     fs_code + (string option \<times> segment_matcher \<times> nat)" where
  "match_entries fs m n [] = Inr (None, m, n)"
| "match_entries fs m n (stored # rest) =
     (case vf_ctx fs n of
        Some e \<Rightarrow> Inl e
      | None \<Rightarrow>
          if denied_segment stored then match_entries fs m (n + 1) rest
          else (case observe_name fs stored m of
             (Some exact, m1) \<Rightarrow> Inr (Some exact, m1, n + 1)
           | (None, m1) \<Rightarrow> match_entries fs m1 (n + 1) rest))"

fun match_batches ::
  "vault_fs \<Rightarrow> segment_matcher \<Rightarrow> nat \<Rightarrow> (errno + string list) list \<Rightarrow>
     fs_code + (string option \<times> nat)" where
  "match_batches fs m n [] =
     (case vf_ctx fs n of Some e \<Rightarrow> Inl e | None \<Rightarrow> Inr (matcher_result m, n + 1))"
| "match_batches fs m n (batch # rest) =
     (case vf_ctx fs n of
        Some e \<Rightarrow> Inl e
      | None \<Rightarrow>
          (case batch of
             Inl e \<Rightarrow> Inl NotDirectory
           | Inr entries \<Rightarrow>
               (case match_entries fs m (n + 1) entries of
                  Inl e \<Rightarrow> Inl e
                | Inr (Some exact, m1, n1) \<Rightarrow> Inr (Some exact, n1)
                | Inr (None, m1, n1) \<Rightarrow>
                    if entries = [] then Inr (matcher_result m1, n1)
                    else match_batches fs m1 n1 rest)))"

definition match_stored_segment ::
  "vault_fs \<Rightarrow> string list \<Rightarrow> string \<Rightarrow> nat \<Rightarrow> fs_code + (string option \<times> nat)" where
  "match_stored_segment fs dir caller n =
     match_batches fs (new_matcher fs caller) n (vf_readdir fs dir)"

section \<open>Resolving\<close>

definition open_root :: "vault_fs \<Rightarrow> nat \<Rightarrow> fs_code + file_stat" where
  "open_root fs n =
     (case vf_ctx fs n of
        Some e \<Rightarrow> Inl e
      | None \<Rightarrow>
          (case vf_root fs of
             Inl e \<Rightarrow> Inl (map_open_dir_error e)
           | Inr _ \<Rightarrow>
               (case vf_fstat fs [] of Inl e \<Rightarrow> Inl (map_path_error e) | Inr st \<Rightarrow> Inr st)))"

definition missing_at :: "vault_fs \<Rightarrow> string list \<Rightarrow> string list \<Rightarrow> resolved" where
  "missing_at fs canonical rest =
     \<lparr>rv_rel = nfc_rel (vf_nfc fs) (canonical @ rest), rv_exists = False, rv_stat = None\<rparr>"

text \<open>The walk over the remaining segments below the open directory \<open>canonical\<close>.  The second
  component of a success is the directory it leaves open.\<close>

fun walk_segments ::
  "vault_fs \<Rightarrow> bool \<Rightarrow> string list \<Rightarrow> string list \<Rightarrow> nat \<Rightarrow>
     fs_code + (resolved \<times> string list option)" where
  "walk_segments fs open_final canonical [] n = Inl NotFound"
| "walk_segments fs open_final canonical (seg # rest) n =
     (case vf_ctx fs n of
        Some e \<Rightarrow> Inl e
      | None \<Rightarrow>
          (case match_stored_segment fs canonical seg (n + 1) of
             Inl e \<Rightarrow> Inl e
           | Inr (None, n1) \<Rightarrow> Inr (missing_at fs canonical (seg # rest), None)
           | Inr (Some stored, n1) \<Rightarrow>
               (let here = canonical @ [stored] in
                case vf_stat fs here of
                  Inl ENOENT \<Rightarrow> Inr (missing_at fs canonical (seg # rest), None)
                | Inl e \<Rightarrow> Inl (map_path_error e)
                | Inr st \<Rightarrow>
                    if rest = [] \<and> \<not> open_final then Inr (resolved_from_stat here st, None)
                    else if fst_kind st = KindSymlink then Inl SymlinkDenied
                    else if fst_kind st \<noteq> KindDir then Inl NotDirectory
                    else (case vf_open fs here of
                       Inl e \<Rightarrow>
                         (case vf_restat fs here of
                            Inr st2 \<Rightarrow>
                              if fst_kind st2 = KindSymlink then Inl SymlinkDenied
                              else Inl (map_open_dir_error e)
                          | Inl _ \<Rightarrow> Inl (map_open_dir_error e))
                     | Inr _ \<Rightarrow>
                         (case vf_fstat fs here of
                            Inl e \<Rightarrow> Inl (map_path_error e)
                          | Inr st1 \<Rightarrow>
                              if rest = [] then Inr (resolved_from_stat here st1, Some here)
                              else walk_segments fs open_final here rest n1)))))"

definition resolve_rel ::
  "vault_fs \<Rightarrow> string \<Rightarrow> string \<Rightarrow> bool \<Rightarrow> fs_code + (resolved \<times> string list option)" where
  "resolve_rel fs base input open_final =
     (case vf_ctx fs 0 of
        Some e \<Rightarrow> Inl e
      | None \<Rightarrow>
          (case normalize_rel base input of
             Inl e \<Rightarrow> Inl e
           | Inr requested \<Rightarrow>
               (case open_root fs 1 of
                  Inl e \<Rightarrow> Inl e
                | Inr st \<Rightarrow>
                    (let segments = rel_segments requested in
                     if segments = []
                     then Inr (resolved_from_stat [] st, if open_final then Some [] else None)
                     else walk_segments fs open_final [] segments 2))))"

definition vault_resolve :: "vault_fs \<Rightarrow> string \<Rightarrow> string \<Rightarrow> fs_code + resolved" where
  "vault_resolve fs base input = map_sum id fst (resolve_rel fs base input False)"

definition open_dir :: "vault_fs \<Rightarrow> string \<Rightarrow> string \<Rightarrow> fs_code + (resolved \<times> string list option)" where
  "open_dir fs base input =
     (case resolve_rel fs base input True of
        Inl e \<Rightarrow> Inl e
      | Inr (r, d) \<Rightarrow> if \<not> rv_exists r then Inl NotFound else Inr (r, d))"

section \<open>Matching agrees with its specification\<close>

definition visible_names :: "(errno + string list) list \<Rightarrow> string list" where
  "visible_names bs =
     filter (\<lambda>s. \<not> denied_segment s)
       (concat (map (\<lambda>b. case b of Inl e \<Rightarrow> [] | Inr es \<Rightarrow> es) bs))"

text \<open>The unique candidate of a list, if there is exactly one.\<close>

definition sole :: "'a list \<Rightarrow> 'a option" where
  "sole xs = (case xs of [x] \<Rightarrow> Some x | _ \<Rightarrow> None)"

definition choose_name :: "vault_fs \<Rightarrow> string \<Rightarrow> string list \<Rightarrow> string option" where
  "choose_name fs caller names =
     (let same = filter (\<lambda>s. vf_nfc fs s = vf_nfc fs caller) names;
          folded = filter (\<lambda>s. vf_fold fs (vf_nfc fs s) (vf_nfc fs caller)) names in
      if caller \<in> set names then Some caller
      else if same \<noteq> [] then sole same
      else sole folded)"

text \<open>What a matcher that has seen \<open>names\<close>, none of them the caller's, has recorded.\<close>

definition seen :: "vault_fs \<Rightarrow> string \<Rightarrow> string list \<Rightarrow> segment_matcher \<Rightarrow> bool" where
  "seen fs caller names m \<longleftrightarrow>
     (let same = filter (\<lambda>s. vf_nfc fs s = vf_nfc fs caller) names;
          folded = filter (\<lambda>s. vf_fold fs (vf_nfc fs s) (vf_nfc fs caller)) names in
      sm_caller m = caller \<and> sm_caller_nfc m = vf_nfc fs caller \<and> caller \<notin> set names \<and>
      sm_nfc_count m = length same \<and> (same \<noteq> [] \<longrightarrow> sm_nfc_candidate m = last same) \<and>
      sm_fold_count m = length folded \<and> (folded \<noteq> [] \<longrightarrow> sm_fold_candidate m = last folded))"

lemma seen_new: "seen fs caller [] (new_matcher fs caller)"
  by (simp add: seen_def new_matcher_def)

lemma seen_result: "seen fs caller names m \<Longrightarrow> matcher_result m = choose_name fs caller names"
  by (auto simp: seen_def matcher_result_def choose_name_def sole_def Let_def length_Suc_conv
      split: list.splits)

lemma seen_observe:
  assumes "seen fs caller names m" "stored \<noteq> caller"
  shows "\<exists>m1. observe_name fs stored m = (None, m1) \<and> seen fs caller (names @ [stored]) m1"
  using assms by (auto simp: observe_name_def seen_def Let_def)

lemma match_entries_spec:
  assumes "\<And>k. vf_ctx fs k = None" "seen fs caller names m"
  shows "\<exists>m1 n1. match_entries fs m n es =
      Inr (if caller \<in> set es \<and> \<not> denied_segment caller then Some caller else None, m1, n1) \<and>
    (\<not> (caller \<in> set es \<and> \<not> denied_segment caller) \<longrightarrow>
      seen fs caller (names @ filter (\<lambda>s. \<not> denied_segment s) es) m1)"
  using assms(2)
proof (induction es arbitrary: names m n)
  case (Cons s es)
  show ?case
  proof (cases "denied_segment s")
    case True
    with Cons.IH[OF Cons.prems, of "n + 1"] assms(1) show ?thesis by auto
  next
    case vis: False
    show ?thesis
    proof (cases "s = caller")
      case True
      with vis assms(1) Cons.prems show ?thesis by (simp add: observe_name_def seen_def Let_def)
    next
      case False
      from seen_observe[OF Cons.prems this] obtain m1 where
        m1: "observe_name fs s m = (None, m1)" "seen fs caller (names @ [s]) m1" by blast
      from Cons.IH[OF m1(2), of "n + 1"] m1(1) vis False assms(1) show ?thesis by auto
    qed
  qed
qed simp

lemma match_batches_spec:
  assumes "\<And>k. vf_ctx fs k = None" "list_all (\<lambda>b. \<exists>es. b = Inr es \<and> es \<noteq> []) bs"
    and "seen fs caller names m"
  shows "\<exists>n1. match_batches fs m n bs = Inr (choose_name fs caller (names @ visible_names bs), n1)"
  using assms(2,3)
proof (induction bs arbitrary: names m n)
  case Nil
  then show ?case by (simp add: assms(1) seen_result visible_names_def)
next
  case (Cons b bs)
  from Cons.prems obtain es where b: "b = Inr es" "es \<noteq> []" by auto
  from match_entries_spec[OF assms(1) Cons.prems(2), of "n + 1" es] obtain m1 n1 where
    e: "match_entries fs m (n + 1) es =
      Inr (if caller \<in> set es \<and> \<not> denied_segment caller then Some caller else None, m1, n1)"
    and s: "\<not> (caller \<in> set es \<and> \<not> denied_segment caller) \<Longrightarrow>
      seen fs caller (names @ filter (\<lambda>s. \<not> denied_segment s) es) m1" by blast
  show ?case
  proof (cases "caller \<in> set es \<and> \<not> denied_segment caller")
    case True
    with e b show ?thesis by (simp add: assms(1) choose_name_def visible_names_def Let_def)
  next
    case False
    from Cons.IH[OF _ s[OF False], of n1] Cons.prems e b False show ?thesis
      by (auto simp: assms(1) visible_names_def)
  qed
qed

text \<open>A request segment names at most one entry, whatever order and batches the directory is
  read in: the visible entry spelled exactly so, else the only visible one with the same
  normal form, else, if there is none of those, the only one that agrees up to case; hidden
  names are never candidates.\<close>

theorem stored_segment_unique:
  assumes "\<And>k. vf_ctx fs k = None"
    and "list_all (\<lambda>b. \<exists>es. b = Inr es \<and> es \<noteq> []) (vf_readdir fs dir)"
  shows "\<exists>n1. match_stored_segment fs dir caller n =
    Inr (choose_name fs caller (visible_names (vf_readdir fs dir)), n1)"
  using match_batches_spec[OF assms seen_new] by (simp add: match_stored_segment_def)

section \<open>Resolution is confined\<close>

definition listed :: "vault_fs \<Rightarrow> string list \<Rightarrow> string \<Rightarrow> bool" where
  "listed fs dir name \<longleftrightarrow> name \<in> set (visible_names (vf_readdir fs dir))"

text \<open>The walk down \<open>names\<close> from \<open>dir\<close>: each was listed in its directory, was seen there as a
  directory and not a link, and was opened as one.\<close>

fun entered :: "vault_fs \<Rightarrow> string list \<Rightarrow> string list \<Rightarrow> bool" where
  "entered fs dir [] \<longleftrightarrow> True"
| "entered fs dir (x # xs) \<longleftrightarrow>
     listed fs dir x \<and> (\<exists>st. vf_stat fs (dir @ [x]) = Inr st \<and> fst_kind st = KindDir) \<and>
     (\<exists>st. vf_open fs (dir @ [x]) = Inr st) \<and> entered fs (dir @ [x]) xs"

definition candidates_listed :: "segment_matcher \<Rightarrow> string set \<Rightarrow> bool" where
  "candidates_listed m ns \<longleftrightarrow> (sm_nfc_count m \<noteq> 0 \<longrightarrow> sm_nfc_candidate m \<in> ns) \<and>
     (sm_fold_count m \<noteq> 0 \<longrightarrow> sm_fold_candidate m \<in> ns)"

lemma match_entries_listed:
  "match_entries fs m n es = Inr (r, m1, n1) \<Longrightarrow>
     candidates_listed m ns \<Longrightarrow> set (filter (\<lambda>s. \<not> denied_segment s) es) \<subseteq> ns \<Longrightarrow>
     (\<forall>x. r = Some x \<longrightarrow> x \<in> ns) \<and> candidates_listed m1 ns"
proof (induction fs m n es rule: match_entries.induct)
  case (2 fs m n stored rest)
  from 2(3) have c: "vf_ctx fs n = None" by (auto split: option.splits)
  show ?case
  proof (cases "denied_segment stored")
    case True
    with 2 c show ?thesis by auto
  next
    case vis: False
    obtain x m2 where o: "observe_name fs stored m = (x, m2)" by fastforce
    have s: "stored \<in> ns" "candidates_listed m2 ns" "\<forall>y. x = Some y \<longrightarrow> y \<in> ns"
      using o 2(4,5) vis by (auto simp: observe_name_def candidates_listed_def Let_def split: if_splits)
    show ?thesis
    proof (cases x)
      case None
      with 2(3) c vis o have "match_entries fs m2 (n + 1) rest = Inr (r, m1, n1)" by simp
      from 2(2)[OF c vis o[symmetric] None this s(2)] 2(5) vis show ?thesis by auto
    next
      case (Some y)
      with 2(3) c vis o s show ?thesis by auto
    qed
  qed
qed simp

lemma match_batches_listed:
  "match_batches fs m n bs = Inr (Some x, n1) \<Longrightarrow>
     candidates_listed m ns \<Longrightarrow> set (visible_names bs) \<subseteq> ns \<Longrightarrow> x \<in> ns"
proof (induction fs m n bs rule: match_batches.induct)
  case (1 fs m n)
  then show ?case
    by (auto simp: matcher_result_def candidates_listed_def split: option.splits if_splits)
next
  case (2 fs m n batch rest)
  from 2(2) have c: "vf_ctx fs n = None" by (auto split: option.splits)
  from 2(2) c obtain es where b: "batch = Inr es" by (cases batch) auto
  from 2(2) c b obtain r m1 n2 where e: "match_entries fs m (n + 1) es = Inr (r, m1, n2)"
    by (auto split: sum.splits)
  have sub: "set (filter (\<lambda>s. \<not> denied_segment s) es) \<subseteq> ns" "set (visible_names rest) \<subseteq> ns"
    using 2(4) b by (auto simp: visible_names_def)
  note l = match_entries_listed[OF e 2(3) sub(1)]
  show ?case
  proof (cases r)
    case (Some y)
    with 2(2) c b e l show ?thesis by auto
  next
    case None
    show ?thesis
    proof (cases "es = []")
      case True
      with 2(2) c b e None l show ?thesis
        by (auto simp: matcher_result_def candidates_listed_def split: if_splits)
    next
      case False
      with 2(2) c b e None have "match_batches fs m1 n2 rest = Inr (Some x, n1)" by simp
      from 2(1)[OF c b e] this l sub None False show ?thesis by auto
    qed
  qed
qed

lemma match_stored_listed:
  "match_stored_segment fs dir caller n = Inr (Some x, n1) \<Longrightarrow> listed fs dir x"
  unfolding match_stored_segment_def listed_def
  by (rule match_batches_listed) (auto simp: candidates_listed_def new_matcher_def)

lemma walk_confined:
  "walk_segments fs fin dir segs n = Inr (r, d) \<Longrightarrow> rv_exists r \<Longrightarrow>
     \<exists>names. length names = length segs \<and> names \<noteq> [] \<and>
       rv_rel r = join_with CHR ''/'' (dir @ names) \<and>
       entered fs dir (butlast names) \<and> listed fs (dir @ butlast names) (last names) \<and>
       (\<forall>p. d = Some p \<longrightarrow> p = dir @ names \<and> entered fs dir names)"
proof (induction fs fin dir segs n rule: walk_segments.induct)
  case (2 fs fin dir seg rest n)
  from 2(2,3) obtain stored n1 where m: "match_stored_segment fs dir seg (n + 1) = Inr (Some stored, n1)"
    by (auto simp: missing_at_def split: option.splits sum.splits)
  note l = match_stored_listed[OF m]
  let ?here = "dir @ [stored]"
  from 2(2,3) m obtain st where st: "vf_stat fs ?here = Inr st" and c: "vf_ctx fs n = None"
    by (auto simp: missing_at_def Let_def split: option.splits sum.splits errno.splits)
  show ?case
  proof (cases "rest = [] \<and> \<not> fin")
    case True
    with 2(2) m st c have "r = resolved_from_stat ?here st" "d = None" by auto
    with True l show ?thesis by (intro exI[of _ "[stored]"]) (simp add: resolved_from_stat_def)
  next
    case False
    with 2(2) m st c have dir: "fst_kind st = KindDir"
      by (auto simp: Let_def split: if_splits fs_kind.splits)
    with False 2(2) m st c obtain so where so: "vf_open fs ?here = Inr so"
      by (auto simp: Let_def split: sum.splits if_splits)
    with False dir 2(2) m st c obtain s1 where s1: "vf_fstat fs ?here = Inr s1"
      by (auto simp: Let_def split: sum.splits if_splits)
    show ?thesis
    proof (cases "rest = []")
      case True
      with False dir so s1 2(2) m st c have "r = resolved_from_stat ?here s1" "d = Some ?here"
        by (auto simp: Let_def)
      with True l st dir so show ?thesis
        by (intro exI[of _ "[stored]"]) (simp add: resolved_from_stat_def)
    next
      case more: False
      with False dir so s1 2(2) m st c have w: "walk_segments fs fin ?here rest n1 = Inr (r, d)"
        by (auto simp: Let_def)
      from 2(1)[OF c m refl refl refl st _ _ _ so s1 more w 2(3)] False dir obtain names where
        i: "length names = length rest" "names \<noteq> []" "rv_rel r = join_with CHR ''/'' (?here @ names)"
          "entered fs ?here (butlast names)" "listed fs (?here @ butlast names) (last names)"
          "\<forall>p. d = Some p \<longrightarrow> p = ?here @ names \<and> entered fs ?here names"
        by auto
      with l st dir so show ?thesis
        by (intro exI[of _ "stored # names"]) auto
    qed
  qed
qed simp

text \<open>C27. Resolution stays inside the vault.  Whatever the file system does between two calls, an
  existing result is a chain of visible names, as many as the request has segments, each
  listed in the directory before it; every directory on the way was seen as a directory and
  opened without following a link, and an open result is the directory of exactly that chain.\<close>

theorem resolve_confined:
  assumes "resolve_rel fs base input fin = Inr (r, d)" "rv_exists r"
  shows "\<exists>requested names. normalize_rel base input = Inr requested \<and>
    length names = length (rel_segments requested) \<and>
    rv_rel r = (if names = [] then ''.'' else join_with CHR ''/'' names) \<and>
    entered fs [] (butlast names) \<and> (names = [] \<or> listed fs (butlast names) (last names)) \<and>
    (\<forall>p. d = Some p \<longrightarrow> p = names \<and> entered fs [] names)"
proof -
  from assms(1) obtain requested st where q: "normalize_rel base input = Inr requested"
    and w: "if rel_segments requested = []
      then Inr (resolved_from_stat [] st, if fin then Some [] else None) = (Inr (r, d) :: fs_code + _)
      else walk_segments fs fin [] (rel_segments requested) 2 = Inr (r, d)"
    by (auto simp: resolve_rel_def Let_def split: option.splits sum.splits if_splits)
  show ?thesis
  proof (cases "rel_segments requested = []")
    case True
    with q w show ?thesis by (intro exI[of _ requested] exI[of _ "[]"]) (auto simp: resolved_from_stat_def split: if_splits)
  next
    case False
    with w have "walk_segments fs fin [] (rel_segments requested) 2 = Inr (r, d)" by simp
    from walk_confined[OF this assms(2)] obtain names where
      "length names = length (rel_segments requested)" "names \<noteq> []" "rv_rel r = join_with CHR ''/'' names"
      "entered fs [] (butlast names)" "listed fs (butlast names) (last names)"
      "\<forall>p. d = Some p \<longrightarrow> p = names \<and> entered fs [] names" by auto
    with q show ?thesis by (intro exI[of _ requested] exI[of _ names]) (auto simp only: simp_thms if_False)
  qed
qed

section \<open>Normal form of a request\<close>

definition plain_rel :: "string \<Rightarrow> bool" where
  "plain_rel r \<longleftrightarrow> r = ''.'' \<or>
     list_all (\<lambda>s. real_seg s \<and> \<not> denied_segment s) (split_on CHR ''/'' r) \<and>
     length (split_on CHR ''/'' r) \<le> path_max_segments \<and> length r \<le> path_max_bytes \<and> CHR 0x5C \<notin> set r"

lemma denied_dotdot [simp]: "denied_segment ''..''"
  by (simp add: denied_segment_def)

lemma set_join_with: "set (join_with c xs) \<subseteq> insert c (\<Union>x\<in>set xs. set x)"
  by (induction c xs rule: join_with.induct) auto

lemma set_split_on: "p \<in> set (split_on c s) \<Longrightarrow> set p \<subseteq> set s"
proof (induction s arbitrary: p)
  case (Cons x s)
  obtain q qs where q: "split_on c s = q # qs" using split_on_not_Nil[of c s] by (meson neq_Nil_conv)
  have "set q \<subseteq> set s" "\<And>p. p \<in> set qs \<Longrightarrow> set p \<subseteq> set s" using Cons.IH q by auto
  with Cons.prems q show ?case by (cases "x = c") auto
qed simp

lemma set_clean_segs:
  "s \<in> set (clean_segs r st ss) \<Longrightarrow> s \<in> set st \<or> s \<in> set ss \<or> s = ''..''"
  by (induction r st ss rule: clean_segs.induct) (auto split: if_splits list.splits)

lemma set_path_clean: "c \<in> set (path_clean p) \<Longrightarrow> c \<in> set p \<or> c = CHR ''/'' \<or> c = CHR ''.''"
proof -
  have seg: "x \<in> set p \<or> x = CHR ''.''" if "x \<in> set s" "s \<in> set (path_segs p)" for x s
    using set_clean_segs[of s "is_abs p" "[]" "split_on CHR ''/'' p"] that set_split_on[of s "CHR ''/''" p]
    by (auto simp: path_segs_def)
  assume "c \<in> set (path_clean p)"
  then show ?thesis
    using set_join_with[of "CHR ''/''" "path_segs p"] seg
    by (fastforce simp: path_clean_def Let_def split: if_splits)
qed

lemma split_clean:
  assumes "path_clean r = r" "\<not> is_abs r" "r \<noteq> ''.''"
  shows "split_on CHR ''/'' r = path_segs r"
proof -
  have "path_segs r \<noteq> []" using assms by (auto simp: path_clean_def Let_def)
  moreover have "\<forall>s\<in>set (path_segs r). CHR ''/'' \<notin> set s"
    using clean_list_real[OF path_segs_clean] by (auto simp: real_seg_def)
  moreover have "r = join_with CHR ''/'' (path_segs r)"
    using assms calculation(1) by (simp add: path_clean_def Let_def)
  ultimately show ?thesis using split_join by metis
qed

lemma slash_clean_no_backslash: "CHR 0x5C \<notin> set (slash_clean s)"
proof -
  have l: "set (trim_left x) \<subseteq> set x" for x
    by (induction x rule: trim_left.induct) (subst trim_left.simps, auto dest: in_set_dropD)
  have r: "set (trim_right x) \<subseteq> set x" for x
    by (induction x rule: trim_right.induct) (subst trim_right.simps, auto dest: in_set_takeD)
  let ?m = "map (\<lambda>c. if c = CHR 0x5C then CHR ''/'' else c) s"
  have "set (trim_space ?m) \<subseteq> set ?m" using l[of ?m] r[of "trim_left ?m"] by (auto simp: trim_space_def)
  then have "CHR 0x5C \<notin> set (trim_space ?m)" by auto
  then show ?thesis using set_path_clean[of "CHR 0x5C" "trim_space ?m"]
    by (auto simp: slash_clean_def Let_def)
qed

lemma clean_list_hidden_free:
  assumes "clean_list False ss" "\<not> (ss \<noteq> [] \<and> hd ss = ''..'')"
  shows "''..'' \<notin> set ss"
  using assms by (cases ss) (auto simp: list_all_iff split: if_splits)

text \<open>What a request is normalised to.  The result is the vault root or a clean path without
  parent steps, hidden segments or backslashes, within the byte and segment limits; it is
  relative whenever the two texts, trimmed, are.\<close>

theorem normalize_rel_plain:
  assumes "normalize_rel base input = Inr r"
    and "\<not> is_abs (slash_clean base)" "\<not> is_abs (slash_clean input)"
  shows "plain_rel r \<and> path_clean r = r \<and> \<not> is_abs r"
proof -
  let ?c = "combine_rel base input"
  have abs: "\<not> is_abs ?c"
  proof -
    have "\<not> is_abs (path_join [x, y])" if "\<not> is_abs x" "\<not> is_abs y" for x y
      using that by (cases x; cases y) (auto simp: path_join_def Let_def)
    with assms(2,3) show ?thesis by (auto simp: combine_rel_def Let_def)
  qed
  have bs: "CHR 0x5C \<notin> set ?c"
  proof -
    have "CHR 0x5C \<notin> set (path_join [x, y])" if "CHR 0x5C \<notin> set x" "CHR 0x5C \<notin> set y" for x y
      using that by (auto simp: path_join_def Let_def dest: set_path_clean)
    then show ?thesis using slash_clean_no_backslash[of base] slash_clean_no_backslash[of input]
      by (auto simp: combine_rel_def Let_def)
  qed
  show ?thesis
  proof (cases "r = ''.''")
    case True
    then show ?thesis by (simp add: plain_rel_def) code_simp
  next
    case False
    with assms(1) have r: "r = path_clean ?c" "length r \<le> path_max_bytes" "r \<noteq> ''..''"
        "length (split_on CHR ''/'' r) \<le> path_max_segments"
        "\<forall>s\<in>set (split_on CHR ''/'' r). s = '''' \<or> s = ''.'' \<or> \<not> denied_segment s"
      by (auto simp: normalize_rel_def check_rel_def Let_def list_ex_iff split: if_splits)
    have ra: "\<not> is_abs r" using r(1) abs by simp
    have pc: "path_clean r = r" using r(1) by simp
    have sp: "split_on CHR ''/'' r = path_segs r" by (rule split_clean[OF pc ra False])
    have real: "\<forall>s\<in>set (path_segs r). real_seg s" using clean_list_real[OF path_segs_clean] by blast
    have "list_all (\<lambda>s. real_seg s \<and> \<not> denied_segment s) (split_on CHR ''/'' r)"
      using r(5) real sp by (auto simp: list_all_iff real_seg_def)
    moreover have "CHR 0x5C \<notin> set r" using r(1) bs by (auto dest: set_path_clean)
    ultimately show ?thesis using r ra pc by (simp add: plain_rel_def)
  qed
qed

lemma plain_relD:
  assumes "plain_rel r" "r \<noteq> ''.''"
  shows "list_all (\<lambda>s. real_seg s \<and> s \<noteq> ''..'' \<and> \<not> denied_segment s) (split_on CHR ''/'' r)"
    and "path_segs r = split_on CHR ''/'' r" "path_clean r = r" "\<not> is_abs r" "r \<noteq> ''''"
proof -
  let ?ss = "split_on CHR ''/'' r"
  from assms have a: "list_all (\<lambda>s. real_seg s \<and> \<not> denied_segment s) ?ss" by (auto simp: plain_rel_def)
  then show l: "list_all (\<lambda>s. real_seg s \<and> s \<noteq> ''..'' \<and> \<not> denied_segment s) ?ss"
    by (auto simp: list_all_iff denied_segment_def)
  have "join_with CHR ''/'' ?ss = r" "?ss \<noteq> []" by simp_all
  with join_with_no_slash_head[of ?ss] l show abs: "\<not> is_abs r" by (auto simp: list_all_iff)
  have l': "list_all (\<lambda>t. real_seg t \<and> t \<noteq> ''..'') ?ss" using l by (auto simp: list_all_iff)
  show segs: "path_segs r = ?ss"
    using clean_segs_id_real[OF l', of False "[]"] abs by (simp add: path_segs_def)
  show "path_clean r = r" using segs abs by (simp add: path_clean_def Let_def)
  show "r \<noteq> ''''" using l by (auto simp: real_seg_def)
qed

section \<open>Projecting and resolving again\<close>

lemma clean_segs_push:
  "list_all (\<lambda>t. real_seg t \<and> t \<noteq> ''..'') xs \<Longrightarrow>
     clean_segs r st (xs @ ys) = clean_segs r (rev xs @ st) ys"
  by (induction xs arbitrary: st) (auto simp: real_seg_def)

lemma clean_segs_pop:
  "''..'' \<notin> set xs \<Longrightarrow>
     clean_segs r (xs @ st) (map (\<lambda>_. ''..'') xs @ ys) = clean_segs r st ys"
  by (induction xs) auto

lemma strip_common_spec:
  "strip_common xs ys = (xs', ys') \<Longrightarrow> \<exists>zs. xs = zs @ xs' \<and> ys = zs @ ys'"
proof (induction xs ys arbitrary: xs' ys' rule: strip_common.induct)
  case (1 x xs y ys)
  then show ?case by (auto split: if_splits)
qed auto

lemma strip_common_prefix: "strip_common xs (xs @ ys) = ([], ys)"
  by (induction xs) auto

lemma slash_clean_id:
  "CHR 0x5C \<notin> set s \<Longrightarrow> trim_space s = s \<Longrightarrow> s \<noteq> '''' \<Longrightarrow> slash_clean s = path_clean s"
proof -
  assume a: "CHR 0x5C \<notin> set s" "trim_space s = s" "s \<noteq> ''''"
  have "map (\<lambda>c. if c = CHR 0x5C then CHR ''/'' else c) s = s" using a(1) by (induction s) auto
  with a show ?thesis by (simp add: slash_clean_def)
qed

lemma check_rel_plain: "plain_rel r \<Longrightarrow> check_rel r = Inr r"
proof (cases "r = ''.''")
  case False
  assume p: "plain_rel r"
  note d = plain_relD[OF p False]
  have "\<not> has_prefix r ''../''"
  proof
    assume "has_prefix r ''../''"
    then obtain q where "r = ''..'' @ CHR ''/'' # q" by (auto simp: prefix_def)
    with split_on_append[of "CHR ''/''" "''..''" q] d(1) show False by simp
  qed
  moreover have "r \<noteq> ''..''" using d(1) by (auto simp: denied_segment_def)
  moreover have "r \<noteq> ''/''" using d(4) by auto
  ultimately show ?thesis
    using p False d(1) by (auto simp: plain_rel_def check_rel_def Let_def list_ex_iff list_all_iff)
qed (simp add: check_rel_def)

text \<open>The segments a projected path adds to its base.\<close>

definition projected_parts :: "string \<Rightarrow> string \<Rightarrow> string list" where
  "projected_parts b c =
     (case strip_common (rel_segments b) (rel_segments c) of (bs, ts) \<Rightarrow> map (\<lambda>_. ''..'') bs @ ts)"

lemma project_parts:
  assumes "plain_rel b" "plain_rel c"
  shows "project (normalized_path_coordinate b) c =
    (if projected_parts b c = [] then ''.'' else join_with CHR ''/'' (projected_parts b c))"
proof -
  have ne: "b \<noteq> ''''" "c \<noteq> ''''" using assms by (auto simp: plain_rel_def real_seg_def)
  consider (root) "b = ''.''" | (same) "b \<noteq> ''.''" "c = b"
    | (below) rest where "b \<noteq> ''.''" "c = b @ CHR ''/'' # rest"
    | (other) "b \<noteq> ''.''" "c \<noteq> b" "\<not> has_prefix c (b @ ''/'')"
    by (auto simp: prefix_def)
  then show ?thesis
  proof cases
    case root
    then show ?thesis
      using ne by (auto simp: project_def normalized_path_coordinate_def projected_parts_def rel_segments_def)
  next
    case same
    then show ?thesis
      using ne strip_common_prefix[of "split_on CHR ''/'' b" "[]"]
      by (simp add: project_def normalized_path_coordinate_def projected_parts_def rel_segments_def)
  next
    case below
    then have "c \<noteq> ''.''" using ne by (cases b) auto
    moreover have "split_on CHR ''/'' c = split_on CHR ''/'' b @ split_on CHR ''/'' rest"
      using below by (simp add: split_on_append_gen)
    ultimately show ?thesis
      using below ne strip_common_prefix[of "split_on CHR ''/'' b" "split_on CHR ''/'' rest"]
      by (simp add: project_def normalized_path_coordinate_def projected_parts_def rel_segments_def)
  next
    case other
    then show ?thesis
      using ne by (auto simp: project_def normalized_path_coordinate_def projected_parts_def
          rel_segments_def Let_def split: prod.split)
  qed
qed

lemma rel_segments_plain:
  assumes "plain_rel r"
  shows "list_all (\<lambda>s. real_seg s \<and> s \<noteq> ''..'' \<and> \<not> denied_segment s) (rel_segments r)"
    and "r = (if rel_segments r = [] then ''.'' else join_with CHR ''/'' (rel_segments r))"
  using plain_relD[OF assms] by (auto simp: rel_segments_def)

lemma join_with_singleton_dot:
  "join_with CHR ''/'' xs = ''.'' \<Longrightarrow> \<forall>x\<in>set xs. real_seg x \<Longrightarrow> xs = []"
  by (induction "CHR ''/''" xs rule: join_with.induct)
    (auto simp: real_seg_def append_eq_Cons_conv)

lemma projected_parts_real:
  assumes "plain_rel c"
  shows "\<forall>x\<in>set (projected_parts b c). real_seg x \<and> CHR 0x5C \<notin> set x"
proof -
  obtain bs ts where sc: "strip_common (rel_segments b) (rel_segments c) = (bs, ts)" by fastforce
  have "CHR 0x5C \<notin> set x" "real_seg x" if "x \<in> set ts" for x
  proof -
    have x: "x \<in> set (rel_segments c)" using strip_common_spec[OF sc] that by auto
    then show "real_seg x" using rel_segments_plain(1)[OF assms] by (auto simp: list_all_iff)
    from x show "CHR 0x5C \<notin> set x"
      using assms set_split_on[of x "CHR ''/''" c] by (auto simp: plain_rel_def rel_segments_def split: if_splits)
  qed
  then show ?thesis using sc by (auto simp: projected_parts_def)
qed

lemma projected_clean:
  assumes "plain_rel b" "plain_rel c" "p = project (normalized_path_coordinate b) c"
  shows "path_segs p = projected_parts b c" "path_clean p = p" "\<not> is_abs p" "CHR 0x5C \<notin> set p"
    and "p \<noteq> ''''" "p = ''.'' \<longleftrightarrow> projected_parts b c = []"
proof -
  let ?parts = "projected_parts b c"
  have p: "p = (if ?parts = [] then ''.'' else join_with CHR ''/'' ?parts)"
    using project_parts[OF assms(1,2)] assms(3) by simp
  note real = projected_parts_real[OF assms(2), of b]
  show abs: "\<not> is_abs p" using join_with_no_slash_head[of ?parts] real by (simp add: p)
  show "CHR 0x5C \<notin> set p"
    using set_join_with[of "CHR ''/''" ?parts] real by (auto simp: p)
  obtain bs ts where sc: "strip_common (rel_segments b) (rel_segments c) = (bs, ts)" by fastforce
  have ts: "list_all (\<lambda>t. real_seg t \<and> t \<noteq> ''..'') ts"
    using strip_common_spec[OF sc] rel_segments_plain(1)[OF assms(2)] by (auto simp: list_all_iff)
  have "clean_list False (map (\<lambda>_. ''..'') bs @ ts)"
    using ts by (induction bs) (auto, cases ts, auto)
  then have cl: "clean_segs False [] ?parts = ?parts" using sc by (simp add: projected_parts_def clean_segs_id)
  show segs: "path_segs p = ?parts"
  proof (cases "?parts = []")
    case True
    then show ?thesis by (simp add: p path_segs_def is_abs_def)
  next
    case False
    then have "split_on CHR ''/'' p = ?parts" using real by (simp add: p split_join real_seg_def)
    with cl abs show ?thesis by (simp add: path_segs_def)
  qed
  show pc: "path_clean p = p" using segs abs by (auto simp: path_clean_def Let_def p)
  show "p \<noteq> ''''" using pc path_clean_not_Nil by metis
  show "p = ''.'' \<longleftrightarrow> ?parts = []" using join_with_singleton_dot[of ?parts] real by (auto simp: p)
qed

lemma plain_rel_clean:
  assumes "plain_rel b"
  shows "path_clean b = b" "\<not> is_abs b" "b \<noteq> ''''"
  using plain_relD(3-5)[OF assms] by (cases "b = ''.''"; simp add: path_clean_def path_segs_def is_abs_def)+

lemma slash_clean_plain: "plain_rel b \<Longrightarrow> trim_space b = b \<Longrightarrow> slash_clean b = b"
  using slash_clean_id[of b] plain_rel_clean[of b] by (auto simp: plain_rel_def)

text \<open>Joining the base with the projected steps cancels the base's own tail.\<close>

lemma join_projected:
  assumes "plain_rel b" "plain_rel c" "p = project (normalized_path_coordinate b) c" "b \<noteq> ''.''" "p \<noteq> ''.''"
  shows "path_segs (path_join [b, p]) = rel_segments c"
proof -
  note pc = projected_clean[OF assms(1-3)] and bc = plain_rel_clean[OF assms(1)]
  obtain bs ts where sc: "strip_common (rel_segments b) (rel_segments c) = (bs, ts)" by fastforce
  from strip_common_spec[OF sc] obtain zs where z: "rel_segments b = zs @ bs" "rel_segments c = zs @ ts" by blast
  have ok: "list_all (\<lambda>t. real_seg t \<and> t \<noteq> ''..'') (zs @ bs)" "list_all (\<lambda>t. real_seg t \<and> t \<noteq> ''..'') ts"
    using rel_segments_plain(1)[OF assms(1)] rel_segments_plain(1)[OF assms(2)] z by (auto simp: list_all_iff)
  have dots: "''..'' \<notin> set (rev bs)" "map (\<lambda>_. ''..'') bs = map (\<lambda>_. ''..'') (rev bs)"
    using ok(1) by (auto simp: list_all_iff map_replicate_const)
  have "p = join_with CHR ''/'' (projected_parts b c)" "projected_parts b c \<noteq> []"
    using project_parts[OF assms(1,2)] assms(3,5) pc(6) by auto
  then have "split_on CHR ''/'' p = projected_parts b c"
    using projected_parts_real[OF assms(2), of b] by (simp add: split_join real_seg_def)
  moreover have "projected_parts b c = map (\<lambda>_. ''..'') bs @ ts" using sc by (simp add: projected_parts_def)
  moreover have "split_on CHR ''/'' b = zs @ bs" using z(1) assms(4) bc(3) by (simp add: rel_segments_def)
  ultimately have "path_segs (path_join [b, p]) = clean_segs False (rev zs) ts"
    using path_segs_join[OF bc(3) pc(5)] bc(2) dots(2) clean_segs_push[OF ok(1), of False "[]"]
      clean_segs_pop[OF dots(1), of False "rev zs" ts] by simp
  then show ?thesis using clean_segs_id_real[OF ok(2), of False "rev zs"] z(2) by simp
qed

lemma combine_projected:
  assumes "plain_rel b" "plain_rel c" "p = project (normalized_path_coordinate b) c"
    and "trim_space b = b" "trim_space p = p"
  shows "path_clean (combine_rel b p) = c"
proof -
  note pc = projected_clean[OF assms(1-3)] and bc = plain_rel_clean[OF assms(1)]
    and cc = plain_rel_clean[OF assms(2)]
  have i: "slash_clean p = p" "slash_clean b = b"
    using slash_clean_id[OF pc(4) assms(5) pc(5)] pc(2) slash_clean_plain[OF assms(1,4)] by auto
  consider "b = ''.''" | "b \<noteq> ''.''" "p = ''.''" | "b \<noteq> ''.''" "p \<noteq> ''.''" by blast
  then show ?thesis
  proof cases
    case 1
    then have "p = c" using assms(3) by (simp add: project_def normalized_path_coordinate_def)
    with 1 i cc show ?thesis by (cases "c = ''.''") (simp_all add: combine_rel_def Let_def)
  next
    case 2
    then have "strip_common (rel_segments b) (rel_segments c) = ([], [])"
      using pc(6) by (auto simp: projected_parts_def split: prod.splits)
    then have "rel_segments b = rel_segments c" using strip_common_spec by fastforce
    then have "b = c" using rel_segments_plain(2)[OF assms(1)] rel_segments_plain(2)[OF assms(2)] by metis
    with 2 i cc bc show ?thesis by (simp add: combine_rel_def Let_def)
  next
    case 3
    have "\<not> is_abs (path_join [b, p])"
      using bc pc by (cases b) (simp_all add: path_join_def Let_def)
    then have "path_clean (path_join [b, p])
        = (if rel_segments c = [] then ''.'' else join_with CHR ''/'' (rel_segments c))"
      using join_projected[OF assms(1-3) 3] by (simp add: path_clean_def Let_def)
    then have "path_clean (path_join [b, p]) = c" using rel_segments_plain(2)[OF assms(2)] by simp
    with 3 i bc show ?thesis by (simp add: combine_rel_def Let_def)
  qed
qed


text \<open>A request whose absolute path hides behind a blank is not refused: the checks look at the
  text before it is trimmed.\<close>

lemma absolute_behind_blank: "normalize_rel '''' '' /etc'' = Inr ''/etc''"
proof -
  have "slash_clean '' /etc'' = ''/etc''" by code_simp
  moreover have "trim_space '' /etc'' \<noteq> ''''" by code_simp
  moreover have "slash_clean '''' = ''''" by code_simp
  ultimately show ?thesis
    by (simp add: normalize_rel_def combine_rel_def is_abs_tool_path_def Let_def path_max_bytes_def)
      code_simp
qed

section \<open>Concrete requests\<close>


theorem normalize_rel_plain_witness: "plain_rel ''notes/b/c.md''"
proof -
  have "normalize_rel ''notes/a'' ''../b/c.md'' = Inr ''notes/b/c.md''"
  proof -
    have "slash_clean ''notes/a'' = ''notes/a''" "slash_clean ''../b/c.md'' = ''../b/c.md''"
      "trim_space ''../b/c.md'' \<noteq> ''''" by code_simp+
    moreover have "path_clean (path_join [''notes/a'', ''../b/c.md'']) = ''notes/b/c.md''" by code_simp
    moreover have "check_rel ''notes/b/c.md'' = Inr ''notes/b/c.md''"
      by (simp add: check_rel_def Let_def path_max_bytes_def path_max_segments_def denied_segment_def)
    ultimately show ?thesis
      by (simp add: normalize_rel_def combine_rel_def is_abs_tool_path_def is_abs_def Let_def path_max_bytes_def)
  qed
  moreover have "\<not> is_abs (slash_clean ''notes/a'')" "\<not> is_abs (slash_clean ''../b/c.md'')"
    by code_simp+
  ultimately show ?thesis using normalize_rel_plain by blast
qed

text \<open>A vault with one directory, spelled in another case than the request.\<close>

definition demo_stat :: "fs_kind \<Rightarrow> file_stat" where
  "demo_stat k = \<lparr>fst_kind = k, fst_size = 0, fst_modified = 0\<rparr>"

definition demo_vault :: vault_fs where
  "demo_vault =
     \<lparr>vf_root = Inr (demo_stat KindDir),
      vf_readdir = (\<lambda>d. if d = [] then [Inr [''.git'', ''Notes'']] else []),
      vf_stat = (\<lambda>d. if d = [''Notes''] then Inr (demo_stat KindDir) else Inl ENOENT),
      vf_open = (\<lambda>d. Inr (demo_stat KindDir)), vf_fstat = (\<lambda>d. Inr (demo_stat KindDir)),
      vf_restat = (\<lambda>d. Inl ENOENT), vf_ctx = (\<lambda>n. None), vf_nfc = (\<lambda>s. s),
      vf_fold = (\<lambda>s t. s = t \<or> {s, t} = {''Notes'', ''notes''})\<rparr>"

lemma demo_match:
  "match_stored_segment demo_vault [] ''notes'' n = Inr (Some ''Notes'', n + 4)"
  by (simp add: match_stored_segment_def demo_vault_def new_matcher_def denied_segment_def
      observe_name_def matcher_result_def Let_def)

theorem stored_segment_unique_witness:
  "\<exists>n1. match_stored_segment demo_vault [] ''notes'' 0 =
     Inr (choose_name demo_vault ''notes'' [''Notes''], n1)"
proof -
  have "visible_names (vf_readdir demo_vault []) = [''Notes'']"
    by (simp add: demo_vault_def visible_names_def denied_segment_def)
  moreover have "vf_ctx demo_vault k = None" for k by (simp add: demo_vault_def)
  ultimately show ?thesis
    using stored_segment_unique[of demo_vault "[]" "''notes''" 0] by (simp add: demo_vault_def)
qed

theorem resolve_confined_witness: "listed demo_vault [] ''Notes''"
proof -
  have "normalize_rel '''' ''notes'' = Inr ''notes''"
  proof -
    have "slash_clean '''' = ''''" "slash_clean ''notes'' = ''notes''" "trim_space ''notes'' \<noteq> ''''"
      "path_clean ''notes'' = ''notes''" by code_simp+
    then show ?thesis
      by (simp add: normalize_rel_def combine_rel_def check_rel_def is_abs_tool_path_def is_abs_def Let_def
          path_max_bytes_def path_max_segments_def denied_segment_def)
  qed
  moreover have "open_root demo_vault 1 = Inr (demo_stat KindDir)" by (simp add: open_root_def demo_vault_def)
  moreover have "vf_ctx demo_vault k = None" "vf_stat demo_vault [''Notes''] = Inr (demo_stat KindDir)"
    "vf_open demo_vault d = Inr (demo_stat KindDir)" "vf_fstat demo_vault d = Inr (demo_stat KindDir)" for k d
    by (simp_all add: demo_vault_def)
  ultimately have r: "resolve_rel demo_vault '''' ''notes'' True
      = Inr (resolved_from_stat [''Notes''] (demo_stat KindDir), Some [''Notes''])"
    by (simp add: resolve_rel_def rel_segments_def demo_match demo_stat_def Let_def)
  have "rv_exists (resolved_from_stat [''Notes''] (demo_stat KindDir))" by (simp add: resolved_from_stat_def)
  from resolve_confined[OF r this] show ?thesis by auto
qed

end
