(* ===== verification/GoBinary.thy ===== *)
theory GoBinary
  imports Prelude
begin

text \<open>
  Byte-level helpers of Go's standard library that several components share: big-endian
  integers of \<^verbatim>\<open>encoding/binary\<close>, \<^verbatim>\<open>io.ReadFull\<close> on a stream given by the bytes still to
  come, and the contract of a framed wire with its client lemma.
\<close>

section \<open>Big-endian integers\<close>

text \<open>The low \<open>k\<close> bytes of \<open>n\<close>, most significant first: \<^verbatim>\<open>PutUint32\<close> is \<open>k = 4\<close>,
  \<^verbatim>\<open>PutUint64\<close> is \<open>k = 8\<close>; larger values wrap as the conversion to the fixed width does.\<close>

fun be_bytes :: "nat \<Rightarrow> nat \<Rightarrow> string" where
  "be_bytes 0 n = []"
| "be_bytes (Suc k) n = be_bytes k (n div 256) @ [char_of (n mod 256)]"

definition be_value :: "string \<Rightarrow> nat" where
  "be_value s = foldl (\<lambda>a c. a * 256 + of_char c) 0 s"

lemma length_be_bytes [simp]: "length (be_bytes k n) = k"
  by (induction k arbitrary: n) simp_all

lemma be_value_snoc [simp]: "be_value (s @ [c]) = be_value s * 256 + of_char c"
  by (simp add: be_value_def)

lemma be_value_bytes: "be_value (be_bytes k n) = n mod 256 ^ k"
proof (induction k arbitrary: n)
  case 0
  then show ?case by (simp add: be_value_def)
next
  case (Suc k)
  then show ?case by (simp add: mod_mult2_eq)
qed

lemma be_value_bytes_small [simp]: "n < 256 ^ k \<Longrightarrow> be_value (be_bytes k n) = n"
  by (simp add: be_value_bytes)

lemma be_bytes_inj: "be_bytes k m = be_bytes k n \<Longrightarrow> m < 256 ^ k \<Longrightarrow> n < 256 ^ k \<Longrightarrow> m = n"
  using be_value_bytes_small by metis

section \<open>Reading\<close>

datatype io_err = IoEOF | IoUnexpectedEOF | IoShortWrite | IoOther string

definition read_full :: "nat \<Rightarrow> string \<Rightarrow> (io_err + string) \<times> string" where
  "read_full n s =
     (if n \<le> length s then (Inr (take n s), drop n s)
      else (Inl (if s = [] then IoEOF else IoUnexpectedEOF), []))"

lemma read_full_append [simp]: "length p = n \<Longrightarrow> read_full n (p @ s) = (Inr p, s)"
  by (simp add: read_full_def)

lemma read_full_exact [simp]: "length p = n \<Longrightarrow> read_full n p = (Inr p, [])"
  by (simp add: read_full_def)

section \<open>Length framing\<close>

text \<open>A value preceded by its length in eight bytes, as the query hashes feed their fields.\<close>

definition framed :: "nat \<Rightarrow> string \<Rightarrow> string" where
  "framed k v = be_bytes k (length v) @ v"

lemma framed_inj:
  assumes "framed k v @ r = framed k v' @ r'" "length v < 256 ^ k" "length v' < 256 ^ k"
  shows "v = v' \<and> r = r'"
proof -
  from assms(1) have a: "be_bytes k (length v) = be_bytes k (length v')" "v @ r = v' @ r'"
    by (simp_all add: framed_def)
  from be_bytes_inj[OF a(1) assms(2,3)] a(2) show ?thesis by simp
qed

lemma concat_framed_inj:
  assumes "concat (map (framed k) vs) = concat (map (framed k) vs')"
    and "list_all (\<lambda>v. length v < 256 ^ k) vs" "list_all (\<lambda>v. length v < 256 ^ k) vs'"
    and "length vs = length vs'"
  shows "vs = vs'"
  using assms
proof (induction vs vs' rule: list_induct2')
  case (4 v vs v' vs')
  then have "framed k v @ concat (map (framed k) vs) = framed k v' @ concat (map (framed k) vs')"
    by simp
  from framed_inj[OF this] 4 show ?case by simp
qed simp_all

section \<open>A wire of messages\<close>

text \<open>
  The contract of a framed channel: \<open>put\<close> lays a message out as bytes, \<open>get\<close> takes one off
  the front of a stream.  What a client of the channel relies on is that sending and
  receiving are inverse whatever follows on the stream, for the messages \<open>ok\<close> that may be sent.
\<close>

locale wire =
  fixes ok :: "'m \<Rightarrow> bool" and "put" :: "'m \<Rightarrow> string" and "get" :: "string \<Rightarrow> ('m \<times> string) option"
  assumes get_put: "ok m \<Longrightarrow> get (put m @ s) = Some (m, s)"
    and get_nil: "get [] = None"
begin

lemma put_not_nil: "ok m \<Longrightarrow> put m \<noteq> []"
  using get_put[of m "[]"] get_nil by auto

lemma put_inj: "ok m \<Longrightarrow> ok m' \<Longrightarrow> put m @ s = put m' @ s' \<Longrightarrow> m = m' \<and> s = s'"
  by (metis get_put option.inject prod.inject)

lemma get_single: "ok m \<Longrightarrow> get (put m) = Some (m, [])"
  using get_put[of m "[]"] by simp

lemma wire_messages_inj:
  "list_all ok ms \<Longrightarrow> list_all ok ms' \<Longrightarrow> concat (map put ms) = concat (map put ms') \<Longrightarrow> ms = ms'"
proof (induction ms ms' rule: list_induct2')
  case (4 m ms m' ms')
  then have "put m @ concat (map put ms) = put m' @ concat (map put ms')" by simp
  from put_inj[OF _ _ this] 4 show ?case by simp
qed (auto simp: put_not_nil)

end

end
