(* ===== verification/MutationProtocol.thy ===== *)
theory MutationProtocol
  imports GoBinary "HOL-Library.Word"
begin

unbundle bit_operations_syntax

text \<open>
  The framed control protocol between the vault's parent process and its mutation helper
  (\<^verbatim>\<open>internal/fsx/mutation_protocol.go\<close>): control records and their validation, the two
  sides' phase machines, and the framing on a byte stream.

  The wire strings that name operations, phases and terminals are datatypes with one more
  constructor for every other text the JSON decoder may deliver; the empty string, which is
  also what a field absent from the record reads as, has its own constructor.
  \<^verbatim>\<open>encoding/json\<close> is a parameter, a \<open>codec\<close>: the encoder, and the decoder that reports the
  first value and whether nothing follows it.
\<close>

section \<open>Control records\<close>

definition mutation_protocol_version :: int where "mutation_protocol_version = 1"
definition max_control_frame_bytes :: nat where "max_control_frame_bytes = 4096"
definition max_payload_bytes :: "64 word" where "max_payload_bytes = 8388608"

datatype mut_operation = MutCreate | MutReplace | MutOpOther string

datatype mut_phase = PhaseNone | PhaseRequest | PhaseStageCreated | PhaseStageAck
  | PhaseStageAnnounced | PhasePayloadComplete | PhaseCommit | PhaseTerminal | PhaseOther string

datatype mut_terminal = TermNone | TermCommitted | TermRefused | TermError | TermUncertain
  | TermOther string

datatype mut_code = CodeNone | CodeCommitted | CodeSourceChanged | CodeDestinationExists
  | CodeUnsupported | CodeCanceled | CodeIO | CodeUncertain | CodeOther string

datatype mut_side = ParentSide | HelperSide

record raw_stamp =
  st_device :: "64 word"
  st_inode :: "64 word"
  st_mode :: "32 word"
  st_uid :: "32 word"
  st_nlink :: "64 word"
  st_size :: int
  st_mtime_sec :: int
  st_mtime_nsec :: int
  st_ctime_sec :: int
  st_ctime_nsec :: int

definition zero_stamp :: raw_stamp where
  "zero_stamp = \<lparr>st_device = 0, st_inode = 0, st_mode = 0, st_uid = 0, st_nlink = 0, st_size = 0,
     st_mtime_sec = 0, st_mtime_nsec = 0, st_ctime_sec = 0, st_ctime_nsec = 0\<rparr>"

record mut_control =
  mc_version :: int
  mc_operation :: mut_operation
  mc_phase :: mut_phase
  mc_fd_roles :: "8 word"
  mc_payload_bytes :: "64 word"
  mc_target_leaf :: string
  mc_stage_leaf :: string
  mc_expected_source :: raw_stamp
  mc_executable_identity :: raw_stamp
  mc_stage_identity :: raw_stamp
  mc_commit_token :: string
  mc_terminal :: mut_terminal
  mc_terminal_code :: mut_code

text \<open>The record with only version, operation and phase set, as the code writes its literals.\<close>

definition plain_control :: "mut_operation \<Rightarrow> mut_phase \<Rightarrow> mut_control" where
  "plain_control op ph = \<lparr>mc_version = mutation_protocol_version, mc_operation = op, mc_phase = ph,
     mc_fd_roles = 0, mc_payload_bytes = 0, mc_target_leaf = '''', mc_stage_leaf = '''',
     mc_expected_source = zero_stamp, mc_executable_identity = zero_stamp,
     mc_stage_identity = zero_stamp, mc_commit_token = '''', mc_terminal = TermNone,
     mc_terminal_code = CodeNone\<rparr>"

definition fd_control :: "8 word" where "fd_control = 1"
definition fd_root :: "8 word" where "fd_root = 2"
definition fd_parent :: "8 word" where "fd_parent = 4"
definition fd_source :: "8 word" where "fd_source = 8"
definition fd_required :: "8 word" where "fd_required = fd_control OR fd_root OR fd_parent"

section \<open>Validation\<close>

definition valid_operation :: "mut_operation \<Rightarrow> bool" where
  "valid_operation op \<longleftrightarrow> op = MutCreate \<or> op = MutReplace"

fun valid_phase :: "mut_phase \<Rightarrow> bool" where
  "valid_phase PhaseNone = False"
| "valid_phase (PhaseOther s) = False"
| "valid_phase ph = True"

definition valid_terminal :: "mut_terminal \<Rightarrow> bool" where
  "valid_terminal t \<longleftrightarrow> t = TermCommitted \<or> t = TermRefused \<or> t = TermError \<or> t = TermUncertain"

fun valid_terminal_code :: "mut_terminal \<Rightarrow> mut_code \<Rightarrow> bool" where
  "valid_terminal_code TermCommitted k \<longleftrightarrow> k = CodeCommitted"
| "valid_terminal_code TermRefused k \<longleftrightarrow>
     k = CodeSourceChanged \<or> k = CodeDestinationExists \<or> k = CodeCanceled"
| "valid_terminal_code TermError k \<longleftrightarrow> k = CodeIO \<or> k = CodeUnsupported"
| "valid_terminal_code TermUncertain k \<longleftrightarrow> k = CodeUncertain"
| "valid_terminal_code t k \<longleftrightarrow> False"

definition valid_fd_roles :: "mut_operation \<Rightarrow> 8 word \<Rightarrow> bool" where
  "valid_fd_roles op roles \<longleftrightarrow>
     roles AND NOT (fd_control OR fd_root OR fd_parent OR fd_source) = 0 \<and>
     roles AND fd_required = fd_required \<and>
     (op = MutReplace \<longleftrightarrow> roles AND fd_source \<noteq> 0)"

definition stage_prefix :: string where "stage_prefix = ''.pmcg-stage-''"

definition valid_stage_leaf :: "string \<Rightarrow> bool" where
  "valid_stage_leaf leaf \<longleftrightarrow>
     has_prefix leaf stage_prefix \<and> length leaf = length stage_prefix + 32 \<and>
     list_all lower_hex (drop (length stage_prefix) leaf)"

definition valid_target_leaf :: "string \<Rightarrow> bool" where
  "valid_target_leaf leaf \<longleftrightarrow>
     leaf \<noteq> '''' \<and> \<not> has_prefix leaf ''.'' \<and>
     \<not> contains_any leaf [CHR ''/'', CHR 0x5C, CHR 0x00] \<and> leaf \<noteq> ''.'' \<and> leaf \<noteq> ''..''"

definition valid_raw_stamp :: "raw_stamp \<Rightarrow> bool" where
  "valid_raw_stamp s \<longleftrightarrow>
     st_device s \<noteq> 0 \<and> st_inode s \<noteq> 0 \<and> st_mode s \<noteq> 0 \<and> st_nlink s \<noteq> 0 \<and> 0 \<le> st_size s \<and>
     0 \<le> st_mtime_nsec s \<and> st_mtime_nsec s < 1000000000 \<and>
     0 \<le> st_ctime_nsec s \<and> st_ctime_nsec s < 1000000000"

definition valid_expected_source :: "mut_operation \<Rightarrow> raw_stamp \<Rightarrow> bool" where
  "valid_expected_source op s = (if op = MutCreate then s = zero_stamp else valid_raw_stamp s)"

definition valid_token :: "string \<Rightarrow> bool" where
  "valid_token tok \<longleftrightarrow> length tok = 32 \<and> list_all lower_hex tok"

section \<open>One side of an invocation\<close>

record mut_protocol =
  mp_side :: mut_side
  mp_operation :: mut_operation
  mp_roles :: "8 word"
  mp_phase :: mut_phase
  mp_payload :: "64 word"

datatype mut_err = ErrProtocol | MutIO io_err

definition new_protocol_parent :: "mut_operation \<Rightarrow> 8 word \<Rightarrow> mut_err + mut_protocol" where
  "new_protocol_parent op roles =
     (if \<not> valid_operation op \<or> \<not> valid_fd_roles op roles then Inl ErrProtocol
      else Inr \<lparr>mp_side = ParentSide, mp_operation = op, mp_roles = roles, mp_phase = PhaseNone,
                mp_payload = 0\<rparr>)"

definition new_protocol_helper :: mut_protocol where
  "new_protocol_helper = \<lparr>mp_side = HelperSide, mp_operation = MutOpOther '''', mp_roles = 0,
     mp_phase = PhaseNone, mp_payload = 0\<rparr>"

fun can_send :: "mut_side \<Rightarrow> mut_phase \<Rightarrow> mut_phase \<Rightarrow> bool" where
  "can_send ParentSide PhaseNone ph \<longleftrightarrow> ph = PhaseRequest"
| "can_send ParentSide PhaseStageCreated ph \<longleftrightarrow> ph = PhaseStageAck"
| "can_send ParentSide PhasePayloadComplete ph \<longleftrightarrow> ph = PhaseCommit"
| "can_send HelperSide PhaseRequest ph \<longleftrightarrow> ph = PhaseStageCreated"
| "can_send HelperSide PhaseStageAck ph \<longleftrightarrow> ph = PhaseStageAnnounced"
| "can_send HelperSide PhasePayloadComplete ph \<longleftrightarrow> ph = PhasePayloadComplete"
| "can_send HelperSide PhaseCommit ph \<longleftrightarrow> ph = PhaseTerminal"
| "can_send _ _ ph \<longleftrightarrow> False"

fun can_receive :: "mut_side \<Rightarrow> mut_phase \<Rightarrow> mut_phase \<Rightarrow> bool" where
  "can_receive ParentSide PhaseRequest ph \<longleftrightarrow> ph = PhaseStageCreated"
| "can_receive ParentSide PhaseStageAck ph \<longleftrightarrow> ph = PhaseStageAnnounced"
| "can_receive ParentSide PhasePayloadComplete ph \<longleftrightarrow> ph = PhasePayloadComplete"
| "can_receive ParentSide PhaseCommit ph \<longleftrightarrow> ph = PhaseTerminal"
| "can_receive HelperSide PhaseNone ph \<longleftrightarrow> ph = PhaseRequest"
| "can_receive HelperSide PhaseStageCreated ph \<longleftrightarrow> ph = PhaseStageAck"
| "can_receive HelperSide PhasePayloadComplete ph \<longleftrightarrow> ph = PhaseCommit"
| "can_receive _ _ ph \<longleftrightarrow> False"

text \<open>The fields of \<open>c\<close> other than those named are the zero values: the common part of the
  clauses of \<^verbatim>\<open>validateBound\<close> after the request.\<close>

definition no_request_fields :: "mut_control \<Rightarrow> bool" where
  "no_request_fields c \<longleftrightarrow>
     mc_fd_roles c = 0 \<and> mc_payload_bytes c = 0 \<and> mc_target_leaf c = '''' \<and> mc_stage_leaf c = '''' \<and>
     mc_expected_source c = zero_stamp"

definition no_terminal_fields :: "mut_control \<Rightarrow> bool" where
  "no_terminal_fields c \<longleftrightarrow> mc_terminal c = TermNone \<and> mc_terminal_code c = CodeNone"

definition validate_bound :: "mut_protocol \<Rightarrow> mut_control \<Rightarrow> bool" where
  "validate_bound p c \<longleftrightarrow>
     mc_version c = mutation_protocol_version \<and> mc_operation c = mp_operation p \<and>
     valid_phase (mc_phase c) \<and>
     (case mc_phase c of
        PhaseRequest \<Rightarrow>
          mc_fd_roles c = mp_roles p \<and> mc_payload_bytes c \<le> max_payload_bytes \<and>
          valid_target_leaf (mc_target_leaf c) \<and> valid_stage_leaf (mc_stage_leaf c) \<and>
          valid_expected_source (mc_operation c) (mc_expected_source c) \<and>
          mc_executable_identity c = zero_stamp \<and> mc_stage_identity c = zero_stamp \<and>
          mc_commit_token c = '''' \<and> no_terminal_fields c
      | PhaseStageCreated \<Rightarrow>
          no_request_fields c \<and> valid_raw_stamp (mc_executable_identity c) \<and>
          mc_stage_identity c = zero_stamp \<and> mc_commit_token c = '''' \<and> no_terminal_fields c
      | PhaseStageAck \<Rightarrow>
          no_request_fields c \<and> mc_executable_identity c = zero_stamp \<and>
          mc_stage_identity c = zero_stamp \<and> mc_commit_token c = '''' \<and> no_terminal_fields c
      | PhaseStageAnnounced \<Rightarrow>
          no_request_fields c \<and> mc_executable_identity c = zero_stamp \<and>
          valid_raw_stamp (mc_stage_identity c) \<and> mc_commit_token c = '''' \<and> no_terminal_fields c
      | PhasePayloadComplete \<Rightarrow>
          no_request_fields c \<and> mc_executable_identity c = zero_stamp \<and>
          valid_raw_stamp (mc_stage_identity c) \<and> mc_commit_token c = '''' \<and> no_terminal_fields c
      | PhaseCommit \<Rightarrow>
          no_request_fields c \<and> mc_executable_identity c = zero_stamp \<and>
          mc_stage_identity c = zero_stamp \<and> valid_token (mc_commit_token c) \<and> no_terminal_fields c
      | PhaseTerminal \<Rightarrow>
          no_request_fields c \<and> mc_executable_identity c = zero_stamp \<and>
          (if mc_terminal c = TermCommitted then valid_raw_stamp (mc_stage_identity c)
           else mc_stage_identity c = zero_stamp) \<and>
          mc_commit_token c = '''' \<and> valid_terminal (mc_terminal c) \<and>
          valid_terminal_code (mc_terminal c) (mc_terminal_code c)
      | _ \<Rightarrow> False)"

definition validate_outgoing :: "mut_protocol \<Rightarrow> mut_control \<Rightarrow> bool" where
  "validate_outgoing p c \<longleftrightarrow>
     \<not> (mp_side p = HelperSide \<and> mp_phase p = PhaseNone) \<and> validate_bound p c"

text \<open>The helper adopts the operation and roles of its request, and keeps them even when the
  rest of the record is then refused.\<close>

definition validate_incoming :: "mut_protocol \<Rightarrow> mut_control \<Rightarrow> bool \<times> mut_protocol" where
  "validate_incoming p c =
     (if mp_side p = HelperSide \<and> mp_phase p = PhaseNone then
        if \<not> valid_operation (mc_operation c) \<or> \<not> valid_fd_roles (mc_operation c) (mc_fd_roles c)
        then (False, p)
        else let p' = p\<lparr>mp_operation := mc_operation c, mp_roles := mc_fd_roles c\<rparr> in
          (validate_bound p' c, p')
      else (validate_bound p c, p))"

definition advance :: "mut_protocol \<Rightarrow> mut_control \<Rightarrow> mut_protocol" where
  "advance p c =
     (let p' = p\<lparr>mp_phase := mc_phase c\<rparr> in
      if mc_phase c = PhaseRequest then p'\<lparr>mp_payload := mc_payload_bytes c\<rparr> else p')"

section \<open>Frames on a stream\<close>

record codec =
  cd_enc :: "mut_control \<Rightarrow> string option"
  cd_dec :: "string \<Rightarrow> (mut_control \<times> bool) option"

text \<open>A writer takes some of the bytes and may fail; a nil one is \<^const>\<open>None\<close>.  By the contract
  of \<^verbatim>\<open>io.Writer\<close> it never reports more bytes than it was given.\<close>

type_synonym 'w writer = "string \<Rightarrow> 'w \<Rightarrow> (nat \<times> io_err option) \<times> 'w"

function write_all :: "'w writer \<Rightarrow> string \<Rightarrow> 'w \<Rightarrow> io_err option \<times> 'w" where
  "write_all wr v w =
     (if v = [] then (None, w)
      else case wr v w of ((n, err), w1) \<Rightarrow>
        if err \<noteq> None then (err, w1)
        else if n = 0 then (Some IoShortWrite, w1)
        else write_all wr (drop n v) w1)"
  by pat_completeness auto
termination
  by (relation "measure (\<lambda>(wr, v, w). length v)") auto

declare write_all.simps [simp del]

definition write_control ::
  "codec \<Rightarrow> 'w writer option \<Rightarrow> mut_control \<Rightarrow> 'w \<Rightarrow> mut_err option \<times> 'w" where
  "write_control cd wr c w =
     (case wr of
        None \<Rightarrow> (Some ErrProtocol, w)
      | Some wr \<Rightarrow>
          (case cd_enc cd c of
             None \<Rightarrow> (Some ErrProtocol, w)
           | Some encoded \<Rightarrow>
               if encoded = [] \<or> length encoded > max_control_frame_bytes then (Some ErrProtocol, w)
               else (case write_all wr (be_bytes 4 (length encoded)) w of
                  (Some e, w1) \<Rightarrow> (Some (MutIO e), w1)
                | (None, w1) \<Rightarrow>
                    (case write_all wr encoded w1 of (e, w2) \<Rightarrow> (map_option MutIO e, w2)))))"

definition read_control ::
  "codec \<Rightarrow> string option \<Rightarrow> (mut_err + mut_control) \<times> string option" where
  "read_control cd r =
     (case r of
        None \<Rightarrow> (Inl ErrProtocol, None)
      | Some s \<Rightarrow>
          (case read_full 4 s of
             (Inl e, s1) \<Rightarrow> (Inl (MutIO e), Some s1)
           | (Inr len, s1) \<Rightarrow>
               (let n = be_value len in
                if n = 0 \<or> n > max_control_frame_bytes then (Inl ErrProtocol, Some s1)
                else (case read_full n s1 of
                   (Inl e, s2) \<Rightarrow> (Inl (MutIO e), Some s2)
                 | (Inr encoded, s2) \<Rightarrow>
                     (case cd_dec cd encoded of
                        None \<Rightarrow> (Inl ErrProtocol, Some s2)
                      | Some (c, at_eof) \<Rightarrow>
                          (if at_eof then Inr c else Inl ErrProtocol, Some s2))))))"

definition send_control ::
  "codec \<Rightarrow> mut_protocol \<Rightarrow> 'w writer option \<Rightarrow> mut_control \<Rightarrow> 'w \<Rightarrow> mut_err option \<times> mut_protocol \<times> 'w" where
  "send_control cd p wr c w =
     (if \<not> can_send (mp_side p) (mp_phase p) (mc_phase c) \<or> \<not> validate_outgoing p c
      then (Some ErrProtocol, p, w)
      else (case write_control cd wr c w of
         (Some e, w1) \<Rightarrow> (Some e, p, w1)
       | (None, w1) \<Rightarrow> (None, advance p c, w1)))"

definition receive_control ::
  "codec \<Rightarrow> mut_protocol \<Rightarrow> string option \<Rightarrow> (mut_err + mut_control) \<times> mut_protocol \<times> string option" where
  "receive_control cd p r =
     (case read_control cd r of
        (Inl e, r1) \<Rightarrow> (Inl e, p, r1)
      | (Inr c, r1) \<Rightarrow>
          if \<not> can_receive (mp_side p) (mp_phase p) (mc_phase c) then (Inl ErrProtocol, p, r1)
          else (case validate_incoming p c of
             (False, p1) \<Rightarrow> (Inl ErrProtocol, p1, r1)
           | (True, p1) \<Rightarrow> (Inr c, advance p1 c, r1)))"

definition send_payload ::
  "mut_protocol \<Rightarrow> 'w writer \<Rightarrow> string \<Rightarrow> 'w \<Rightarrow> mut_err option \<times> mut_protocol \<times> 'w" where
  "send_payload p wr payload w =
     (if mp_side p \<noteq> ParentSide \<or> mp_phase p \<noteq> PhaseStageAnnounced \<or>
         word_of_nat (length payload) \<noteq> mp_payload p then (Some ErrProtocol, p, w)
      else (case write_all wr payload w of
         (Some e, w1) \<Rightarrow> (Some (MutIO e), p, w1)
       | (None, w1) \<Rightarrow> (None, p\<lparr>mp_phase := PhasePayloadComplete\<rparr>, w1)))"

text \<open>\<open>n\<close> is the length of the destination buffer; the result is what it then holds.\<close>

definition receive_payload ::
  "mut_protocol \<Rightarrow> nat \<Rightarrow> string \<Rightarrow> (mut_err + string) \<times> mut_protocol \<times> string" where
  "receive_payload p n s =
     (if mp_side p \<noteq> HelperSide \<or> mp_phase p \<noteq> PhaseStageAnnounced \<or> word_of_nat n \<noteq> mp_payload p
      then (Inl ErrProtocol, p, s)
      else (case read_full n s of
         (Inl e, s1) \<Rightarrow> (Inl (MutIO e), p, s1)
       | (Inr v, s1) \<Rightarrow> (Inr v, p\<lparr>mp_phase := PhasePayloadComplete\<rparr>, s1)))"

end
