(* ===== verification/TraceIO.thy ===== *)
theory TraceIO
  imports Prelude "HOL-Library.State_Monad"
begin

text \<open>
  Operations in a world that cannot be predicted: what they learn is read from a schedule at
  successive moments, what they do to the world is appended to a trace.  A component extends the
  record by its own state.  The rules below reduce a statement about the trace of an operation to
  statements about its steps.
\<close>

record 'e ticked =
  tk_tick :: nat
  tk_trace :: "'e list"

definition look :: "(nat \<Rightarrow> 'a) \<Rightarrow> (('e, 'm) ticked_scheme, 'a) state" where
  "look f = State (\<lambda>w. (f (tk_tick w), w\<lparr>tk_tick := tk_tick w + 1\<rparr>))"

definition emit :: "'e \<Rightarrow> (('e, 'm) ticked_scheme, unit) state" where
  "emit ev = State (\<lambda>w. ((), w\<lparr>tk_trace := tk_trace w @ [ev]\<rparr>))"

section \<open>Reasoning about the trace\<close>

text \<open>\<open>yields m R\<close>: whatever the schedule, the operation returns a value and appends events that
  \<open>R\<close> relates.  One rule per operation, applied backwards.\<close>

named_theorems yields_intro "backward rules for the steps of an operation"

definition yields :: "(('e, 'm) ticked_scheme, 'a) state \<Rightarrow> ('a \<Rightarrow> 'e list \<Rightarrow> bool) \<Rightarrow> bool" where
  "yields m R \<longleftrightarrow>
     (\<forall>w. \<exists>d. tk_trace (snd (run_state m w)) = tk_trace w @ d \<and> R (fst (run_state m w)) d)"

lemma yields_return [yields_intro]: "R x [] \<Longrightarrow> yields (State_Monad.return x) R"
  by (simp add: yields_def)

lemma yields_return_iff: "yields (State_Monad.return x) R \<longleftrightarrow> R x []"
  by (simp add: yields_def)

lemma yields_bind:
  assumes "yields m (\<lambda>x d. yields (f x) (\<lambda>y d'. R y (d @ d')))"
  shows "yields (State_Monad.bind m f) R"
  unfolding yields_def
proof
  fix w
  obtain x w1 where m: "run_state m w = (x, w1)" by fastforce
  from assms have "\<exists>d. tk_trace (snd (run_state m w)) = tk_trace w @ d \<and>
      yields (f (fst (run_state m w))) (\<lambda>y d'. R y (d @ d'))"
    unfolding yields_def[of m] by (rule spec)
  with m obtain d where d: "tk_trace w1 = tk_trace w @ d" "yields (f x) (\<lambda>y d'. R y (d @ d'))" by auto
  then have "\<exists>d'. tk_trace (snd (run_state (f x) w1)) = tk_trace w1 @ d' \<and>
      R (fst (run_state (f x) w1)) (d @ d')"
    unfolding yields_def by blast
  then obtain d' where "tk_trace (snd (run_state (f x) w1)) = tk_trace w1 @ d'"
    "R (fst (run_state (f x) w1)) (d @ d')"
    by blast
  with m d show "\<exists>d. tk_trace (snd (run_state (State_Monad.bind m f) w)) = tk_trace w @ d \<and>
      R (fst (run_state (State_Monad.bind m f) w)) d"
    by (intro exI[of _ "d @ d'"]) simp
qed

lemma yields_look [yields_intro]: "(\<And>x. R x []) \<Longrightarrow> yields (look f) R"
  by (simp add: yields_def look_def)

lemma yields_look_bind [yields_intro]:
  assumes "\<And>x. yields (g x) R"
  shows "yields (State_Monad.bind (look f) g) R"
proof (rule yields_bind, rule yields_look)
  fix x
  show "yields (g x) (\<lambda>y d'. R y ([] @ d'))" unfolding append_Nil by (rule assms)
qed

lemma yields_return_bind [yields_intro]:
  assumes "yields (g x) R"
  shows "yields (State_Monad.bind (State_Monad.return x) g) R"
proof (rule yields_bind, rule yields_return)
  show "yields (g x) (\<lambda>y d'. R y ([] @ d'))" unfolding append_Nil by (rule assms)
qed

lemma yields_emit_bind [yields_intro]:
  "yields (g ()) (\<lambda>y d. R y (ev # d)) \<Longrightarrow> yields (State_Monad.bind (emit ev) g) R"
  by (rule yields_bind) (simp add: yields_def emit_def)

lemma yields_emit [yields_intro]: "R () [ev] \<Longrightarrow> yields (emit ev) R"
  by (simp add: yields_def emit_def)

lemma yields_if [yields_intro]:
  "(b \<Longrightarrow> yields m R) \<Longrightarrow> (\<not> b \<Longrightarrow> yields m' R) \<Longrightarrow> yields (if b then m else m') R"
  by simp

lemma yields_if_bind [yields_intro]:
  "(b \<Longrightarrow> yields (State_Monad.bind m g) R) \<Longrightarrow> (\<not> b \<Longrightarrow> yields (State_Monad.bind m' g) R) \<Longrightarrow>
     yields (State_Monad.bind (if b then m else m') g) R"
  by simp

lemma yields_option_bind [yields_intro]:
  "(v = None \<Longrightarrow> yields (State_Monad.bind m g) R) \<Longrightarrow>
     (\<And>x. v = Some x \<Longrightarrow> yields (State_Monad.bind (m' x) g) R) \<Longrightarrow>
     yields (State_Monad.bind (case v of None \<Rightarrow> m | Some x \<Rightarrow> m' x) g) R"
  by (cases v) simp_all

lemma yields_assoc [yields_intro]:
  "yields (State_Monad.bind m (\<lambda>x. State_Monad.bind (f x) g)) R \<Longrightarrow>
     yields (State_Monad.bind (State_Monad.bind m f) g) R"
  by (simp add: yields_def case_prod_unfold)

lemma yields_weaken: "yields m R \<Longrightarrow> (\<And>x d. R x d \<Longrightarrow> R' x d) \<Longrightarrow> yields m R'"
  unfolding yields_def by blast

lemma yields_then:
  "yields m R' \<Longrightarrow> (\<And>x d. R' x d \<Longrightarrow> yields (g x) (\<lambda>y d'. R y (d @ d'))) \<Longrightarrow>
     yields (State_Monad.bind m g) R"
  by (rule yields_bind, rule yields_weaken)

lemma yields_trace:
  assumes "yields m R" "run_state m w = (r, w')" "tk_trace w = []"
  shows "R r (tk_trace w')"
  using assms(1)[unfolded yields_def, rule_format, of w] assms(2,3) by auto

end
