(* ===== verification/FsIO.thy ===== *)
theory FsIO
  imports VaultPath MutationProtocol TraceIO
begin

text \<open>
  The system calls of the vault's descriptor operations.  Their answers are read from a schedule;
  the calls that succeed are events, with what they returned.  A descriptor is the moment it was
  opened at.  Stamps, identities and fingerprints are those of \<^verbatim>\<open>internal/fsx/file_unix.go\<close>,
  \<^verbatim>\<open>mutation_target_darwin.go\<close> and \<^verbatim>\<open>mutation_helper_darwin.go\<close>.  Closing a descriptor has no
  event.
\<close>

type_synonym fd = nat

datatype fs_event =
    SysRoot fd raw_stamp
  | SysOpen fd fd string fs_kind
  | SysStat fd string raw_stamp
  | SysFstat fd raw_stamp
  | SysRead fd string
  | SysSeek fd nat
  | SysEmpty fd
  | SysScan fd "string list"
  | SysCreate fd fd string
  | SysWrite fd string
  | SysRename fd string fd string
  | SysRenameExcl fd string fd string
  | SysUnlink fd string fs_kind
  | GotControl mut_control
  | GotPayload string
  | SentControl mut_control
  | SentPayload string
  | Killed

text \<open>The schedule.  \<open>fe_vault\<close> supplies the context, the two Unicode comparisons and nothing else.\<close>

record fs_env =
  fe_vault :: vault_fs
  fe_sha :: "string \<Rightarrow> string"
  fe_scan :: "nat \<Rightarrow> errno + (errno + string list) list"
  fe_stat :: "nat \<Rightarrow> errno + raw_stamp"
  fe_fstat :: "nat \<Rightarrow> errno + raw_stamp"
  fe_open :: "nat \<Rightarrow> errno option"
  fe_read :: "nat \<Rightarrow> string \<times> io_err option"
  fe_seek :: "nat \<Rightarrow> int option"
  fe_effect :: "nat \<Rightarrow> errno option"
  fe_write :: "nat \<Rightarrow> nat \<times> io_err option"

record fs_world = "fs_event ticked" +
  fw_in :: string
  fw_out :: string

type_synonym 'a fs_io = "(fs_world, 'a) state"

section \<open>Modes, identities, fingerprints\<close>

definition s_ifmt :: "32 word" where "s_ifmt = 0xF000"
definition s_ifreg :: "32 word" where "s_ifreg = 0x8000"
definition s_ifdir :: "32 word" where "s_ifdir = 0x4000"
definition s_iflnk :: "32 word" where "s_iflnk = 0xA000"

definition kind_of_mode :: "32 word \<Rightarrow> fs_kind" where
  "kind_of_mode mode =
     (if mode AND s_ifmt = s_iflnk then KindSymlink
      else if mode AND s_ifmt = s_ifdir then KindDir
      else if mode AND s_ifmt = s_ifreg then KindFile
      else KindOther)"

abbreviation stamp_kind :: "raw_stamp \<Rightarrow> fs_kind" where
  "stamp_kind s \<equiv> kind_of_mode (st_mode s)"

definition same_entry :: "raw_stamp \<Rightarrow> raw_stamp \<Rightarrow> bool" where
  "same_entry s t \<longleftrightarrow> st_device s = st_device t \<and> st_inode s = st_inode t \<and>
     st_mode s AND s_ifmt = st_mode t AND s_ifmt"

text \<open>\<^verbatim>\<open>fileIdentity\<close> keeps the type bits of the mode and neither owner nor link count.\<close>

definition file_identity :: "raw_stamp \<Rightarrow> raw_stamp" where
  "file_identity s = s\<lparr>st_mode := st_mode s AND s_ifmt, st_uid := 0, st_nlink := 0\<rparr>"

definition file_domain :: string where
  "file_domain = ''personal-mcp-gateway/fsx-file-source/v1'' @ [CHR 0x00]"

definition directory_domain :: string where
  "directory_domain = ''personal-mcp-gateway/fsx-mutation-empty-directory/v1'' @ [CHR 0x00]"

definition append_uint64 :: "string \<Rightarrow> 64 word \<Rightarrow> string" where
  "append_uint64 dst v = dst @ be_bytes 8 (unat v)"

definition uint64_of :: "int \<Rightarrow> 64 word" where
  "uint64_of n = word_of_int n"

definition framed_source :: "string \<Rightarrow> string \<Rightarrow> raw_stamp \<Rightarrow> string" where
  "framed_source domain rel s =
     foldl append_uint64 (append_uint64 domain (of_nat (length rel)) @ rel)
       [st_device s, st_inode s, ucast (st_mode s), uint64_of (st_size s), uint64_of (st_mtime_sec s),
        uint64_of (st_mtime_nsec s), uint64_of (st_ctime_sec s), uint64_of (st_ctime_nsec s)]"

definition fingerprint_file :: "fs_env \<Rightarrow> string \<Rightarrow> raw_stamp \<Rightarrow> string" where
  "fingerprint_file e rel identity = fe_sha e (framed_source file_domain rel identity)"

definition mutation_fingerprint :: "fs_env \<Rightarrow> string \<Rightarrow> fs_kind \<Rightarrow> raw_stamp \<Rightarrow> string" where
  "mutation_fingerprint e rel kind identity =
     (if kind = KindFile then fingerprint_file e rel (file_identity identity)
      else fe_sha e (framed_source directory_domain rel identity))"

definition stat_of_stamp :: "raw_stamp \<Rightarrow> file_stat" where
  "stat_of_stamp s = \<lparr>fst_kind = stamp_kind s, fst_size = st_size s,
     fst_modified = st_mtime_sec s * 1000000000 + st_mtime_nsec s\<rparr>"

definition resolved_stamp :: "string \<Rightarrow> fs_kind \<Rightarrow> raw_stamp \<Rightarrow> resolved" where
  "resolved_stamp rel kind s =
     \<lparr>rv_rel = rel, rv_exists = True, rv_stat = Some ((stat_of_stamp s)\<lparr>fst_kind := kind\<rparr>)\<rparr>"

section \<open>System calls\<close>

abbreviation ctx_error :: "fs_env \<Rightarrow> fs_code option fs_io" where
  "ctx_error e \<equiv> look (vf_ctx (fe_vault e))"

definition moment :: "fd fs_io" where
  "moment = look (\<lambda>t. t)"

definition sys_stat :: "fs_env \<Rightarrow> fd \<Rightarrow> string \<Rightarrow> (errno + raw_stamp) fs_io" where
  "sys_stat e d name = do {
     answer \<leftarrow> look (fe_stat e);
     (case answer of
        Inl err \<Rightarrow> State_Monad.return (Inl err)
      | Inr s \<Rightarrow> do { emit (SysStat d name s); State_Monad.return (Inr s) })
   }"

definition sys_fstat :: "fs_env \<Rightarrow> fd \<Rightarrow> (errno + raw_stamp) fs_io" where
  "sys_fstat e d = do {
     answer \<leftarrow> look (fe_fstat e);
     (case answer of
        Inl err \<Rightarrow> State_Monad.return (Inl err)
      | Inr s \<Rightarrow> do { emit (SysFstat d s); State_Monad.return (Inr s) })
   }"

definition sys_open :: "fs_env \<Rightarrow> fd \<Rightarrow> string \<Rightarrow> fs_kind \<Rightarrow> (errno + fd) fs_io" where
  "sys_open e d name kind = do {
     answer \<leftarrow> look (fe_open e);
     (case answer of
        Some err \<Rightarrow> State_Monad.return (Inl err)
      | None \<Rightarrow> do {
          f \<leftarrow> moment;
          emit (SysOpen f d name kind);
          State_Monad.return (Inr f) })
   }"

text \<open>An effect that may fail.\<close>

definition sys_effect :: "fs_env \<Rightarrow> fs_event \<Rightarrow> errno option fs_io" where
  "sys_effect e ev = do {
     answer \<leftarrow> look (fe_effect e);
     (if answer = None then emit ev else State_Monad.return ());
     State_Monad.return answer
   }"

text \<open>\<^verbatim>\<open>openRoot\<close> on the schedule.\<close>

definition fs_open_root :: "fs_env \<Rightarrow> (fs_code + fd) fs_io" where
  "fs_open_root e = do {
     c \<leftarrow> ctx_error e;
     (case c of
        Some err \<Rightarrow> State_Monad.return (Inl err)
      | None \<Rightarrow> do {
          opened \<leftarrow> look (fe_open e);
          (case opened of
             Some err \<Rightarrow> State_Monad.return (Inl (map_open_dir_error err))
           | None \<Rightarrow> do {
               d \<leftarrow> moment;
               st \<leftarrow> look (fe_fstat e);
               (case st of
                  Inl err \<Rightarrow> State_Monad.return (Inl (map_path_error err))
                | Inr s \<Rightarrow> do { emit (SysRoot d s); State_Monad.return (Inr d) }) }) })
   }"

text \<open>\<^verbatim>\<open>matchStoredSegment\<close>: the matching of \<open>VaultPath\<close> over the batches the directory delivers, the
  context polled at successive moments.\<close>

definition fs_match_segment :: "fs_env \<Rightarrow> string \<Rightarrow> (fs_code + string option) fs_io" where
  "fs_match_segment e caller = State (\<lambda>w.
     (case fe_scan e (tk_tick w) of
        Inl err \<Rightarrow> (Inl NotDirectory, w\<lparr>tk_tick := tk_tick w + 1\<rparr>)
      | Inr batches \<Rightarrow>
          (case match_batches (fe_vault e) (new_matcher (fe_vault e) caller) (tk_tick w) batches of
             Inl err \<Rightarrow> (Inl err, w\<lparr>tk_tick := tk_tick w + 1\<rparr>)
           | Inr (found, n) \<Rightarrow> (Inr found, w\<lparr>tk_tick := n + 1\<rparr>))))"

section \<open>Rules for the trace\<close>

named_theorems yields_sys "backward rules for the system calls"

lemma yields_sys_stat [yields_sys]:
  assumes "\<And>err. yields (g (Inl err)) R" "\<And>s. yields (g (Inr s)) (\<lambda>y d'. R y (SysStat d name s # d'))"
  shows "yields (State_Monad.bind (sys_stat e d name) g) R"
  unfolding sys_stat_def
  by (intro yields_intro) (auto split: sum.split intro!: yields_intro assms)

lemma yields_sys_fstat [yields_sys]:
  assumes "\<And>err. yields (g (Inl err)) R" "\<And>s. yields (g (Inr s)) (\<lambda>y d'. R y (SysFstat d s # d'))"
  shows "yields (State_Monad.bind (sys_fstat e d) g) R"
  unfolding sys_fstat_def
  by (intro yields_intro) (auto split: sum.split intro!: yields_intro assms)

lemma yields_sys_open [yields_sys]:
  assumes "\<And>err. yields (g (Inl err)) R" "\<And>f. yields (g (Inr f)) (\<lambda>y d'. R y (SysOpen f d name kind # d'))"
  shows "yields (State_Monad.bind (sys_open e d name kind) g) R"
  unfolding sys_open_def moment_def
  by (intro yields_intro) (auto split: option.split intro!: yields_intro assms)

lemma yields_sys_effect [yields_sys]:
  assumes "\<And>err. yields (g (Some err)) R" "yields (g None) (\<lambda>y d'. R y (ev # d'))"
  shows "yields (State_Monad.bind (sys_effect e ev) g) R"
  unfolding sys_effect_def
  by (intro yields_intro) (use assms in auto)

lemma yields_open_root [yields_sys]:
  assumes "\<And>err. yields (g (Inl err)) R" "\<And>d s. yields (g (Inr d)) (\<lambda>y d'. R y (SysRoot d s # d'))"
  shows "yields (State_Monad.bind (fs_open_root e) g) R"
  unfolding fs_open_root_def moment_def
  by (intro yields_intro) (auto split: option.split sum.split intro!: yields_intro assms)

lemma yields_match_segment [yields_sys]:
  assumes "\<And>r. yields (g r) R"
  shows "yields (State_Monad.bind (fs_match_segment e caller) g) R"
proof (rule yields_then)
  show "yields (fs_match_segment e caller) (\<lambda>r d. d = [])"
    by (auto simp: yields_def fs_match_segment_def split: sum.split)
qed (use assms in simp)


section \<open>What a fingerprint binds\<close>

lemma append_uint64_inj [simp]: "append_uint64 dst v = append_uint64 dst' v' \<longleftrightarrow> dst = dst' \<and> v = v'"
proof
  assume "append_uint64 dst v = append_uint64 dst' v'"
  then have "dst = dst'" "be_bytes 8 (unat v) = be_bytes 8 (unat v')"
    by (simp_all add: append_uint64_def)
  moreover have "unat v < 256 ^ 8" "unat v' < 256 ^ 8"
    using unsigned_less[of v, where 'a = nat] unsigned_less[of v', where 'a = nat] by simp_all
  ultimately show "dst = dst' \<and> v = v'"
    using be_bytes_inj[of 8 "unat v" "unat v'"] word_unat_eq_iff[of v v'] by simp
qed simp

lemma ucast_mode_inj: "ucast (m :: 32 word) = (ucast m' :: 64 word) \<Longrightarrow> m = m'"
proof -
  have wide: "unat (ucast k :: 64 word) = unat k" for k :: "32 word"
    using unsigned_less[of k, where 'a = nat] by (simp add: unsigned_ucast_eq take_bit_nat_eq_self)
  assume "ucast m = (ucast m' :: 64 word)"
  then have "unat m = unat m'" using wide by metis
  then show ?thesis by (rule unsigned_word_eqI)
qed

text \<open>Fields a stat call delivers fit their width.\<close>

definition stat_range :: "raw_stamp \<Rightarrow> bool" where
  "stat_range s \<longleftrightarrow> list_all (\<lambda>n. - (2 ^ 63) \<le> n \<and> n < 2 ^ 63)
     [st_size s, st_mtime_sec s, st_mtime_nsec s, st_ctime_sec s, st_ctime_nsec s]"

lemma uint64_of_inj:
  assumes "uint64_of m = uint64_of n" "- (2 ^ 63) \<le> m" "m < 2 ^ 63" "- (2 ^ 63) \<le> n" "n < 2 ^ 63"
  shows "m = n"
proof -
  from assms(1) have "sint (word_of_int m :: 64 word) = sint (word_of_int n :: 64 word)"
    by (simp add: uint64_of_def)
  with assms(2-5) show ?thesis by (simp add: sint_sbintrunc' signed_take_bit_int_eq_self)
qed

lemma domains_differ: "append_uint64 file_domain n @ rel \<noteq> append_uint64 directory_domain n' @ rel'"
  by (simp add: append_uint64_def file_domain_def directory_domain_def)

lemma framed_prefix:
  assumes "append_uint64 domain (of_nat (length rel)) @ rel = append_uint64 domain (of_nat (length rel')) @ rel'"
  shows "rel = rel'"
  using assms by (simp add: append_uint64_def)


text \<open>Everything of a stamp but owner and link count, and for a file the mode bits besides the type.\<close>

definition source_version :: "fs_kind \<Rightarrow> raw_stamp \<Rightarrow> raw_stamp" where
  "source_version kind s =
     (if kind = KindFile then file_identity s else s\<lparr>st_uid := 0, st_nlink := 0\<rparr>)"

lemma framed_source_inj:
  assumes "framed_source domain rel s = framed_source domain rel' s'" "stat_range s" "stat_range s'"
  shows "rel = rel' \<and> s\<lparr>st_uid := 0, st_nlink := 0\<rparr> = s'\<lparr>st_uid := 0, st_nlink := 0\<rparr>"
proof -
  from assms(1) have eq: "append_uint64 domain (of_nat (length rel)) @ rel = append_uint64 domain (of_nat (length rel')) @ rel'"
    "st_device s = st_device s'" "st_inode s = st_inode s'" "st_mode s = st_mode s'"
    "uint64_of (st_size s) = uint64_of (st_size s')" "uint64_of (st_mtime_sec s) = uint64_of (st_mtime_sec s')"
    "uint64_of (st_mtime_nsec s) = uint64_of (st_mtime_nsec s')" "uint64_of (st_ctime_sec s) = uint64_of (st_ctime_sec s')"
    "uint64_of (st_ctime_nsec s) = uint64_of (st_ctime_nsec s')"
    by (simp_all add: framed_source_def ucast_mode_inj)
  then have "rel = rel'" "st_size s = st_size s'" "st_mtime_sec s = st_mtime_sec s'" "st_mtime_nsec s = st_mtime_nsec s'"
    "st_ctime_sec s = st_ctime_sec s'" "st_ctime_nsec s = st_ctime_nsec s'"
    using assms(2,3) by (auto simp: stat_range_def intro: framed_prefix uint64_of_inj)
  with eq show ?thesis by simp
qed

lemma file_identity_simps [simp]:
  "(file_identity s)\<lparr>st_uid := 0, st_nlink := 0\<rparr> = file_identity s" "stat_range (file_identity s) = stat_range s"
  by (simp_all add: file_identity_def stat_range_def)

text \<open>C23. A fingerprint binds a version of an entry.  Unless the digest collides on what is hashed, two
  fingerprints are equal only for the same path, the same sort of entry and the same version:
  device, inode, type, size and both times, and the whole mode of a directory.\<close>

theorem fingerprint_binds:
  assumes "mutation_fingerprint e rel kind s = mutation_fingerprint e rel' kind' s'"
    and "inj_on (fe_sha e)
      {framed_source file_domain rel (file_identity s), framed_source file_domain rel' (file_identity s'),
       framed_source directory_domain rel s, framed_source directory_domain rel' s'}"
    and "stat_range s" "stat_range s'"
  shows "rel = rel' \<and> (kind = KindFile \<longleftrightarrow> kind' = KindFile) \<and> source_version kind s = source_version kind' s'"
proof -
  define framed where "framed k r t = (if k = KindFile then framed_source file_domain r (file_identity t)
    else framed_source directory_domain r t)" for k r t
  have fp: "mutation_fingerprint e r k t = fe_sha e (framed k r t)" for r k t
    by (simp add: framed_def mutation_fingerprint_def fingerprint_file_def)
  have eq: "framed kind rel s = framed kind' rel' s'"
    by (rule inj_onD[OF assms(2) assms(1)[unfolded fp]]) (simp_all add: framed_def)
  have kinds: "kind = KindFile \<longleftrightarrow> kind' = KindFile"
  proof (rule ccontr)
    assume "\<not> ?thesis"
    with eq have "\<exists>r t r' t'. framed_source file_domain r t = framed_source directory_domain r' t'"
      unfolding framed_def by (metis (full_types))
    then show False using domains_differ by (auto simp: framed_source_def)
  qed
  show ?thesis
  proof (cases "kind = KindFile")
    case True
    with eq kinds have "framed_source file_domain rel (file_identity s) = framed_source file_domain rel' (file_identity s')"
      by (simp add: framed_def)
    from framed_source_inj[OF this] assms(3,4) kinds True show ?thesis by (simp add: source_version_def)
  next
    case False
    with eq kinds have "framed_source directory_domain rel s = framed_source directory_domain rel' s'"
      by (simp add: framed_def)
    from framed_source_inj[OF this assms(3,4)] kinds False show ?thesis by (simp add: source_version_def)
  qed
qed

end
