(* ===== verification/MutationTarget.thy ===== *)
theory MutationTarget
  imports FsIO
begin

text \<open>
  Targets of a mutation (\<^verbatim>\<open>internal/fsx/mutation_target_darwin.go\<close>) and the mutations that need no
  helper process, moving and deleting (\<^verbatim>\<open>mutation_direct_darwin.go\<close>).
\<close>

section \<open>Names\<close>

datatype name_match = NameAbsent | NameExact string | NameUniqueNFC string | NameUniqueFold string
  | NameAmbiguous

definition classified :: "string list \<Rightarrow> string list \<Rightarrow> name_match" where
  "classified nfc folds =
     (case nfc of
        [stored] \<Rightarrow> NameUniqueNFC stored
      | _ # _ # _ \<Rightarrow> NameAmbiguous
      | [] \<Rightarrow> (case folds of [stored] \<Rightarrow> NameUniqueFold stored | _ # _ # _ \<Rightarrow> NameAmbiguous | [] \<Rightarrow> NameAbsent))"

fun classify_loop :: "vault_fs \<Rightarrow> string \<Rightarrow> string list \<Rightarrow> string list \<Rightarrow> string list \<Rightarrow> name_match" where
  "classify_loop fs caller [] nfc folds = classified nfc folds"
| "classify_loop fs caller (stored # names) nfc folds =
     (if stored = caller then NameExact stored
      else if vf_nfc fs stored = vf_nfc fs caller then classify_loop fs caller names (nfc @ [stored]) folds
      else if vf_fold fs (vf_nfc fs stored) (vf_nfc fs caller)
      then classify_loop fs caller names nfc (folds @ [stored])
      else classify_loop fs caller names nfc folds)"

definition classify_names :: "vault_fs \<Rightarrow> string \<Rightarrow> string list \<Rightarrow> name_match" where
  "classify_names fs caller names = classify_loop fs caller names [] []"

fun scan_names :: "fs_env \<Rightarrow> (errno + string list) list \<Rightarrow> (fs_code + string list) fs_io" where
  "scan_names e [] = do {
     c \<leftarrow> ctx_error e;
     State_Monad.return (case c of Some err \<Rightarrow> Inl err | None \<Rightarrow> Inr []) }"
| "scan_names e (batch # batches) = do {
     c \<leftarrow> ctx_error e;
     (case c of
        Some err \<Rightarrow> State_Monad.return (Inl err)
      | None \<Rightarrow>
          (case batch of
             Inl _ \<Rightarrow> State_Monad.return (Inl NotDirectory)
           | Inr names \<Rightarrow>
               if names = [] then State_Monad.return (Inr [])
               else do {
                 rest \<leftarrow> scan_names e batches;
                 State_Monad.return (case rest of
                   Inl err \<Rightarrow> Inl err
                 | Inr later \<Rightarrow> Inr (filter (\<lambda>n. \<not> denied_segment n) names @ later)) })) }"

definition match_mutation_name :: "fs_env \<Rightarrow> string \<Rightarrow> (fs_code + name_match) fs_io" where
  "match_mutation_name e caller = do {
     scan \<leftarrow> look (fe_scan e);
     (case scan of
        Inl err \<Rightarrow> State_Monad.return (Inl (map_open_dir_error err))
      | Inr batches \<Rightarrow> do {
          names \<leftarrow> scan_names e batches;
          State_Monad.return (case names of
            Inl err \<Rightarrow> Inl err | Inr stored \<Rightarrow> Inr (classify_names (fe_vault e) caller stored)) })
   }"

text \<open>The stored name a match stands for, absent and ambiguous ones being errors.\<close>

definition matched :: "fs_code + name_match \<Rightarrow> fs_code + string" where
  "matched r =
     (case r of
        Inl err \<Rightarrow> Inl err
      | Inr NameAbsent \<Rightarrow> Inl NotFound
      | Inr NameAmbiguous \<Rightarrow> Inl SourceChanged
      | Inr (NameExact s) \<Rightarrow> Inr s
      | Inr (NameUniqueNFC s) \<Rightarrow> Inr s
      | Inr (NameUniqueFold s) \<Rightarrow> Inr s)"

section \<open>The parent and the target\<close>

text \<open>\<^verbatim>\<open>ReadDir(1)\<close> on a second descriptor of the directory.\<close>

definition directory_empty :: "fs_env \<Rightarrow> fd \<Rightarrow> (fs_code + bool) fs_io" where
  "directory_empty e d = do {
     scan \<leftarrow> look (fe_scan e);
     (case scan of
        Inl _ \<Rightarrow> State_Monad.return (Inl SourceChanged)
      | Inr batches \<Rightarrow> do {
          c \<leftarrow> ctx_error e;
          (case c of
             Some err \<Rightarrow> State_Monad.return (Inl err)
           | None \<Rightarrow>
               (case batches of
                  Inl _ # _ \<Rightarrow> State_Monad.return (Inl SourceChanged)
                | Inr (_ # _) # _ \<Rightarrow> State_Monad.return (Inr False)
                | _ \<Rightarrow> do { emit (SysEmpty d); State_Monad.return (Inr True) })) })
   }"

fun parent_walk :: "fs_env \<Rightarrow> string list \<Rightarrow> fd \<Rightarrow> string list \<Rightarrow> (fs_code + (fd \<times> string list)) fs_io" where
  "parent_walk e [] current canonical = State_Monad.return (Inr (current, canonical))"
| "parent_walk e (caller # rest) current canonical = do {
     c \<leftarrow> ctx_error e;
     (case c of
        Some err \<Rightarrow> State_Monad.return (Inl err)
      | None \<Rightarrow> do {
          m \<leftarrow> match_mutation_name e caller;
          (case matched m of
             Inl err \<Rightarrow> State_Monad.return (Inl err)
           | Inr stored \<Rightarrow> do {
               baseline \<leftarrow> sys_stat e current stored;
               (case baseline of
                  Inl err \<Rightarrow> State_Monad.return (Inl (map_path_error err))
                | Inr s \<Rightarrow>
                    if stamp_kind s = KindSymlink then State_Monad.return (Inl SymlinkDenied)
                    else if stamp_kind s \<noteq> KindDir then State_Monad.return (Inl NotDirectory)
                    else do {
                      opened \<leftarrow> sys_open e current stored KindDir;
                      (case opened of
                         Inl err \<Rightarrow> State_Monad.return (Inl (map_open_dir_error err))
                       | Inr child \<Rightarrow> do {
                           st \<leftarrow> sys_fstat e child;
                           (case st of
                              Inl _ \<Rightarrow> State_Monad.return (Inl SourceChanged)
                            | Inr t \<Rightarrow>
                                if \<not> same_entry s t then State_Monad.return (Inl SourceChanged)
                                else parent_walk e rest child (canonical @ [stored])) }) }) }) }) }"

definition prepare_mutation_parent ::
  "fs_env \<Rightarrow> fd \<Rightarrow> string \<Rightarrow> string \<Rightarrow> (fs_code + (fd \<times> string \<times> string)) fs_io" where
  "prepare_mutation_parent e root base input =
     (case normalize_rel base input of
        Inl err \<Rightarrow> State_Monad.return (Inl err)
      | Inr requested \<Rightarrow>
          (let segments = rel_segments requested in
           if segments = [] then State_Monad.return (Inl PathDenied)
           else do {
             walked \<leftarrow> parent_walk e (butlast segments) root [];
             State_Monad.return (case walked of
               Inl err \<Rightarrow> Inl err
             | Inr (parent, canonical) \<Rightarrow> Inr (parent, vf_nfc (fe_vault e) (last segments),
                 if canonical = [] then ''.'' else join_with CHR ''/'' canonical)) }))"

record prepared_target =
  pt_parent :: fd
  pt_leaf :: string
  pt_rel :: string
  pt_source :: fd
  pt_identity :: raw_stamp
  pt_kind :: fs_kind

abbreviation pt_resolved :: "prepared_target \<Rightarrow> resolved" where
  "pt_resolved p \<equiv> resolved_stamp (pt_rel p) (pt_kind p) (pt_identity p)"

definition pt_fingerprint :: "fs_env \<Rightarrow> prepared_target \<Rightarrow> string" where
  "pt_fingerprint e p = mutation_fingerprint e (pt_rel p) (pt_kind p) (pt_identity p)"

text \<open>The checks between opening the stored name and its fingerprint.\<close>

definition finish_target ::
  "fs_env \<Rightarrow> fd \<Rightarrow> string \<Rightarrow> string \<Rightarrow> fs_kind \<Rightarrow> raw_stamp \<Rightarrow> fd \<Rightarrow> (fs_code + prepared_target) fs_io" where
  "finish_target e parent up stored kind baseline source = do {
     opened \<leftarrow> sys_fstat e source;
     (case opened of
        Inl _ \<Rightarrow> State_Monad.return (Inl SourceChanged)
      | Inr s \<Rightarrow>
          if baseline \<noteq> s then State_Monad.return (Inl SourceChanged)
          else do {
            empty \<leftarrow> (if kind = KindDir then directory_empty e source else State_Monad.return (Inr True));
            State_Monad.return (case empty of
              Inl err \<Rightarrow> Inl err
            | Inr False \<Rightarrow> Inl NotEmpty
            | Inr True \<Rightarrow> Inr \<lparr>pt_parent = parent, pt_leaf = stored, pt_rel = join_rel up stored,
                pt_source = source, pt_identity = s, pt_kind = kind\<rparr>) })
   }"

definition prepare_target_from_root ::
  "fs_env \<Rightarrow> fd \<Rightarrow> string \<Rightarrow> string \<Rightarrow> (fs_code + prepared_target) fs_io" where
  "prepare_target_from_root e root base input = do {
     pr \<leftarrow> prepare_mutation_parent e root base input;
     (case pr of
        Inl err \<Rightarrow> State_Monad.return (Inl err)
      | Inr (parent, leaf, up) \<Rightarrow> do {
          m \<leftarrow> match_mutation_name e leaf;
          (case matched m of
             Inl err \<Rightarrow> State_Monad.return (Inl err)
           | Inr stored \<Rightarrow> do {
               baseline \<leftarrow> sys_stat e parent stored;
               (case baseline of
                  Inl err \<Rightarrow> State_Monad.return (Inl (map_path_error err))
                | Inr s \<Rightarrow>
                    if stamp_kind s = KindSymlink then State_Monad.return (Inl SymlinkDenied)
                    else if stamp_kind s \<noteq> KindFile \<and> stamp_kind s \<noteq> KindDir
                    then State_Monad.return (Inl NotFile)
                    else do {
                      opened \<leftarrow> sys_open e parent stored (stamp_kind s);
                      (case opened of
                         Inl _ \<Rightarrow> State_Monad.return (Inl SourceChanged)
                       | Inr source \<Rightarrow> finish_target e parent up stored (stamp_kind s) s source) }) }) })
   }"

definition prepare_mutation_target :: "fs_env \<Rightarrow> string \<Rightarrow> string \<Rightarrow> (fs_code + prepared_target) fs_io" where
  "prepare_mutation_target e base input = do {
     root \<leftarrow> fs_open_root e;
     (case root of
        Inl err \<Rightarrow> State_Monad.return (Inl err)
      | Inr d \<Rightarrow> prepare_target_from_root e d base input)
   }"

definition stat_mutation_target :: "fs_env \<Rightarrow> string \<Rightarrow> string \<Rightarrow> (fs_code + (resolved \<times> string)) fs_io" where
  "stat_mutation_target e base input = do {
     p \<leftarrow> prepare_mutation_target e base input;
     State_Monad.return (case p of
       Inl err \<Rightarrow> Inl err | Inr t \<Rightarrow> Inr (pt_resolved t, pt_fingerprint e t))
   }"

definition clone_mutation_root :: "fs_env \<Rightarrow> fd \<Rightarrow> (fs_code + fd) fs_io" where
  "clone_mutation_root e root = do {
     before \<leftarrow> sys_fstat e root;
     (case before of
        Inl _ \<Rightarrow> State_Monad.return (Inl SourceChanged)
      | Inr s \<Rightarrow> do {
          opened \<leftarrow> sys_open e root ''.'' KindDir;
          (case opened of
             Inl err \<Rightarrow> State_Monad.return (Inl (map_open_dir_error err))
           | Inr d \<Rightarrow> do {
               after \<leftarrow> sys_fstat e d;
               State_Monad.return (case after of
                 Inl _ \<Rightarrow> Inl SourceChanged
               | Inr t \<Rightarrow> if same_entry s t then Inr d else Inl SourceChanged) }) })
   }"

section \<open>Moving and deleting\<close>

definition revalidate_target :: "fs_env \<Rightarrow> prepared_target \<Rightarrow> fs_code option fs_io" where
  "revalidate_target e p = do {
     c \<leftarrow> ctx_error e;
     (case c of
        Some err \<Rightarrow> State_Monad.return (Some err)
      | None \<Rightarrow> do {
          descriptor \<leftarrow> sys_fstat e (pt_source p);
          (if descriptor \<noteq> Inr (pt_identity p) then State_Monad.return (Some SourceChanged)
           else do {
             name \<leftarrow> sys_stat e (pt_parent p) (pt_leaf p);
             (if name \<noteq> Inr (pt_identity p) then State_Monad.return (Some SourceChanged)
              else if pt_kind p \<noteq> KindDir then State_Monad.return None
              else do {
                empty \<leftarrow> directory_empty e (pt_source p);
                (case empty of
                   Inl err \<Rightarrow> State_Monad.return (Some err)
                 | Inr False \<Rightarrow> State_Monad.return (Some NotEmpty)
                 | Inr True \<Rightarrow> do {
                     final \<leftarrow> sys_fstat e (pt_source p);
                     State_Monad.return (if final = Inr (pt_identity p) then None else Some SourceChanged) }) }) }) })
   }"

definition delete_target :: "fs_env \<Rightarrow> string \<Rightarrow> string \<Rightarrow> string \<Rightarrow> (fs_code + resolved) fs_io" where
  "delete_target e base input expected = do {
     target \<leftarrow> prepare_mutation_target e base input;
     (case target of
        Inl err \<Rightarrow> State_Monad.return (Inl err)
      | Inr p \<Rightarrow>
          if pt_fingerprint e p \<noteq> expected then State_Monad.return (Inl SourceChanged)
          else do {
            changed \<leftarrow> revalidate_target e p;
            (case changed of
               Some err \<Rightarrow> State_Monad.return (Inl err)
             | None \<Rightarrow> do {
                 failed \<leftarrow> sys_effect e (SysUnlink (pt_parent p) (pt_leaf p) (pt_kind p));
                 State_Monad.return (case failed of
                   Some err \<Rightarrow> Inl (if err = ENOTEMPTY \<or> err = EEXIST then NotEmpty else SourceChanged)
                 | None \<Rightarrow> Inr ((pt_resolved p)\<lparr>rv_exists := False\<rparr>)) }) })
   }"

text \<open>\<open>must_be_absent\<close> is the destination check, made twice.\<close>

definition must_be_absent :: "fs_env \<Rightarrow> string \<Rightarrow> fs_code option fs_io" where
  "must_be_absent e leaf = do {
     m \<leftarrow> match_mutation_name e leaf;
     State_Monad.return (case m of
       Inl err \<Rightarrow> Some err | Inr state \<Rightarrow> if state = NameAbsent then None else Some DestinationExists)
   }"

definition rename_target :: "fs_env \<Rightarrow> prepared_target \<Rightarrow> fd \<Rightarrow> string \<Rightarrow> string \<Rightarrow> (fs_code + (resolved \<times> string)) fs_io" where
  "rename_target e p parent leaf up = do {
     failed \<leftarrow> sys_effect e (SysRenameExcl (pt_parent p) (pt_leaf p) parent leaf);
     (case failed of
        Some err \<Rightarrow> State_Monad.return (Inl (if err = EEXIST then DestinationExists
          else if err = ENOTSUP then FsUnsupported else PathDenied))
      | None \<Rightarrow> do {
          after \<leftarrow> sys_fstat e (pt_source p);
          State_Monad.return (case after of
            Inl _ \<Rightarrow> Inl FsUncertain
          | Inr s \<Rightarrow> Inr (resolved_stamp (join_rel up leaf) (pt_kind p) s,
              mutation_fingerprint e (join_rel up leaf) (pt_kind p) s)) })
   }"

definition move_to :: "fs_env \<Rightarrow> prepared_target \<Rightarrow> fd \<Rightarrow> string \<Rightarrow> string \<Rightarrow> (fs_code + (resolved \<times> string)) fs_io" where
  "move_to e p parent leaf up = do {
     taken \<leftarrow> must_be_absent e leaf;
     (case taken of
        Some err \<Rightarrow> State_Monad.return (Inl err)
      | None \<Rightarrow> do {
          changed \<leftarrow> revalidate_target e p;
          (case changed of
             Some err \<Rightarrow> State_Monad.return (Inl err)
           | None \<Rightarrow> do {
               again \<leftarrow> must_be_absent e leaf;
               (case again of
                  Some err \<Rightarrow> State_Monad.return (Inl err)
                | None \<Rightarrow> rename_target e p parent leaf up) }) })
   }"

definition move_target ::
  "fs_env \<Rightarrow> string \<Rightarrow> string \<Rightarrow> string \<Rightarrow> string \<Rightarrow> (fs_code + (resolved \<times> string)) fs_io" where
  "move_target e base source destination expected = do {
     root \<leftarrow> fs_open_root e;
     (case root of
        Inl err \<Rightarrow> State_Monad.return (Inl err)
      | Inr d \<Rightarrow> do {
          source_root \<leftarrow> clone_mutation_root e d;
          (case source_root of
             Inl err \<Rightarrow> State_Monad.return (Inl err)
           | Inr sd \<Rightarrow> do {
               target \<leftarrow> prepare_target_from_root e sd base source;
               (case target of
                  Inl err \<Rightarrow> State_Monad.return (Inl err)
                | Inr p \<Rightarrow>
                    if pt_fingerprint e p \<noteq> expected then State_Monad.return (Inl SourceChanged)
                    else do {
                      destination_root \<leftarrow> clone_mutation_root e d;
                      (case destination_root of
                         Inl err \<Rightarrow> State_Monad.return (Inl err)
                       | Inr dd \<Rightarrow> do {
                           pr \<leftarrow> prepare_mutation_parent e dd base destination;
                           (case pr of
                              Inl err \<Rightarrow> State_Monad.return (Inl err)
                            | Inr (parent, leaf, up) \<Rightarrow> move_to e p parent leaf up) }) }) }) })
   }"


section \<open>A mutation names what a read names\<close>

lemma classify_loop_spec:
  "classify_loop fs caller names nfc folds =
     (if caller \<in> set names then NameExact caller
      else classified (nfc @ filter (\<lambda>s. vf_nfc fs s = vf_nfc fs caller) names)
        (folds @ filter (\<lambda>s. vf_nfc fs s \<noteq> vf_nfc fs caller \<and> vf_fold fs (vf_nfc fs s) (vf_nfc fs caller)) names))"
  by (induction fs caller names nfc folds rule: classify_loop.induct) auto

lemma classified_cases:
  "classified nfc folds =
     (if nfc \<noteq> [] then (case sole nfc of Some s \<Rightarrow> NameUniqueNFC s | None \<Rightarrow> NameAmbiguous)
      else if folds = [] then NameAbsent
      else (case sole folds of Some s \<Rightarrow> NameUniqueFold s | None \<Rightarrow> NameAmbiguous))"
  by (simp add: classified_def sole_def split: list.split)

text \<open>Reads and mutations agree on names.  For every set of stored names, a mutation finds an
  entry exactly when a read does and then the same one; a mutation refuses an ambiguous name that a
  read takes for missing.\<close>

theorem mutation_names_agree:
  "(case matched (Inr (classify_names fs caller names)) of Inr s \<Rightarrow> Some s | Inl _ \<Rightarrow> None) =
     choose_name fs caller names"
proof -
  let ?same = "filter (\<lambda>s. vf_nfc fs s = vf_nfc fs caller) names"
  let ?folds = "filter (\<lambda>s. vf_nfc fs s \<noteq> vf_nfc fs caller \<and> vf_fold fs (vf_nfc fs s) (vf_nfc fs caller)) names"
  have "filter (\<lambda>s. vf_fold fs (vf_nfc fs s) (vf_nfc fs caller)) names = ?folds" if "?same = []"
    using that by (intro filter_cong) (auto simp: filter_empty_conv)
  then show ?thesis
    by (simp add: classify_names_def classify_loop_spec classified_cases matched_def choose_name_def Let_def
        sole_def split: list.split)
qed

section \<open>Effects are guarded\<close>

text \<open>Events that change the vault or another process.\<close>

fun is_effect :: "fs_event \<Rightarrow> bool" where
  "is_effect (SysRename _ _ _ _) = True"
| "is_effect (SysRenameExcl _ _ _ _) = True"
| "is_effect (SysUnlink _ _ _) = True"
| "is_effect (SysCreate _ _ _) = True"
| "is_effect (SysWrite _ _) = True"
| "is_effect (GotControl _) = True"
| "is_effect (GotPayload _) = True"
| "is_effect (SentControl _) = True"
| "is_effect (SentPayload _) = True"
| "is_effect Killed = True"
| "is_effect _ = False"

definition inert :: "fs_event list \<Rightarrow> bool" where
  "inert d \<longleftrightarrow> list_all (\<lambda>ev. \<not> is_effect ev) d"

lemma inert_simps [simp]:
  "inert []" "inert (ev # d) \<longleftrightarrow> \<not> is_effect ev \<and> inert d" "inert (d @ d') \<longleftrightarrow> inert d \<and> inert d'"
  by (simp_all add: inert_def)

abbreviation quiet :: "'a fs_io \<Rightarrow> bool" where
  "quiet m \<equiv> yields m (\<lambda>_ d. inert d)"

named_theorems quiet_rules "operations without effects"

lemma quiet_then [quiet_rules]:
  assumes "quiet m" "\<And>x. quiet (g x)"
  shows "quiet (State_Monad.bind m g)"
  using assms(1) by (rule yields_then) (rule yields_weaken[OF assms(2)], simp)

lemma quiet_basic [quiet_rules]:
  "quiet (State_Monad.return x)" "quiet (look f)" "quiet moment" "quiet (sys_stat e d n)" "quiet (sys_fstat e d)"
  "quiet (sys_open e d n k)" "quiet (fs_open_root e)"
  unfolding moment_def sys_stat_def sys_fstat_def sys_open_def fs_open_root_def
  by (intro yields_intro; (simp | auto split: sum.split option.split intro!: yields_intro))+

lemma quiet_split [quiet_rules]:
  "(b \<Longrightarrow> quiet m) \<Longrightarrow> (\<not> b \<Longrightarrow> quiet m') \<Longrightarrow> quiet (if b then m else m')"
  "(\<And>l. r = Inl l \<Longrightarrow> quiet (f l)) \<Longrightarrow> (\<And>v. r = Inr v \<Longrightarrow> quiet (h v)) \<Longrightarrow>
     quiet (case r of Inl l \<Rightarrow> f l | Inr v \<Rightarrow> h v)"
  "(p = None \<Longrightarrow> quiet m) \<Longrightarrow> (\<And>v. p = Some v \<Longrightarrow> quiet (h' v)) \<Longrightarrow>
     quiet (case p of None \<Rightarrow> m | Some v \<Rightarrow> h' v)"
  by (simp_all split: sum.split option.split)

lemma quiet_scan [quiet_rules]: "quiet (scan_names e batches)"
  by (induction batches) (simp_all, (intro quiet_rules | assumption)+)

lemma quiet_match [quiet_rules]: "quiet (match_mutation_name e caller)"
  unfolding match_mutation_name_def by (intro quiet_rules)


lemma quiet_empty [quiet_rules]: "quiet (directory_empty e d)"
  unfolding directory_empty_def
  by (intro quiet_rules) (auto split: list.split sum.split intro!: quiet_rules yields_intro)

lemma quiet_walk [quiet_rules]: "quiet (parent_walk e segments current canonical)"
proof (induction segments arbitrary: current canonical)
  case Nil
  show ?case by (simp, intro quiet_rules)
next
  case (Cons caller rest)
  show ?case unfolding parent_walk.simps by (intro quiet_rules Cons)
qed

lemma quiet_parent [quiet_rules]: "quiet (prepare_mutation_parent e root base input)"
  unfolding prepare_mutation_parent_def Let_def
  by (intro quiet_rules)

lemma quiet_clone [quiet_rules]: "quiet (clone_mutation_root e root)"
  unfolding clone_mutation_root_def by (intro quiet_rules)

lemma quiet_absent [quiet_rules]: "quiet (must_be_absent e leaf)"
  unfolding must_be_absent_def by (intro quiet_rules)

text \<open>Looking for a name leaves no event at all.\<close>

lemma scan_silent: "yields (scan_names e batches) (\<lambda>_ d. d = [])"
proof (induction batches)
  case Nil
  show ?case by (simp, intro yields_intro) simp
next
  case (Cons batch batches)
  have "yields (State_Monad.bind (scan_names e batches) (\<lambda>r. State_Monad.return (f r))) (\<lambda>_ d. d = [])"
    for f :: "fs_code + string list \<Rightarrow> fs_code + string list"
    by (rule yields_then[OF Cons]) (simp add: yields_return)
  then show ?case
    unfolding scan_names.simps by (intro yields_intro) (auto split: option.split sum.split intro!: yields_return)
qed

lemma absent_silent: "yields (must_be_absent e leaf) (\<lambda>_ d. d = [])"
proof -
  have "yields (State_Monad.bind (scan_names e batches) (\<lambda>r. State_Monad.return (f r))) (\<lambda>_ d. d = [])"
    for batches and f :: "fs_code + string list \<Rightarrow> fs_code option"
    by (rule yields_then[OF scan_silent]) (simp add: yields_return)
  then show ?thesis
    unfolding must_be_absent_def match_mutation_name_def
    by (intro yields_intro) (auto split: sum.split intro!: yields_intro)
qed

text \<open>What the trace of preparing a target shows about it.\<close>

definition opened_target :: "prepared_target \<Rightarrow> fs_event list \<Rightarrow> bool" where
  "opened_target p d \<longleftrightarrow> inert d \<and> pt_kind p = stamp_kind (pt_identity p) \<and> pt_kind p \<in> {KindFile, KindDir} \<and>
     {SysStat (pt_parent p) (pt_leaf p) (pt_identity p), SysOpen (pt_source p) (pt_parent p) (pt_leaf p) (pt_kind p),
      SysFstat (pt_source p) (pt_identity p)} \<subseteq> set d"

definition prepared_ok :: "fs_code + prepared_target \<Rightarrow> fs_event list \<Rightarrow> bool" where
  "prepared_ok r d \<longleftrightarrow> inert d \<and> (\<forall>p. r = Inr p \<longrightarrow> opened_target p d)"

lemma prepared_failed: "inert d \<Longrightarrow> prepared_ok (Inl err) d"
  by (simp add: prepared_ok_def)

lemma prepared_after: "inert d \<Longrightarrow> prepared_ok r d' \<Longrightarrow> prepared_ok r (d @ d')"
  by (auto simp: prepared_ok_def opened_target_def)

lemma directory_empty_yields: "yields (directory_empty e d) (\<lambda>r t. r = Inr True \<longrightarrow> t = [SysEmpty d])"
  unfolding directory_empty_def
  by (intro yields_intro) (auto split: list.split sum.split option.split intro!: yields_intro)

lemma finish_target_yields:
  assumes "kind = stamp_kind s" "kind \<in> {KindFile, KindDir}"
  shows "yields (finish_target e parent up stored kind s source) (\<lambda>r d.
     prepared_ok r (SysStat parent stored s # SysOpen source parent stored kind # d))"
  unfolding finish_target_def
proof (rule yields_sys_fstat, goal_cases)
  case (1 err)
  show ?case by (simp, intro yields_intro prepared_failed) simp
next
  case (2 t)
  show ?case unfolding sum.case
  proof (rule yields_if, goal_cases)
    case 1
    show ?case by (intro yields_intro prepared_failed) simp
  next
    case 2
    then have t: "t = s" by simp
    have q: "quiet (if kind = KindDir then directory_empty e source else State_Monad.return (Inr True))"
      by (intro quiet_rules)
    show ?case
      by (rule yields_then[OF q], rule yields_return)
        (use assms in \<open>auto simp: t prepared_ok_def opened_target_def split: sum.split bool.split\<close>)
  qed
qed

lemma quiet_leads:
  assumes "quiet m" "\<And>x. yields (g x) prepared_ok"
  shows "yields (State_Monad.bind m g) prepared_ok"
  by (rule yields_then[OF assms(1)], rule yields_weaken[OF assms(2)]) (rule prepared_after)

lemma prepared_return: "yields (State_Monad.return (Inl err)) prepared_ok"
  by (rule yields_return) (simp add: prepared_failed)

lemma prepared_split:
  "(\<And>l. r = Inl l \<Longrightarrow> yields (f l) prepared_ok) \<Longrightarrow> (\<And>v. r = Inr v \<Longrightarrow> yields (h v) prepared_ok) \<Longrightarrow>
     yields (case r of Inl l \<Rightarrow> f l | Inr v \<Rightarrow> h v) prepared_ok"
  by (cases r) simp_all

lemma prepare_target_yields: "yields (prepare_target_from_root e root base input) prepared_ok"
  unfolding prepare_target_from_root_def
proof (rule quiet_leads[OF quiet_parent], rule prepared_split, rule prepared_return, goal_cases)
  case (1 pr placed)
  obtain parent leaf up where placed: "placed = (parent, leaf, up)" by (metis prod.exhaust)
  show ?case unfolding placed prod.case
  proof (rule quiet_leads[OF quiet_match], rule prepared_split, rule prepared_return, goal_cases)
    case (1 m stored)
    show ?case
    proof (rule yields_sys_stat, goal_cases)
      case (1 err)
      show ?case by (simp add: prepared_return)
    next
      case (2 s)
      have failed: "yields (State_Monad.return (Inl err)) (\<lambda>y d'. prepared_ok y (SysStat parent stored s # d'))" for err
        by (rule yields_return) (simp add: prepared_failed)
      show ?case unfolding sum.case
      proof (intro yields_if failed, rule yields_sys_open, goal_cases)
        case (1 err)
        show ?case by (simp add: failed)
      next
        case (2 f)
        then have "stamp_kind s \<in> {KindFile, KindDir}" by simp
        then show ?case by (simp add: finish_target_yields)
      qed
    qed
  qed
qed

lemma prepare_mutation_target_yields: "yields (prepare_mutation_target e base input) prepared_ok"
  unfolding prepare_mutation_target_def
  by (rule quiet_leads, intro quiet_rules, rule prepared_split, rule prepared_return, rule prepare_target_yields)

text \<open>The checks that directly precede an effect.\<close>

definition checks :: "prepared_target \<Rightarrow> fs_event list" where
  "checks p = [SysFstat (pt_source p) (pt_identity p), SysStat (pt_parent p) (pt_leaf p) (pt_identity p)] @
     (if pt_kind p = KindDir then [SysEmpty (pt_source p), SysFstat (pt_source p) (pt_identity p)] else [])"

lemma inert_checks [simp]: "inert (checks p)"
  by (simp add: checks_def)

lemma revalidate_yields: "yields (revalidate_target e p) (\<lambda>r d. inert d \<and> (r = None \<longrightarrow> d = checks p))"
  unfolding revalidate_target_def checks_def
proof (rule yields_look_bind, goal_cases)
  case (1 c)
  show ?case
  proof (cases c)
    case (Some err)
    show ?thesis unfolding Some option.case by (rule yields_return) simp
  next
    case None
    have em: "yields (directory_empty e (pt_source p)) (\<lambda>r t. inert t \<and> (r = Inr True \<longrightarrow> t = [SysEmpty (pt_source p)]))"
      unfolding directory_empty_def
      by (intro yields_intro) (auto split: list.split sum.split option.split intro!: yields_intro)
    show ?thesis unfolding None option.case
      by (intro yields_sys yields_if yields_return yields_then[OF em])
        (auto split: sum.split bool.split if_splits intro!: yields_sys yields_intro)
  qed
qed


text \<open>An operation that has no effect when it fails, and a guarded one otherwise; \<open>effect\<close> and \<open>after\<close>
  depend on the operation.\<close>

definition guarded_effect ::
  "fs_env \<Rightarrow> string \<Rightarrow> (prepared_target \<Rightarrow> fs_event list \<Rightarrow> bool) \<Rightarrow> fs_event list \<Rightarrow> bool" where
  "guarded_effect e expected effects d \<longleftrightarrow>
     (\<exists>p before tail. d = before @ checks p @ tail \<and> opened_target p before \<and>
        pt_fingerprint e p = expected \<and> effects p tail)"

lemma checked_effect:
  assumes "prepared_ok (Inr p) before" "pt_fingerprint e p = expected" "effects p tail"
  shows "guarded_effect e expected effects (before @ checks p @ tail)"
  unfolding guarded_effect_def using assms by (auto simp: prepared_ok_def)

lemma opened_later: "opened_target p before \<Longrightarrow> inert d \<Longrightarrow> opened_target p (before @ d)"
  by (auto simp: opened_target_def)


definition deletes :: "prepared_target \<Rightarrow> fs_event list \<Rightarrow> bool" where
  "deletes p tail \<longleftrightarrow> tail = [SysUnlink (pt_parent p) (pt_leaf p) (pt_kind p)]"

lemma delete_yields:
  "yields (delete_target e base input expected) (\<lambda>r d.
     if isl r then inert d
     else guarded_effect e expected deletes d)"
  unfolding delete_target_def
proof (rule yields_then[OF prepare_mutation_target_yields], goal_cases)
  case (1 target before)
  show ?case
  proof (cases target)
    case (Inl err)
    with 1 show ?thesis by (simp, intro yields_return) (simp add: prepared_ok_def)
  next
    case (Inr p)
    with 1 have ok: "prepared_ok (Inr p) before" "inert before" by (simp_all add: prepared_ok_def)
    show ?thesis unfolding Inr sum.case
    proof (rule yields_if, rule yields_return, simp add: ok, rule yields_then[OF revalidate_yields], goal_cases)
      case (1 changed d)
      show ?case
      proof (cases changed)
        case (Some err)
        show ?thesis unfolding Some option.case by (rule yields_return) (use 1 ok in simp)
      next
        case None
        with 1 have d: "d = checks p" "pt_fingerprint e p = expected" by simp_all
        show ?thesis unfolding None option.case
        proof (rule yields_sys_effect, goal_cases)
          case (1 err)
          show ?case by (rule yields_return) (simp add: d ok)
        next
          case 2
          show ?case
            by (rule yields_return) (simp add: d checked_effect[OF ok(1) d(2)] deletes_def)
        qed
      qed
    qed
  qed
qed


text \<open>C21. A delete removes what was asked for.  A failed delete has had no effect.  A successful one
  removed one name, directly after the descriptor that was opened for it and the name itself still
  had the identity whose fingerprint the caller expects, and, for a directory, was seen empty.\<close>

theorem delete_guarded:
  assumes "run_state (delete_target e base input expected) w = (r, w')" "tk_trace w = []"
  shows "if isl r then inert (tk_trace w') else guarded_effect e expected deletes (tk_trace w')"
proof -
  have "\<exists>d. tk_trace (snd (run_state (delete_target e base input expected) w)) = tk_trace w @ d \<and>
      (if isl (fst (run_state (delete_target e base input expected) w)) then inert d
       else guarded_effect e expected deletes d)"
    using delete_yields unfolding yields_def by blast
  with assms show ?thesis by simp
qed

text \<open>The tail of a move that ended in \<open>r\<close>.\<close>

definition moves :: "fs_code + (resolved \<times> string) \<Rightarrow> prepared_target \<Rightarrow> fs_event list \<Rightarrow> bool" where
  "moves r p tail \<longleftrightarrow>
     (\<exists>between parent leaf after. tail = between @ SysRenameExcl (pt_parent p) (pt_leaf p) parent leaf # after \<and>
        inert between \<and>
        (if isl r then r = Inl FsUncertain \<and> after = [] else \<exists>s. after = [SysFstat (pt_source p) s]))"

definition moved :: "fs_env \<Rightarrow> string \<Rightarrow> fs_code + (resolved \<times> string) \<Rightarrow> fs_event list \<Rightarrow> bool" where
  "moved e expected r d \<longleftrightarrow> isl r \<and> inert d \<or> guarded_effect e expected (moves r) d"

lemma moved_failed: "inert d \<Longrightarrow> moved e expected (Inl err) d"
  by (simp add: moved_def)

lemma moved_after: "inert d \<Longrightarrow> moved e expected r d' \<Longrightarrow> moved e expected r (d @ d')"
proof -
  assume d: "inert d" and m: "moved e expected r d'"
  show ?thesis
  proof (cases "isl r \<and> inert d'")
    case True
    with d show ?thesis by (simp add: moved_def)
  next
    case False
    with m obtain p before tail where "d' = before @ checks p @ tail" "opened_target p before"
      "pt_fingerprint e p = expected" "moves r p tail"
      by (auto simp: moved_def guarded_effect_def)
    moreover from this d have "opened_target p (d @ before)" by (auto simp: opened_target_def)
    ultimately show ?thesis
      unfolding moved_def guarded_effect_def by (intro disjI2 exI[of _ p] exI[of _ "d @ before"] exI[of _ tail]) simp
  qed
qed

lemma movesI:
  "inert b \<Longrightarrow> (if isl r then r = Inl FsUncertain \<and> after = [] else \<exists>s. after = [SysFstat (pt_source p) s]) \<Longrightarrow>
     moves r p (b @ SysRenameExcl (pt_parent p) (pt_leaf p) parent leaf # after)"
  unfolding moves_def by blast

lemma rename_yields:
  "yields (rename_target e p parent leaf up) (\<lambda>r d. isl r \<and> inert d \<or> (\<forall>b. inert b \<longrightarrow> moves r p (b @ d)))"
  unfolding rename_target_def
proof (rule yields_sys_effect, goal_cases)
  case (1 err)
  show ?case unfolding option.case by (rule yields_return) simp
next
  case 2
  show ?case unfolding option.case
    by (rule yields_sys_fstat; rule yields_return) (auto intro: movesI)
qed

lemma move_to_yields:
  assumes "prepared_ok (Inr p) before" "pt_fingerprint e p = expected"
  shows "yields (move_to e p parent leaf up) (\<lambda>r d. moved e expected r (before @ d))"
proof -
  have i: "inert before" using assms(1) by (simp add: prepared_ok_def)
  have stop: "yields (State_Monad.return (Inl err)) (\<lambda>r d. moved e expected r (before @ (b @ d)))" if "inert b" for err b
    by (rule yields_return) (simp add: moved_failed i that)
  show ?thesis unfolding move_to_def
  proof (rule yields_then[OF quiet_absent], goal_cases)
    case (1 taken d1)
    show ?case
    proof (cases taken)
      case (Some err)
      show ?thesis unfolding Some option.case by (rule stop[OF 1])
    next
      case None
      show ?thesis unfolding None option.case
      proof (rule yields_then[OF revalidate_yields], goal_cases)
        case (1 changed d2)
        show ?case
        proof (cases changed)
          case (Some err)
          show ?thesis unfolding Some option.case
            using stop[of "d1 @ d2" err] 1 \<open>inert d1\<close> by simp
        next
          case None
          with 1 have d2: "d2 = checks p" by simp
          show ?thesis unfolding None option.case
          proof (rule yields_then[OF quiet_absent], goal_cases)
            case (1 again d3)
            show ?case
            proof (cases again)
              case (Some err)
              show ?thesis unfolding Some option.case
                using stop[of "d1 @ d2 @ d3" err] 1 \<open>inert d1\<close> d2 by simp
            next
              case None
              have ok: "prepared_ok (Inr p) (before @ d1)"
                using assms(1) \<open>inert d1\<close> by (auto simp: prepared_ok_def opened_target_def)
              show ?thesis unfolding None option.case
              proof (rule yields_weaken[OF rename_yields], goal_cases)
                case (1 r d)
                then consider "isl r" "inert d" | "moves r p (d3 @ d)" using \<open>inert d3\<close> by blast
                then show ?case
                proof cases
                  case 1
                  with i \<open>inert d1\<close> \<open>inert d3\<close> d2 show ?thesis by (simp add: moved_def)
                next
                  case 2
                  from checked_effect[OF ok assms(2), of "moves r", OF 2] d2 show ?thesis by (simp add: moved_def)
                qed
              qed
            qed
          qed
        qed
      qed
    qed
  qed
qed


lemma quiet_moves:
  assumes "quiet m" "\<And>x. yields (g x) (moved e expected)"
  shows "yields (State_Monad.bind m g) (moved e expected)"
  by (rule yields_then[OF assms(1)], rule yields_weaken[OF assms(2)]) (rule moved_after)

lemma moved_return: "yields (State_Monad.return (Inl err)) (moved e expected)"
  by (rule yields_return) (simp add: moved_failed)

lemma moved_split:
  "(\<And>l. r = Inl l \<Longrightarrow> yields (f l) (moved e expected)) \<Longrightarrow> (\<And>v. r = Inr v \<Longrightarrow> yields (h v) (moved e expected)) \<Longrightarrow>
     yields (case r of Inl l \<Rightarrow> f l | Inr v \<Rightarrow> h v) (moved e expected)"
  by (cases r) simp_all

lemma move_yields: "yields (move_target e base source destination expected) (moved e expected)"
  unfolding move_target_def
proof (rule quiet_moves, intro quiet_rules, rule moved_split, rule moved_return,
    rule quiet_moves[OF quiet_clone], rule moved_split, rule moved_return,
    rule yields_then[OF prepare_target_yields], goal_cases)
  case (1 root d source_root sd target before)
  show ?case
  proof (cases target)
    case (Inl err)
    with 1 show ?thesis unfolding Inl sum.case
      by (intro yields_return) (simp add: prepared_ok_def moved_failed)
  next
    case (Inr p)
    with 1 have ok: "prepared_ok (Inr p) before" "inert before" by (simp_all add: prepared_ok_def)
    have stop: "yields (State_Monad.return (Inl err)) (\<lambda>r d. moved e expected r (before @ (b @ d)))" if "inert b" for err b
      by (rule yields_return) (simp add: moved_failed ok that)
    show ?thesis unfolding Inr sum.case
    proof (rule yields_if, goal_cases)
      case 1
      show ?case using stop[of "[]"] by simp
    next
      case 2
      then have fp: "pt_fingerprint e p = expected" by simp
      show ?case
      proof (rule yields_then[OF quiet_clone], goal_cases)
        case (1 dr d1)
        show ?case
        proof (cases dr)
          case (Inl err)
          show ?thesis unfolding Inl sum.case by (rule stop[OF 1])
        next
          case (Inr dd)
          show ?thesis unfolding Inr sum.case
          proof (rule yields_then[OF quiet_parent], goal_cases)
            case (1 pr d2)
            have i: "inert (d1 @ d2)" using 1 \<open>inert d1\<close> by simp
            show ?case
            proof (cases pr)
              case (Inl err)
              show ?thesis unfolding Inl sum.case using stop[OF i] by simp
            next
              case (Inr placed)
              obtain parent leaf up where placed: "placed = (parent, leaf, up)" by (metis prod.exhaust)
              have "prepared_ok (Inr p) (before @ (d1 @ d2))"
                using ok i by (auto simp: prepared_ok_def opened_target_def)
              from move_to_yields[OF this fp] show ?thesis unfolding Inr placed sum.case prod.case by simp
            qed
          qed
        qed
      qed
    qed
  qed
qed

text \<open>C22. A move takes what was asked for and never overwrites.  A move that fails has had no effect,
  unless it reports that its outcome is uncertain.  Otherwise one exclusive rename was made, after
  the descriptor that was opened for the source and its name still had the identity whose fingerprint
  the caller expects, and nothing else was changed before or after it.\<close>

theorem move_guarded:
  assumes "run_state (move_target e base source destination expected) w = (r, w')" "tk_trace w = []"
  shows "isl r \<and> inert (tk_trace w') \<or> guarded_effect e expected (moves r) (tk_trace w')"
proof -
  have "\<exists>d. tk_trace (snd (run_state (move_target e base source destination expected) w)) = tk_trace w @ d \<and>
      moved e expected (fst (run_state (move_target e base source destination expected) w)) d"
    using move_yields unfolding yields_def by blast
  with assms show ?thesis by (simp add: moved_def)
qed

section \<open>A directory\<close>

text \<open>A vault whose root holds the empty directory \<open>Old\<close> and nothing interferes.\<close>

definition demo_dir_stamp :: raw_stamp where
  "demo_dir_stamp = \<lparr>st_device = 1, st_inode = 2, st_mode = 0x41C0, st_uid = 501, st_nlink = 2, st_size = 64,
     st_mtime_sec = 10, st_mtime_nsec = 0, st_ctime_sec = 10, st_ctime_nsec = 0\<rparr>"

definition demo_fs :: fs_env where
  "demo_fs = \<lparr>fe_vault = demo_vault, fe_sha = (\<lambda>s. s),
     fe_scan = (\<lambda>t. if t < 10 then Inr [Inr [''Old'']] else Inr []), fe_stat = (\<lambda>t. Inr demo_dir_stamp),
     fe_fstat = (\<lambda>t. Inr demo_dir_stamp), fe_open = (\<lambda>t. None), fe_read = (\<lambda>t. ('''', Some IoEOF)),
     fe_seek = (\<lambda>t. None), fe_effect = (\<lambda>t. None), fe_write = (\<lambda>t. (0, None))\<rparr>"

definition demo_fs_world :: fs_world where
  "demo_fs_world = \<lparr>tk_tick = 0, tk_trace = [], fw_in = '''', fw_out = ''''\<rparr>"

lemma demo_names:
  "normalize_rel '''' ''Old'' = Inr ''Old''" "rel_segments ''Old'' = [''Old'']" "join_rel ''.'' ''Old'' = ''Old''"
  "denied_segment ''Old'' = False" "stamp_kind demo_dir_stamp = KindDir"
  by code_simp+

lemma demo_fs_parts:
  "fe_vault demo_fs = demo_vault" "fe_scan demo_fs = (\<lambda>t. if t < 10 then Inr [Inr [''Old'']] else Inr [])"
  "fe_stat demo_fs = (\<lambda>t. Inr demo_dir_stamp)" "fe_fstat demo_fs = (\<lambda>t. Inr demo_dir_stamp)"
  "fe_open demo_fs = (\<lambda>t. None)" "fe_effect demo_fs = (\<lambda>t. None)"
  by (simp_all add: demo_fs_def)

lemma demo_vault_parts: "vf_ctx demo_vault = (\<lambda>k. None)" "vf_nfc demo_vault = (\<lambda>s. s)"
  by (simp_all add: demo_vault_def)

lemmas demo_steps = prepare_mutation_target_def fs_open_root_def prepare_target_from_root_def prepare_mutation_parent_def
  match_mutation_name_def classify_names_def classified_def matched_def sys_stat_def sys_fstat_def sys_open_def moment_def
  finish_target_def directory_empty_def look_def emit_def revalidate_target_def sys_effect_def
  demo_fs_world_def

lemma demo_delete:
  "\<exists>res w'. run_state (delete_target demo_fs '''' ''Old'' (mutation_fingerprint demo_fs ''Old'' KindDir demo_dir_stamp))
     demo_fs_world = (Inr res, w')"
  by (simp add: delete_target_def pt_fingerprint_def demo_names demo_fs_parts demo_vault_parts demo_steps)

theorem delete_guarded_witness:
  "\<exists>res w'. run_state (delete_target demo_fs '''' ''Old'' (mutation_fingerprint demo_fs ''Old'' KindDir demo_dir_stamp))
     demo_fs_world = (Inr res, w') \<and>
   guarded_effect demo_fs (mutation_fingerprint demo_fs ''Old'' KindDir demo_dir_stamp) deletes (tk_trace w')"
proof -
  from demo_delete obtain res w' where run: "run_state (delete_target demo_fs '''' ''Old''
    (mutation_fingerprint demo_fs ''Old'' KindDir demo_dir_stamp)) demo_fs_world = (Inr res, w')" by blast
  have "tk_trace demo_fs_world = []" by (simp add: demo_fs_world_def)
  from delete_guarded[OF run this] run show ?thesis by auto
qed


lemma demo_new_names:
  "normalize_rel '''' ''New'' = Inr ''New''" "rel_segments ''New'' = [''New'']"
  "same_entry demo_dir_stamp demo_dir_stamp"
  by code_simp+

lemma demo_move:
  "\<exists>res w'. run_state (move_target demo_fs '''' ''Old'' ''New'' (mutation_fingerprint demo_fs ''Old'' KindDir demo_dir_stamp))
     demo_fs_world = (Inr res, w')"
  by (simp add: move_target_def clone_mutation_root_def move_to_def rename_target_def must_be_absent_def
      pt_fingerprint_def demo_names demo_new_names demo_fs_parts demo_vault_parts demo_steps)

theorem move_guarded_witness:
  "\<exists>res w'. run_state (move_target demo_fs '''' ''Old'' ''New'' (mutation_fingerprint demo_fs ''Old'' KindDir demo_dir_stamp))
     demo_fs_world = (Inr res, w') \<and>
   guarded_effect demo_fs (mutation_fingerprint demo_fs ''Old'' KindDir demo_dir_stamp) (moves (Inr res)) (tk_trace w')"
proof -
  from demo_move obtain res w' where run: "run_state (move_target demo_fs '''' ''Old'' ''New''
    (mutation_fingerprint demo_fs ''Old'' KindDir demo_dir_stamp)) demo_fs_world = (Inr res, w')" by blast
  have "tk_trace demo_fs_world = []" by (simp add: demo_fs_world_def)
  from move_guarded[OF run this] run show ?thesis by auto
qed


theorem fingerprint_binds_witness:
  "source_version KindDir demo_dir_stamp = source_version KindDir (demo_dir_stamp\<lparr>st_nlink := 5\<rparr>)"
proof -
  have same: "mutation_fingerprint demo_fs ''Old'' KindDir demo_dir_stamp =
      mutation_fingerprint demo_fs ''Old'' KindDir (demo_dir_stamp\<lparr>st_nlink := 5\<rparr>)"
    by (simp add: mutation_fingerprint_def framed_source_def)
  have range: "stat_range demo_dir_stamp" "stat_range (demo_dir_stamp\<lparr>st_nlink := 5\<rparr>)"
    by (simp_all add: stat_range_def demo_dir_stamp_def)
  have "inj_on (fe_sha demo_fs) S" for S by (simp add: demo_fs_def)
  from fingerprint_binds[OF same this range] show ?thesis by simp
qed

end
