(* ===== verification/MutationHelper.thy ===== *)
theory MutationHelper
  imports MutationTarget
begin

text \<open>
  The helper process of a mutation (\<^verbatim>\<open>internal/fsx/mutation_helper_darwin.go\<close>) and the removal of its
  stage (\<^verbatim>\<open>mutation_launcher_darwin.go\<close>: \<^verbatim>\<open>mutationParentCleanupStage\<close>, which both sides use).  The
  helper speaks the control protocol over one socket and touches two names of one directory.
\<close>

record helper_env =
  he_fs :: fs_env
  he_codec :: codec
  he_exe :: "nat \<Rightarrow> raw_stamp option"
  he_euid :: "32 word"

section \<open>The socket and the stage\<close>

text \<open>Writers that take as much as the schedule lets them.\<close>

definition socket_writer :: "fs_env \<Rightarrow> fs_world writer" where
  "socket_writer e v w =
     (case fe_write e (tk_tick w) of
        (n, err) \<Rightarrow> ((min n (length v), err),
          w\<lparr>tk_tick := tk_tick w + 1, fw_out := fw_out w @ take n v\<rparr>))"

definition stage_writer :: "fs_env \<Rightarrow> fd \<Rightarrow> fs_world writer" where
  "stage_writer e d v w =
     (case fe_write e (tk_tick w) of
        (n, err) \<Rightarrow> ((min n (length v), err),
          w\<lparr>tk_tick := tk_tick w + 1, tk_trace := tk_trace w @ [SysWrite d (take n v)]\<rparr>))"

definition send_msg ::
  "fs_env \<Rightarrow> codec \<Rightarrow> mut_protocol \<Rightarrow> mut_control \<Rightarrow> (mut_err option \<times> mut_protocol) fs_io" where
  "send_msg e cd p c = do {
     r \<leftarrow> State (\<lambda>w. case send_control cd p (Some (socket_writer e)) c w of (err, p', w') \<Rightarrow> ((err, p'), w'));
     (if fst r = None then emit (SentControl c) else State_Monad.return ());
     State_Monad.return r
   }"

definition receive_msg ::
  "codec \<Rightarrow> mut_protocol \<Rightarrow> ((mut_err + mut_control) \<times> mut_protocol) fs_io" where
  "receive_msg cd p = do {
     r \<leftarrow> State (\<lambda>w. case receive_control cd p (Some (fw_in w)) of
            (r, p', rest) \<Rightarrow> ((r, p'), w\<lparr>fw_in := (case rest of Some s \<Rightarrow> s | None \<Rightarrow> '''')\<rparr>));
     (case fst r of Inr c \<Rightarrow> emit (GotControl c) | Inl _ \<Rightarrow> State_Monad.return ());
     State_Monad.return r
   }"

definition receive_bytes :: "mut_protocol \<Rightarrow> nat \<Rightarrow> ((mut_err + string) \<times> mut_protocol) fs_io" where
  "receive_bytes p n = do {
     r \<leftarrow> State (\<lambda>w. case receive_payload p n (fw_in w) of (r, p', rest) \<Rightarrow> ((r, p'), w\<lparr>fw_in := rest\<rparr>));
     (case fst r of Inr v \<Rightarrow> emit (GotPayload v) | Inl _ \<Rightarrow> State_Monad.return ());
     State_Monad.return r
   }"

definition write_stage :: "fs_env \<Rightarrow> fd \<Rightarrow> string \<Rightarrow> io_err option fs_io" where
  "write_stage e d payload = State (write_all (stage_writer e d) payload)"

section \<open>Stages\<close>

definition valid_stage_for_cleanup :: "32 word \<Rightarrow> raw_stamp \<Rightarrow> int \<Rightarrow> bool" where
  "valid_stage_for_cleanup euid s n \<longleftrightarrow>
     st_mode s AND s_ifmt = s_ifreg \<and> st_uid s = euid \<and> st_nlink s = 1 \<and> st_mode s AND 0x1FF = 0x180 \<and>
     st_size s = n"

definition same_stage :: "raw_stamp \<Rightarrow> raw_stamp \<Rightarrow> bool" where
  "same_stage s t \<longleftrightarrow> st_device s = st_device t \<and> st_inode s = st_inode t \<and> st_mode s = st_mode t \<and>
     st_uid s = st_uid t \<and> st_nlink s = st_nlink t"

definition cleanup_stage :: "fs_env \<Rightarrow> 32 word \<Rightarrow> fd \<Rightarrow> string \<Rightarrow> raw_stamp \<Rightarrow> bool fs_io" where
  "cleanup_stage e euid parent leaf expected = do {
     st \<leftarrow> sys_stat e parent leaf;
     (case st of
        Inl err \<Rightarrow> State_Monad.return (err = ENOENT)
      | Inr s \<Rightarrow>
          if \<not> valid_stage_for_cleanup euid s (st_size s) \<or> st_size s > uint max_payload_bytes
          then State_Monad.return False
          else if expected \<noteq> zero_stamp \<and> \<not> same_stage s expected then State_Monad.return True
          else do {
            failed \<leftarrow> sys_effect e (SysUnlink parent leaf KindFile);
            State_Monad.return (failed = None \<or> failed = Some ENOENT) })
   }"

section \<open>Checks\<close>

definition fstat_directory :: "fs_env \<Rightarrow> fd \<Rightarrow> bool fs_io" where
  "fstat_directory e d = do {
     st \<leftarrow> sys_fstat e d;
     State_Monad.return (case st of Inl _ \<Rightarrow> False | Inr s \<Rightarrow> st_mode s AND s_ifmt = s_ifdir)
   }"

definition fstat_regular :: "fs_env \<Rightarrow> fd \<Rightarrow> raw_stamp \<Rightarrow> bool fs_io" where
  "fstat_regular e d expected = do {
     st \<leftarrow> sys_fstat e d;
     State_Monad.return (st = Inr expected \<and> st_mode expected AND s_ifmt = s_ifreg)
   }"

definition name_matches :: "fs_env \<Rightarrow> fd \<Rightarrow> string \<Rightarrow> raw_stamp \<Rightarrow> bool fs_io" where
  "name_matches e parent leaf expected = do {
     st \<leftarrow> sys_stat e parent leaf;
     State_Monad.return (st = Inr expected)
   }"

section \<open>Terminals\<close>

definition terminal_control :: "mut_operation \<Rightarrow> raw_stamp \<Rightarrow> mut_terminal \<Rightarrow> mut_code \<Rightarrow> mut_control" where
  "terminal_control op identity t k =
     (plain_control op PhaseTerminal)\<lparr>mc_stage_identity := identity, mc_terminal := t, mc_terminal_code := k\<rparr>"

abbreviation committed :: "mut_operation \<Rightarrow> raw_stamp \<Rightarrow> mut_control" where
  "committed op identity \<equiv> terminal_control op identity TermCommitted CodeCommitted"

abbreviation refusal :: "mut_operation \<Rightarrow> mut_code \<Rightarrow> mut_control" where
  "refusal op k \<equiv> terminal_control op zero_stamp TermRefused k"

abbreviation failure_of :: "mut_operation \<Rightarrow> mut_code \<Rightarrow> mut_control" where
  "failure_of op k \<equiv> terminal_control op zero_stamp TermError k"

abbreviation uncertain_of :: "mut_operation \<Rightarrow> mut_control" where
  "uncertain_of op \<equiv> terminal_control op zero_stamp TermUncertain CodeUncertain"

text \<open>The rename and what follows it: the terminal, and whether the stage is gone.\<close>

definition after_rename :: "fs_env \<Rightarrow> mut_operation \<Rightarrow> fd \<Rightarrow> (mut_control \<times> bool) fs_io" where
  "after_rename e op stage = do {
     st \<leftarrow> sys_fstat e stage;
     State_Monad.return (case st of Inl _ \<Rightarrow> (uncertain_of op, True) | Inr s \<Rightarrow> (committed op s, True))
   }"

definition commit_replace :: "fs_env \<Rightarrow> mut_control \<Rightarrow> fd \<Rightarrow> fd \<Rightarrow> fd \<Rightarrow> (mut_control \<times> bool) fs_io" where
  "commit_replace e q parent source stage = do {
     same \<leftarrow> fstat_regular e source (mc_expected_source q);
     (if \<not> same then State_Monad.return (refusal (mc_operation q) CodeSourceChanged, False)
      else do {
        named \<leftarrow> name_matches e parent (mc_target_leaf q) (mc_expected_source q);
        (if \<not> named then State_Monad.return (refusal (mc_operation q) CodeSourceChanged, False)
         else do {
           failed \<leftarrow> sys_effect e (SysRename parent (mc_stage_leaf q) parent (mc_target_leaf q));
           (if failed \<noteq> None then State_Monad.return (failure_of (mc_operation q) CodeIO, False)
            else after_rename e (mc_operation q) stage) }) })
   }"

text \<open>The helper looks for the destination under a context that is never cancelled.\<close>

definition background :: "fs_env \<Rightarrow> fs_env" where
  "background e = e\<lparr>fe_vault := (fe_vault e)\<lparr>vf_ctx := (\<lambda>_. None)\<rparr>\<rparr>"

definition commit_create :: "fs_env \<Rightarrow> mut_control \<Rightarrow> fd \<Rightarrow> fd \<Rightarrow> (mut_control \<times> bool) fs_io" where
  "commit_create e q parent stage = do {
     taken \<leftarrow> must_be_absent (background e) (mc_target_leaf q);
     (if taken \<noteq> None then State_Monad.return (refusal (mc_operation q) CodeDestinationExists, False)
      else do {
        failed \<leftarrow> sys_effect e (SysRenameExcl parent (mc_stage_leaf q) parent (mc_target_leaf q));
        (if failed = None then after_rename e (mc_operation q) stage
         else State_Monad.return
           (if failed = Some EEXIST then refusal (mc_operation q) CodeDestinationExists
            else if failed = Some ENOTSUP then failure_of (mc_operation q) CodeUnsupported
            else failure_of (mc_operation q) CodeIO, False)) })
   }"

section \<open>One run\<close>

text \<open>From the announcement of the running executable to the terminal: whether the run ended well, whether
  the stage was renamed, and the stamp the stage is known by.\<close>

definition commit_stage ::
  "helper_env \<Rightarrow> mut_protocol \<Rightarrow> mut_control \<Rightarrow> fd \<Rightarrow> fd option \<Rightarrow> fd \<Rightarrow> raw_stamp \<Rightarrow> (bool \<times> bool \<times> raw_stamp) fs_io" where
  "commit_stage h p q parent source stage stamp = do {
     (terminal, completed) \<leftarrow> (if mc_operation q = MutReplace
       then commit_replace (he_fs h) q parent (the source) stage
       else commit_create (he_fs h) q parent stage);
     clean \<leftarrow> (if completed then State_Monad.return True
       else cleanup_stage (he_fs h) (he_euid h) parent (mc_stage_leaf q) stamp);
     (if \<not> clean then State_Monad.return (False, completed, stamp)
      else do {
        (err, _) \<leftarrow> send_msg (he_fs h) (he_codec h) p terminal;
        State_Monad.return (err = None, completed, stamp) })
   }"

definition fill_stage ::
  "helper_env \<Rightarrow> mut_protocol \<Rightarrow> mut_control \<Rightarrow> fd \<Rightarrow> fd option \<Rightarrow> fd \<Rightarrow> raw_stamp \<Rightarrow> (bool \<times> bool \<times> raw_stamp) fs_io" where
  "fill_stage h p q parent source stage stamp = do {
     (got, p1) \<leftarrow> receive_bytes p (unat (mc_payload_bytes q));
     (case got of
        Inl _ \<Rightarrow> State_Monad.return (False, False, stamp)
      | Inr payload \<Rightarrow> do {
          failed \<leftarrow> write_stage (he_fs h) stage payload;
          (if failed \<noteq> None then State_Monad.return (False, False, stamp)
           else do {
             st \<leftarrow> sys_fstat (he_fs h) stage;
             (case st of
                Inl _ \<Rightarrow> State_Monad.return (False, False, stamp)
              | Inr final \<Rightarrow>
                  if \<not> valid_stage_for_cleanup (he_euid h) final (uint (mc_payload_bytes q))
                  then State_Monad.return (False, False, stamp)
                  else do {
                    (err, p2) \<leftarrow> send_msg (he_fs h) (he_codec h) p1
                      ((plain_control (mc_operation q) PhasePayloadComplete)\<lparr>mc_stage_identity := final\<rparr>);
                    (if err \<noteq> None then State_Monad.return (False, False, final)
                     else do {
                       (commit, p3) \<leftarrow> receive_msg (he_codec h) p2;
                       (case commit of
                          Inl _ \<Rightarrow> State_Monad.return (False, False, final)
                        | Inr _ \<Rightarrow> commit_stage h p3 q parent source stage final) }) }) }) })
   }"

definition announce_stage ::
  "helper_env \<Rightarrow> mut_protocol \<Rightarrow> mut_control \<Rightarrow> fd \<Rightarrow> fd option \<Rightarrow> fd \<Rightarrow> raw_stamp \<Rightarrow> (bool \<times> bool \<times> raw_stamp) fs_io" where
  "announce_stage h p q parent source stage stamp = do {
     exe \<leftarrow> look (he_exe h);
     (case exe of
        None \<Rightarrow> State_Monad.return (False, False, stamp)
      | Some identity \<Rightarrow> do {
          (err, p1) \<leftarrow> send_msg (he_fs h) (he_codec h) p
            ((plain_control (mc_operation q) PhaseStageCreated)\<lparr>mc_executable_identity := identity\<rparr>);
          (if err \<noteq> None then State_Monad.return (False, False, stamp)
           else do {
             (ack, p2) \<leftarrow> receive_msg (he_codec h) p1;
             (case ack of
                Inl _ \<Rightarrow> State_Monad.return (False, False, stamp)
              | Inr _ \<Rightarrow> do {
                  (err2, p3) \<leftarrow> send_msg (he_fs h) (he_codec h) p2
                    ((plain_control (mc_operation q) PhaseStageAnnounced)\<lparr>mc_stage_identity := stamp\<rparr>);
                  (if err2 \<noteq> None then State_Monad.return (False, False, stamp)
                   else fill_stage h p3 q parent source stage stamp) }) }) })
   }"

text \<open>The deferred cleanup runs whenever the stage was not renamed.\<close>

definition run_stage ::
  "helper_env \<Rightarrow> mut_protocol \<Rightarrow> mut_control \<Rightarrow> fd \<Rightarrow> fd option \<Rightarrow> bool fs_io" where
  "run_stage h p q parent source = do {
     stage \<leftarrow> moment;
     made \<leftarrow> sys_effect (he_fs h) (SysCreate stage parent (mc_stage_leaf q));
     (if made \<noteq> None then State_Monad.return False
      else do {
        mode \<leftarrow> look (fe_effect (he_fs h));
        (if mode \<noteq> None then State_Monad.return False
         else do {
           st \<leftarrow> sys_fstat (he_fs h) stage;
           (case st of
              Inl _ \<Rightarrow> State_Monad.return False
            | Inr stamp \<Rightarrow>
                if \<not> valid_stage_for_cleanup (he_euid h) stamp 0 then State_Monad.return False
                else do {
                  (ok, completed, known) \<leftarrow> announce_stage h p q parent source stage stamp;
                  _ \<leftarrow> (if completed then State_Monad.return True
                    else cleanup_stage (he_fs h) (he_euid h) parent (mc_stage_leaf q) known);
                  State_Monad.return ok }) }) })
   }"

definition run_helper_files :: "helper_env \<Rightarrow> fd \<Rightarrow> fd \<Rightarrow> fd option \<Rightarrow> bool fs_io" where
  "run_helper_files h root parent source = do {
     root_ok \<leftarrow> fstat_directory (he_fs h) root;
     (if \<not> root_ok then State_Monad.return False
      else do {
        parent_ok \<leftarrow> fstat_directory (he_fs h) parent;
        (if \<not> parent_ok then State_Monad.return False
         else do {
           (request, p) \<leftarrow> receive_msg (he_codec h) new_protocol_helper;
           (case request of
              Inl _ \<Rightarrow> State_Monad.return False
            | Inr q \<Rightarrow>
                if mc_operation q = MutReplace then
                  (case source of
                     None \<Rightarrow> State_Monad.return False
                   | Some d \<Rightarrow> do {
                       same \<leftarrow> fstat_regular (he_fs h) d (mc_expected_source q);
                       (if same then run_stage h p q parent source else State_Monad.return False) })
                else if source \<noteq> None then State_Monad.return False
                else run_stage h p q parent source) }) })
   }"


section \<open>Traces of messages\<close>

lemma write_all_invariant:
  assumes "\<And>v w. I w \<Longrightarrow> I (snd (wr v w))" "I w"
  shows "I (snd (write_all wr v w))"
  using assms
proof (induction wr v w rule: write_all.induct)
  case (1 wr v w)
  obtain n err w1 where step: "wr v w = ((n, err), w1)" by (metis prod.exhaust)
  with 1(2)[OF 1(3), of v] have w1: "I w1" by simp
  show ?case
  proof (cases "v = [] \<or> err \<noteq> None \<or> n = 0")
    case True
    then show ?thesis using 1(3) w1 step by (subst write_all.simps) auto
  next
    case False
    with 1(1)[OF _ step[symmetric], of n err] 1(2) w1 step show ?thesis
      by (subst write_all.simps) auto
  qed
qed

lemma socket_writer_trace: "tk_trace (snd (socket_writer e v w)) = tk_trace w"
  by (simp add: socket_writer_def split: prod.split)

lemma write_control_trace:
  "tk_trace (snd (write_control cd (Some (socket_writer e)) c w)) = tk_trace w"
proof -
  have keep: "tk_trace (snd (write_all (socket_writer e) v w)) = tk_trace w" for v w
    by (rule write_all_invariant[where I = "\<lambda>u. tk_trace u = tk_trace w"]) (simp_all add: socket_writer_trace)
  show ?thesis
  proof (cases "cd_enc cd c")
    case None
    then show ?thesis by (simp add: write_control_def)
  next
    case (Some encoded)
    obtain r w1 where first: "write_all (socket_writer e) (be_bytes 4 (length encoded)) w = (r, w1)" by fastforce
    obtain r2 w2 where second: "write_all (socket_writer e) encoded w1 = (r2, w2)" by fastforce
    from keep[of "be_bytes 4 (length encoded)" w] keep[of encoded w1] first second show ?thesis
      by (simp add: write_control_def Some split: option.split)
  qed
qed

lemma send_control_cases:
  obtains (refused) "send_control cd p wr c w = (Some ErrProtocol, p, w)"
  | (failed) err w1 where "send_control cd p wr c w = (Some err, p, w1)" "write_control cd wr c w = (Some err, w1)"
  | (sent) w1 where "send_control cd p wr c w = (None, advance p c, w1)" "write_control cd wr c w = (None, w1)"
proof -
  obtain err w1 where wrote: "write_control cd wr c w = (err, w1)" by fastforce
  show thesis
  proof (cases "can_send (mp_side p) (mp_phase p) (mc_phase c) \<and> validate_outgoing p c")
    case False
    then show thesis by (intro refused) (simp add: send_control_def)
  next
    case True
    show thesis
    proof (cases err)
      case None
      with True wrote show thesis by (intro sent) (simp_all add: send_control_def)
    next
      case (Some a)
      with True wrote show thesis by (intro failed) (simp_all add: send_control_def)
    qed
  qed
qed

lemma advance_simps [simp]: "mp_phase (advance p c) = mc_phase c" "mp_side (advance p c) = mp_side p"
  by (simp_all add: advance_def Let_def)

lemma send_yields:
  "yields (send_msg e cd p c) (\<lambda>(err, p') d.
     d = (if err = None then [SentControl c] else []) \<and> mp_side p' = mp_side p \<and>
     (err = None \<longrightarrow> mp_phase p' = mc_phase c))"
  unfolding yields_def
proof
  fix w :: fs_world
  show "\<exists>d. tk_trace (snd (run_state (send_msg e cd p c) w)) = tk_trace w @ d \<and>
      (case fst (run_state (send_msg e cd p c) w) of (err, p') \<Rightarrow> \<lambda>d.
        d = (if err = None then [SentControl c] else []) \<and> mp_side p' = mp_side p \<and>
        (err = None \<longrightarrow> mp_phase p' = mc_phase c)) d"
    by (rule send_control_cases[of cd p "Some (socket_writer e)" c w])
      (use write_control_trace[of cd e c w] in \<open>simp_all add: send_msg_def emit_def\<close>)
qed

lemma validate_incoming_bound:
  "validate_incoming p c = (True, p1) \<Longrightarrow> (\<exists>q. validate_bound q c) \<and> mp_side p1 = mp_side p"
  by (auto simp: validate_incoming_def Let_def split: if_splits)

definition accepts :: "mut_protocol \<Rightarrow> mut_control \<Rightarrow> mut_protocol \<Rightarrow> bool" where
  "accepts p c p' \<longleftrightarrow> can_receive (mp_side p) (mp_phase p) (mc_phase c) \<and> (\<exists>q. validate_bound q c) \<and>
     mp_phase p' = mc_phase c \<and> mp_side p' = mp_side p"

lemma receive_yields:
  "yields (receive_msg cd p) (\<lambda>(r, p') d.
     case r of Inl _ \<Rightarrow> d = [] | Inr c \<Rightarrow> d = [GotControl c] \<and> accepts p c p')"
  unfolding yields_def
proof
  fix w :: fs_world
  obtain r p' rest where run: "receive_control cd p (Some (fw_in w)) = (r, p', rest)" by (metis prod.exhaust)
  have "accepts p c p'" if "r = Inr c" for c
    using run that by (auto simp: receive_control_def accepts_def dest!: validate_incoming_bound
        split: prod.splits sum.splits if_splits bool.splits)
  then show "\<exists>d. tk_trace (snd (run_state (receive_msg cd p) w)) = tk_trace w @ d \<and>
      (case fst (run_state (receive_msg cd p) w) of (r, p') \<Rightarrow> \<lambda>d.
        case r of Inl _ \<Rightarrow> d = [] | Inr c \<Rightarrow> d = [GotControl c] \<and> accepts p c p') d"
    by (cases r) (simp_all add: receive_msg_def run emit_def)
qed

lemma receive_bytes_yields:
  "yields (receive_bytes p n) (\<lambda>(r, p') d. mp_side p' = mp_side p \<and>
     (case r of Inl _ \<Rightarrow> d = [] | Inr v \<Rightarrow> d = [GotPayload v] \<and> mp_phase p' = PhasePayloadComplete))"
  unfolding yields_def
proof
  fix w :: fs_world
  obtain r p' rest where run: "receive_payload p n (fw_in w) = (r, p', rest)" by (metis prod.exhaust)
  have "mp_side p' = mp_side p \<and> (isl r \<or> mp_phase p' = PhasePayloadComplete)"
    using run by (auto simp: receive_payload_def split: prod.splits sum.splits if_splits)
  then show "\<exists>d. tk_trace (snd (run_state (receive_bytes p n) w)) = tk_trace w @ d \<and>
      (case fst (run_state (receive_bytes p n) w) of (r, p') \<Rightarrow> \<lambda>d. mp_side p' = mp_side p \<and>
        (case r of Inl _ \<Rightarrow> d = [] | Inr v \<Rightarrow> d = [GotPayload v] \<and> mp_phase p' = PhasePayloadComplete)) d"
    by (cases r) (simp_all add: receive_bytes_def run emit_def)
qed

text \<open>The chunks that reach the stage; all of the payload when writing does not fail.\<close>

lemma write_stage_chunks:
  "\<exists>chunks. tk_trace (snd (write_all (stage_writer e d) v w)) = tk_trace w @ map (SysWrite d) chunks \<and>
     (fst (write_all (stage_writer e d) v w) = None \<longrightarrow> concat chunks = v)"
proof (induction "stage_writer e d" v w rule: write_all.induct)
  case (1 v w)
  obtain n err where ans: "fe_write e (tk_tick w) = (n, err)" by fastforce
  let ?w1 = "w\<lparr>tk_tick := tk_tick w + 1, tk_trace := tk_trace w @ [SysWrite d (take n v)]\<rparr>"
  have step: "stage_writer e d v w = ((min n (length v), err), ?w1)" by (simp add: stage_writer_def ans)
  show ?case
  proof (cases "v = []")
    case True
    then show ?thesis by (subst (1 2) write_all.simps) (auto intro: exI[of _ "[]"])
  next
    case v: False
    show ?thesis
    proof (cases "err \<noteq> None \<or> n = 0")
      case True
      with v step show ?thesis
        by (subst (1 2) write_all.simps) (auto intro!: exI[of _ "[take n v]"])
    next
      case False
      from 1[OF v step[symmetric] refl] False v obtain chunks where
        c: "tk_trace (snd (write_all (stage_writer e d) (drop (min n (length v)) v) ?w1)) =
            tk_trace ?w1 @ map (SysWrite d) chunks"
          "fst (write_all (stage_writer e d) (drop (min n (length v)) v) ?w1) = None \<longrightarrow>
            concat chunks = drop (min n (length v)) v"
        by auto
      have again: "write_all (stage_writer e d) v w = write_all (stage_writer e d) (drop (min n (length v)) v) ?w1"
        using v False step by (subst write_all.simps) (simp add: min_def)
      have "take n v @ drop (min n (length v)) v = v" by (simp add: min_def)
      with c show ?thesis unfolding again by (intro exI[of _ "take n v # chunks"]) auto
    qed
  qed
qed

lemma write_stage_yields:
  "yields (write_stage e d payload) (\<lambda>r t. \<exists>chunks. t = map (SysWrite d) chunks \<and> (r = None \<longrightarrow> concat chunks = payload))"
  unfolding yields_def write_stage_def using write_stage_chunks by fastforce


section \<open>The effect and its report\<close>

definition settled_msg :: "mut_control \<Rightarrow> bool" where
  "settled_msg c \<longleftrightarrow> mc_terminal c = TermCommitted \<or> mc_terminal c = TermUncertain"

text \<open>Events before the rename, or of a run without one, and events after it.\<close>

fun unsettled_event :: "fs_event \<Rightarrow> bool" where
  "unsettled_event (SysRename _ _ _ _) = False"
| "unsettled_event (SysRenameExcl _ _ _ _) = False"
| "unsettled_event (SentControl c) = (\<not> settled_msg c)"
| "unsettled_event _ = True"

fun settled_event :: "fs_event \<Rightarrow> bool" where
  "settled_event (SysRename _ _ _ _) = False"
| "settled_event (SysRenameExcl _ _ _ _) = False"
| "settled_event (SentControl c) = settled_msg c"
| "settled_event _ = True"

abbreviation unsettled :: "fs_event list \<Rightarrow> bool" where
  "unsettled d \<equiv> list_all unsettled_event d"

text \<open>Events before the outcome is known: no terminal has been sent.\<close>

fun pending_event :: "fs_event \<Rightarrow> bool" where
  "pending_event (SysRename _ _ _ _) = False"
| "pending_event (SysRenameExcl _ _ _ _) = False"
| "pending_event (SentControl c) = (mc_phase c \<noteq> PhaseTerminal \<and> \<not> settled_msg c)"
| "pending_event _ = True"

abbreviation pending :: "fs_event list \<Rightarrow> bool" where
  "pending d \<equiv> list_all pending_event d"

lemma pending_unsettled [simp]: "pending d \<Longrightarrow> unsettled d"
proof (induction d)
  case (Cons ev d)
  then show ?case by (cases ev) simp_all
qed simp

abbreviation settled :: "fs_event list \<Rightarrow> bool" where
  "settled d \<equiv> list_all settled_event d"

definition effect_of :: "mut_control \<Rightarrow> fd \<Rightarrow> fs_event" where
  "effect_of q parent =
     (if mc_operation q = MutReplace then SysRename parent (mc_stage_leaf q) parent (mc_target_leaf q)
      else SysRenameExcl parent (mc_stage_leaf q) parent (mc_target_leaf q))"

text \<open>What directly precedes it when a file is replaced: the opened source and the name of the target
  are still the version the request expects.\<close>

definition source_checks :: "mut_control \<Rightarrow> fd \<Rightarrow> fd option \<Rightarrow> fs_event list" where
  "source_checks q parent source =
     [SysFstat (the source) (mc_expected_source q), SysStat parent (mc_target_leaf q) (mc_expected_source q)]"

definition committed_run :: "mut_control \<Rightarrow> fd \<Rightarrow> fd option \<Rightarrow> fs_event list \<Rightarrow> bool" where
  "committed_run q parent source t \<longleftrightarrow>
     (\<exists>a payload stage chunks b commit pre post.
        t = a @ GotPayload payload # map (SysWrite stage) chunks @ b @ GotControl commit # pre @
            effect_of q parent # post \<and>
        concat chunks = payload \<and> mc_phase commit = PhaseCommit \<and>
        (mc_operation q = MutReplace \<longrightarrow> pre = source_checks q parent source) \<and>
        pending a \<and> pending b \<and> pending pre \<and> settled post)"

definition renamed :: "mut_control \<Rightarrow> fd \<Rightarrow> fd option \<Rightarrow> fs_event list \<Rightarrow> bool" where
  "renamed q parent source d \<longleftrightarrow>
     (\<exists>pre post. d = pre @ effect_of q parent # post \<and> pending pre \<and> settled post \<and>
        (mc_operation q = MutReplace \<longrightarrow> pre = source_checks q parent source))"

lemma renamedI:
  "pending pre \<Longrightarrow> settled post \<Longrightarrow> (mc_operation q = MutReplace \<Longrightarrow> pre = source_checks q parent source) \<Longrightarrow>
     renamed q parent source (pre @ effect_of q parent # post)"
  unfolding renamed_def by blast

lemma renamed_more:
  assumes "renamed q parent source d" "settled d'"
  shows "renamed q parent source (d @ d')"
proof -
  from assms(1) obtain pre post where d: "d = pre @ effect_of q parent # post" "pending pre" "settled post"
    "mc_operation q = MutReplace \<longrightarrow> pre = source_checks q parent source"
    unfolding renamed_def by blast
  with assms(2) renamedI[of pre "post @ d'" q parent source] show ?thesis by simp
qed

definition commit_ok :: "mut_control \<Rightarrow> fd \<Rightarrow> fd option \<Rightarrow> mut_control \<times> bool \<Rightarrow> fs_event list \<Rightarrow> bool" where
  "commit_ok q parent source r d \<longleftrightarrow>
     (case r of (terminal, completed) \<Rightarrow>
        if completed then settled_msg terminal \<and> renamed q parent source d
        else \<not> settled_msg terminal \<and> unsettled d)"

lemma settled_msg_simps [simp]:
  "settled_msg (committed op s)" "settled_msg (uncertain_of op)" "\<not> settled_msg (refusal op k)"
  "\<not> settled_msg (failure_of op k)" "\<not> settled_msg ((plain_control op ph)\<lparr>mc_stage_identity := s\<rparr>)"
  "\<not> settled_msg ((plain_control op ph)\<lparr>mc_executable_identity := s\<rparr>)"
  by (simp_all add: settled_msg_def terminal_control_def plain_control_def)

lemma after_rename_yields:
  "yields (after_rename e op stage) (\<lambda>(terminal, completed) d. completed \<and> settled_msg terminal \<and> settled d)"
  unfolding after_rename_def by (intro yields_sys yields_return) simp_all

lemma commit_replace_yields:
  assumes "mc_operation q = MutReplace"
  shows "yields (commit_replace e q parent (the source) stage) (commit_ok q parent source)"
  unfolding commit_replace_def fstat_regular_def
proof (intro yields_assoc yields_sys yields_return_bind, goal_cases)
  case (1 err)
  show ?case by simp (rule yields_return, simp add: commit_ok_def)
next
  case (2 s)
  show ?case
  proof (rule yields_if, goal_cases)
    case 1
    show ?case by (rule yields_return) (simp add: commit_ok_def)
  next
    case 2
    then have s: "s = mc_expected_source q" by auto
    show ?case unfolding name_matches_def
    proof (intro yields_assoc yields_sys yields_return_bind, goal_cases)
      case (1 err)
      show ?case by simp (rule yields_return, simp add: commit_ok_def)
    next
      case (2 t)
      show ?case
      proof (rule yields_if, goal_cases)
        case 1
        show ?case by (rule yields_return) (simp add: commit_ok_def)
      next
        case 2
        then have t: "t = mc_expected_source q" by simp
        show ?case
        proof (rule yields_sys_effect, goal_cases)
          case (1 err)
          show ?case by simp (rule yields_return, simp add: commit_ok_def)
        next
          case 2
          show ?case
            using renamedI[of "source_checks q parent source" _ q parent source]
            by simp (rule yields_weaken[OF after_rename_yields], auto simp: commit_ok_def s t assms effect_of_def
              source_checks_def)
        qed
      qed
    qed
  qed
qed


lemma commit_create_yields:
  assumes "mc_operation q \<noteq> MutReplace"
  shows "yields (commit_create e q parent stage) (commit_ok q parent source)"
  unfolding commit_create_def
proof (rule yields_then[OF absent_silent], goal_cases)
  case (1 taken d)
  show ?case
  proof (rule yields_if, goal_cases)
    case 1
    show ?case by (rule yields_return) (simp add: commit_ok_def \<open>d = []\<close>)
  next
    case 2
    show ?case
    proof (rule yields_sys_effect, goal_cases)
      case (1 err)
      show ?case by (simp add: yields_return_iff commit_ok_def \<open>d = []\<close>)
    next
      case 2
      show ?case
        using renamedI[of "[]" _ q parent source]
        by simp (rule yields_weaken[OF after_rename_yields], auto simp: commit_ok_def assms effect_of_def \<open>d = []\<close>)
    qed
  qed
qed

lemma cleanup_yields: "yields (cleanup_stage e euid parent leaf expected) (\<lambda>_ d. unsettled d \<and> settled d)"
  unfolding cleanup_stage_def
  by (intro yields_sys) (auto split: sum.split intro!: yields_intro yields_sys)

text \<open>What a run of the helper from some point on leaves: nothing settled, or a rename after the commit of
  a payload that was written whole.\<close>

definition run_ok :: "mut_control \<Rightarrow> fd \<Rightarrow> fd option \<Rightarrow> bool \<Rightarrow> fs_event list \<Rightarrow> bool" where
  "run_ok q parent source completed d \<longleftrightarrow>
     (if completed then committed_run q parent source d else unsettled d)"

lemma run_ok_prepend: "pending a \<Longrightarrow> run_ok q parent source k d \<Longrightarrow> run_ok q parent source k (a @ d)"
proof (cases k)
  case True
  assume a: "pending a" and "run_ok q parent source k d"
  with True have "committed_run q parent source d" by (simp add: run_ok_def)
  then obtain a' payload stage chunks b commit pre post where
    "d = a' @ GotPayload payload # map (SysWrite stage) chunks @ b @ GotControl commit # pre @ effect_of q parent # post"
    "concat chunks = payload" "mc_phase commit = PhaseCommit"
    "mc_operation q = MutReplace \<longrightarrow> pre = source_checks q parent source" "pending a'" "pending b" "pending pre" "settled post"
    unfolding committed_run_def by blast
  then have "committed_run q parent source (a @ d)"
    unfolding committed_run_def using a
    by (intro exI[of _ "a @ a'"] exI[of _ payload] exI[of _ stage] exI[of _ chunks] exI[of _ b] exI[of _ commit]
        exI[of _ pre] exI[of _ post]) simp
  with True show ?thesis by (simp add: run_ok_def)
qed (simp add: run_ok_def)

lemma committed_run_more:
  assumes "committed_run q parent source d" "settled d'"
  shows "committed_run q parent source (d @ d')"
proof -
  from assms(1) obtain a payload stage chunks b commit pre post where
    "d = a @ GotPayload payload # map (SysWrite stage) chunks @ b @ GotControl commit # pre @ effect_of q parent # post"
    "concat chunks = payload" "mc_phase commit = PhaseCommit"
    "mc_operation q = MutReplace \<longrightarrow> pre = source_checks q parent source" "pending a" "pending b" "pending pre" "settled post"
    unfolding committed_run_def by blast
  then show ?thesis
    unfolding committed_run_def using assms(2)
    by (intro exI[of _ a] exI[of _ payload] exI[of _ stage] exI[of _ chunks] exI[of _ b] exI[of _ commit]
        exI[of _ pre] exI[of _ "post @ d'"]) simp
qed

lemma commit_stage_yields:
  "yields (commit_stage h p q parent source stage stamp) (\<lambda>(ok, completed, known) d.
     if completed then renamed q parent source d else unsettled d)"
proof -
  have "yields (if mc_operation q = MutReplace
       then commit_replace (he_fs h) q parent (the source) stage
       else commit_create (he_fs h) q parent stage) (commit_ok q parent source)"
    using commit_replace_yields commit_create_yields by simp
  then show ?thesis unfolding commit_stage_def
  proof (rule yields_then, goal_cases)
    case (1 r d1)
    obtain terminal completed where r: "r = (terminal, completed)" by fastforce
    note c = 1[unfolded r commit_ok_def prod.case]
    have clean: "yields (if completed then State_Monad.return True
        else cleanup_stage (he_fs h) (he_euid h) parent (mc_stage_leaf q) stamp)
      (\<lambda>_ d. unsettled d \<and> settled d)"
      using cleanup_yields by (auto simp: yields_return_iff)
    show ?case unfolding r prod.case
    proof (rule yields_then[OF clean], goal_cases)
      case (1 clean d2)
      note d2 = 1
      show ?case
      proof (rule yields_if, goal_cases)
        case 1
        show ?case using c d2 renamed_more[of q parent source d1 d2] by (simp add: yields_return_iff)
      next
        case 2
        show ?case
        proof (rule yields_then[OF send_yields], goal_cases)
          case (1 sent d3)
          obtain err p' where sent: "sent = (err, p')" by fastforce
          with 1 have d3: "d3 = (if err = None then [SentControl terminal] else [])" by simp
          have "completed \<Longrightarrow> settled (d2 @ d3)" "\<not> completed \<Longrightarrow> unsettled (d2 @ d3)"
            using c d2 d3 by auto
          then show ?case unfolding sent prod.case
            using c renamed_more[of q parent source d1 "d2 @ d3"] by (simp add: yields_return_iff)
        qed
      qed
    qed
  qed
qed


lemma pending_writes [simp]: "pending (map (SysWrite d) chunks)"
  by (induction chunks) simp_all

lemma run_ok_stop: "unsettled d \<Longrightarrow> run_ok q parent source False d"
  by (simp add: run_ok_def)

lemma run_ok_commit:
  assumes "if completed then renamed q parent source d else unsettled d"
    and "concat chunks = payload" "mc_phase commit = PhaseCommit" "pending b"
  shows "run_ok q parent source completed
    (GotPayload payload # map (SysWrite stage) chunks @ b @ GotControl commit # d)"
proof (cases completed)
  case True
  with assms(1) obtain pre post where "d = pre @ effect_of q parent # post" "pending pre" "settled post"
    "mc_operation q = MutReplace \<longrightarrow> pre = source_checks q parent source"
    by (auto simp: renamed_def)
  with assms(2-4) have "committed_run q parent source
      (GotPayload payload # map (SysWrite stage) chunks @ b @ GotControl commit # d)"
    unfolding committed_run_def
    by (intro exI[of _ "[]"] exI[of _ payload] exI[of _ stage] exI[of _ chunks] exI[of _ b] exI[of _ commit]
        exI[of _ pre] exI[of _ post]) simp
  with True show ?thesis by (simp add: run_ok_def)
next
  case False
  with assms show ?thesis by (simp add: run_ok_def)
qed

abbreviation stage_result ::
  "mut_control \<Rightarrow> fd \<Rightarrow> fd option \<Rightarrow> bool \<times> bool \<times> raw_stamp \<Rightarrow> fs_event list \<Rightarrow> bool" where
  "stage_result q parent source \<equiv> (\<lambda>(ok, completed, known) d. run_ok q parent source completed d)"

lemma fill_stage_yields:
  assumes "mp_side p = HelperSide"
  shows "yields (fill_stage h p q parent source stage stamp) (stage_result q parent source)"
  unfolding fill_stage_def
proof (rule yields_then[OF receive_bytes_yields], goal_cases)
  case (1 x d1)
  obtain got p1 where x: "x = (got, p1)" by fastforce
  show ?case
  proof (cases got)
    case (Inl err)
    with 1 x show ?thesis by (simp add: yields_return_iff run_ok_stop)
  next
    case (Inr payload)
    with 1 x assms have d1: "d1 = [GotPayload payload]" "mp_phase p1 = PhasePayloadComplete" "mp_side p1 = HelperSide"
      by simp_all
    show ?thesis unfolding x Inr prod.case sum.case
    proof (rule yields_then[OF write_stage_yields], goal_cases)
      case (1 failed d2)
      then obtain chunks where d2: "d2 = map (SysWrite stage) chunks" "failed = None \<longrightarrow> concat chunks = payload" by blast
      show ?case
      proof (rule yields_if, goal_cases)
        case 1
        show ?case by (simp add: yields_return_iff run_ok_stop d1 d2)
      next
        case 2
        with d2 have whole: "concat chunks = payload" by simp
        show ?case
        proof (rule yields_sys_fstat, goal_cases)
          case (1 err)
          show ?case by (simp add: yields_return_iff run_ok_stop d1 d2)
        next
          case (2 final)
          show ?case unfolding sum.case
          proof (rule yields_if, goal_cases)
            case 1
            show ?case by (simp add: yields_return_iff run_ok_stop d1 d2)
          next
            case 2
            show ?case
            proof (rule yields_then[OF send_yields], goal_cases)
              case (1 sent d3)
              note out = 1
              obtain err p2 where sent: "sent = (err, p2)" by fastforce
              show ?case unfolding sent prod.case
              proof (rule yields_if, goal_cases)
                case 1
                then show ?case using out sent
                  by (simp add: yields_return_iff run_ok_stop d1 d2)
              next
                case 2
                with out sent d1(3) have d3: "pending d3"
                  "mp_phase p2 = PhasePayloadComplete" "mp_side p2 = HelperSide"
                  by (simp_all add: plain_control_def settled_msg_def)
                show ?case
                proof (rule yields_then[OF receive_yields], goal_cases)
                  case (1 y d4)
                  obtain commit p3 where y: "y = (commit, p3)" by fastforce
                  show ?case
                  proof (cases commit)
                    case (Inl err)
                    with 1 y d3 show ?thesis by (simp add: yields_return_iff run_ok_stop d1 d2)
                  next
                    case (Inr c)
                    with 1 y d3 have c: "d4 = [GotControl c]" "mc_phase c = PhaseCommit"
                      by (simp_all add: accepts_def)
                    show ?thesis unfolding y Inr prod.case sum.case
                    proof (rule yields_weaken[OF commit_stage_yields], goal_cases)
                      case (1 z d)
                      obtain ok completed known where z: "z = (ok, completed, known)" by (metis prod.exhaust)
                      with 1 have "if completed then renamed q parent source d else unsettled d" by simp
                      from run_ok_commit[OF this whole c(2), of "SysFstat stage final # d3" stage] d3(1) show ?case
                        by (simp add: z d1 d2 c)
                    qed
                  qed
                qed
              qed
            qed
          qed
        qed
      qed
    qed
  qed
qed


lemma stage_then:
  assumes "yields m (\<lambda>x d. pending d \<and> Q x)" "\<And>x. Q x \<Longrightarrow> yields (g x) (stage_result q parent source)"
  shows "yields (State_Monad.bind m g) (stage_result q parent source)"
proof (rule yields_then[OF assms(1)], elim conjE, rule yields_weaken[OF assms(2)])
  fix x d y d'
  assume "pending d" "stage_result q parent source y d'"
  then show "stage_result q parent source y (d @ d')" by (auto simp: run_ok_prepend split: prod.splits)
qed

lemma send_calm:
  assumes "pending_event (SentControl c)" "mp_side p = HelperSide"
  shows "yields (send_msg e cd p c) (\<lambda>x d. pending d \<and> mp_side (snd x) = HelperSide)"
  by (rule yields_weaken[OF send_yields]) (use assms in \<open>auto split: prod.splits\<close>)

lemma receive_calm:
  assumes "mp_side p = HelperSide"
  shows "yields (receive_msg cd p) (\<lambda>x d. pending d \<and> (isl (fst x) \<or> mp_side (snd x) = HelperSide))"
  by (rule yields_weaken[OF receive_yields]) (use assms in \<open>auto simp: accepts_def split: prod.splits sum.splits\<close>)

lemma announce_stage_yields:
  assumes "mp_side p = HelperSide"
  shows "yields (announce_stage h p q parent source stage stamp) (stage_result q parent source)"
proof -
  have stop: "yields (State_Monad.return (False, False, stamp)) (stage_result q parent source)"
    by (simp add: yields_return_iff run_ok_stop)
  show ?thesis unfolding announce_stage_def
  proof (rule yields_look_bind, goal_cases)
    case (1 exe)
    show ?case
    proof (cases exe)
      case None
      then show ?thesis by (simp add: stop)
    next
      case (Some identity)
      show ?thesis unfolding Some option.case
      proof (rule stage_then[OF send_calm[OF _ assms]], simp add: plain_control_def settled_msg_def, goal_cases)
        case (1 x)
        obtain err p1 where x: "x = (err, p1)" by fastforce
        with 1 have p1: "mp_side p1 = HelperSide" by simp
        show ?case unfolding x prod.case
        proof (rule yields_if[OF stop], rule stage_then[OF receive_calm[OF p1]], goal_cases)
          case (1 y)
          obtain ack p2 where y: "y = (ack, p2)" by fastforce
          show ?case
          proof (cases ack)
            case (Inl err)
            then show ?thesis by (simp add: y stop)
          next
            case (Inr c)
            with 1 y have p2: "mp_side p2 = HelperSide" by simp
            show ?thesis unfolding y Inr prod.case sum.case
            proof (rule stage_then[OF send_calm[OF _ p2]], simp add: plain_control_def settled_msg_def, goal_cases)
              case (1 z)
              obtain err2 p3 where z: "z = (err2, p3)" by fastforce
              with 1 show ?case by (simp add: stop fill_stage_yields)
            qed
          qed
        qed
      qed
    qed
  qed
qed

lemma committed_prepend: "pending a \<Longrightarrow> committed_run q parent source d \<Longrightarrow> committed_run q parent source (a @ d)"
  using run_ok_prepend[of a q parent source True d] by (simp add: run_ok_def)

lemma run_stage_yields:
  assumes "mp_side p = HelperSide"
  shows "yields (run_stage h p q parent source) (\<lambda>ok d. unsettled d \<or> committed_run q parent source d)"
  unfolding run_stage_def moment_def
proof (rule yields_look_bind, rule yields_sys_effect, simp add: yields_return_iff, simp, rule yields_look_bind,
    rule yields_if, simp add: yields_return_iff, rule yields_sys_fstat, simp add: yields_return_iff, goal_cases)
  case (1 stage mode stamp)
  show ?case unfolding sum.case
  proof (rule yields_if, simp add: yields_return_iff, rule yields_then[OF announce_stage_yields[OF assms]], goal_cases)
    case (1 x d1)
    obtain ok completed known where x: "x = (ok, completed, known)" by (metis prod.exhaust)
    have clean: "yields (if completed then State_Monad.return True
        else cleanup_stage (he_fs h) (he_euid h) parent (mc_stage_leaf q) known) (\<lambda>_ d. unsettled d \<and> settled d)"
      using cleanup_yields by (auto simp: yields_return_iff)
    show ?case unfolding x prod.case
    proof (rule yields_then[OF clean], goal_cases)
      case (1 y d2)
      let ?pre = "[SysCreate stage parent (mc_stage_leaf q), SysFstat stage stamp]"
      show ?case
      proof (cases completed)
        case True
        with x \<open>stage_result q parent source x d1\<close> have "committed_run q parent source d1" by (simp add: run_ok_def)
        from committed_prepend[of ?pre, OF _ committed_run_more[OF this]] 1 show ?thesis
          by (simp add: yields_return_iff)
      next
        case False
        with x \<open>stage_result q parent source x d1\<close> 1 show ?thesis by (simp add: yields_return_iff run_ok_def)
      qed
    qed
  qed
qed


definition helper_ok :: "fd \<Rightarrow> fd option \<Rightarrow> fs_event list \<Rightarrow> bool" where
  "helper_ok parent source t \<longleftrightarrow> unsettled t \<or>
     (\<exists>before q tail. t = before @ GotControl q # tail \<and> pending before \<and> mc_phase q = PhaseRequest \<and>
        valid_target_leaf (mc_target_leaf q) \<and> valid_stage_leaf (mc_stage_leaf q) \<and>
        committed_run q parent source tail)"

lemma request_accepted:
  assumes "accepts new_protocol_helper q p"
  shows "mc_phase q = PhaseRequest" "valid_target_leaf (mc_target_leaf q)" "valid_stage_leaf (mc_stage_leaf q)"
    "mp_side p = HelperSide"
  using assms by (auto simp: accepts_def new_protocol_helper_def validate_bound_def)

lemma helper_okI:
  assumes "unsettled d \<or> committed_run q parent source d" "accepts new_protocol_helper q p" "pending before" "pending b"
  shows "helper_ok parent source (before @ GotControl q # b @ d)"
proof (cases "unsettled d")
  case True
  with assms(3,4) show ?thesis by (simp add: helper_ok_def)
next
  case False
  with assms(1,4) have "committed_run q parent source (b @ d)" using committed_prepend by blast
  with assms(3) request_accepted[OF assms(2)] show ?thesis
    unfolding helper_ok_def by (intro disjI2 exI[of _ before] exI[of _ q] exI[of _ "b @ d"]) simp
qed

lemma run_helper_yields: "yields (run_helper_files h root parent source) (\<lambda>ok d. helper_ok parent source d)"
proof -
  have dir: "yields (fstat_directory e d) (\<lambda>_ t. pending t)" for e d
    unfolding fstat_directory_def by (intro yields_sys yields_return) simp_all
  have stop: "yields (State_Monad.return False) (\<lambda>ok d. helper_ok parent source (a @ d))" if "pending a" for a
    using that by (simp add: yields_return_iff helper_ok_def)
  show ?thesis unfolding run_helper_files_def
  proof (rule yields_then[OF dir], rule yields_if, rule stop, assumption, rule yields_then[OF dir], goal_cases)
    case (1 r1 d1 r2 d2)
    have d12: "pending (d1 @ d2)" using 1 by simp
    show ?case
    proof (rule yields_if, goal_cases)
      case 1
      show ?case using stop[OF d12] by simp
    next
      case 2
      show ?case
      proof (rule yields_then[OF receive_yields], goal_cases)
        case (1 x d3)
        obtain request p where x: "x = (request, p)" by fastforce
        show ?case
        proof (cases request)
          case (Inl err)
          with 1 x stop[OF d12] show ?thesis by simp
        next
          case (Inr q)
          with 1 x have q: "d3 = [GotControl q]" "accepts new_protocol_helper q p" by simp_all
          have got: "yields (State_Monad.return False) (\<lambda>ok d. helper_ok parent source (d1 @ d2 @ d3 @ b @ d))"
            if "pending b" for b
            using helper_okI[OF _ q(2) d12 that, of "[]" parent source] by (simp add: yields_return_iff q)
          have run: "yields (run_stage h p q parent source) (\<lambda>ok d. helper_ok parent source (d1 @ d2 @ d3 @ b @ d))"
            if "pending b" for b
            by (rule yields_weaken[OF run_stage_yields[OF request_accepted(4)[OF q(2)]]])
              (use helper_okI[OF _ q(2) d12 that] q in simp)
          show ?thesis unfolding x Inr prod.case sum.case
          proof (rule yields_if, goal_cases)
            case 1
            show ?case
            proof (cases source)
              case None
              then show ?thesis using got[of "[]"] by simp
            next
              case (Some d)
              note got = got[unfolded Some] and run = run[unfolded Some]
              show ?thesis unfolding Some option.case fstat_regular_def
              proof (intro yields_assoc yields_sys yields_return_bind, goal_cases)
                case (1 err)
                show ?case using got[of "[]"] by simp
              next
                case (2 s)
                show ?case using got[of "[SysFstat d s]"] run[of "[SysFstat d s]"]
                  by (intro yields_if) simp_all
              qed
            qed
          next
            case 2
            show ?case using got[of "[]"] run[of "[]"] by (intro yields_if) simp_all
          qed
        qed
      qed
    qed
  qed
qed

text \<open>C20. The helper changes the vault at most once and says so.  Either a run renames nothing and sends no
  terminal that says committed or uncertain, or it renamed its stage once, onto the visible name its
  request asked for: after it had received the whole payload, written all of it and received the
  commit, directly after the source was seen unchanged when a file is replaced and without
  overwriting when one is created; and then every terminal it sends says committed or uncertain.\<close>

theorem helper_settles_once:
  assumes "run_state (run_helper_files h root parent source) w = (ok, w')" "tk_trace w = []"
  shows "helper_ok parent source (tk_trace w')"
proof -
  have "\<exists>d. tk_trace (snd (run_state (run_helper_files h root parent source) w)) = tk_trace w @ d \<and> helper_ok parent source d"
    using run_helper_yields unfolding yields_def by blast
  with assms show ?thesis by simp
qed

end
