(* ===== verification/MutationLauncher.thy ===== *)
theory MutationLauncher
  imports MutationHelper
begin

text \<open>
  The side of a mutation that starts the helper process (\<^verbatim>\<open>internal/fsx/mutation_launcher_darwin.go\<close>:
  \<^verbatim>\<open>runStagedMutation\<close>) and the two operations that use it (\<^verbatim>\<open>mutation_staged_darwin.go\<close>: \<^verbatim>\<open>CreateFile\<close>
  and \<^verbatim>\<open>ReplaceFile\<close>).  The launcher has a trace of its own; the process it starts has the trace of
  \<open>MutationHelper\<close>, and the two meet in the last theorem.
\<close>

datatype ctx_err = CtxDeadline | CtxCanceled

text \<open>\<open>le_ctx\<close> is the context with the launcher's own deadline, \<open>le_slot\<close> the wait for one of the four
  slots, \<open>le_setup\<close> the socket pair, the null device and the start of the process, \<open>le_wait\<close> whether
  the process had to be killed and whether it ended badly.\<close>

record launcher_env =
  le_fs :: fs_env
  le_codec :: codec
  le_euid :: "32 word"
  le_helper :: string
  le_self :: "string option"
  le_ctx :: "nat \<Rightarrow> ctx_err option"
  le_slot :: "nat \<Rightarrow> ctx_err option"
  le_rand :: "nat \<Rightarrow> string option"
  le_setup :: "nat \<Rightarrow> bool"
  le_exe :: "nat \<Rightarrow> raw_stamp option"
  le_wait :: "nat \<Rightarrow> bool \<times> bool"

datatype staged_err = StMut mut_err | StContext ctx_err | StSetup | StUncertain | StCleanup

record staged_mutation =
  sm_executable :: string
  sm_operation :: mut_operation
  sm_parent :: fd
  sm_source :: "fd option"
  sm_leaf :: string
  sm_expected :: raw_stamp
  sm_payload :: string

section \<open>Names and frames\<close>

definition mutation_hex :: "string \<Rightarrow> string \<Rightarrow> string" where
  "mutation_hex label bytes = label @ hex_encode (map of_char bytes)"

definition mutation_stage_leaf :: "launcher_env \<Rightarrow> string option fs_io" where
  "mutation_stage_leaf l = do {
     b \<leftarrow> look (le_rand l);
     State_Monad.return (map_option (mutation_hex ''.pmcg-stage-'') b)
   }"

definition mutation_commit_token :: "launcher_env \<Rightarrow> string option fs_io" where
  "mutation_commit_token l = do {
     b \<leftarrow> look (le_rand l);
     State_Monad.return (map_option (mutation_hex '''') b)
   }"

definition send_bytes ::
  "fs_env \<Rightarrow> mut_protocol \<Rightarrow> string \<Rightarrow> (mut_err option \<times> mut_protocol) fs_io" where
  "send_bytes e p payload = do {
     r \<leftarrow> State (\<lambda>w. case send_payload p (socket_writer e) payload w of (err, p', w') \<Rightarrow> ((err, p'), w'));
     (if fst r = None then emit (SentPayload payload) else State_Monad.return ());
     State_Monad.return r
   }"

definition staged_roles :: "mut_operation \<Rightarrow> 8 word" where
  "staged_roles op =
     (if op = MutReplace then fd_control OR fd_root OR fd_parent OR fd_source
      else fd_control OR fd_root OR fd_parent)"

definition request_control :: "staged_mutation \<Rightarrow> string \<Rightarrow> mut_control" where
  "request_control q leaf =
     (plain_control (sm_operation q) PhaseRequest)
       \<lparr>mc_fd_roles := staged_roles (sm_operation q), mc_payload_bytes := word_of_nat (length (sm_payload q)),
        mc_target_leaf := sm_leaf q, mc_stage_leaf := leaf, mc_expected_source := sm_expected q\<rparr>"

section \<open>One invocation\<close>

definition staged_valid :: "staged_mutation \<Rightarrow> bool" where
  "staged_valid q \<longleftrightarrow>
     int (length (sm_payload q)) \<le> uint max_payload_bytes \<and> valid_operation (sm_operation q) \<and>
     sm_executable q \<noteq> '''' \<and> valid_target_leaf (sm_leaf q) \<and>
     valid_expected_source (sm_operation q) (sm_expected q) \<and>
     \<not> (sm_operation q = MutReplace \<and> sm_source q = None) \<and>
     \<not> (sm_operation q = MutCreate \<and> sm_source q \<noteq> None)"

text \<open>\<^verbatim>\<open>mutationPrecommitError\<close>.\<close>

definition precommit_error :: "launcher_env \<Rightarrow> mut_err \<Rightarrow> staged_err fs_io" where
  "precommit_error l err = do {
     c \<leftarrow> look (le_ctx l);
     State_Monad.return (case c of Some x \<Rightarrow> StContext x | None \<Rightarrow> StMut err)
   }"

definition wait_helper :: "launcher_env \<Rightarrow> bool fs_io" where
  "wait_helper l = do {
     (killed, failed) \<leftarrow> look (le_wait l);
     (if killed then emit Killed else State_Monad.return ());
     State_Monad.return failed
   }"

abbreviation launcher_cleanup :: "launcher_env \<Rightarrow> staged_mutation \<Rightarrow> string \<Rightarrow> raw_stamp \<Rightarrow> bool fs_io" where
  "launcher_cleanup l q leaf identity \<equiv> cleanup_stage (le_fs l) (le_euid l) (sm_parent q) leaf identity"

text \<open>The outcome of an exchange: its result, whether the commit was sent, and the identity the stage is
  known by.  Once the commit is sent, an answer that is missing is uncertain.\<close>

type_synonym exchange = "(staged_err + mut_control) \<times> bool \<times> raw_stamp"

definition settle :: "launcher_env \<Rightarrow> staged_mutation \<Rightarrow> string \<Rightarrow> mut_protocol \<Rightarrow> raw_stamp \<Rightarrow> exchange fs_io" where
  "settle l q leaf p identity = do {
     (answer, _) \<leftarrow> receive_msg (le_codec l) p;
     failed \<leftarrow> wait_helper l;
     (case answer of
        Inl _ \<Rightarrow> do {
          _ \<leftarrow> launcher_cleanup l q leaf identity;
          State_Monad.return (Inl StUncertain, True, identity) }
      | Inr terminal \<Rightarrow>
          if failed then do {
            _ \<leftarrow> launcher_cleanup l q leaf identity;
            State_Monad.return (Inl StUncertain, True, identity) }
          else if mc_terminal terminal \<noteq> TermCommitted \<and> mc_terminal terminal \<noteq> TermUncertain then do {
            clean \<leftarrow> launcher_cleanup l q leaf identity;
            State_Monad.return (if clean then Inr terminal else Inl StCleanup, True, identity) }
          else State_Monad.return (Inr terminal, True, identity))
   }"

definition commit_exchange ::
  "launcher_env \<Rightarrow> staged_mutation \<Rightarrow> string \<Rightarrow> mut_protocol \<Rightarrow> raw_stamp \<Rightarrow> exchange fs_io" where
  "commit_exchange l q leaf p identity = do {
     c \<leftarrow> look (le_ctx l);
     (case c of
        Some x \<Rightarrow> State_Monad.return (Inl (StContext x), False, identity)
      | None \<Rightarrow> do {
          token \<leftarrow> mutation_commit_token l;
          (case token of
             None \<Rightarrow> State_Monad.return (Inl StSetup, False, identity)
           | Some tok \<Rightarrow> do {
               (err, p1) \<leftarrow> send_msg (le_fs l) (le_codec l) p
                 ((plain_control (sm_operation q) PhaseCommit)\<lparr>mc_commit_token := tok\<rparr>);
               (case err of
                  Some x \<Rightarrow> State_Monad.return (Inl (StMut x), False, identity)
                | None \<Rightarrow> settle l q leaf p1 identity) }) })
   }"

text \<open>The rest of the exchange stops with the pre-commit error of the first step that fails.\<close>

definition stop_exchange :: "launcher_env \<Rightarrow> raw_stamp \<Rightarrow> mut_err \<Rightarrow> exchange fs_io" where
  "stop_exchange l identity err = do {
     x \<leftarrow> precommit_error l err;
     State_Monad.return (Inl x, False, identity)
   }"

definition upload ::
  "launcher_env \<Rightarrow> staged_mutation \<Rightarrow> string \<Rightarrow> mut_protocol \<Rightarrow> raw_stamp \<Rightarrow> exchange fs_io" where
  "upload l q leaf p identity = do {
     (err, p1) \<leftarrow> send_bytes (le_fs l) p (sm_payload q);
     (case err of
        Some x \<Rightarrow> stop_exchange l identity x
      | None \<Rightarrow> do {
          (completed, p2) \<leftarrow> receive_msg (le_codec l) p1;
          (case completed of
             Inl x \<Rightarrow> stop_exchange l identity x
           | Inr c \<Rightarrow> commit_exchange l q leaf p2 (mc_stage_identity c)) })
   }"

definition staged_exchange ::
  "launcher_env \<Rightarrow> staged_mutation \<Rightarrow> string \<Rightarrow> mut_protocol \<Rightarrow> raw_stamp \<Rightarrow> exchange fs_io" where
  "staged_exchange l q leaf p exe = do {
     (err, p1) \<leftarrow> send_msg (le_fs l) (le_codec l) p (request_control q leaf);
     (case err of
        Some x \<Rightarrow> stop_exchange l zero_stamp x
      | None \<Rightarrow> do {
          (started, p2) \<leftarrow> receive_msg (le_codec l) p1;
          (case started of
             Inl x \<Rightarrow> stop_exchange l zero_stamp x
           | Inr c \<Rightarrow>
               if mc_executable_identity c \<noteq> exe
               then State_Monad.return (Inl (StMut ErrProtocol), False, zero_stamp)
               else do {
                 (err2, p3) \<leftarrow> send_msg (le_fs l) (le_codec l) p2 (plain_control (sm_operation q) PhaseStageAck);
                 (case err2 of
                    Some x \<Rightarrow> stop_exchange l zero_stamp x
                  | None \<Rightarrow> do {
                      (announced, p4) \<leftarrow> receive_msg (le_codec l) p3;
                      (case announced of
                         Inl x \<Rightarrow> stop_exchange l zero_stamp x
                       | Inr a \<Rightarrow> upload l q leaf p4 (mc_stage_identity a)) }) }) })
   }"

text \<open>The deferred \<^verbatim>\<open>cleanupAndWait\<close> runs unless the commit was sent.\<close>

definition finish_exchange ::
  "launcher_env \<Rightarrow> staged_mutation \<Rightarrow> string \<Rightarrow> exchange \<Rightarrow> (staged_err + mut_control) fs_io" where
  "finish_exchange l q leaf x =
     (case x of (r, sent, identity) \<Rightarrow>
        if sent then State_Monad.return r
        else do {
          emit Killed;
          clean \<leftarrow> launcher_cleanup l q leaf identity;
          State_Monad.return (if clean then r else Inl StCleanup) })"

definition start_helper ::
  "launcher_env \<Rightarrow> staged_mutation \<Rightarrow> string \<Rightarrow> (staged_err + mut_control) fs_io" where
  "start_helper l q leaf = do {
     before \<leftarrow> look (le_exe l);
     (case before of
        None \<Rightarrow> State_Monad.return (Inl StSetup)
      | Some exe \<Rightarrow> do {
          started \<leftarrow> look (le_setup l);
          (if \<not> started then State_Monad.return (Inl StSetup)
           else do {
             after \<leftarrow> look (le_exe l);
             (if after \<noteq> Some exe then do {
                emit Killed;
                State_Monad.return (Inl (StMut ErrProtocol)) }
              else (case new_protocol_parent (sm_operation q) (staged_roles (sm_operation q)) of
                 Inl err \<Rightarrow> do { emit Killed; State_Monad.return (Inl (StMut err)) }
               | Inr p \<Rightarrow> do {
                   x \<leftarrow> staged_exchange l q leaf p exe;
                   finish_exchange l q leaf x })) }) })
   }"

definition run_staged :: "launcher_env \<Rightarrow> staged_mutation \<Rightarrow> (staged_err + mut_control) fs_io" where
  "run_staged l q = do {
     c \<leftarrow> look (le_ctx l);
     (case c of
        Some x \<Rightarrow> State_Monad.return (Inl (StContext x))
      | None \<Rightarrow>
          if \<not> staged_valid q then State_Monad.return (Inl (StMut ErrProtocol))
          else do {
            slot \<leftarrow> look (le_slot l);
            (case slot of
               Some x \<Rightarrow> State_Monad.return (Inl (StContext x))
             | None \<Rightarrow> do {
                 leaf \<leftarrow> mutation_stage_leaf l;
                 (case leaf of
                    None \<Rightarrow> State_Monad.return (Inl StSetup)
                  | Some name \<Rightarrow> do {
                      ready \<leftarrow> look (le_setup l);
                      (if \<not> ready then State_Monad.return (Inl StSetup) else start_helper l q name) }) }) })
   }"

section \<open>Creating and replacing a file\<close>

definition staged_code :: "staged_err \<Rightarrow> fs_code" where
  "staged_code err =
     (case err of
        StUncertain \<Rightarrow> FsUncertain
      | StCleanup \<Rightarrow> FsUncertain
      | StContext CtxDeadline \<Rightarrow> FsTimeout
      | StContext CtxCanceled \<Rightarrow> FsCanceled
      | _ \<Rightarrow> PathDenied)"

definition terminal_error :: "mut_control \<Rightarrow> fs_code option" where
  "terminal_error c =
     (if mc_terminal c = TermCommitted \<and> mc_terminal_code c = CodeCommitted then None
      else Some (case mc_terminal_code c of
          CodeSourceChanged \<Rightarrow> SourceChanged
        | CodeDestinationExists \<Rightarrow> DestinationExists
        | CodeUnsupported \<Rightarrow> FsUnsupported
        | CodeCanceled \<Rightarrow> FsCanceled
        | CodeUncertain \<Rightarrow> FsUncertain
        | _ \<Rightarrow> PathDenied))"

definition mutation_executable :: "launcher_env \<Rightarrow> fs_code + string" where
  "mutation_executable l =
     (if le_helper l \<noteq> '''' then Inr (le_helper l)
      else (case le_self l of None \<Rightarrow> Inl PathDenied | Some path \<Rightarrow> Inr path))"

text \<open>What both operations make of the launcher's answer.\<close>

definition staged_result ::
  "fs_env \<Rightarrow> string \<Rightarrow> staged_err + mut_control \<Rightarrow> fs_code + (resolved \<times> string)" where
  "staged_result e rel r =
     (case r of
        Inl err \<Rightarrow> Inl (staged_code err)
      | Inr c \<Rightarrow>
          (case terminal_error c of
             Some err \<Rightarrow> Inl err
           | None \<Rightarrow> Inr (resolved_stamp rel KindFile (mc_stage_identity c),
               mutation_fingerprint e rel KindFile (mc_stage_identity c))))"

definition create_file ::
  "launcher_env \<Rightarrow> string \<Rightarrow> string \<Rightarrow> string \<Rightarrow> (fs_code + (resolved \<times> string)) fs_io" where
  "create_file l base input payload =
     (if int (length payload) > uint max_payload_bytes then State_Monad.return (Inl InputTooLarge)
      else do {
        root \<leftarrow> fs_open_root (le_fs l);
        (case root of
           Inl err \<Rightarrow> State_Monad.return (Inl err)
         | Inr d \<Rightarrow> do {
             clone \<leftarrow> clone_mutation_root (le_fs l) d;
             (case clone of
                Inl err \<Rightarrow> State_Monad.return (Inl err)
              | Inr rd \<Rightarrow> do {
                  pr \<leftarrow> prepare_mutation_parent (le_fs l) rd base input;
                  (case pr of
                     Inl err \<Rightarrow> State_Monad.return (Inl err)
                   | Inr (parent, leaf, up) \<Rightarrow> do {
                       taken \<leftarrow> must_be_absent (le_fs l) leaf;
                       (case taken of
                          Some err \<Rightarrow> State_Monad.return (Inl err)
                        | None \<Rightarrow>
                            (case mutation_executable l of
                               Inl err \<Rightarrow> State_Monad.return (Inl err)
                             | Inr executable \<Rightarrow> do {
                                 r \<leftarrow> run_staged l \<lparr>sm_executable = executable, sm_operation = MutCreate,
                                   sm_parent = parent, sm_source = None, sm_leaf = leaf,
                                   sm_expected = zero_stamp, sm_payload = payload\<rparr>;
                                 State_Monad.return (staged_result (le_fs l) (join_rel up leaf) r) })) }) }) }) })"

definition replace_file ::
  "launcher_env \<Rightarrow> string \<Rightarrow> string \<Rightarrow> string \<Rightarrow> string \<Rightarrow> (fs_code + (resolved \<times> string)) fs_io" where
  "replace_file l base input expected payload =
     (if int (length payload) > uint max_payload_bytes then State_Monad.return (Inl InputTooLarge)
      else do {
        root \<leftarrow> fs_open_root (le_fs l);
        (case root of
           Inl err \<Rightarrow> State_Monad.return (Inl err)
         | Inr d \<Rightarrow> do {
             clone \<leftarrow> clone_mutation_root (le_fs l) d;
             (case clone of
                Inl err \<Rightarrow> State_Monad.return (Inl err)
              | Inr rd \<Rightarrow> do {
                  target \<leftarrow> prepare_target_from_root (le_fs l) rd base input;
                  (case target of
                     Inl err \<Rightarrow> State_Monad.return (Inl err)
                   | Inr p \<Rightarrow>
                       if pt_kind p \<noteq> KindFile then State_Monad.return (Inl NotFile)
                       else if pt_fingerprint (le_fs l) p \<noteq> expected then State_Monad.return (Inl SourceChanged)
                       else (case mutation_executable l of
                          Inl err \<Rightarrow> State_Monad.return (Inl err)
                        | Inr executable \<Rightarrow> do {
                            r \<leftarrow> run_staged l \<lparr>sm_executable = executable, sm_operation = MutReplace,
                              sm_parent = pt_parent p, sm_source = Some (pt_source p), sm_leaf = pt_leaf p,
                              sm_expected = pt_identity p, sm_payload = payload\<rparr>;
                            State_Monad.return (staged_result (le_fs l) (pt_rel p) r) })) }) }) })"

section \<open>What the launcher sends and touches\<close>

lemma stage_leaf_valid:
  assumes "length b = 16"
  shows "valid_stage_leaf (mutation_hex ''.pmcg-stage-'' b)"
proof -
  have "list_all lower_hex (hex_encode bs)" if "\<forall>n\<in>set bs. n < 256" for bs
    using that by (induction bs) (auto intro!: lower_hex_digit)
  moreover have "\<forall>n\<in>set (map of_char b). n < (256 :: nat)" by auto
  ultimately have "list_all lower_hex (hex_encode (map of_char b))" by blast
  with assms show ?thesis
    by (simp add: valid_stage_leaf_def mutation_hex_def stage_prefix_def length_hex_encode)
qed

text \<open>The launcher itself renames nothing and creates nothing, and unlinks at most the stage.\<close>

fun launch_event :: "staged_mutation \<Rightarrow> string \<Rightarrow> fs_event \<Rightarrow> bool" where
  "launch_event q leaf (SysRename _ _ _ _) = False"
| "launch_event q leaf (SysRenameExcl _ _ _ _) = False"
| "launch_event q leaf (SysCreate _ _ _) = False"
| "launch_event q leaf (SysWrite _ _) = False"
| "launch_event q leaf (SysUnlink d name kind) = (d = sm_parent q \<and> name = leaf \<and> kind = KindFile)"
| "launch_event q leaf (SentControl c) = (mc_phase c = PhaseRequest \<longrightarrow> c = request_control q leaf)"
| "launch_event q leaf (SentPayload v) = (v = sm_payload q)"
| "launch_event q leaf _ = True"

abbreviation launch_events :: "staged_mutation \<Rightarrow> string \<Rightarrow> fs_event list \<Rightarrow> bool" where
  "launch_events q leaf d \<equiv> list_all (launch_event q leaf) d"

fun is_commit :: "fs_event \<Rightarrow> bool" where
  "is_commit (SentControl c) = (mc_phase c = PhaseCommit)"
| "is_commit _ = False"

fun is_terminal :: "fs_event \<Rightarrow> bool" where
  "is_terminal (GotControl c) = (mc_phase c = PhaseTerminal)"
| "is_terminal _ = False"

text \<open>An exchange that has not sent the commit: no commit, no terminal.  One that has: the terminal that
  was received is the result, and none that it is uncertain.\<close>

abbreviation uncommitted :: "fs_event list \<Rightarrow> bool" where
  "uncommitted d \<equiv> list_all (\<lambda>ev. \<not> is_commit ev \<and> \<not> is_terminal ev) d"

definition answered :: "staged_err + mut_control \<Rightarrow> fs_event list \<Rightarrow> bool" where
  "answered r d \<longleftrightarrow>
     (case r of
        Inl err \<Rightarrow> err = StUncertain \<or> err = StCleanup
      | Inr c \<Rightarrow> filter is_terminal d = [GotControl c] \<and> valid_terminal_code (mc_terminal c) (mc_terminal_code c))"

definition exchanged :: "staged_mutation \<Rightarrow> string \<Rightarrow> exchange \<Rightarrow> fs_event list \<Rightarrow> bool" where
  "exchanged q leaf x d \<longleftrightarrow> launch_events q leaf d \<and>
     (case x of (r, sent, _) \<Rightarrow> if sent then answered r d else uncommitted d \<and> (\<exists>err. r = Inl err \<and> err \<noteq> StUncertain))"

lemma yields_send:
  assumes "\<And>err p'. yields (g (Some err, p')) R"
    and "\<And>p'. mp_side p' = mp_side p \<Longrightarrow> mp_phase p' = mc_phase c \<Longrightarrow>
      yields (g (None, p')) (\<lambda>y d. R y (SentControl c # d))"
  shows "yields (State_Monad.bind (send_msg e cd p c) g) R"
proof (rule yields_then[OF send_yields], goal_cases)
  case (1 x d)
  obtain err p' where x: "x = (err, p')" by fastforce
  with 1 show ?case using assms by (cases err) simp_all
qed

lemma yields_receive:
  assumes "\<And>err p'. yields (g (Inl err, p')) R"
    and "\<And>c p'. accepts p c p' \<Longrightarrow> yields (g (Inr c, p')) (\<lambda>y d. R y (GotControl c # d))"
  shows "yields (State_Monad.bind (receive_msg cd p) g) R"
proof (rule yields_then[OF receive_yields], goal_cases)
  case (1 x d)
  obtain r p' where x: "x = (r, p')" by fastforce
  with 1 show ?case using assms by (cases r) simp_all
qed

lemma send_bytes_yields:
  "yields (send_bytes e p v) (\<lambda>(err, p') d. d = (if err = None then [SentPayload v] else []) \<and>
     mp_side p' = mp_side p \<and> (err = None \<longrightarrow> mp_phase p' = PhasePayloadComplete))"
proof -
  have keep: "tk_trace (snd (write_all (socket_writer e) v w)) = tk_trace w" for v w
    by (rule write_all_invariant[where I = "\<lambda>u. tk_trace u = tk_trace w"]) (simp_all add: socket_writer_trace)
  show ?thesis unfolding yields_def
  proof
    fix w :: fs_world
    obtain r w1 where wrote: "write_all (socket_writer e) v w = (r, w1)" by fastforce
    with keep[of v w] have "tk_trace w1 = tk_trace w" by simp
    then show "\<exists>d. tk_trace (snd (run_state (send_bytes e p v) w)) = tk_trace w @ d \<and>
        (case fst (run_state (send_bytes e p v) w) of (err, p') \<Rightarrow> \<lambda>d.
          d = (if err = None then [SentPayload v] else []) \<and> mp_side p' = mp_side p \<and>
          (err = None \<longrightarrow> mp_phase p' = PhasePayloadComplete)) d"
      by (cases r) (simp_all add: send_bytes_def send_payload_def wrote emit_def)
  qed
qed

lemma yields_send_bytes:
  assumes "\<And>err p'. yields (g (Some err, p')) R"
    and "\<And>p'. mp_side p' = mp_side p \<Longrightarrow> mp_phase p' = PhasePayloadComplete \<Longrightarrow>
      yields (g (None, p')) (\<lambda>y d. R y (SentPayload v # d))"
  shows "yields (State_Monad.bind (send_bytes e p v) g) R"
proof (rule yields_then[OF send_bytes_yields], goal_cases)
  case (1 x d)
  obtain err p' where x: "x = (err, p')" by fastforce
  with 1 show ?case using assms by (cases err) simp_all
qed

lemma yields_cleanup:
  assumes "\<And>ok d. launch_events q leaf d \<Longrightarrow> uncommitted d \<Longrightarrow> yields (g ok) (\<lambda>y d'. R y (d @ d'))"
  shows "yields (State_Monad.bind (launcher_cleanup l q leaf identity) g) R"
proof (rule yields_then)
  show "yields (launcher_cleanup l q leaf identity) (\<lambda>_ d. launch_events q leaf d \<and> uncommitted d)"
    unfolding cleanup_stage_def
    by (intro yields_sys) (auto split: sum.split intro!: yields_intro yields_sys)
qed (use assms in blast)

text \<open>What the parent accepts in each phase of its own.\<close>

lemma parent_accepts:
  assumes "accepts p c p'" "mp_side p = ParentSide"
  shows "mp_side p' = ParentSide" "mp_phase p' = mc_phase c"
    "mp_phase p = PhaseCommit \<Longrightarrow> mc_phase c = PhaseTerminal"
    "mp_phase p \<noteq> PhaseCommit \<Longrightarrow> mc_phase c \<noteq> PhaseTerminal"
    "mc_phase c = PhaseTerminal \<Longrightarrow> valid_terminal_code (mc_terminal c) (mc_terminal_code c)"
  using assms by (auto simp: accepts_def validate_bound_def elim: can_receive.elims)

lemma yields_wait:
  assumes "\<And>failed d. launch_events q leaf d \<Longrightarrow> uncommitted d \<Longrightarrow> yields (g failed) (\<lambda>y d'. R y (d @ d'))"
  shows "yields (State_Monad.bind (wait_helper l) g) R"
proof (rule yields_then)
  show "yields (wait_helper l) (\<lambda>_ d. launch_events q leaf d \<and> uncommitted d)"
    unfolding wait_helper_def by (intro yields_look_bind) (auto split: prod.split intro!: yields_intro)
qed (use assms in blast)

lemma no_terminal: "uncommitted d \<Longrightarrow> filter is_terminal d = []"
  by (induction d) auto

lemma settle_yields:
  assumes "mp_side p = ParentSide" "mp_phase p = PhaseCommit"
  shows "yields (settle l q leaf p identity) (\<lambda>x d. fst (snd x) \<and> launch_events q leaf d \<and> answered (fst x) d)"
  unfolding settle_def
proof (rule yields_receive, goal_cases)
  case (1 err p')
  show ?case unfolding prod.case sum.case
    by (rule yields_wait[of q leaf], rule yields_cleanup) (simp add: yields_return_iff answered_def)
next
  case (2 c p')
  note c = parent_accepts[OF 2 assms(1)]
  show ?case unfolding prod.case sum.case
    by (rule yields_wait[of q leaf], rule yields_if, rule yields_cleanup)
      (auto intro!: yields_if yields_cleanup simp: yields_return_iff answered_def no_terminal c assms(2))
qed

text \<open>\<open>exchanged\<close> is kept by events of the exchange before the commit.\<close>

lemma exchanged_return [simp]:
  "yields (State_Monad.return (Inl err, False, identity)) (\<lambda>x d'. exchanged q leaf x (d @ d')) \<longleftrightarrow>
     launch_events q leaf d \<and> uncommitted d \<and> err \<noteq> StUncertain"
  by (auto simp: yields_return_iff exchanged_def)

lemma exchanged_cons:
  assumes "launch_event q leaf ev" "\<not> is_commit ev" "\<not> is_terminal ev"
  shows "exchanged q leaf x d \<Longrightarrow> exchanged q leaf x (ev # d)"
  using assms by (auto simp: exchanged_def answered_def split: prod.splits sum.splits if_splits)

lemma stop_exchange_yields: "yields (stop_exchange l identity err) (exchanged q leaf)"
  unfolding stop_exchange_def precommit_error_def
  by (intro yields_intro) (auto simp: exchanged_def split: option.split)

lemma commit_exchange_yields:
  assumes "mp_side p = ParentSide"
  shows "yields (commit_exchange l q leaf p identity) (exchanged q leaf)"
  unfolding commit_exchange_def mutation_commit_token_def
proof (rule yields_look_bind, goal_cases)
  case (1 c)
  show ?case
  proof (cases c)
    case (Some x)
    then show ?thesis by (simp add: yields_return_iff exchanged_def)
  next
    case None
    show ?thesis unfolding None option.case
    proof (intro yields_assoc yields_look_bind yields_return_bind, goal_cases)
      case (1 b)
      show ?case
      proof (cases b)
        case None
        then show ?thesis by (simp add: yields_return_iff exchanged_def)
      next
        case (Some tok)
        show ?thesis unfolding Some option.case option.map
        proof (rule yields_send, goal_cases)
          case (1 err p')
          show ?case by (simp add: yields_return_iff exchanged_def)
        next
          case (2 p')
          then have "mp_side p' = ParentSide" "mp_phase p' = PhaseCommit"
            using assms by (simp_all add: plain_control_def)
          then show ?case unfolding prod.case option.case
            by (rule yields_weaken[OF settle_yields])
              (auto simp: exchanged_def answered_def plain_control_def split: sum.splits)
        qed
      qed
    qed
  qed
qed

lemma upload_yields:
  assumes "mp_side p = ParentSide"
  shows "yields (upload l q leaf p identity) (exchanged q leaf)"
  unfolding upload_def
proof (rule yields_send_bytes, goal_cases)
  case (1 err p')
  show ?case by (simp add: stop_exchange_yields)
next
  case (2 p1)
  have sent: "exchanged q leaf x d \<Longrightarrow> exchanged q leaf x (SentPayload (sm_payload q) # d)" for x d
    by (rule exchanged_cons) simp_all
  show ?case unfolding prod.case option.case
  proof (rule yields_receive, goal_cases)
    case (1 err p')
    show ?case by simp (rule yields_weaken[OF stop_exchange_yields sent])
  next
    case (2 c p')
    note c = parent_accepts[OF 2]
    have "mc_phase c \<noteq> PhaseTerminal" "mp_side p' = ParentSide"
      using c \<open>mp_side p1 = mp_side p\<close> \<open>mp_phase p1 = PhasePayloadComplete\<close> assms by simp_all
    then show ?case
      by (simp, intro yields_weaken[OF commit_exchange_yields] sent exchanged_cons) simp_all
  qed
qed

lemma staged_exchange_yields:
  assumes "mp_side p = ParentSide"
  shows "yields (staged_exchange l q leaf p exe) (exchanged q leaf)"
  unfolding staged_exchange_def
proof (rule yields_send, goal_cases)
  case (1 err p')
  show ?case by (simp add: stop_exchange_yields)
next
  case (2 p1)
  have request: "mc_phase (request_control q leaf) = PhaseRequest"
    by (simp add: request_control_def plain_control_def)
  have sent: "exchanged q leaf x d \<Longrightarrow> exchanged q leaf x (SentControl (request_control q leaf) # d)" for x d
    by (rule exchanged_cons) (simp_all add: request)
  note p1 = 2[unfolded request]
  show ?case unfolding prod.case option.case
  proof (rule yields_receive, goal_cases)
    case (1 err p')
    show ?case by simp (rule yields_weaken[OF stop_exchange_yields sent])
  next
    case (2 c p2)
    then have c: "mc_phase c \<noteq> PhaseTerminal" "mp_side p2 = ParentSide"
      using parent_accepts[OF 2] p1 assms by simp_all
    have got: "exchanged q leaf x d \<Longrightarrow> exchanged q leaf x (SentControl (request_control q leaf) # GotControl c # d)" for x d
      by (intro sent exchanged_cons) (simp_all add: c)
    show ?case unfolding prod.case sum.case
    proof (rule yields_if, goal_cases)
      case 1
      show ?case by (simp add: yields_return_iff exchanged_def request c)
    next
      case 2
      show ?case
      proof (rule yields_send, goal_cases)
        case (1 err p')
        show ?case by simp (rule yields_weaken[OF stop_exchange_yields got])
      next
        case (2 p3)
        let ?ack = "plain_control (sm_operation q) PhaseStageAck"
        have ack: "mc_phase ?ack = PhaseStageAck" by (simp add: plain_control_def)
        have acked: "exchanged q leaf x d \<Longrightarrow>
            exchanged q leaf x (SentControl (request_control q leaf) # GotControl c # SentControl ?ack # d)" for x d
          by (intro got exchanged_cons) (simp_all add: ack)
        note p3 = 2[unfolded ack]
        show ?case unfolding prod.case option.case
        proof (rule yields_receive, goal_cases)
          case (1 err p')
          show ?case by simp (rule yields_weaken[OF stop_exchange_yields acked])
        next
          case (2 a p4)
          then have a: "mc_phase a \<noteq> PhaseTerminal" "mp_side p4 = ParentSide"
            using parent_accepts[OF 2] p3 c by simp_all
          show ?case unfolding prod.case sum.case
            by (intro yields_weaken[OF upload_yields] acked exchanged_cons) (simp_all add: a)
        qed
      qed
    qed
  qed
qed

text \<open>A whole invocation.\<close>

definition launched :: "staged_mutation \<Rightarrow> staged_err + mut_control \<Rightarrow> fs_event list \<Rightarrow> bool" where
  "launched q r d \<longleftrightarrow> (\<exists>leaf. launch_events q leaf d) \<and>
     (case r of
        Inl err \<Rightarrow> err = StUncertain \<or> err = StCleanup \<or> uncommitted d
      | Inr c \<Rightarrow> filter is_terminal d = [GotControl c] \<and> valid_terminal_code (mc_terminal c) (mc_terminal_code c))"

lemma launched_stop: "launch_events q leaf d \<Longrightarrow> uncommitted d \<Longrightarrow> launched q (Inl err) d"
  by (auto simp: launched_def)

lemma launched_answered: "launch_events q leaf d \<Longrightarrow> answered r d \<Longrightarrow> launched q r d"
  by (auto simp: launched_def answered_def split: sum.splits)

lemma finish_exchange_yields:
  assumes "exchanged q leaf x d"
  shows "yields (finish_exchange l q leaf x) (\<lambda>r d'. launched q r (d @ d'))"
proof -
  obtain r sent identity where x: "x = (r, sent, identity)" by (metis prod.exhaust)
  show ?thesis
  proof (cases sent)
    case True
    with assms x show ?thesis
      by (auto simp: finish_exchange_def yields_return_iff exchanged_def intro: launched_answered)
  next
    case False
    with assms x obtain err where d: "launch_events q leaf d" "uncommitted d" "r = Inl err"
      by (auto simp: exchanged_def)
    show ?thesis unfolding x finish_exchange_def prod.case
    proof (rule yields_if, use False in simp, rule yields_emit_bind, rule yields_cleanup, goal_cases)
      case (1 clean d')
      with d have "launch_events q leaf (d @ Killed # d')" "uncommitted (d @ Killed # d')" by simp_all
      from launched_stop[OF this] show ?case by (simp add: yields_return_iff d(3))
    qed
  qed
qed

lemma parent_side: "new_protocol_parent op roles = Inr p \<Longrightarrow> mp_side p = ParentSide"
  by (auto simp: new_protocol_parent_def split: if_splits)

lemma start_helper_yields: "yields (start_helper l q leaf) (launched q)"
proof -
  have stop: "yields (State_Monad.return (Inl err)) (launched q)" for err
    using launched_stop[of q leaf "[]"] by (simp add: yields_return_iff)
  have killed: "yields (State_Monad.bind (emit Killed) (\<lambda>_. State_Monad.return (Inl err))) (launched q)" for err
    using launched_stop[of q leaf "[Killed]"] by (intro yields_emit_bind) (simp add: yields_return_iff)
  show ?thesis unfolding start_helper_def
  proof (rule yields_look_bind, goal_cases)
    case (1 before)
    show ?case
    proof (cases before)
      case None
      then show ?thesis by (simp add: stop)
    next
      case (Some exe)
      show ?thesis unfolding Some option.case
      proof (intro yields_look_bind yields_if stop killed, goal_cases)
        case (1 started after)
        show ?case
        proof (cases "new_protocol_parent (sm_operation q) (staged_roles (sm_operation q))")
          case (Inl err)
          then show ?thesis by (simp add: killed)
        next
          case (Inr p)
          show ?thesis unfolding Inr sum.case
            by (rule yields_then[OF staged_exchange_yields[OF parent_side[OF Inr]]]) (rule finish_exchange_yields)
        qed
      qed
    qed
  qed
qed

lemma run_staged_yields: "yields (run_staged l q) (launched q)"
proof -
  have stop: "yields (State_Monad.return (Inl err)) (launched q)" for err
    using launched_stop[of q "''''" "[]"] by (simp add: yields_return_iff)
  have "yields (case c of None \<Rightarrow> m | Some x \<Rightarrow> State_Monad.return (Inl (f x))) (launched q)" if "yields m (launched q)"
    for c :: "ctx_err option" and m f using that stop by (cases c) simp_all
  note cases = this
  have named: "yields (case b of None \<Rightarrow> State_Monad.return (Inl StSetup) | Some x \<Rightarrow> m x) (launched q)"
    if "\<And>x. yields (m x) (launched q)" for b :: "string option" and m using that stop by (cases b) simp_all
  show ?thesis unfolding run_staged_def mutation_stage_leaf_def
    by (intro yields_assoc yields_look_bind yields_return_bind cases yields_if stop named start_helper_yields)
qed

section \<open>Both processes\<close>

text \<open>A socket delivers only what the other side has sent.\<close>

fun arrives :: "fs_event list \<Rightarrow> fs_event \<Rightarrow> bool" where
  "arrives sent (GotControl c) = (SentControl c \<in> set sent)"
| "arrives sent (GotPayload v) = (SentPayload v \<in> set sent)"
| "arrives sent _ = True"

definition delivered :: "fs_event list \<Rightarrow> fs_event list \<Rightarrow> bool" where
  "delivered sent got \<longleftrightarrow> list_all (arrives sent) got"

lemma delivered_sent:
  "delivered sent got \<Longrightarrow> GotControl c \<in> set got \<Longrightarrow> SentControl c \<in> set sent"
  "delivered sent got \<Longrightarrow> GotPayload v \<in> set got \<Longrightarrow> SentPayload v \<in> set sent"
  by (auto simp: delivered_def list_all_iff)

definition linked :: "fs_event list \<Rightarrow> fs_event list \<Rightarrow> bool" where
  "linked launcher helper \<longleftrightarrow> delivered launcher helper \<and> delivered helper launcher"

text \<open>The helper's trace publishes a payload under a name: written whole to the stage, then renamed,
  without overwriting or directly after the source was seen unchanged.\<close>

definition publication :: "mut_operation \<Rightarrow> raw_stamp \<Rightarrow> string \<Rightarrow> string \<Rightarrow> fd \<Rightarrow> fd option \<Rightarrow> fs_event list" where
  "publication op expected stage_leaf leaf parent source =
     (if op = MutReplace
      then [SysFstat (the source) expected, SysStat parent leaf expected, SysRename parent stage_leaf parent leaf]
      else [SysRenameExcl parent stage_leaf parent leaf])"

definition published ::
  "mut_operation \<Rightarrow> raw_stamp \<Rightarrow> string \<Rightarrow> string \<Rightarrow> fd \<Rightarrow> fd option \<Rightarrow> fs_event list \<Rightarrow> bool" where
  "published op expected leaf payload parent source t \<longleftrightarrow>
     (\<exists>a stage chunks b stage_leaf post.
        t = a @ map (SysWrite stage) chunks @ b @ publication op expected stage_leaf leaf parent source @ post \<and>
        concat chunks = payload \<and> pending a \<and> pending b \<and> settled post)"

fun publishes :: "fs_event \<Rightarrow> bool" where
  "publishes (SysRename _ _ _ _) = True"
| "publishes (SysRenameExcl _ _ _ _) = True"
| "publishes _ = False"

abbreviation unpublished :: "fs_event list \<Rightarrow> bool" where
  "unpublished t \<equiv> list_all (\<lambda>ev. \<not> publishes ev) t"

lemma unsettled_unpublished: "unsettled t \<Longrightarrow> unpublished t"
proof (induction t)
  case (Cons ev t)
  then show ?case by (cases ev) simp_all
qed simp

lemma pending_sent: "pending d \<Longrightarrow> SentControl c \<in> set d \<Longrightarrow> mc_phase c \<noteq> PhaseTerminal"
  by (induction d) auto

lemma settled_sent: "settled d \<Longrightarrow> SentControl c \<in> set d \<Longrightarrow> settled_msg c"
  by (induction d) auto

lemma unsettled_sent: "unsettled d \<Longrightarrow> SentControl c \<in> set d \<Longrightarrow> \<not> settled_msg c"
  by (induction d) auto

definition helper_published :: "fd \<Rightarrow> fd option \<Rightarrow> mut_control \<Rightarrow> string \<Rightarrow> mut_control \<Rightarrow> fs_event list \<Rightarrow> bool" where
  "helper_published parent source q payload commit t \<longleftrightarrow>
     GotControl q \<in> set t \<and> mc_phase q = PhaseRequest \<and> GotPayload payload \<in> set t \<and>
     GotControl commit \<in> set t \<and> mc_phase commit = PhaseCommit \<and>
     published (mc_operation q) (mc_expected_source q) (mc_target_leaf q) payload parent source t \<and>
     (\<forall>c. SentControl c \<in> set t \<longrightarrow> mc_phase c = PhaseTerminal \<longrightarrow> settled_msg c)"

lemma helper_cases:
  assumes "helper_ok parent source t" "\<not> unsettled t"
  obtains q payload commit where "helper_published parent source q payload commit t"
proof -
  from assms obtain before q tail where t: "t = before @ GotControl q # tail" "pending before" "mc_phase q = PhaseRequest"
    "committed_run q parent source tail" unfolding helper_ok_def by blast
  then obtain a payload stage chunks b commit pre post where
    tail: "tail = a @ GotPayload payload # map (SysWrite stage) chunks @ b @ GotControl commit # pre @ effect_of q parent # post"
    and run: "concat chunks = payload" "mc_phase commit = PhaseCommit"
      "mc_operation q = MutReplace \<longrightarrow> pre = source_checks q parent source"
      "pending a" "pending b" "pending pre" "settled post"
    unfolding committed_run_def by blast
  let ?a = "before @ GotControl q # a @ [GotPayload payload]"
  let ?b = "b @ GotControl commit # (if mc_operation q = MutReplace then [] else pre)"
  have shape: "t = ?a @ map (SysWrite stage) chunks @ ?b @ publication (mc_operation q) (mc_expected_source q)
      (mc_stage_leaf q) (mc_target_leaf q) parent source @ post"
    using run(3) by (auto simp: t(1) tail publication_def effect_of_def source_checks_def)
  moreover have "pending ?a" "pending ?b" using t(2) run by simp_all
  ultimately have "published (mc_operation q) (mc_expected_source q) (mc_target_leaf q) payload parent source t"
    unfolding published_def using run(1,7) by blast
  moreover have "settled_msg c" if sent: "SentControl c \<in> set t" "mc_phase c = PhaseTerminal" for c
  proof (rule ccontr)
    assume "\<not> settled_msg c"
    with settled_sent[OF run(7)] have "SentControl c \<notin> set post" by blast
    moreover have "SentControl c \<notin> set (before @ a @ b @ pre)"
      using pending_sent[of "before @ a @ b @ pre" c] t(2) run(4-6) that(2) by auto
    moreover have "effect_of q parent \<noteq> SentControl c" by (simp add: effect_of_def)
    ultimately show False using that(1) by (auto simp: t(1) tail)
  qed
  ultimately have "helper_published parent source q payload commit t"
    using t run by (simp add: helper_published_def tail)
  then show thesis by (rule that)
qed

lemma inert_sends: "inert d \<Longrightarrow> SentControl c \<notin> set d" "inert d \<Longrightarrow> SentPayload v \<notin> set d"
    "inert d \<Longrightarrow> GotControl c \<notin> set d"
  by (induction d) auto

lemma launch_sends:
  assumes "launch_events q leaf d"
  shows "SentControl c \<in> set d \<Longrightarrow> mc_phase c = PhaseRequest \<Longrightarrow> c = request_control q leaf"
    "SentPayload v \<in> set d \<Longrightarrow> v = sm_payload q"
  using assms by (induction d) auto

lemma uncommitted_sends: "uncommitted d \<Longrightarrow> SentControl c \<in> set d \<Longrightarrow> mc_phase c \<noteq> PhaseCommit"
  by (induction d) auto

lemma helper_waits:
  assumes "helper_published parent source q payload commit t" "delivered (before @ d) t" "inert before"
  shows "\<not> uncommitted d"
  using assms uncommitted_sends[of d commit] inert_sends(1)[of before commit]
    delivered_sent(1)[OF assms(2), of commit]
  by (auto simp: helper_published_def)

text \<open>The launcher's answer is what happened to the vault.\<close>

lemma staged_truthful:
  assumes "launched q x d" "inert before" "helper_ok parent source t" "linked (before @ d) t"
  shows "case staged_result e rel x of
      Inr _ \<Rightarrow> published (sm_operation q) (sm_expected q) (sm_leaf q) (sm_payload q) parent source t
    | Inl err \<Rightarrow> err = FsUncertain \<or> unpublished t"
proof -
  from assms(4) have down: "delivered (before @ d) t" and up: "delivered t (before @ d)" by (simp_all add: linked_def)
  from assms(1) obtain leaf where events: "launch_events q leaf d" by (auto simp: launched_def)
  show ?thesis
  proof (cases x)
    case (Inl err)
    have "unpublished t" if "staged_code err \<noteq> FsUncertain"
    proof (cases "unsettled t")
      case False
      with assms(3) obtain h payload commit where "helper_published parent source h payload commit t"
        by (rule helper_cases)
      from helper_waits[OF this down assms(2)] assms(1) that Inl show ?thesis
        by (auto simp: launched_def staged_code_def)
    qed (rule unsettled_unpublished)
    with Inl show ?thesis by (auto simp: staged_result_def)
  next
    case (Inr c)
    with assms(1) have c: "filter is_terminal d = [GotControl c]" "valid_terminal_code (mc_terminal c) (mc_terminal_code c)"
      by (simp_all add: launched_def)
    then have "GotControl c \<in> set (filter is_terminal d)" by simp
    then have got: "GotControl c \<in> set d" "mc_phase c = PhaseTerminal" by simp_all
    with delivered_sent(1)[OF up] have sent: "SentControl c \<in> set t" by simp
    show ?thesis
    proof (cases "terminal_error c")
      case None
      then have "settled_msg c" by (simp add: terminal_error_def settled_msg_def split: if_splits)
      with sent unsettled_sent have "\<not> unsettled t" by blast
      with assms(3) obtain h payload commit where h: "helper_published parent source h payload commit t"
        by (rule helper_cases)
      then have "SentControl h \<in> set (before @ d)" "SentPayload payload \<in> set (before @ d)" "mc_phase h = PhaseRequest"
        using delivered_sent[OF down] by (simp_all add: helper_published_def)
      with inert_sends[OF assms(2)] launch_sends[OF events] have "h = request_control q leaf" "payload = sm_payload q"
        by auto
      with h None Inr show ?thesis
        by (simp add: helper_published_def staged_result_def request_control_def plain_control_def)
    next
      case (Some err)
      have "unpublished t" if "err \<noteq> FsUncertain"
      proof (cases "unsettled t")
        case False
        with assms(3) obtain h payload commit where "helper_published parent source h payload commit t"
          by (rule helper_cases)
        with sent got(2) have "settled_msg c" by (simp add: helper_published_def)
        with c(2) Some that show ?thesis by (auto simp: settled_msg_def terminal_error_def split: if_splits)
      qed (rule unsettled_unpublished)
      with Some Inr show ?thesis by (auto simp: staged_result_def)
    qed
  qed
qed

section \<open>Creating and replacing say what happened\<close>

definition requested_leaf :: "fs_env \<Rightarrow> string \<Rightarrow> string \<Rightarrow> string" where
  "requested_leaf e base input =
     (case normalize_rel base input of
        Inl _ \<Rightarrow> ''''
      | Inr rel \<Rightarrow> vf_nfc (fe_vault e) (last (rel_segments rel)))"

lemma parent_leaf_yields:
  "yields (prepare_mutation_parent e root base input) (\<lambda>r d. inert d \<and>
     (\<forall>parent leaf up. r = Inr (parent, leaf, up) \<longrightarrow> leaf = requested_leaf e base input))"
proof (cases "normalize_rel base input")
  case (Inl err)
  then show ?thesis by (simp add: prepare_mutation_parent_def yields_return_iff)
next
  case (Inr rel)
  show ?thesis unfolding prepare_mutation_parent_def Inr sum.case Let_def
    by (intro yields_if yields_return yields_then[OF quiet_walk])
      (auto simp: requested_leaf_def Inr split: sum.splits)
qed

text \<open>How an operation ends that runs the launcher at most once, after steps without effects: what it
  returns of one invocation, and which.\<close>

definition staged_run ::
  "fs_env \<Rightarrow> (staged_mutation \<Rightarrow> fs_event list \<Rightarrow> bool) \<Rightarrow> fs_code + (resolved \<times> string) \<Rightarrow> fs_event list \<Rightarrow> bool" where
  "staged_run e Q r t \<longleftrightarrow>
     (\<exists>before d. t = before @ d \<and> inert before \<and>
        (isl r \<and> d = [] \<or> (\<exists>q x rel. launched q x d \<and> Q q before \<and> r = staged_result e rel x)))"

lemma staged_run_fails: "inert d \<Longrightarrow> staged_run e Q (Inl err) d"
  unfolding staged_run_def by (intro exI[of _ d] exI[of _ "[]"]) simp

lemma staged_run_launched:
  "inert before \<Longrightarrow> launched q x d \<Longrightarrow> Q q before \<Longrightarrow> staged_run e Q (staged_result e rel x) (before @ d)"
  unfolding staged_run_def by blast

lemma staged_run_truthful:
  assumes "staged_run e Q r d" "helper_ok parent source t" "linked d t"
  shows "case r of
      Inr _ \<Rightarrow> \<exists>q before rest. d = before @ rest \<and> Q q before \<and>
        published (sm_operation q) (sm_expected q) (sm_leaf q) (sm_payload q) parent source t
    | Inl err \<Rightarrow> err = FsUncertain \<or> unpublished t"
proof -
  from assms(1) obtain before rest where d: "d = before @ rest" "inert before"
    "isl r \<and> rest = [] \<or> (\<exists>q x rel. launched q x rest \<and> Q q before \<and> r = staged_result e rel x)"
    unfolding staged_run_def by blast
  from d(3) show ?thesis
  proof (elim disjE exE conjE)
    assume r: "isl r" "rest = []"
    have "unpublished t"
    proof (cases "unsettled t")
      case False
      with assms(2) obtain h payload commit where "helper_published parent source h payload commit t"
        by (rule helper_cases)
      from helper_waits[OF this _ d(2), of rest] assms(3) r d(1) show ?thesis by (simp add: linked_def)
    qed (rule unsettled_unpublished)
    with r show ?thesis by (auto split: sum.split)
  next
    fix q x rel
    assume q: "launched q x rest" "Q q before" "r = staged_result e rel x"
    from staged_truthful[OF q(1) d(2) assms(2), of e rel] assms(3) q(2,3) d(1) show ?thesis
      by (cases r) (auto split: sum.splits)
  qed
qed

text \<open>Steps without effects come before the invocation.\<close>

definition lasting :: "(staged_mutation \<Rightarrow> fs_event list \<Rightarrow> bool) \<Rightarrow> bool" where
  "lasting Q \<longleftrightarrow> (\<forall>q b d. inert b \<longrightarrow> Q q d \<longrightarrow> Q q (b @ d))"

lemma staged_run_after:
  assumes "inert b" "lasting Q" "staged_run e Q r d"
  shows "staged_run e Q r (b @ d)"
proof -
  from assms(3) obtain before rest where d: "d = before @ rest" "inert before"
    "isl r \<and> rest = [] \<or> (\<exists>q x rel. launched q x rest \<and> Q q before \<and> r = staged_result e rel x)"
    unfolding staged_run_def by blast
  have "isl r \<and> rest = [] \<or> (\<exists>q x rel. launched q x rest \<and> Q q (b @ before) \<and> r = staged_result e rel x)"
    using d(3) assms(1,2) unfolding lasting_def by blast
  with d(1,2) assms(1) have "b @ d = (b @ before) @ rest \<and> inert (b @ before) \<and>
      (isl r \<and> rest = [] \<or> (\<exists>q x rel. launched q x rest \<and> Q q (b @ before) \<and> r = staged_result e rel x))"
    by simp
  then show ?thesis unfolding staged_run_def by blast
qed

lemma staged_then:
  assumes "yields m (\<lambda>x d. inert d \<and> P x)" "lasting Q" "\<And>x. P x \<Longrightarrow> yields (g x) (staged_run e Q)"
  shows "yields (State_Monad.bind m g) (staged_run e Q)"
  by (rule yields_then[OF assms(1)]) (auto intro!: yields_weaken[OF assms(3)] staged_run_after assms(2))

lemmas staged_quiet = staged_then[where P = "\<lambda>_. True", simplified]

lemma staged_stop: "yields (State_Monad.return (Inl err)) (staged_run e Q)"
  by (simp add: yields_return_iff staged_run_fails)

lemma staged_split:
  "(\<And>v. r = Inr v \<Longrightarrow> yields (h v) (staged_run e Q)) \<Longrightarrow>
     yields (case r of Inl err \<Rightarrow> State_Monad.return (Inl err) | Inr v \<Rightarrow> h v) (staged_run e Q)"
  "(c = None \<Longrightarrow> yields m (staged_run e Q)) \<Longrightarrow>
     yields (case c of Some err \<Rightarrow> State_Monad.return (Inl err) | None \<Rightarrow> m) (staged_run e Q)"
  by (simp_all add: staged_stop split: sum.split option.split)

lemma staged_launch:
  assumes "Q q []"
  shows "yields (State_Monad.bind (run_staged l q) (\<lambda>r. State_Monad.return (staged_result e rel r))) (staged_run e Q)"
  by (rule yields_then[OF run_staged_yields])
    (use staged_run_launched[of "[]" q _ _ Q e rel] assms in \<open>simp add: yields_return_iff\<close>)

lemma create_file_yields:
  "yields (create_file l base input payload)
     (staged_run (le_fs l) (\<lambda>q _. sm_operation q = MutCreate \<and> sm_expected q = zero_stamp \<and>
        sm_leaf q = requested_leaf (le_fs l) base input \<and> sm_payload q = payload))"
  (is "yields _ (staged_run _ ?Q)")
proof -
  have mono: "lasting ?Q" by (simp add: lasting_def)
  have leaf: "yields (prepare_mutation_parent (le_fs l) d base input) (\<lambda>r t. inert t \<and>
      (\<forall>parent leaf up. r = Inr (parent, leaf, up) \<longrightarrow> leaf = requested_leaf (le_fs l) base input))" for d
    by (rule parent_leaf_yields)
  show ?thesis unfolding create_file_def
    by (intro yields_if staged_stop staged_split staged_quiet[OF _ mono] staged_then[OF leaf mono] quiet_rules)
      (auto intro!: staged_split staged_quiet[OF _ mono] quiet_rules staged_launch)
qed

text \<open>The target of a replacement was opened and has the fingerprint the caller expects.\<close>

definition replaces :: "fs_env \<Rightarrow> string \<Rightarrow> string \<Rightarrow> staged_mutation \<Rightarrow> fs_event list \<Rightarrow> bool" where
  "replaces e expected payload q before \<longleftrightarrow>
     (\<exists>p. opened_target p before \<and> pt_kind p = KindFile \<and> pt_fingerprint e p = expected \<and>
        sm_operation q = MutReplace \<and> sm_expected q = pt_identity p \<and> sm_leaf q = pt_leaf p \<and>
        sm_payload q = payload)"

lemma lasting_replaces: "lasting (replaces e expected payload)"
  unfolding lasting_def replaces_def opened_target_def by auto

lemma replace_file_yields:
  "yields (replace_file l base input expected payload) (staged_run (le_fs l) (replaces (le_fs l) expected payload))"
  (is "yields _ ?R")
proof -
  note quiet = staged_quiet[OF _ lasting_replaces]
  show ?thesis unfolding replace_file_def
  proof (rule yields_if[OF staged_stop], rule quiet, rule quiet_basic, rule staged_split, rule quiet,
      rule quiet_clone, rule staged_split, rule yields_then[OF prepare_target_yields], goal_cases)
    case (1 opened d clone rd r before)
    have stop: "yields (State_Monad.return (Inl err)) (\<lambda>y d'. ?R y (before @ d'))" for err
      using \<open>prepared_ok r before\<close> by (simp add: yields_return_iff staged_run_fails prepared_ok_def)
    show ?case
    proof (cases r)
      case (Inl err)
      then show ?thesis by (simp add: stop)
    next
      case (Inr p)
      with 1 have p: "opened_target p before" "inert before" by (simp_all add: prepared_ok_def)
      show ?thesis unfolding Inr sum.case
      proof (intro yields_if stop, goal_cases)
        case 1
        then have q: "replaces (le_fs l) expected payload \<lparr>sm_executable = executable, sm_operation = MutReplace,
            sm_parent = pt_parent p, sm_source = Some (pt_source p), sm_leaf = pt_leaf p,
            sm_expected = pt_identity p, sm_payload = payload\<rparr> before" for executable
          using p by (auto simp: replaces_def)
        show ?case
        proof (cases "mutation_executable l")
          case (Inl err)
          then show ?thesis by (simp add: stop)
        next
          case (Inr executable)
          show ?thesis unfolding Inr sum.case
            by (rule yields_then[OF run_staged_yields])
              (use staged_run_launched[where Q = "replaces (le_fs l) expected payload", OF p(2) _ q]
                in \<open>simp add: yields_return_iff\<close>)
        qed
      qed
    qed
  qed
qed



end
