(* ===== verification/MutationSession.thy ===== *)
theory MutationSession
  imports MutationProtocol
begin

text \<open>
  Two endpoints of the mutation protocol joined by a pair of pipes.  Any caller may drive
  either side, in any interleaving; what the two sides have agreed on at each point is an
  invariant of the joint state.
\<close>

section \<open>Frames\<close>

text \<open>A control the JSON codec round-trips within the frame limit.\<close>

definition sendable :: "codec \<Rightarrow> mut_control \<Rightarrow> bool" where
  "sendable cd c \<longleftrightarrow>
     (case cd_enc cd c of
        None \<Rightarrow> False
      | Some e \<Rightarrow> e \<noteq> [] \<and> length e \<le> max_control_frame_bytes \<and> cd_dec cd e = Some (c, True))"

definition frame :: "codec \<Rightarrow> mut_control \<Rightarrow> string" where
  "frame cd c = (case cd_enc cd c of None \<Rightarrow> [] | Some e \<Rightarrow> framed 4 e)"

definition unframe :: "codec \<Rightarrow> string \<Rightarrow> (mut_control \<times> string) option" where
  "unframe cd s =
     (case read_control cd (Some s) of (Inr c, Some s1) \<Rightarrow> Some (c, s1) | _ \<Rightarrow> None)"

lemma read_frame:
  assumes "sendable cd c"
  shows "read_control cd (Some (frame cd c @ s)) = (Inr c, Some s)"
proof -
  obtain e where e: "cd_enc cd c = Some e" "e \<noteq> []" "length e \<le> max_control_frame_bytes"
      "cd_dec cd e = Some (c, True)"
    using assms by (auto simp: sendable_def split: option.splits)
  then have "be_value (be_bytes 4 (length e)) = length e"
    by (simp add: max_control_frame_bytes_def)
  with e show ?thesis by (simp add: read_control_def frame_def framed_def Let_def)
qed

lemma read_control_nil [simp]: "read_control cd (Some []) = (Inl (MutIO IoEOF), Some [])"
  by (simp add: read_control_def read_full_def)

interpretation control: wire "sendable cd" "frame cd" "unframe cd" for cd
  by unfold_locales (simp_all add: unframe_def read_frame)

section \<open>Writing\<close>

text \<open>A writer that keeps the contract of \<^verbatim>\<open>io.Writer\<close> over the bytes \<open>out\<close> it has accepted.\<close>

definition honest :: "('w \<Rightarrow> string) \<Rightarrow> 'w writer \<Rightarrow> bool" where
  "honest out wr \<longleftrightarrow>
     (\<forall>v w n err w1. wr v w = ((n, err), w1) \<longrightarrow> n \<le> length v \<and> out w1 = out w @ take n v)"

lemma write_all_honest:
  assumes "honest out wr" "write_all wr v w = (err, w1)"
  shows "\<exists>k \<le> length v. out w1 = out w @ take k v \<and> (err = None \<longrightarrow> k = length v)"
  using assms(2)
proof (induction "length v" arbitrary: v w rule: less_induct)
  case less
  obtain n e w2 where step: "wr v w = ((n, e), w2)" by (metis prod.exhaust)
  with assms(1) have h: "n \<le> length v" "out w2 = out w @ take n v"
    unfolding honest_def by blast+
  show ?case
  proof (cases "v = [] \<or> e \<noteq> None \<or> n = 0")
    case True
    show ?thesis
    proof (cases "v = []")
      case True
      with less(2) show ?thesis by (simp add: write_all.simps)
    next
      case False
      with True less(2) step have "w1 = w2" "err \<noteq> None"
        by (auto simp: write_all.simps[of wr v] split: if_splits)
      with h show ?thesis by blast
    qed
  next
    case False
    with less(2) step have "write_all wr (drop n v) w2 = (err, w1)"
      by (simp add: write_all.simps[of wr v])
    moreover have "length (drop n v) < length v" using False by simp
    ultimately obtain k where k: "k \<le> length (drop n v)"
        "out w1 = out w2 @ take k (drop n v)" "err = None \<longrightarrow> k = length (drop n v)"
      using less(1) by blast
    with h show ?thesis by (intro exI[of _ "n + k"]) (auto simp: take_add)
  qed
qed

definition pipe_write :: "string writer" where
  "pipe_write v w = ((length v, None), w @ v)"

lemma write_all_pipe [simp]: "write_all pipe_write v w = (None, w @ v)"
  by (cases "v = []") (simp_all add: write_all.simps pipe_write_def)

lemma write_control_pipe [simp]:
  "sendable cd c \<Longrightarrow> write_control cd (Some pipe_write) c w = (None, w @ frame cd c)"
  by (auto simp: sendable_def write_control_def frame_def framed_def split: option.splits)

lemma send_control_pipe:
  "sendable cd c \<Longrightarrow>
     send_control cd p (Some pipe_write) c w = (None, p1, w1) \<longleftrightarrow>
       can_send (mp_side p) (mp_phase p) (mc_phase c) \<and> validate_outgoing p c \<and>
       p1 = advance p c \<and> w1 = w @ frame cd c"
  by (auto simp: send_control_def)

lemma send_payload_pipe:
  "send_payload p pipe_write v w = (None, p1, w1) \<longleftrightarrow>
     mp_side p = ParentSide \<and> mp_phase p = PhaseStageAnnounced \<and>
     word_of_nat (length v) = mp_payload p \<and> p1 = p\<lparr>mp_phase := PhasePayloadComplete\<rparr> \<and> w1 = w @ v"
  by (auto simp: send_payload_def)

lemma receive_control_frame:
  "sendable cd c \<Longrightarrow>
     receive_control cd p (Some (frame cd c @ s)) =
       (if \<not> can_receive (mp_side p) (mp_phase p) (mc_phase c) then (Inl ErrProtocol, p, Some s)
        else case validate_incoming p c of
          (False, p1) \<Rightarrow> (Inl ErrProtocol, p1, Some s)
        | (True, p1) \<Rightarrow> (Inr c, advance p1 c, Some s))"
  by (simp add: receive_control_def read_frame)

lemma receive_control_nil [simp]:
  "receive_control cd p (Some []) = (Inl (MutIO IoEOF), p, Some [])"
  by (simp add: receive_control_def)

section \<open>The joint machine\<close>

record session =
  se_parent :: mut_protocol
  se_helper :: mut_protocol
  se_down :: string
  se_up :: string
  se_sent :: "string option"
  se_got :: "string option"

definition session_start :: "mut_protocol \<Rightarrow> session" where
  "session_start p = \<lparr>se_parent = p, se_helper = new_protocol_helper, se_down = [], se_up = [],
     se_sent = None, se_got = None\<rparr>"

text \<open>
  A send goes ahead when it succeeds; a receive when a whole frame is waiting, whatever the
  verdict on it (a pipe that holds less blocks the reader).  The one obligation on a caller
  is that the helper, once it has announced its stage, reads the raw payload next, as
  \<^verbatim>\<open>runMutationHelperFiles\<close> does.
\<close>

inductive session_step :: "codec \<Rightarrow> session \<Rightarrow> session \<Rightarrow> bool" for cd where
  parent_send:
    "sendable cd c \<Longrightarrow> send_control cd (se_parent s) (Some pipe_write) c (se_down s) = (None, p, d) \<Longrightarrow>
       session_step cd s (s\<lparr>se_parent := p, se_down := d\<rparr>)"
| parent_payload:
    "length v < 2 ^ 63 \<Longrightarrow> send_payload (se_parent s) pipe_write v (se_down s) = (None, p, d) \<Longrightarrow>
       session_step cd s (s\<lparr>se_parent := p, se_down := d, se_sent := Some v\<rparr>)"
| parent_receive:
    "receive_control cd (se_parent s) (Some (se_up s)) = (r, p, Some u) \<Longrightarrow> (\<forall>e. r \<noteq> Inl (MutIO e)) \<Longrightarrow>
       session_step cd s (s\<lparr>se_parent := p, se_up := u\<rparr>)"
| helper_send:
    "sendable cd c \<Longrightarrow> send_control cd (se_helper s) (Some pipe_write) c (se_up s) = (None, h, u) \<Longrightarrow>
       session_step cd s (s\<lparr>se_helper := h, se_up := u\<rparr>)"
| helper_payload:
    "n < 2 ^ 63 \<Longrightarrow> receive_payload (se_helper s) n (se_down s) = (Inr v, h, d) \<Longrightarrow>
       session_step cd s (s\<lparr>se_helper := h, se_down := d, se_got := Some v\<rparr>)"
| helper_receive:
    "mp_phase (se_helper s) \<noteq> PhaseStageAnnounced \<Longrightarrow>
       receive_control cd (se_helper s) (Some (se_down s)) = (r, h, Some d) \<Longrightarrow>
       (\<forall>e. r \<noteq> Inl (MutIO e)) \<Longrightarrow>
       session_step cd s (s\<lparr>se_helper := h, se_down := d\<rparr>)"

inductive session_reachable :: "codec \<Rightarrow> mut_protocol \<Rightarrow> session \<Rightarrow> bool" for cd p where
  start: "session_reachable cd p (session_start p)"
| step: "session_reachable cd p s \<Longrightarrow> session_step cd s s' \<Longrightarrow> session_reachable cd p s'"

section \<open>The joint invariant\<close>

text \<open>Messages of one phase, valid for the endpoint \<open>e\<close>, are waiting on a pipe.\<close>

definition waiting :: "codec \<Rightarrow> mut_protocol \<Rightarrow> mut_phase \<Rightarrow> mut_control list \<Rightarrow> bool" where
  "waiting cd e ph cs \<longleftrightarrow>
     (\<forall>c\<in>set cs. sendable cd c \<and> mc_phase c = ph \<and> validate_bound e c)"

definition wired :: "codec \<Rightarrow> mut_control list \<Rightarrow> string" where
  "wired cd cs = concat (map (frame cd) cs)"

lemma wired_simps [simp]: "wired cd [] = []" "wired cd (c # cs) = frame cd c @ wired cd cs"
  "wired cd (cs @ ds) = wired cd cs @ wired cd ds"
  by (simp_all add: wired_def)

lemma wired_none [simp]: "\<exists>cs. waiting cd p ph cs \<and> [] = wired cd cs"
  by (rule exI[of _ "[]"]) (simp add: waiting_def wired_def)

lemma wired_some [simp]:
  "waiting cd p ph cs \<Longrightarrow> \<exists>csa. waiting cd p ph csa \<and> wired cd cs = wired cd csa"
  by blast

lemma waiting_simps [simp]: "waiting cd e ph []"
  "waiting cd e ph (c # cs) \<longleftrightarrow> sendable cd c \<and> mc_phase c = ph \<and> validate_bound e c \<and> waiting cd e ph cs"
  "waiting cd e ph (cs @ ds) \<longleftrightarrow> waiting cd e ph cs \<and> waiting cd e ph ds"
  by (auto simp: waiting_def)

definition agree :: "mut_protocol \<Rightarrow> mut_protocol \<Rightarrow> bool" where
  "agree p h \<longleftrightarrow> mp_operation h = mp_operation p \<and> mp_roles h = mp_roles p \<and>
     mp_payload h = mp_payload p \<and> mp_payload p \<le> max_payload_bytes"

definition carries :: "mut_protocol \<Rightarrow> string option \<Rightarrow> bool" where
  "carries p v \<longleftrightarrow> (\<exists>x. v = Some x \<and> length x < 2 ^ 63 \<and> word_of_nat (length x) = mp_payload p)"

text \<open>The phases the two sides can be in together, and what is on the pipes then.  A helper
  that was promised no payload may complete it before the parent has sent it.\<close>

definition joint :: "codec \<Rightarrow> mut_protocol \<Rightarrow> mut_protocol \<Rightarrow> string \<Rightarrow> string \<Rightarrow>
    string option \<Rightarrow> string option \<Rightarrow> bool" where
  "joint cd p h d u sent got \<longleftrightarrow>
     (case (mp_phase p, mp_phase h) of
        (PhaseNone, PhaseNone) \<Rightarrow> d = [] \<and> u = [] \<and> sent = None \<and> got = None
      | (PhaseRequest, PhaseNone) \<Rightarrow>
          (\<exists>c. waiting cd p PhaseRequest [c] \<and> mc_payload_bytes c = mp_payload p \<and> d = wired cd [c]) \<and>
          u = [] \<and> sent = None \<and> got = None
      | (PhaseRequest, PhaseRequest) \<Rightarrow> agree p h \<and> d = [] \<and> u = [] \<and> sent = None \<and> got = None
      | (PhaseRequest, PhaseStageCreated) \<Rightarrow>
          agree p h \<and> d = [] \<and> (\<exists>c. waiting cd p PhaseStageCreated [c] \<and> u = wired cd [c]) \<and>
          sent = None \<and> got = None
      | (PhaseStageCreated, PhaseStageCreated) \<Rightarrow>
          agree p h \<and> d = [] \<and> u = [] \<and> sent = None \<and> got = None
      | (PhaseStageAck, PhaseStageCreated) \<Rightarrow>
          agree p h \<and> (\<exists>c. waiting cd p PhaseStageAck [c] \<and> d = wired cd [c]) \<and> u = [] \<and>
          sent = None \<and> got = None
      | (PhaseStageAck, PhaseStageAck) \<Rightarrow> agree p h \<and> d = [] \<and> u = [] \<and> sent = None \<and> got = None
      | (PhaseStageAck, PhaseStageAnnounced) \<Rightarrow>
          agree p h \<and> d = [] \<and> (\<exists>c. waiting cd p PhaseStageAnnounced [c] \<and> u = wired cd [c]) \<and>
          sent = None \<and> got = None
      | (PhaseStageAnnounced, PhaseStageAnnounced) \<Rightarrow>
          agree p h \<and> d = [] \<and> u = [] \<and> sent = None \<and> got = None
      | (PhaseStageAck, PhasePayloadComplete) \<Rightarrow>
          agree p h \<and> mp_payload p = 0 \<and> d = [] \<and> sent = None \<and> got = Some [] \<and>
          (\<exists>c cs. waiting cd p PhaseStageAnnounced [c] \<and> waiting cd p PhasePayloadComplete cs \<and>
             u = wired cd (c # cs))
      | (PhaseStageAnnounced, PhasePayloadComplete) \<Rightarrow>
          agree p h \<and> mp_payload p = 0 \<and> d = [] \<and> sent = None \<and> got = Some [] \<and>
          (\<exists>cs. waiting cd p PhasePayloadComplete cs \<and> u = wired cd cs)
      | (PhasePayloadComplete, PhaseStageAnnounced) \<Rightarrow>
          agree p h \<and> carries p sent \<and> d = the sent \<and> u = [] \<and> got = None
      | (PhaseCommit, PhaseStageAnnounced) \<Rightarrow>
          agree p h \<and> carries p sent \<and> u = [] \<and> got = None \<and>
          (\<exists>c. waiting cd p PhaseCommit [c] \<and> d = the sent @ wired cd [c])
      | (PhasePayloadComplete, PhasePayloadComplete) \<Rightarrow>
          agree p h \<and> carries p sent \<and> got = sent \<and> d = [] \<and>
          (\<exists>cs. waiting cd p PhasePayloadComplete cs \<and> u = wired cd cs)
      | (PhaseCommit, PhasePayloadComplete) \<Rightarrow>
          agree p h \<and> carries p sent \<and> got = sent \<and>
          (\<exists>c. waiting cd p PhaseCommit [c] \<and> d = wired cd [c]) \<and>
          (\<exists>cs. waiting cd p PhasePayloadComplete cs \<and> u = wired cd cs)
      | (PhaseCommit, PhaseCommit) \<Rightarrow>
          agree p h \<and> carries p sent \<and> got = sent \<and> d = [] \<and>
          (\<exists>cs. waiting cd p PhasePayloadComplete cs \<and> u = wired cd cs)
      | (PhaseCommit, PhaseTerminal) \<Rightarrow>
          agree p h \<and> carries p sent \<and> got = sent \<and> d = [] \<and>
          (\<exists>cs c. waiting cd p PhasePayloadComplete cs \<and> waiting cd p PhaseTerminal [c] \<and>
             u = wired cd (cs @ [c]))
      | (PhaseTerminal, PhaseTerminal) \<Rightarrow>
          agree p h \<and> carries p sent \<and> got = sent \<and> d = [] \<and> u = []
      | _ \<Rightarrow> False)"

definition session_inv :: "codec \<Rightarrow> session \<Rightarrow> bool" where
  "session_inv cd s \<longleftrightarrow>
     mp_side (se_parent s) = ParentSide \<and> mp_side (se_helper s) = HelperSide \<and>
     valid_operation (mp_operation (se_parent s)) \<and>
     valid_fd_roles (mp_operation (se_parent s)) (mp_roles (se_parent s)) \<and>
     joint cd (se_parent s) (se_helper s) (se_down s) (se_up s) (se_sent s) (se_got s)"

lemma validate_bound_cong:
  "mp_operation h = mp_operation p \<Longrightarrow> mp_roles h = mp_roles p \<Longrightarrow> validate_bound h c = validate_bound p c"
  by (simp add: validate_bound_def cong: mut_phase.case_cong)

lemma validate_bound_agree: "agree p h \<Longrightarrow> validate_bound h c = validate_bound p c"
  by (rule validate_bound_cong) (simp_all add: agree_def)

lemma waiting_agree: "agree p h \<Longrightarrow> waiting cd h ph cs = waiting cd p ph cs"
  by (simp add: waiting_def validate_bound_agree)

lemma validate_bound_phase [simp]: "validate_bound (p\<lparr>mp_phase := x\<rparr>) c = validate_bound p c"
  "validate_bound (p\<lparr>mp_payload := y\<rparr>) c = validate_bound p c"
  by (rule validate_bound_cong; simp)+

lemma waiting_phase [simp]: "waiting cd (p\<lparr>mp_phase := x\<rparr>) ph cs = waiting cd p ph cs"
  "waiting cd (p\<lparr>mp_payload := y\<rparr>) ph cs = waiting cd p ph cs"
  by (simp_all add: waiting_def)

lemma agree_phase [simp]:
  "agree (p\<lparr>mp_phase := x\<rparr>) h = agree p h" "agree p (h\<lparr>mp_phase := y\<rparr>) = agree p h"
  by (simp_all add: agree_def)

lemma carries_phase [simp]: "carries (p\<lparr>mp_phase := x\<rparr>) v = carries p v"
  by (simp add: carries_def)

lemma advance_other:
  "mc_phase c \<noteq> PhaseRequest \<Longrightarrow> advance p c = p\<lparr>mp_phase := mc_phase c\<rparr>"
  by (simp add: advance_def Let_def)

lemma start_inv:
  assumes "new_protocol_parent op roles = Inr p"
  shows "session_inv cd (session_start p)"
proof -
  have "p = \<lparr>mp_side = ParentSide, mp_operation = op, mp_roles = roles, mp_phase = PhaseNone, mp_payload = 0\<rparr>"
    "valid_operation op" "valid_fd_roles op roles"
    using assms by (auto simp: new_protocol_parent_def split: if_splits)
  then show ?thesis
    by (simp add: session_inv_def session_start_def new_protocol_helper_def joint_def)
qed

lemma parent_send_joint:
  assumes "mp_side p = ParentSide" "joint cd p h d u sent got" "sendable cd c"
    and "can_send ParentSide (mp_phase p) (mc_phase c)" "validate_bound p c"
  shows "joint cd (advance p c) h (d @ frame cd c) u sent got"
  using assms
  by (cases "mp_phase p"; cases "mp_phase h")
    (auto simp: joint_def advance_def Let_def carries_def)

lemma parent_payload_joint:
  assumes "joint cd p h d u sent got" "mp_phase p = PhaseStageAnnounced"
    and "length v < 2 ^ 63" "word_of_nat (length v) = mp_payload p"
  shows "joint cd (p\<lparr>mp_phase := PhasePayloadComplete\<rparr>) h (d @ v) u (Some v) got"
proof -
  have "v = []" if "mp_payload p = 0"
  proof -
    have "unat (word_of_nat (length v) :: 64 word) = 0" using assms(4) that by simp
    with assms(3) show ?thesis by (simp add: unat_of_nat)
  qed
  with assms show ?thesis by (cases "mp_phase h") (auto simp: joint_def carries_def)
qed

lemma receive_control_single:
  assumes "sendable cd c"
  shows "receive_control cd p (Some (frame cd c)) =
    (if \<not> can_receive (mp_side p) (mp_phase p) (mc_phase c) then (Inl ErrProtocol, p, Some [])
     else case validate_incoming p c of
       (False, p1) \<Rightarrow> (Inl ErrProtocol, p1, Some [])
     | (True, p1) \<Rightarrow> (Inr c, advance p1 c, Some []))"
  using receive_control_frame[OF assms, of p "[]"] by simp

text \<open>What is on the way to the parent is a frame it either accepts, moving both sides to
  the next joint phase, or refuses with its phase unchanged.\<close>

lemma joint_up:
  assumes "joint cd p h d u sent got" "u \<noteq> []"
  shows "\<exists>c cs. u = wired cd (c # cs) \<and> sendable cd c \<and> validate_bound p c \<and>
     mc_phase c \<noteq> PhaseRequest \<and>
     (if can_receive ParentSide (mp_phase p) (mc_phase c)
      then joint cd (p\<lparr>mp_phase := mc_phase c\<rparr>) h d (wired cd cs) sent got
      else mc_phase c = PhasePayloadComplete \<and> joint cd p h d (wired cd cs) sent got)"
proof (cases "mp_phase p = PhaseCommit \<and> mp_phase h = PhaseTerminal")
  case True
  with assms obtain cs c where u: "waiting cd p PhasePayloadComplete cs" "waiting cd p PhaseTerminal [c]"
    "u = wired cd (cs @ [c])" and j: "agree p h" "carries p sent" "got = sent" "d = []"
    by (auto simp: joint_def)
  show ?thesis
  proof (cases cs)
    case Nil
    with True u j show ?thesis by (intro exI[of _ c] exI[of _ "[]"]) (simp add: joint_def)
  next
    case (Cons x xs)
    with True u j show ?thesis
      by (intro exI[of _ x] exI[of _ "xs @ [c]"]) (auto simp: joint_def)
  qed
next
  case False
  then consider (created) "mp_phase p = PhaseRequest" "mp_phase h = PhaseStageCreated"
    | (announced) "mp_phase p = PhaseStageAck" "mp_phase h = PhaseStageAnnounced"
    | (ahead) "mp_phase p = PhaseStageAck" "mp_phase h = PhasePayloadComplete"
    | (complete) "mp_phase p = PhasePayloadComplete" "mp_phase h = PhasePayloadComplete"
    | (commit) "mp_phase p = PhaseCommit \<or> mp_phase p = PhaseStageAnnounced"
        "mp_phase h = PhasePayloadComplete \<or> mp_phase h = PhaseCommit"
    using assms by (cases "mp_phase p"; cases "mp_phase h") (simp_all add: joint_def)
  then show ?thesis
  proof cases
    case created
    with assms show ?thesis by (auto simp: joint_def intro!: exI[of _ "[]"])
  next
    case announced
    with assms show ?thesis by (auto simp: joint_def intro!: exI[of _ "[]"])
  next
    case ahead
    with assms show ?thesis by (auto simp: joint_def)
  next
    case complete
    with assms obtain cs where "waiting cd p PhasePayloadComplete cs" "u = wired cd cs"
      by (auto simp: joint_def)
    with complete assms show ?thesis by (cases cs) (auto simp: joint_def)
  next
    case commit
    with assms obtain cs where "waiting cd p PhasePayloadComplete cs" "u = wired cd cs"
      by (auto simp: joint_def)
    with assms(2) obtain x xs where u: "waiting cd p PhasePayloadComplete (x # xs)" "u = wired cd (x # xs)"
      by (cases cs) auto
    moreover from u commit assms(1) have "joint cd p h d (wired cd xs) sent got"
      by (auto simp: joint_def)
    ultimately show ?thesis using commit by (intro exI[of _ x] exI[of _ xs]) auto
  qed
qed

lemma parent_receive_joint:
  assumes "mp_side p = ParentSide" "joint cd p h d u sent got"
    and "receive_control cd p (Some u) = (r, p1, Some u1)" "\<forall>e. r \<noteq> Inl (MutIO e)"
  shows "joint cd p1 h d u1 sent got \<and> mp_side p1 = mp_side p \<and>
    mp_operation p1 = mp_operation p \<and> mp_roles p1 = mp_roles p \<and>
    (r = Inl ErrProtocol \<longrightarrow> (\<exists>c s. u = frame cd c @ s \<and> sendable cd c \<and> mc_phase c = PhasePayloadComplete))"
proof -
  have "u \<noteq> []" using assms by auto
  from joint_up[OF assms(2) this] obtain c cs where c: "u = wired cd (c # cs)" "sendable cd c"
    "validate_bound p c" "mc_phase c \<noteq> PhaseRequest" and j:
    "if can_receive ParentSide (mp_phase p) (mc_phase c)
     then joint cd (p\<lparr>mp_phase := mc_phase c\<rparr>) h d (wired cd cs) sent got
     else mc_phase c = PhasePayloadComplete \<and> joint cd p h d (wired cd cs) sent got"
    by blast
  with assms show ?thesis
    by (auto simp: receive_control_frame validate_incoming_def advance_other split: if_splits)
qed

lemma helper_send_joint:
  assumes "mp_side h = HelperSide" "joint cd p h d u sent got" "sendable cd c"
    and "can_send HelperSide (mp_phase h) (mc_phase c)" "validate_outgoing h c"
  shows "joint cd p (advance h c) d (u @ frame cd c) sent got"
proof -
  consider (request) "mp_phase p = PhaseRequest" "mp_phase h = PhaseRequest"
    | (ack) "mp_phase p = PhaseStageAck" "mp_phase h = PhaseStageAck"
    | (ahead) "mp_phase p = PhaseStageAck" "mp_phase h = PhasePayloadComplete"
    | (complete) "mp_phase p = PhasePayloadComplete \<or> mp_phase p = PhaseCommit \<or>
          mp_phase p = PhaseStageAnnounced" "mp_phase h = PhasePayloadComplete"
    | (commit) "mp_phase p = PhaseCommit" "mp_phase h = PhaseCommit"
    using assms by (cases "mp_phase p"; cases "mp_phase h") (simp_all add: joint_def)
  then show ?thesis
  proof cases
    case request
    with assms show ?thesis
      by (auto simp: joint_def advance_other validate_outgoing_def validate_bound_agree)
  next
    case ack
    with assms show ?thesis
      by (auto simp: joint_def advance_other validate_outgoing_def validate_bound_agree)
  next
    case ahead
    with assms obtain a cs where "waiting cd p PhaseStageAnnounced [a]"
        "waiting cd p PhasePayloadComplete cs" "u = wired cd (a # cs)"
      by (auto simp: joint_def)
    with ahead assms have "waiting cd p PhasePayloadComplete (cs @ [c])"
        "waiting cd p PhaseStageAnnounced [a]" "u @ frame cd c = wired cd (a # cs @ [c])"
      by (auto simp: joint_def validate_outgoing_def validate_bound_agree)
    then have "\<exists>a cs. waiting cd p PhaseStageAnnounced [a] \<and> waiting cd p PhasePayloadComplete cs \<and>
        u @ frame cd c = wired cd (a # cs)" by blast
    with ahead assms show ?thesis by (simp add: joint_def advance_other)
  next
    case complete
    with assms obtain cs where "waiting cd p PhasePayloadComplete cs" "u = wired cd cs"
      by (auto simp: joint_def)
    with complete assms have "waiting cd p PhasePayloadComplete (cs @ [c])" "u @ frame cd c = wired cd (cs @ [c])"
      by (auto simp: joint_def validate_outgoing_def validate_bound_agree)
    then have "\<exists>cs. waiting cd p PhasePayloadComplete cs \<and> u @ frame cd c = wired cd cs" by blast
    with complete assms show ?thesis by (auto simp: joint_def advance_other)
  next
    case commit
    with assms obtain cs where "waiting cd p PhasePayloadComplete cs" "u = wired cd cs"
      by (auto simp: joint_def)
    with commit assms have "waiting cd p PhaseTerminal [c]" "u @ frame cd c = wired cd (cs @ [c])"
      by (auto simp: joint_def validate_outgoing_def validate_bound_agree)
    with \<open>waiting cd p PhasePayloadComplete cs\<close>
    have "\<exists>cs c'. waiting cd p PhasePayloadComplete cs \<and> waiting cd p PhaseTerminal [c'] \<and>
        u @ frame cd c = wired cd (cs @ [c'])" by blast
    with commit assms show ?thesis by (simp add: joint_def advance_other)
  qed
qed

lemma helper_payload_joint:
  assumes "mp_side h = HelperSide" "joint cd p h d u sent got" "n < 2 ^ 63"
    and "receive_payload h n d = (Inr v, h1, d1)"
  shows "joint cd p h1 d1 u sent (Some v) \<and> mp_side h1 = mp_side h"
proof -
  from assms(4) have h: "mp_phase h = PhaseStageAnnounced" "word_of_nat n = mp_payload h"
      "n \<le> length d" "v = take n d" "d1 = drop n d" "h1 = h\<lparr>mp_phase := PhasePayloadComplete\<rparr>"
    by (auto simp: receive_payload_def read_full_def split: if_splits)
  have same: "n = length x" if "carries p (Some x)" "mp_payload h = mp_payload p" for x
  proof -
    have "(word_of_nat n :: 64 word) = word_of_nat (length x)" "length x < 2 ^ 63"
      using that h(2) by (auto simp: carries_def)
    then have "unat (word_of_nat n :: 64 word) = unat (word_of_nat (length x) :: 64 word)" by simp
    with assms(3) \<open>length x < 2 ^ 63\<close> show ?thesis by (simp add: unat_of_nat)
  qed
  have none: "v = []" "mp_payload p = 0" if "d = []" "mp_payload h = mp_payload p" using h that by auto
  have "n = 0" if "d = []" using h that by auto
  consider (ack) "mp_phase p = PhaseStageAck" | (ann) "mp_phase p = PhaseStageAnnounced"
    | (other) "mp_phase p \<noteq> PhaseStageAck" "mp_phase p \<noteq> PhaseStageAnnounced" by blast
  then show ?thesis
  proof cases
    case ack
    with assms(2) h obtain c where "agree p h" "waiting cd p PhaseStageAnnounced [c]" "u = wired cd [c]"
        "d = []" "sent = None" by (auto simp: joint_def)
    moreover from this none have "v = []" "mp_payload p = 0" by (simp_all add: agree_def)
    moreover have "\<exists>c cs. waiting cd p PhaseStageAnnounced [c] \<and> waiting cd p PhasePayloadComplete cs \<and>
        u = wired cd (c # cs)" using calculation by (intro exI[of _ c] exI[of _ "[]"]) simp
    ultimately show ?thesis using ack h by (simp add: joint_def)
  next
    case ann
    with assms(2) h have "agree p h" "u = []" "d = []" "sent = None" by (auto simp: joint_def)
    moreover from this none have "v = []" "mp_payload p = 0" by (simp_all add: agree_def)
    ultimately show ?thesis using ann h by (simp add: joint_def)
  next
    case other
    with assms(2) h same show ?thesis
      by (cases "mp_phase p") (auto simp: joint_def agree_def carries_def)
  qed
qed

lemma helper_receive_joint:
  assumes "mp_side h = HelperSide" "joint cd p h d u sent got"
    and "valid_operation (mp_operation p)" "valid_fd_roles (mp_operation p) (mp_roles p)"
    and "mp_phase h \<noteq> PhaseStageAnnounced"
    and "receive_control cd h (Some d) = (r, h1, Some d1)" "\<forall>e. r \<noteq> Inl (MutIO e)"
  shows "joint cd p h1 d1 u sent got \<and> mp_side h1 = HelperSide \<and> r \<noteq> Inl ErrProtocol"
proof -
  have "d \<noteq> []" using assms by auto
  then consider (request) "mp_phase p = PhaseRequest" "mp_phase h = PhaseNone"
    | (ack) "mp_phase p = PhaseStageAck" "mp_phase h = PhaseStageCreated"
    | (commit) "mp_phase p = PhaseCommit" "mp_phase h = PhasePayloadComplete"
    using assms by (cases "mp_phase p"; cases "mp_phase h") (simp_all add: joint_def)
  then show ?thesis
  proof cases
    case request
    with assms obtain c where c: "waiting cd p PhaseRequest [c]" "mc_payload_bytes c = mp_payload p"
        "d = frame cd c" by (auto simp: joint_def)
    then have v: "mc_operation c = mp_operation p" "mc_fd_roles c = mp_roles p"
        "mc_payload_bytes c \<le> max_payload_bytes" by (auto simp: validate_bound_def)
    have "validate_bound (h\<lparr>mp_operation := mp_operation p, mp_roles := mp_roles p\<rparr>) c"
      using c validate_bound_cong[of "h\<lparr>mp_operation := mp_operation p, mp_roles := mp_roles p\<rparr>" p c] by simp
    with request assms c v show ?thesis
      by (auto simp: joint_def receive_control_single validate_incoming_def advance_def agree_def Let_def)
  next
    case ack
    with assms show ?thesis
      by (auto simp: joint_def receive_control_single validate_incoming_def advance_other validate_bound_agree)
  next
    case commit
    with assms show ?thesis
      by (auto simp: joint_def receive_control_single validate_incoming_def advance_other validate_bound_agree)
  qed
qed

lemma step_inv: "session_step cd s s' \<Longrightarrow> session_inv cd s \<Longrightarrow> session_inv cd s'"
proof (induction rule: session_step.induct)
  case (parent_send c s p d)
  then show ?case
    using parent_send_joint[of "se_parent s"]
    by (auto simp: session_inv_def send_control_pipe validate_outgoing_def advance_def Let_def)
next
  case (parent_payload v s p d)
  then show ?case
    using parent_payload_joint by (auto simp: session_inv_def send_payload_pipe)
next
  case (parent_receive s r p u)
  then have "mp_side (se_parent s) = ParentSide"
    "joint cd (se_parent s) (se_helper s) (se_down s) (se_up s) (se_sent s) (se_got s)"
    by (simp_all add: session_inv_def)
  from parent_receive_joint[OF this parent_receive(1,2)] parent_receive(3) show ?case
    by (simp add: session_inv_def)
next
  case (helper_send c s h u)
  then show ?case
    using helper_send_joint[of "se_helper s"]
    by (auto simp: session_inv_def send_control_pipe advance_def Let_def)
next
  case (helper_payload n s v h d)
  then have "mp_side (se_helper s) = HelperSide"
    "joint cd (se_parent s) (se_helper s) (se_down s) (se_up s) (se_sent s) (se_got s)"
    by (simp_all add: session_inv_def)
  from helper_payload_joint[OF this helper_payload(1,2)] helper_payload(3) show ?case
    by (simp add: session_inv_def)
next
  case (helper_receive s r h d)
  then have "mp_side (se_helper s) = HelperSide"
    "joint cd (se_parent s) (se_helper s) (se_down s) (se_up s) (se_sent s) (se_got s)"
    "valid_operation (mp_operation (se_parent s))"
    "valid_fd_roles (mp_operation (se_parent s)) (mp_roles (se_parent s))"
    by (simp_all add: session_inv_def)
  from helper_receive_joint[OF this helper_receive(1,2,3)] helper_receive(4) show ?case
    by (simp add: session_inv_def)
qed

lemma reachable_inv:
  assumes "session_reachable cd p s" "new_protocol_parent op roles = Inr p"
  shows "session_inv cd s"
  using assms(1) by (induction rule: session_reachable.induct) (auto simp: start_inv[OF assms(2)] step_inv)

section \<open>Properties\<close>

text \<open>A control record survives the wire.  Whatever chunks an honest writer takes it in, a
  record that was written without error reads back as itself, and the reader is left exactly
  where the frame ends.\<close>

theorem control_frame_roundtrip:
  assumes "honest out wr" "sendable cd c" "write_control cd (Some wr) c w = (None, w1)"
  shows "\<exists>s. out w1 = out w @ s \<and> length s \<le> 4 + max_control_frame_bytes \<and>
    read_control cd (Some (s @ rest)) = (Inr c, Some rest)"
proof -
  obtain e where e: "cd_enc cd c = Some e" "length e \<le> max_control_frame_bytes"
    using assms(2) by (auto simp: sendable_def split: option.splits)
  obtain r1 w2 where a: "write_all wr (be_bytes 4 (length e)) w = (r1, w2)" by fastforce
  obtain r2 w3 where b: "write_all wr e w2 = (r2, w3)" by fastforce
  from assms(3) e a b have "r1 = None" "r2 = None" "w3 = w1"
    by (auto simp: write_control_def split: if_splits option.splits)
  with write_all_honest[OF assms(1) a] write_all_honest[OF assms(1) b] e
  have "out w1 = out w @ frame cd c" by (auto simp: frame_def framed_def)
  with read_frame[OF assms(2)] e show ?thesis by (auto simp: frame_def framed_def)
qed


lemma read_control_some: "snd (read_control cd (Some s)) \<noteq> None"
  by (simp add: read_control_def Let_def split: prod.split sum.split option.split)

lemma receive_control_some: "snd (snd (receive_control cd p (Some s))) \<noteq> None"
  using read_control_some[of cd s]
  by (auto simp: receive_control_def split: prod.split sum.split bool.split)


text \<open>The run the launcher and the helper make: eight exchanges, alternating.  \<open>cs\<close> gives the
  control record of each phase.\<close>

definition endpoint :: "mut_side \<Rightarrow> mut_protocol \<Rightarrow> 64 word \<Rightarrow> mut_phase \<Rightarrow> mut_protocol" where
  "endpoint side p n ph = \<lparr>mp_side = side, mp_operation = mp_operation p, mp_roles = mp_roles p,
     mp_phase = ph, mp_payload = n\<rparr>"

definition script_ok :: "codec \<Rightarrow> mut_protocol \<Rightarrow> (mut_phase \<Rightarrow> mut_control) \<Rightarrow> string \<Rightarrow> bool" where
  "script_ok cd p cs v \<longleftrightarrow>
     (\<forall>ph. valid_phase ph \<longrightarrow>
        sendable cd (cs ph) \<and> mc_phase (cs ph) = ph \<and> validate_bound p (cs ph)) \<and>
     length v < 2 ^ 63 \<and> mc_payload_bytes (cs PhaseRequest) = word_of_nat (length v)"

definition joint_state :: "mut_protocol \<Rightarrow> mut_protocol \<Rightarrow> string \<Rightarrow> string \<Rightarrow> string option \<Rightarrow>
    string option \<Rightarrow> session" where
  "joint_state p h d u x y =
     \<lparr>se_parent = p, se_helper = h, se_down = d, se_up = u, se_sent = x, se_got = y\<rparr>"

lemma endpoint_simps [simp]:
  "mp_side (endpoint sd p n ph) = sd" "mp_operation (endpoint sd p n ph) = mp_operation p"
  "mp_roles (endpoint sd p n ph) = mp_roles p" "mp_phase (endpoint sd p n ph) = ph"
  "mp_payload (endpoint sd p n ph) = n"
  "(endpoint sd p n ph)\<lparr>mp_phase := ph'\<rparr> = endpoint sd p n ph'"
  "(endpoint sd p n ph)\<lparr>mp_payload := n'\<rparr> = endpoint sd p n' ph"
  by (simp_all add: endpoint_def)

lemma validate_bound_endpoint [simp]: "validate_bound (endpoint sd p n ph) c = validate_bound p c"
  by (rule validate_bound_cong) simp_all

lemma joint_state_simps [simp]:
  "se_parent (joint_state p h d u x y) = p" "se_helper (joint_state p h d u x y) = h"
  "se_down (joint_state p h d u x y) = d" "se_up (joint_state p h d u x y) = u"
  "(joint_state p h d u x y)\<lparr>se_parent := p'\<rparr> = joint_state p' h d u x y"
  "(joint_state p h d u x y)\<lparr>se_helper := h'\<rparr> = joint_state p h' d u x y"
  "(joint_state p h d u x y)\<lparr>se_down := d'\<rparr> = joint_state p h d' u x y"
  "(joint_state p h d u x y)\<lparr>se_up := u'\<rparr> = joint_state p h d u' x y"
  "(joint_state p h d u x y)\<lparr>se_sent := x'\<rparr> = joint_state p h d u x' y"
  "(joint_state p h d u x y)\<lparr>se_got := y'\<rparr> = joint_state p h d u x y'"
  by (simp_all add: joint_state_def)

lemma script_okD:
  assumes "script_ok cd p cs v" "valid_phase ph"
  shows "sendable cd (cs ph)" "mc_phase (cs ph) = ph" "validate_bound p (cs ph)"
  using assms by (auto simp: script_ok_def)

lemma can_send_valid: "can_send sd ph0 ph \<Longrightarrow> valid_phase ph"
  by (cases "(sd, ph0, ph)" rule: can_send.cases) auto

lemma can_receive_valid: "can_receive sd ph0 ph \<Longrightarrow> valid_phase ph"
  by (cases "(sd, ph0, ph)" rule: can_receive.cases) auto

text \<open>One exchange in each direction: the sender writes its record and the receiver takes it.\<close>

lemma exchange_down:
  assumes "script_ok cd p cs v" "n = word_of_nat (length v)"
    and "can_send ParentSide ph0 ph" "can_receive HelperSide hp0 ph" "ph0 \<noteq> PhaseNone" "hp0 \<noteq> PhaseNone"
    and "session_reachable cd p
      (joint_state (endpoint ParentSide p n ph0) (endpoint HelperSide p n hp0) [] [] x y)"
  shows "session_reachable cd p
      (joint_state (endpoint ParentSide p n ph) (endpoint HelperSide p n ph) [] [] x y)"
proof -
  note c = script_okD[OF assms(1) can_send_valid[OF assms(3)]]
  have ph: "ph \<noteq> PhaseRequest" "hp0 \<noteq> PhaseStageAnnounced" using assms(3-6) by (cases ph0; cases hp0; simp)+
  let ?s = "joint_state (endpoint ParentSide p n ph0) (endpoint HelperSide p n hp0) [] [] x y"
  let ?t = "joint_state (endpoint ParentSide p n ph) (endpoint HelperSide p n hp0) (frame cd (cs ph)) [] x y"
  have "session_step cd ?s ?t"
    using session_step.parent_send[of cd "cs ph" ?s "endpoint ParentSide p n ph" "frame cd (cs ph)"] c ph assms(3)
    by (simp add: send_control_pipe validate_outgoing_def advance_other)
  from session_reachable.step[OF assms(7) this] have t: "session_reachable cd p ?t" .
  have "receive_control cd (se_helper ?t) (Some (se_down ?t)) = (Inr (cs ph), endpoint HelperSide p n ph, Some [])"
    using c ph assms(4,6) by (simp add: receive_control_single validate_incoming_def advance_other)
  from session_step.helper_receive[OF _ this] ph session_reachable.step[OF t] show ?thesis by simp
qed

lemma exchange_up:
  assumes "script_ok cd p cs v" "n = word_of_nat (length v)"
    and "can_send HelperSide hp0 ph" "can_receive ParentSide ph0 ph"
    and "session_reachable cd p
      (joint_state (endpoint ParentSide p n ph0) (endpoint HelperSide p n hp0) [] [] x y)"
  shows "session_reachable cd p
      (joint_state (endpoint ParentSide p n ph) (endpoint HelperSide p n ph) [] [] x y)"
proof -
  note c = script_okD[OF assms(1) can_send_valid[OF assms(3)]]
  have ph: "ph \<noteq> PhaseRequest" "hp0 \<noteq> PhaseNone" using assms(3,4) by (cases ph0; cases hp0; simp)+
  let ?s = "joint_state (endpoint ParentSide p n ph0) (endpoint HelperSide p n hp0) [] [] x y"
  let ?t = "joint_state (endpoint ParentSide p n ph0) (endpoint HelperSide p n ph) [] (frame cd (cs ph)) x y"
  have "session_step cd ?s ?t"
    using session_step.helper_send[of cd "cs ph" ?s "endpoint HelperSide p n ph" "frame cd (cs ph)"] c ph assms(3)
    by (simp add: send_control_pipe validate_outgoing_def advance_other)
  from session_reachable.step[OF assms(5) this] have t: "session_reachable cd p ?t" .
  have "receive_control cd (se_parent ?t) (Some (se_up ?t)) = (Inr (cs ph), endpoint ParentSide p n ph, Some [])"
    using c ph assms(4) by (simp add: receive_control_single validate_incoming_def advance_other)
  from session_step.parent_receive[OF this] session_reachable.step[OF t] show ?thesis by simp
qed

lemma exchange_request:
  assumes "script_ok cd p cs v" "n = word_of_nat (length v)" "new_protocol_parent op roles = Inr p"
  shows "session_reachable cd p
    (joint_state (endpoint ParentSide p n PhaseRequest) (endpoint HelperSide p n PhaseRequest) [] [] None None)"
proof -
  have p: "p = endpoint ParentSide p 0 PhaseNone" "valid_operation (mp_operation p)"
      "valid_fd_roles (mp_operation p) (mp_roles p)"
    using assms(3) by (auto simp: new_protocol_parent_def endpoint_def split: if_splits)
  let ?c = "cs PhaseRequest" and ?h = "new_protocol_helper\<lparr>mp_operation := mp_operation p, mp_roles := mp_roles p\<rparr>"
  have c: "sendable cd ?c" "mc_phase ?c = PhaseRequest" "validate_bound p ?c"
      "mc_payload_bytes ?c = n" "validate_bound ?h ?c"
    using script_okD[OF assms(1), of PhaseRequest] assms(1,2) validate_bound_cong[of ?h p ?c]
    by (auto simp: script_ok_def)
  then have f: "mc_operation ?c = mp_operation p" "mc_fd_roles ?c = mp_roles p"
    by (auto simp: validate_bound_def)
  let ?s = "joint_state p new_protocol_helper [] [] None None"
  let ?t = "joint_state (endpoint ParentSide p n PhaseRequest) new_protocol_helper (frame cd ?c) [] None None"
  have s: "session_reachable cd p ?s"
    using session_reachable.start[of cd p] by (simp add: session_start_def joint_state_def)
  have adv: "advance p ?c = endpoint ParentSide p n PhaseRequest"
    by (subst p(1)) (simp add: advance_def c)
  have "mp_side p = ParentSide" "mp_phase p = PhaseNone" by (subst p(1), simp)+
  with adv have "session_step cd ?s ?t"
    using session_step.parent_send[of cd ?c ?s "endpoint ParentSide p n PhaseRequest" "frame cd ?c"] c
    by (simp add: send_control_pipe validate_outgoing_def)
  from session_reachable.step[OF s this] have t: "session_reachable cd p ?t" .
  have "advance ?h ?c = endpoint HelperSide p n PhaseRequest"
    using c by (simp add: advance_def new_protocol_helper_def endpoint_def)
  then have "receive_control cd (se_helper ?t) (Some (se_down ?t))
      = (Inr ?c, endpoint HelperSide p n PhaseRequest, Some [])"
    using c f p by (simp add: receive_control_single validate_incoming_def) (simp add: new_protocol_helper_def)
  from session_step.helper_receive[OF _ this] session_reachable.step[OF t] show ?thesis
    by (simp add: new_protocol_helper_def)
qed

lemma exchange_payload:
  assumes "length v < 2 ^ 63" "n = word_of_nat (length v)"
    and "session_reachable cd p (joint_state (endpoint ParentSide p n PhaseStageAnnounced)
      (endpoint HelperSide p n PhaseStageAnnounced) [] [] None None)"
  shows "session_reachable cd p (joint_state (endpoint ParentSide p n PhasePayloadComplete)
      (endpoint HelperSide p n PhasePayloadComplete) [] [] (Some v) (Some v))"
proof -
  let ?s = "joint_state (endpoint ParentSide p n PhaseStageAnnounced)
      (endpoint HelperSide p n PhaseStageAnnounced) [] [] None None"
  let ?t = "joint_state (endpoint ParentSide p n PhasePayloadComplete)
      (endpoint HelperSide p n PhaseStageAnnounced) v [] (Some v) None"
  have "send_payload (se_parent ?s) pipe_write v (se_down ?s)
      = (None, endpoint ParentSide p n PhasePayloadComplete, v)"
    using assms(2) by (simp add: send_payload_pipe)
  from session_step.parent_payload[OF assms(1) this] session_reachable.step[OF assms(3)]
  have t: "session_reachable cd p ?t" by simp
  have "receive_payload (se_helper ?t) (length v) (se_down ?t)
      = (Inr v, endpoint HelperSide p n PhasePayloadComplete, [])"
    using assms(2) by (simp add: receive_payload_def)
  from session_step.helper_payload[OF assms(1) this] session_reachable.step[OF t] show ?thesis by simp
qed

lemma session_run:
  assumes "new_protocol_parent op roles = Inr p" "script_ok cd p cs v"
  shows "\<exists>s. session_reachable cd p s \<and> mp_phase (se_parent s) = PhaseTerminal \<and>
    mp_phase (se_helper s) = PhaseTerminal \<and> se_got s = Some v"
proof -
  define n :: "64 word" where "n = word_of_nat (length v)"
  have v: "length v < 2 ^ 63" using assms(2) by (simp add: script_ok_def)
  note up = exchange_up[OF assms(2) n_def] and down = exchange_down[OF assms(2) n_def]
  note run = exchange_request[OF assms(2) n_def assms(1)]
  note run = down[OF _ _ _ _ up[OF _ _ run, of PhaseStageCreated], of PhaseStageAck]
  note run = exchange_payload[OF v n_def up[OF _ _ run, of PhaseStageAnnounced]]
  note run = down[OF _ _ _ _ up[OF _ _ run, of PhasePayloadComplete], of PhaseCommit]
  note run = up[OF _ _ run, of PhaseTerminal]
  show ?thesis by (rule exI, intro conjI, rule run) (simp_all add: joint_state_def)
qed

text \<open>C26. The exchange can always be finished: for every valid request and every payload of the
  declared length there is a run that takes both sides to the terminal record with the payload
  delivered.\<close>

theorem session_completes:
  assumes "new_protocol_parent op roles = Inr p" "script_ok cd p cs v"
  shows "\<exists>s. session_reachable cd p s \<and> mp_phase (se_parent s) = PhaseTerminal \<and>
    mp_phase (se_helper s) = PhaseTerminal \<and> se_got s = Some v"
  by (rule session_run[OF assms])

section \<open>A concrete exchange\<close>

definition demo_stamp :: raw_stamp where
  "demo_stamp = zero_stamp\<lparr>st_device := 1, st_inode := 2, st_mode := 33152, st_nlink := 1\<rparr>"

definition demo_script :: "mut_phase \<Rightarrow> mut_control" where
  "demo_script ph =
     (let c = plain_control MutCreate ph in
      case ph of
        PhaseRequest \<Rightarrow> c\<lparr>mc_fd_roles := 7, mc_payload_bytes := 2, mc_target_leaf := ''note.md'',
          mc_stage_leaf := stage_prefix @ replicate 32 CHR ''a''\<rparr>
      | PhaseStageCreated \<Rightarrow> c\<lparr>mc_executable_identity := demo_stamp\<rparr>
      | PhaseStageAnnounced \<Rightarrow> c\<lparr>mc_stage_identity := demo_stamp\<rparr>
      | PhasePayloadComplete \<Rightarrow> c\<lparr>mc_stage_identity := demo_stamp\<rparr>
      | PhaseCommit \<Rightarrow> c\<lparr>mc_commit_token := replicate 32 CHR ''7''\<rparr>
      | PhaseTerminal \<Rightarrow> c\<lparr>mc_terminal := TermRefused, mc_terminal_code := CodeDestinationExists\<rparr>
      | _ \<Rightarrow> c)"

fun demo_tag :: "mut_phase \<Rightarrow> string" where
  "demo_tag PhaseRequest = ''R''"
| "demo_tag PhaseStageCreated = ''S''"
| "demo_tag PhaseStageAck = ''K''"
| "demo_tag PhaseStageAnnounced = ''A''"
| "demo_tag PhasePayloadComplete = ''P''"
| "demo_tag PhaseCommit = ''C''"
| "demo_tag PhaseTerminal = ''T''"
| "demo_tag _ = ''''"

definition demo_codec :: codec where
  "demo_codec = \<lparr>cd_enc = (\<lambda>c. Some (demo_tag (mc_phase c))),
     cd_dec = (\<lambda>s. map_option (\<lambda>ph. (demo_script ph, True))
       (List.find (\<lambda>ph. demo_tag ph = s) [PhaseRequest, PhaseStageCreated, PhaseStageAck,
          PhaseStageAnnounced, PhasePayloadComplete, PhaseCommit, PhaseTerminal]))\<rparr>"

definition demo_parent :: mut_protocol where
  "demo_parent = \<lparr>mp_side = ParentSide, mp_operation = MutCreate, mp_roles = 7, mp_phase = PhaseNone,
     mp_payload = 0\<rparr>"

lemma demo_parent_new: "new_protocol_parent MutCreate 7 = Inr demo_parent"
  by (simp add: new_protocol_parent_def demo_parent_def valid_operation_def valid_fd_roles_def
      fd_required_def fd_control_def fd_root_def fd_parent_def fd_source_def)

lemma demo_phase [simp]: "mc_phase (demo_script ph) = ph"
  by (cases ph) (simp_all add: demo_script_def plain_control_def Let_def)

lemma demo_sendable: "valid_phase ph \<Longrightarrow> sendable demo_codec (demo_script ph)"
  by (cases ph) (simp_all add: sendable_def demo_codec_def max_control_frame_bytes_def)

lemma demo_script_ok: "script_ok demo_codec demo_parent demo_script ''hi''"
proof -
  have t: "valid_target_leaf ''note.md''"
    by (simp add: valid_target_leaf_def contains_any_def)
  have l: "valid_stage_leaf (stage_prefix @ replicate 32 CHR ''a'')"
    by (simp add: valid_stage_leaf_def stage_prefix_def list_all_iff lower_hex_def)
  have "validate_bound demo_parent (demo_script ph)" if "valid_phase ph" for ph
    using that t l
    by (cases ph)
      (simp_all add: validate_bound_def demo_script_def plain_control_def demo_parent_def Let_def
        mutation_protocol_version_def max_payload_bytes_def valid_expected_source_def
        no_request_fields_def no_terminal_fields_def valid_raw_stamp_def demo_stamp_def
        zero_stamp_def valid_token_def list_all_iff lower_hex_def valid_terminal_def)
  then show ?thesis
    by (simp add: script_ok_def demo_sendable) (simp add: demo_script_def plain_control_def Let_def)
qed

theorem session_completes_witness:
  "\<exists>s. session_reachable demo_codec demo_parent s \<and> mp_phase (se_parent s) = PhaseTerminal \<and>
    mp_phase (se_helper s) = PhaseTerminal \<and> se_got s = Some ''hi''"
  by (rule session_completes[OF demo_parent_new demo_script_ok])



theorem control_frame_roundtrip_witness:
  "read_control demo_codec (Some (frame demo_codec (demo_script PhaseStageAck) @ ''xyz''))
     = (Inr (demo_script PhaseStageAck), Some ''xyz'')"
proof -
  have s: "sendable demo_codec (demo_script PhaseStageAck)" by (simp add: demo_sendable)
  have "honest (\<lambda>w. w) pipe_write" by (auto simp: honest_def pipe_write_def)
  from control_frame_roundtrip[OF this s write_control_pipe[OF s], of "[]" "''xyz''"] show ?thesis by auto
qed

end
