(* ===== verification/MutationDemo.thy ===== *)
theory MutationDemo
  imports MutationLauncher MutationSession
begin

text \<open>
  One creation of a file, run by both processes: the launcher creates \<open>New\<close> with two bytes, the helper
  finds nothing in its way.  The steps below evaluate it; the theorems apply what is proved of
  every run to this one.
\<close>

section \<open>Steps over a socket that takes everything\<close>

lemma write_whole:
  assumes "fe_write e = (\<lambda>_. (5000, None))" "v \<noteq> []" "length v \<le> 4096"
  shows "write_all (socket_writer e) v w = (None, w\<lparr>tk_tick := tk_tick w + 1, fw_out := fw_out w @ v\<rparr>)"
    "write_all (stage_writer e d) v w = (None, w\<lparr>tk_tick := tk_tick w + 1, tk_trace := tk_trace w @ [SysWrite d v]\<rparr>)"
  using assms by (subst write_all.simps, simp add: socket_writer_def stage_writer_def,
    subst write_all.simps, simp)+

text \<open>Messages that a codec keeps apart by one character.\<close>

definition tagged :: "codec \<Rightarrow> mut_control \<Rightarrow> char \<Rightarrow> bool" where
  "tagged cd c t \<longleftrightarrow> cd_enc cd c = Some [t] \<and> cd_dec cd [t] = Some (c, True)"

abbreviation tag_frame :: "char \<Rightarrow> string" where
  "tag_frame t \<equiv> [CHR 0x00, CHR 0x00, CHR 0x00, CHR 0x01, t]"

lemma length_bytes: "be_bytes 4 (Suc 0) = [CHR 0x00, CHR 0x00, CHR 0x00, CHR 0x01]"
  by code_simp

lemma send_step:
  assumes "fe_write e = (\<lambda>_. (5000, None))" "tagged cd c t"
    and "can_send (mp_side p) (mp_phase p) (mc_phase c)" "validate_outgoing p c"
  shows "run_state (send_msg e cd p c) w = ((None, advance p c),
    w\<lparr>tk_tick := tk_tick w + 2, tk_trace := tk_trace w @ [SentControl c], fw_out := fw_out w @ tag_frame t\<rparr>)"
  using assms(2-4) write_whole(1)[OF assms(1)]
  by (simp add: send_msg_def send_control_def write_control_def tagged_def emit_def length_bytes max_control_frame_bytes_def)

lemma receive_step:
  assumes "fw_in w = tag_frame t @ rest" "tagged cd c t"
    and "can_receive (mp_side p) (mp_phase p) (mc_phase c)" "validate_incoming p c = (True, p1)"
  shows "run_state (receive_msg cd p) w = ((Inr c, advance p1 c),
    w\<lparr>fw_in := rest, tk_trace := tk_trace w @ [GotControl c]\<rparr>)"
proof -
  have s: "sendable cd c" "frame cd c = tag_frame t"
    using assms(2) by (simp_all add: sendable_def frame_def tagged_def max_control_frame_bytes_def framed_def length_bytes)
  from receive_control_frame[OF s(1), of p rest] assms(1,3,4) s(2) show ?thesis
    by (simp add: receive_msg_def emit_def)
qed

section \<open>The messages\<close>

definition stage_stamp :: "int \<Rightarrow> raw_stamp" where
  "stage_stamp n = \<lparr>st_device = 1, st_inode = 7, st_mode = 0x8180, st_uid = 501, st_nlink = 1, st_size = n,
     st_mtime_sec = 10, st_mtime_nsec = 0, st_ctime_sec = 10, st_ctime_nsec = 0\<rparr>"

definition new_leaf :: string where
  "new_leaf = ''.pmcg-stage-00000000000000000000000000000000''"

definition old_stamp :: raw_stamp where
  "old_stamp = (stage_stamp 3)\<lparr>st_inode := 9\<rparr>"

text \<open>\<open>New\<close> is created, or \<open>Old\<close> replaced.\<close>

definition new_target :: "mut_operation \<Rightarrow> string" where
  "new_target op = (if op = MutCreate then ''New'' else ''Old'')"

definition new_expected :: "mut_operation \<Rightarrow> raw_stamp" where
  "new_expected op = (if op = MutCreate then zero_stamp else old_stamp)"

definition new_request :: "mut_operation \<Rightarrow> mut_control" where
  "new_request op = (plain_control op PhaseRequest)\<lparr>mc_fd_roles := staged_roles op, mc_payload_bytes := 2,
     mc_target_leaf := new_target op, mc_stage_leaf := new_leaf, mc_expected_source := new_expected op\<rparr>"

definition new_created :: "mut_operation \<Rightarrow> mut_control" where
  "new_created op = (plain_control op PhaseStageCreated)\<lparr>mc_executable_identity := stage_stamp 5\<rparr>"

definition new_ack :: "mut_operation \<Rightarrow> mut_control" where
  "new_ack op = plain_control op PhaseStageAck"

definition new_announced :: "mut_operation \<Rightarrow> mut_control" where
  "new_announced op = (plain_control op PhaseStageAnnounced)\<lparr>mc_stage_identity := stage_stamp 0\<rparr>"

definition new_complete :: "mut_operation \<Rightarrow> mut_control" where
  "new_complete op = (plain_control op PhasePayloadComplete)\<lparr>mc_stage_identity := stage_stamp 2\<rparr>"

definition new_commit :: "mut_operation \<Rightarrow> mut_control" where
  "new_commit op = (plain_control op PhaseCommit)\<lparr>mc_commit_token := ''00000000000000000000000000000000''\<rparr>"

definition new_terminal :: "mut_operation \<Rightarrow> mut_control" where
  "new_terminal op = committed op (stage_stamp 2)"

definition new_messages :: "mut_operation \<Rightarrow> (char \<times> mut_control) list" where
  "new_messages op = [(CHR ''R'', (new_request op)), (CHR ''S'', (new_created op)), (CHR ''K'', (new_ack op)), (CHR ''A'', (new_announced op)),
     (CHR ''P'', (new_complete op)), (CHR ''C'', (new_commit op)), (CHR ''T'', (new_terminal op))]"

definition new_codec :: "mut_operation \<Rightarrow> codec" where
  "new_codec op = \<lparr>cd_enc = (\<lambda>c. map_option (\<lambda>m. [fst m]) (List.find (\<lambda>m. snd m = c) (new_messages op))),
     cd_dec = (\<lambda>s. map_option (\<lambda>m. (snd m, True)) (List.find (\<lambda>m. [fst m] = s) (new_messages op)))\<rparr>"

lemma new_phases [simp]:
  "mc_phase (new_request op) = PhaseRequest" "mc_phase (new_created op) = PhaseStageCreated" "mc_phase (new_ack op) = PhaseStageAck"
  "mc_phase (new_announced op) = PhaseStageAnnounced" "mc_phase (new_complete op) = PhasePayloadComplete"
  "mc_phase (new_commit op) = PhaseCommit" "mc_phase (new_terminal op) = PhaseTerminal"
  by (simp_all add: new_request_def new_created_def new_ack_def new_announced_def new_complete_def new_commit_def
      new_terminal_def terminal_control_def plain_control_def)

lemma find_distinct: "distinct (map f xs) \<Longrightarrow> x \<in> set xs \<Longrightarrow> List.find (\<lambda>m. f m = f x) xs = Some x"
  by (induction xs) (auto simp: image_iff)

lemma new_distinct: "distinct (map snd (new_messages op))" "distinct (map (\<lambda>m. [fst m]) (new_messages op))"
proof -
  have "distinct (map mc_phase (map snd (new_messages op)))" by (simp add: new_messages_def)
  then show "distinct (map snd (new_messages op))" by (simp only: distinct_map)
qed (simp add: new_messages_def)

lemma new_tagged: "(t, c) \<in> set (new_messages op) \<Longrightarrow> tagged (new_codec op) c t"
  using find_distinct[OF new_distinct(1), of "(t, c)"] find_distinct[OF new_distinct(2), of "(t, c)"]
  by (simp add: tagged_def new_codec_def)

text \<open>The sides, by the phase they are in.\<close>

definition new_side :: "mut_operation \<Rightarrow> mut_side \<Rightarrow> mut_phase \<Rightarrow> mut_protocol" where
  "new_side op side ph = \<lparr>mp_side = side, mp_operation = op, mp_roles = staged_roles op, mp_phase = ph,
     mp_payload = (if ph = PhaseNone then 0 else 2)\<rparr>"

lemma new_side_simps [simp]: "mp_side (new_side op side ph) = side" "mp_phase (new_side op side ph) = ph"
  by (simp_all add: new_side_def)

lemma new_roles: "valid_operation op \<Longrightarrow> valid_fd_roles op (staged_roles op)"
proof -
  have "valid_fd_roles MutCreate (staged_roles MutCreate)" "valid_fd_roles MutReplace (staged_roles MutReplace)"
    by code_simp+
  then show "valid_operation op \<Longrightarrow> valid_fd_roles op (staged_roles op)" by (auto simp: valid_operation_def)
qed

lemma new_side_parent:
  "valid_operation op \<Longrightarrow> new_protocol_parent op (staged_roles op) = Inr (new_side op ParentSide PhaseNone)"
  using new_roles by (simp add: new_protocol_parent_def new_side_def)

lemma new_advance [simp]:
  "advance (new_side op side PhaseNone) (new_request op) = new_side op side PhaseRequest"
  "ph \<noteq> PhaseNone \<Longrightarrow> mc_phase c \<noteq> PhaseNone \<Longrightarrow> mc_phase c \<noteq> PhaseRequest \<Longrightarrow>
     advance (new_side op side ph) c = new_side op side (mc_phase c)"
  by (simp_all add: advance_def new_side_def Let_def) (simp add: new_request_def)

lemma new_leaf_valid:
  "valid_stage_leaf new_leaf" "valid_token ''00000000000000000000000000000000''" "valid_target_leaf (new_target op)"
proof -
  have "valid_target_leaf ''New''" "valid_target_leaf ''Old''" by code_simp+
  then show "valid_target_leaf (new_target op)" by (simp add: new_target_def)
qed code_simp+

lemma stage_stamp_valid: "0 \<le> n \<Longrightarrow> valid_raw_stamp (stage_stamp n)"
  by (simp add: valid_raw_stamp_def stage_stamp_def)

lemma new_expected_valid: "valid_expected_source op (new_expected op)"
  by (simp add: valid_expected_source_def new_expected_def valid_raw_stamp_def old_stamp_def stage_stamp_def)

lemma new_valid: "(t, c) \<in> set (new_messages op) \<Longrightarrow> validate_bound (new_side op side ph) c"
  using new_leaf_valid new_expected_valid
  by (auto simp: new_messages_def validate_bound_def new_side_def new_request_def new_created_def new_ack_def
      new_announced_def new_complete_def new_commit_def new_terminal_def terminal_control_def plain_control_def
      no_request_fields_def no_terminal_fields_def stage_stamp_valid max_payload_bytes_def
      valid_terminal_def)

section \<open>The helper's run\<close>

definition new_fs :: fs_env where
  "new_fs = demo_fs\<lparr>fe_write := (\<lambda>_. (5000, None))\<rparr>"

definition new_helper_fs :: "mut_operation \<Rightarrow> fs_env" where
  "new_helper_fs op = new_fs\<lparr>fe_stat := (\<lambda>t. Inr old_stamp), fe_fstat := (\<lambda>t. Inr
     (if t < 2 then demo_dir_stamp else if op = MutReplace \<and> (t = 2 \<or> t = 16) then old_stamp
      else if t < 9 then stage_stamp 0 else stage_stamp 2))\<rparr>"

definition new_helper :: "mut_operation \<Rightarrow> helper_env" where
  "new_helper op = \<lparr>he_fs = new_helper_fs op, he_codec = new_codec op, he_exe = (\<lambda>t. Some (stage_stamp 5)), he_euid = 501\<rparr>"

definition helper_start :: fs_world where
  "helper_start = demo_fs_world\<lparr>fw_in := tag_frame CHR ''R'' @ tag_frame CHR ''K'' @ ''hi'' @ tag_frame CHR ''C''\<rparr>"

lemma new_send:
  assumes "(t, c) \<in> set (new_messages op)" "can_send side ph (mc_phase c)" "ph \<noteq> PhaseNone" "fe_write e = (\<lambda>_. (5000, None))"
  shows "run_state (send_msg e (new_codec op) (new_side op side ph) c) w = ((None, new_side op side (mc_phase c)),
    w\<lparr>tk_tick := tk_tick w + 2, tk_trace := tk_trace w @ [SentControl c], fw_out := fw_out w @ tag_frame t\<rparr>)"
proof -
  have "validate_outgoing (new_side op side ph) c"
    using assms(3) new_valid[OF assms(1)] by (simp add: validate_outgoing_def)
  moreover have "mc_phase c \<noteq> PhaseNone" "mc_phase c \<noteq> PhaseRequest"
    using assms(1-3) by (auto simp: new_messages_def elim: can_send.elims)
  ultimately show ?thesis
    using send_step[OF assms(4) new_tagged[OF assms(1)], of "new_side op side ph" w] assms(2,3) by simp
qed

lemma new_receive:
  assumes "fw_in w = tag_frame t @ rest" "(t, c) \<in> set (new_messages op)" "can_receive side ph (mc_phase c)" "ph \<noteq> PhaseNone"
  shows "run_state (receive_msg (new_codec op) (new_side op side ph)) w = ((Inr c, new_side op side (mc_phase c)),
    w\<lparr>fw_in := rest, tk_trace := tk_trace w @ [GotControl c]\<rparr>)"
proof -
  have "validate_incoming (new_side op side ph) c = (True, new_side op side ph)"
    using assms(4) new_valid[OF assms(2)] by (simp add: validate_incoming_def)
  moreover have "mc_phase c \<noteq> PhaseNone" "mc_phase c \<noteq> PhaseRequest"
    using assms(2-4) by (auto simp: new_messages_def elim: can_receive.elims)
  ultimately show ?thesis
    using receive_step[OF assms(1) new_tagged[OF assms(2)], of "new_side op side ph"] assms(3,4) by simp
qed

lemma new_receive_request:
  assumes "fw_in w = tag_frame CHR ''R'' @ rest" "valid_operation op"
  shows "run_state (receive_msg (new_codec op) new_protocol_helper) w = ((Inr (new_request op), new_side op HelperSide PhaseRequest),
    w\<lparr>fw_in := rest, tk_trace := tk_trace w @ [GotControl (new_request op)]\<rparr>)"
proof -
  have "validate_bound (new_side op HelperSide PhaseNone) (new_request op)"
    by (rule new_valid[of "CHR ''R''"]) (simp add: new_messages_def)
  then have "validate_incoming new_protocol_helper (new_request op) = (True, new_side op HelperSide PhaseNone)"
    using assms(2) new_roles
    by (simp add: validate_incoming_def new_protocol_helper_def new_request_def new_side_def plain_control_def Let_def)
  with receive_step[OF assms(1) new_tagged, of "new_request op" op new_protocol_helper] show ?thesis
    by (simp add: new_messages_def new_protocol_helper_def)
qed

lemma new_request_fields [simp]:
  "mc_operation (new_request op) = op" "mc_payload_bytes (new_request op) = 2"
  "mc_target_leaf (new_request op) = new_target op" "mc_stage_leaf (new_request op) = new_leaf"
  "mc_expected_source (new_request op) = new_expected op"
  by (simp_all add: new_request_def plain_control_def)

lemma new_payload:
  assumes "fw_in w = ''hi'' @ rest"
  shows "run_state (receive_bytes (new_side op HelperSide PhaseStageAnnounced) 2) w =
    ((Inr ''hi'', new_side op HelperSide PhasePayloadComplete), w\<lparr>fw_in := rest, tk_trace := tk_trace w @ [GotPayload ''hi'']\<rparr>)"
  using assms by (simp add: receive_bytes_def receive_payload_def new_side_def read_full_def emit_def)

lemmas new_steps = run_helper_files_def fstat_directory_def run_stage_def announce_stage_def fill_stage_def
  commit_stage_def commit_create_def after_rename_def write_stage_def sys_fstat_def sys_effect_def look_def emit_def moment_def
  must_be_absent_def match_mutation_name_def classify_names_def classified_def

lemma new_helper_parts [simp]:
  "he_codec (new_helper op) = new_codec op" "he_fs (new_helper op) = new_helper_fs op"
  "he_exe (new_helper op) = (\<lambda>t. Some (stage_stamp 5))" "he_euid (new_helper op) = 501"
  by (simp_all add: new_helper_def)

lemma new_fs_parts [simp]:
  "fe_write (new_helper_fs op) = (\<lambda>_. (5000, None))" "fe_effect (new_helper_fs op) = (\<lambda>t. None)"
  "fe_stat (new_helper_fs op) = (\<lambda>t. Inr old_stamp)"
  "fe_fstat (new_helper_fs op) = (\<lambda>t. Inr (if t < 2 then demo_dir_stamp
     else if op = MutReplace \<and> (t = 2 \<or> t = 16) then old_stamp else if t < 9 then stage_stamp 0 else stage_stamp 2))"
  "fe_scan (background (new_helper_fs op)) = (\<lambda>t. if t < 10 then Inr [Inr [''Old'']] else Inr [])"
  "fe_vault (background (new_helper_fs op)) = demo_vault\<lparr>vf_ctx := (\<lambda>_. None)\<rparr>"
  by (simp_all add: new_helper_fs_def new_fs_def demo_fs_def background_def)

lemma new_stamps [simp]:
  "st_mode demo_dir_stamp AND s_ifmt = s_ifdir" "valid_stage_for_cleanup 501 (stage_stamp n) n"
  "st_mode old_stamp AND s_ifmt = s_ifreg"
  by (simp_all add: old_stamp_def demo_dir_stamp_def s_ifmt_def s_ifdir_def valid_stage_for_cleanup_def stage_stamp_def s_ifreg_def)

lemma new_sends:
  assumes "fe_write e = (\<lambda>_. (5000, None))"
  shows "run_state (send_msg e (new_codec op) (new_side op HelperSide PhaseRequest) (new_created op)) w =
      ((None, new_side op HelperSide PhaseStageCreated), w\<lparr>tk_tick := tk_tick w + 2,
        tk_trace := tk_trace w @ [SentControl (new_created op)], fw_out := fw_out w @ tag_frame CHR ''S''\<rparr>)"
    "run_state (send_msg e (new_codec op) (new_side op HelperSide PhaseStageAck) (new_announced op)) w =
      ((None, new_side op HelperSide PhaseStageAnnounced), w\<lparr>tk_tick := tk_tick w + 2,
        tk_trace := tk_trace w @ [SentControl (new_announced op)], fw_out := fw_out w @ tag_frame CHR ''A''\<rparr>)"
    "run_state (send_msg e (new_codec op) (new_side op HelperSide PhasePayloadComplete) (new_complete op)) w =
      ((None, new_side op HelperSide PhasePayloadComplete), w\<lparr>tk_tick := tk_tick w + 2,
        tk_trace := tk_trace w @ [SentControl (new_complete op)], fw_out := fw_out w @ tag_frame CHR ''P''\<rparr>)"
    "run_state (send_msg e (new_codec op) (new_side op HelperSide PhaseCommit) (new_terminal op)) w =
      ((None, new_side op HelperSide PhaseTerminal), w\<lparr>tk_tick := tk_tick w + 2,
        tk_trace := tk_trace w @ [SentControl (new_terminal op)], fw_out := fw_out w @ tag_frame CHR ''T''\<rparr>)"
  using new_send[of "CHR ''S''" "new_created op" op HelperSide PhaseRequest, OF _ _ _ assms]
    new_send[of "CHR ''A''" "new_announced op" op HelperSide PhaseStageAck, OF _ _ _ assms]
    new_send[of "CHR ''P''" "new_complete op" op HelperSide PhasePayloadComplete, OF _ _ _ assms]
    new_send[of "CHR ''T''" "new_terminal op" op HelperSide PhaseCommit, OF _ _ _ assms]
  by (simp_all add: new_messages_def)

lemma new_get_request:
  "run_state (receive_msg (new_codec op) new_protocol_helper)
     \<lparr>tk_tick = n, tk_trace = d, fw_in = CHR 0x00 # CHR 0x00 # CHR 0x00 # CHR 0x01 # CHR ''R'' # rest, fw_out = u\<rparr> =
   ((Inr (new_request op), new_side op HelperSide PhaseRequest),
     \<lparr>tk_tick = n, tk_trace = d @ [GotControl (new_request op)], fw_in = rest, fw_out = u\<rparr>)" if "valid_operation op" for op
  using new_receive_request[OF _ that, of _ rest] by simp

lemma new_gets:
  "run_state (receive_msg (new_codec op) (new_side op HelperSide PhaseStageCreated))
     \<lparr>tk_tick = n, tk_trace = d, fw_in = CHR 0x00 # CHR 0x00 # CHR 0x00 # CHR 0x01 # CHR ''K'' # rest, fw_out = u\<rparr> =
   ((Inr (new_ack op), new_side op HelperSide PhaseStageAck),
     \<lparr>tk_tick = n, tk_trace = d @ [GotControl (new_ack op)], fw_in = rest, fw_out = u\<rparr>)"
  "run_state (receive_msg (new_codec op) (new_side op HelperSide PhasePayloadComplete))
     \<lparr>tk_tick = n, tk_trace = d, fw_in = CHR 0x00 # CHR 0x00 # CHR 0x00 # CHR 0x01 # CHR ''C'' # rest, fw_out = u\<rparr> =
   ((Inr (new_commit op), new_side op HelperSide PhaseCommit),
     \<lparr>tk_tick = n, tk_trace = d @ [GotControl (new_commit op)], fw_in = rest, fw_out = u\<rparr>)"
  "run_state (receive_bytes (new_side op HelperSide PhaseStageAnnounced) 2)
     \<lparr>tk_tick = n, tk_trace = d, fw_in = CHR ''h'' # CHR ''i'' # rest, fw_out = u\<rparr> =
   ((Inr ''hi'', new_side op HelperSide PhasePayloadComplete),
     \<lparr>tk_tick = n, tk_trace = d @ [GotPayload ''hi''], fw_in = rest, fw_out = u\<rparr>)"
  using new_receive[of _ "CHR ''K''" rest "new_ack op" op HelperSide PhaseStageCreated]
    new_receive[of _ "CHR ''C''" rest "new_commit op" op HelperSide PhasePayloadComplete] new_payload[of _ rest]
  by (simp_all add: new_messages_def)

lemmas new_folds = new_created_def[symmetric] new_announced_def[symmetric] new_complete_def[symmetric]
  new_terminal_def[symmetric]

definition helper_trace :: "mut_operation \<Rightarrow> fs_event list" where
  "helper_trace op = [SysFstat 0 demo_dir_stamp, SysFstat 1 demo_dir_stamp, GotControl (new_request op)] @
     (if op = MutReplace then [SysFstat 7 old_stamp] else []) @
     (let stage = if op = MutReplace then 3 else 2 in
      [SysCreate stage 1 new_leaf, SysFstat stage (stage_stamp 0), SentControl (new_created op), GotControl (new_ack op),
       SentControl (new_announced op), GotPayload ''hi'', SysWrite stage ''hi'', SysFstat stage (stage_stamp 2),
       SentControl (new_complete op), GotControl (new_commit op)] @
      publication op old_stamp new_leaf (new_target op) 1 (Some 7) @
      [SysFstat stage (stage_stamp 2), SentControl (new_terminal op)])"

text \<open>The descriptor of the source, for a replacement.\<close>

definition new_source :: "mut_operation \<Rightarrow> fd option" where
  "new_source op = (if op = MutReplace then Some 7 else None)"

lemmas new_eval = helper_start_def demo_fs_world_def new_sends new_get_request new_gets new_folds write_whole
  valid_operation_def new_source_def new_target_def new_expected_def fstat_regular_def name_matches_def commit_replace_def
  sys_stat_def

lemma new_helper_run:
  assumes "valid_operation op"
  shows "\<exists>w'. run_state (run_helper_files (new_helper op) 0 1 (new_source op)) helper_start = (True, w') \<and>
    tk_trace w' = helper_trace op"
proof -
  from assms have "op = MutCreate \<or> op = MutReplace" by (simp add: valid_operation_def)
  then show ?thesis
    by (elim disjE) (simp_all add: new_steps new_eval helper_trace_def[unfolded numeral_2_eq_2 numeral_3_eq_3] publication_def)
qed

theorem helper_settles_once_witness:
  "\<exists>w'. run_state (run_helper_files (new_helper MutCreate) 0 1 None) helper_start = (True, w') \<and>
     SysRenameExcl 1 new_leaf 1 ''New'' \<in> set (tk_trace w') \<and> helper_ok 1 None (tk_trace w')"
proof -
  from new_helper_run[of MutCreate] obtain w' where
    run: "run_state (run_helper_files (new_helper MutCreate) 0 1 None) helper_start = (True, w')"
      "tk_trace w' = helper_trace MutCreate"
    by (auto simp: valid_operation_def new_source_def)
  have "tk_trace helper_start = []" by (simp add: helper_start_def demo_fs_world_def)
  from helper_settles_once[OF run(1) this] run show ?thesis
    by (auto simp: helper_trace_def publication_def new_target_def Let_def)
qed

section \<open>The launcher's run\<close>

definition new_launcher_fs :: "mut_operation \<Rightarrow> fs_env" where
  "new_launcher_fs op = new_fs\<lparr>fe_stat := (\<lambda>t. Inr old_stamp),
     fe_fstat := (\<lambda>t. Inr (if op = MutReplace then old_stamp else demo_dir_stamp))\<rparr>"

definition new_launcher :: "mut_operation \<Rightarrow> launcher_env" where
  "new_launcher op = \<lparr>le_fs = new_launcher_fs op, le_codec = new_codec op, le_euid = 501,
     le_helper = ''/usr/local/bin/gateway'', le_self = None, le_ctx = (\<lambda>t. None), le_slot = (\<lambda>t. None),
     le_rand = (\<lambda>t. Some (replicate 16 (CHR 0x00))), le_setup = (\<lambda>t. True), le_exe = (\<lambda>t. Some (stage_stamp 5)),
     le_wait = (\<lambda>t. (False, False))\<rparr>"

definition launcher_start :: fs_world where
  "launcher_start = demo_fs_world\<lparr>fw_in := tag_frame CHR ''S'' @ tag_frame CHR ''A'' @ tag_frame CHR ''P'' @ tag_frame CHR ''T''\<rparr>"

lemma new_launches:
  assumes "fe_write e = (\<lambda>_. (5000, None))"
  shows "run_state (send_msg e (new_codec op) (new_side op ParentSide PhaseNone) (new_request op)) w =
      ((None, new_side op ParentSide PhaseRequest), w\<lparr>tk_tick := tk_tick w + 2,
        tk_trace := tk_trace w @ [SentControl (new_request op)], fw_out := fw_out w @ tag_frame CHR ''R''\<rparr>)"
    "run_state (send_msg e (new_codec op) (new_side op ParentSide PhaseStageCreated) (new_ack op)) w =
      ((None, new_side op ParentSide PhaseStageAck), w\<lparr>tk_tick := tk_tick w + 2,
        tk_trace := tk_trace w @ [SentControl (new_ack op)], fw_out := fw_out w @ tag_frame CHR ''K''\<rparr>)"
    "run_state (send_msg e (new_codec op) (new_side op ParentSide PhasePayloadComplete) (new_commit op)) w =
      ((None, new_side op ParentSide PhaseCommit), w\<lparr>tk_tick := tk_tick w + 2,
        tk_trace := tk_trace w @ [SentControl (new_commit op)], fw_out := fw_out w @ tag_frame CHR ''C''\<rparr>)"
    "run_state (send_bytes e (new_side op ParentSide PhaseStageAnnounced) ''hi'') w =
      ((None, new_side op ParentSide PhasePayloadComplete), w\<lparr>tk_tick := tk_tick w + 1,
        tk_trace := tk_trace w @ [SentPayload ''hi''], fw_out := fw_out w @ ''hi''\<rparr>)"
  using new_send[of "CHR ''K''" "new_ack op" op ParentSide PhaseStageCreated, OF _ _ _ assms]
    new_send[of "CHR ''C''" "new_commit op" op ParentSide PhasePayloadComplete, OF _ _ _ assms]
    send_step[OF assms new_tagged[of "CHR ''R''" "new_request op"], where p = "new_side op ParentSide PhaseNone" and w = w]
    new_valid[of "CHR ''R''" "new_request op" op ParentSide PhaseNone] write_whole(1)[OF assms, of "''hi''"]
  by (simp_all add: new_messages_def validate_outgoing_def send_bytes_def send_payload_def emit_def) (simp_all add: new_side_def)

lemma new_answers:
  "run_state (receive_msg (new_codec op) (new_side op ParentSide PhaseRequest))
     \<lparr>tk_tick = n, tk_trace = d, fw_in = CHR 0x00 # CHR 0x00 # CHR 0x00 # CHR 0x01 # CHR ''S'' # rest, fw_out = u\<rparr> =
   ((Inr (new_created op), new_side op ParentSide PhaseStageCreated),
     \<lparr>tk_tick = n, tk_trace = d @ [GotControl (new_created op)], fw_in = rest, fw_out = u\<rparr>)"
  "run_state (receive_msg (new_codec op) (new_side op ParentSide PhaseStageAck))
     \<lparr>tk_tick = n, tk_trace = d, fw_in = CHR 0x00 # CHR 0x00 # CHR 0x00 # CHR 0x01 # CHR ''A'' # rest, fw_out = u\<rparr> =
   ((Inr (new_announced op), new_side op ParentSide PhaseStageAnnounced),
     \<lparr>tk_tick = n, tk_trace = d @ [GotControl (new_announced op)], fw_in = rest, fw_out = u\<rparr>)"
  "run_state (receive_msg (new_codec op) (new_side op ParentSide PhasePayloadComplete))
     \<lparr>tk_tick = n, tk_trace = d, fw_in = CHR 0x00 # CHR 0x00 # CHR 0x00 # CHR 0x01 # CHR ''P'' # rest, fw_out = u\<rparr> =
   ((Inr (new_complete op), new_side op ParentSide PhasePayloadComplete),
     \<lparr>tk_tick = n, tk_trace = d @ [GotControl (new_complete op)], fw_in = rest, fw_out = u\<rparr>)"
  "run_state (receive_msg (new_codec op) (new_side op ParentSide PhaseCommit))
     \<lparr>tk_tick = n, tk_trace = d, fw_in = CHR 0x00 # CHR 0x00 # CHR 0x00 # CHR 0x01 # CHR ''T'' # rest, fw_out = u\<rparr> =
   ((Inr (new_terminal op), new_side op ParentSide PhaseTerminal),
     \<lparr>tk_tick = n, tk_trace = d @ [GotControl (new_terminal op)], fw_in = rest, fw_out = u\<rparr>)"
  using new_receive[of _ "CHR ''S''" rest "new_created op" op ParentSide PhaseRequest]
    new_receive[of _ "CHR ''A''" rest "new_announced op" op ParentSide PhaseStageAck]
    new_receive[of _ "CHR ''P''" rest "new_complete op" op ParentSide PhasePayloadComplete]
    new_receive[of _ "CHR ''T''" rest "new_terminal op" op ParentSide PhaseCommit]
  by (simp_all add: new_messages_def)

abbreviation new_staged :: "mut_operation \<Rightarrow> fd \<Rightarrow> fd option \<Rightarrow> staged_mutation" where
  "new_staged op parent source \<equiv> \<lparr>sm_executable = ''/usr/local/bin/gateway'', sm_operation = op, sm_parent = parent,
     sm_source = source, sm_leaf = new_target op, sm_expected = new_expected op, sm_payload = ''hi''\<rparr>"

lemma new_names:
  "mutation_hex ''.pmcg-stage-'' (replicate 16 (CHR 0x00)) = new_leaf"
  "mutation_hex '''' (replicate 16 (CHR 0x00)) = ''00000000000000000000000000000000''"
  by code_simp+

lemma new_staged_facts:
  "staged_valid (new_staged MutCreate parent None)" "staged_valid (new_staged MutReplace parent (Some source))"
  "request_control (new_staged op parent s) new_leaf = new_request op"
  "mutation_executable (new_launcher op) = Inr ''/usr/local/bin/gateway''"
  "mc_executable_identity (new_created op) = stage_stamp 5" "mc_terminal (new_terminal op) = TermCommitted"
  "mc_terminal_code (new_terminal op) = CodeCommitted"
  using new_leaf_valid new_expected_valid
  by (simp_all add: staged_valid_def valid_operation_def max_payload_bytes_def request_control_def new_request_def
    plain_control_def mutation_executable_def new_launcher_def new_created_def new_terminal_def terminal_control_def)

lemma new_staged_values:
  "staged_valid \<lparr>sm_executable = ''/usr/local/bin/gateway'', sm_operation = MutCreate, sm_parent = parent,
     sm_source = None, sm_leaf = ''New'', sm_expected = zero_stamp, sm_payload = ''hi''\<rparr>"
  "request_control \<lparr>sm_executable = ''/usr/local/bin/gateway'', sm_operation = MutCreate, sm_parent = parent,
     sm_source = None, sm_leaf = ''New'', sm_expected = zero_stamp, sm_payload = ''hi''\<rparr> new_leaf = new_request MutCreate"
  "staged_valid \<lparr>sm_executable = ''/usr/local/bin/gateway'', sm_operation = MutReplace, sm_parent = parent,
     sm_source = Some source, sm_leaf = ''Old'', sm_expected = old_stamp, sm_payload = ''hi''\<rparr>"
  "request_control \<lparr>sm_executable = ''/usr/local/bin/gateway'', sm_operation = MutReplace, sm_parent = parent,
     sm_source = Some source, sm_leaf = ''Old'', sm_expected = old_stamp, sm_payload = ''hi''\<rparr> new_leaf = new_request MutReplace"
  using new_staged_facts(1)[of parent] new_staged_facts(2)[of parent source] new_staged_facts(3)[of MutCreate parent None]
    new_staged_facts(3)[of MutReplace parent "Some source"]
  by (simp_all add: new_target_def new_expected_def)

lemma new_launcher_parts [simp]:
  "le_fs (new_launcher op) = new_launcher_fs op" "le_codec (new_launcher op) = new_codec op"
  "le_ctx (new_launcher op) = (\<lambda>t. None)" "le_slot (new_launcher op) = (\<lambda>t. None)"
  "le_rand (new_launcher op) = (\<lambda>t. Some (replicate 16 (CHR 0x00)))" "le_setup (new_launcher op) = (\<lambda>t. True)"
  "le_exe (new_launcher op) = (\<lambda>t. Some (stage_stamp 5))" "le_wait (new_launcher op) = (\<lambda>t. (False, False))"
  by (simp_all add: new_launcher_def)

lemma launch_fs_parts [simp]:
  "fe_vault (new_launcher_fs op) = demo_vault" "fe_open (new_launcher_fs op) = (\<lambda>t. None)"
  "fe_scan (new_launcher_fs op) = (\<lambda>t. if t < 10 then Inr [Inr [''Old'']] else Inr [])"
  "fe_stat (new_launcher_fs op) = (\<lambda>t. Inr old_stamp)" "fe_write (new_launcher_fs op) = (\<lambda>_. (5000, None))"
  "fe_fstat (new_launcher_fs op) = (\<lambda>t. Inr (if op = MutReplace then old_stamp else demo_dir_stamp))"
  by (simp_all add: new_launcher_fs_def new_fs_def demo_fs_def)

lemmas launch_steps = create_file_def replace_file_def run_staged_def start_helper_def staged_exchange_def upload_def
  commit_exchange_def settle_def finish_exchange_def wait_helper_def mutation_stage_leaf_def mutation_commit_token_def
  staged_result_def terminal_error_def clone_mutation_root_def must_be_absent_def pt_fingerprint_def max_payload_bytes_def

lemma old_facts: "\<not> vf_fold demo_vault ''Old'' ''New''" "stamp_kind old_stamp = KindFile" "same_entry old_stamp old_stamp"
  by code_simp+

definition new_exchange :: "mut_operation \<Rightarrow> fs_event list" where
  "new_exchange op = [SentControl (new_request op), GotControl (new_created op), SentControl (new_ack op),
     GotControl (new_announced op), SentPayload ''hi'', GotControl (new_complete op), SentControl (new_commit op),
     GotControl (new_terminal op)]"

lemmas launch_eval = launch_steps demo_steps launcher_start_def demo_names demo_new_names demo_vault_parts new_launches
  new_answers new_names new_staged_values new_staged_facts(4-7) new_side_parent new_folds new_ack_def[symmetric] new_commit_def[symmetric]
  valid_operation_def old_facts new_exchange_def

lemma new_create_run:
  "\<exists>res w'. run_state (create_file (new_launcher MutCreate) '''' ''New'' ''hi'') launcher_start = (Inr res, w') \<and>
     filter is_effect (tk_trace w') = new_exchange MutCreate"
  by (simp add: launch_eval)

abbreviation old_fingerprint :: string where
  "old_fingerprint \<equiv> mutation_fingerprint (new_launcher_fs MutReplace) ''Old'' KindFile old_stamp"

lemma new_replace_run:
  "\<exists>res w'. run_state (replace_file (new_launcher MutReplace) '''' ''Old'' old_fingerprint ''hi'') launcher_start = (Inr res, w') \<and>
     filter is_effect (tk_trace w') = new_exchange MutReplace"
  by (simp add: launch_eval)

text \<open>The frames of each side are the input of the other: the traces are linked.\<close>

lemma delivered_effects: "delivered sent (filter is_effect got) \<longleftrightarrow> delivered sent got"
proof (induction got)
  case (Cons ev got)
  then show ?case by (cases ev) (simp_all add: delivered_def)
qed (simp add: delivered_def)

lemma sent_effects: "arrives (filter is_effect sent) ev \<longleftrightarrow> arrives sent ev"
  by (cases ev) simp_all

lemma linked_effects: "linked (filter is_effect a) (filter is_effect b) \<longleftrightarrow> linked a b"
proof -
  have "arrives (filter is_effect sent) = arrives sent" for sent by (rule ext) (rule sent_effects)
  then have "delivered (filter is_effect sent) (filter is_effect got) = delivered sent got" for sent got
    using delivered_effects[of sent got] by (simp add: delivered_def)
  then show ?thesis by (simp add: linked_def)
qed

lemma new_linked: "filter is_effect a = new_exchange op \<Longrightarrow> linked a (helper_trace op)"
proof -
  assume a: "filter is_effect a = new_exchange op"
  have "linked (filter is_effect a) (filter is_effect (helper_trace op))" unfolding a
    by (simp add: helper_trace_def new_exchange_def publication_def Let_def linked_def delivered_def)
  then show ?thesis by (simp only: linked_effects)
qed

lemma starts: "tk_trace launcher_start = []" "tk_trace helper_start = []"
  by (simp_all add: launcher_start_def helper_start_def demo_fs_world_def)



end
