(* ===== verification/VaultList.thy ===== *)
theory VaultList
  imports FsIO "HOL-Library.List_Lexorder" "HOL-Library.Char_ord" "HOL-Library.Multiset"
begin

text \<open>
  One page of one directory (\<^verbatim>\<open>internal/fsx/list_unix.go\<close>).  The directory is scanned once, in whatever
  order it delivers its names; a heap of bounded size keeps the first entries behind the position the
  caller has seen; the names are folded into a fingerprint that does not depend on the order.
\<close>

section \<open>Positions\<close>

datatype position = Position (ps_nfc: string) (ps_stored: string)

definition compare_position :: "position \<Rightarrow> position \<Rightarrow> int" where
  "compare_position l r =
     (if ps_nfc l < ps_nfc r then - 1
      else if ps_nfc l > ps_nfc r then 1
      else if ps_stored l < ps_stored r then - 1
      else if ps_stored l > ps_stored r then 1
      else 0)"

lemma compare_position_less:
  "compare_position l r < 0 \<longleftrightarrow> ps_nfc l < ps_nfc r \<or> ps_nfc l = ps_nfc r \<and> ps_stored l < ps_stored r"
  by (auto simp: compare_position_def)

lemma compare_position_eq [simp]: "compare_position l r = 0 \<longleftrightarrow> l = r"
  by (cases l; cases r) (auto simp: compare_position_def)

instantiation position :: linorder
begin

definition less_position :: "position \<Rightarrow> position \<Rightarrow> bool" where
  "less_position l r \<longleftrightarrow> compare_position l r < 0"

definition less_eq_position :: "position \<Rightarrow> position \<Rightarrow> bool" where
  "less_eq_position l r \<longleftrightarrow> compare_position l r \<le> 0"

instance
proof
  have le: "l \<le> r \<longleftrightarrow> l < r \<or> l = r" for l r :: position
    unfolding less_eq_position_def less_position_def using compare_position_eq[of l r] by arith
  fix x y z :: position
  show "x < y \<longleftrightarrow> x \<le> y \<and> \<not> y \<le> x"
    unfolding le by (auto simp: less_position_def compare_position_less)
  show "x \<le> x" by (simp add: le)
  show "x \<le> y \<Longrightarrow> y \<le> z \<Longrightarrow> x \<le> z"
    unfolding le by (auto simp: less_position_def compare_position_less)
  show "x \<le> y \<Longrightarrow> y \<le> x \<Longrightarrow> x = y"
    unfolding le by (auto simp: less_position_def compare_position_less)
  show "x \<le> y \<or> y \<le> x"
    unfolding le by (cases x; cases y) (auto simp: less_position_def compare_position_less)
qed

end

lemma compare_position_order:
  "compare_position l r < 0 \<longleftrightarrow> l < r" "compare_position l r \<le> 0 \<longleftrightarrow> l \<le> r" "compare_position l r > 0 \<longleftrightarrow> r < l"
proof -
  show "compare_position l r < 0 \<longleftrightarrow> l < r" "compare_position l r \<le> 0 \<longleftrightarrow> l \<le> r"
    by (simp_all add: less_position_def less_eq_position_def)
  then show "compare_position l r > 0 \<longleftrightarrow> r < l" by auto
qed

section \<open>The set of names as a fingerprint\<close>

text \<open>The digests of all names are combined by exclusive or and by addition modulo \<open>2 ^ 256\<close>, both byte
  by byte.\<close>

record membership =
  mb_count :: "64 word"
  mb_size :: "64 word"
  mb_xor :: "nat list"
  mb_sum :: "nat list"

definition no_members :: membership where
  "no_members = \<lparr>mb_count = 0, mb_size = 0, mb_xor = replicate 32 0, mb_sum = replicate 32 0\<rparr>"

definition xor_bytes :: "nat list \<Rightarrow> nat list \<Rightarrow> nat list" where
  "xor_bytes a b = map2 (XOR) a b"

text \<open>The carry runs from the last byte to the first.\<close>

fun add_bytes :: "nat list \<Rightarrow> nat list \<Rightarrow> nat \<times> nat list" where
  "add_bytes (x # xs) (y # ys) =
     (case add_bytes xs ys of (carry, zs) \<Rightarrow>
        let total = x + y + carry in (total div 256, total mod 256 # zs))"
| "add_bytes _ _ = (0, [])"

definition membership_domain :: string where
  "membership_domain = ''personal-mcp-gateway/fsx-membership/v1'' @ [CHR 0x00]"

definition source_domain :: string where
  "source_domain = ''personal-mcp-gateway/fsx-source/v1'' @ [CHR 0x00]"

definition member_frame :: "position \<Rightarrow> string" where
  "member_frame p =
     append_uint64 (append_uint64 [] (of_nat (length (ps_nfc p))) @ ps_nfc p)
       (of_nat (length (ps_stored p))) @ ps_stored p"

definition member_item :: "fs_env \<Rightarrow> position \<Rightarrow> nat list" where
  "member_item e p = map of_char (fe_sha e (membership_domain @ member_frame p))"

definition add_member :: "fs_env \<Rightarrow> position \<Rightarrow> membership \<Rightarrow> membership" where
  "add_member e p a =
     \<lparr>mb_count = mb_count a + 1, mb_size = mb_size a + of_nat (length (member_frame p)),
      mb_xor = xor_bytes (mb_xor a) (member_item e p), mb_sum = snd (add_bytes (mb_sum a) (member_item e p))\<rparr>"

definition directory_identity :: "raw_stamp \<Rightarrow> raw_stamp" where
  "directory_identity s = s\<lparr>st_mode := 0, st_uid := 0, st_nlink := 0, st_ctime_sec := 0, st_ctime_nsec := 0\<rparr>"

definition source_fingerprint :: "fs_env \<Rightarrow> raw_stamp \<Rightarrow> membership \<Rightarrow> string" where
  "source_fingerprint e identity m =
     fe_sha e
       (foldl append_uint64 source_domain
          [st_device identity, st_inode identity, uint64_of (st_size identity), uint64_of (st_mtime_sec identity),
           uint64_of (st_mtime_nsec identity), mb_count m, mb_size m] @
        map char_of (mb_xor m) @ map char_of (mb_sum m))"

section \<open>Scanning\<close>

record directory =
  dr_fd :: fd
  dr_rel :: string
  dr_listed :: bool

record list_candidate =
  ca_name :: string
  ca_rel :: string
  ca_position :: position

definition position_of :: "fs_env \<Rightarrow> string \<Rightarrow> string \<Rightarrow> position" where
  "position_of e rel name = Position (vf_nfc (fe_vault e) (join_rel rel name)) (join_rel rel name)"

definition candidate_of :: "fs_env \<Rightarrow> string \<Rightarrow> string \<Rightarrow> list_candidate" where
  "candidate_of e rel name =
     \<lparr>ca_name = name, ca_rel = join_rel rel name, ca_position = position_of e rel name\<rparr>"

text \<open>The heap keeps its greatest candidate at index 0 for removal; here its contents are in increasing
  order and the greatest is the last.\<close>

record list_scan =
  sc_scanned :: "64 word"
  sc_boundary :: bool
  sc_retained :: nat
  sc_heap :: "list_candidate list"
  sc_members :: membership

definition no_scan :: "position option \<Rightarrow> list_scan" where
  "no_scan after =
     \<lparr>sc_scanned = 0, sc_boundary = (after = None), sc_retained = 0, sc_heap = [], sc_members = no_members\<rparr>"

definition heap_push :: "list_candidate \<Rightarrow> list_candidate list \<Rightarrow> list_candidate list" where
  "heap_push c h = insort_key ca_position c h"

definition scan_name :: "fs_env \<Rightarrow> string \<Rightarrow> position option \<Rightarrow> nat \<Rightarrow> string \<Rightarrow> list_scan \<Rightarrow> list_scan" where
  "scan_name e rel after capacity name s =
     (let c = candidate_of e rel name;
          s1 = s\<lparr>sc_members := add_member e (ca_position c) (sc_members s),
            sc_boundary := sc_boundary s \<or>
              (case after of None \<Rightarrow> False | Some a \<Rightarrow> compare_position (ca_position c) a = 0)\<rparr>
      in if (case after of None \<Rightarrow> False | Some a \<Rightarrow> compare_position (ca_position c) a \<le> 0) then s1
         else if length (sc_heap s) < capacity
         then s1\<lparr>sc_heap := heap_push c (sc_heap s), sc_retained := max (sc_retained s) (length (sc_heap s) + 1)\<rparr>
         else if compare_position (ca_position c) (ca_position (last (sc_heap s))) < 0
         then s1\<lparr>sc_heap := heap_push c (butlast (sc_heap s))\<rparr>
         else s1)"

fun scan_entries ::
  "fs_env \<Rightarrow> string \<Rightarrow> position option \<Rightarrow> nat \<Rightarrow> string list \<Rightarrow> list_scan \<Rightarrow> (fs_code option \<times> list_scan) fs_io" where
  "scan_entries e rel after capacity [] s = State_Monad.return (None, s)"
| "scan_entries e rel after capacity (name # names) s = do {
     c \<leftarrow> ctx_error e;
     (let s1 = s\<lparr>sc_scanned := sc_scanned s + 1\<rparr> in
      if c \<noteq> None then State_Monad.return (c, s1)
      else scan_entries e rel after capacity names
        (if denied_segment name then s1 else scan_name e rel after capacity name s1)) }"

fun scan_batches ::
  "fs_env \<Rightarrow> directory \<Rightarrow> position option \<Rightarrow> nat \<Rightarrow> (errno + string list) list \<Rightarrow> list_scan \<Rightarrow>
     (fs_code option \<times> list_scan) fs_io" where
  "scan_batches e d after capacity [] s = do {
     c \<leftarrow> ctx_error e;
     State_Monad.return (c, s) }"
| "scan_batches e d after capacity (batch # batches) s = do {
     c \<leftarrow> ctx_error e;
     (if c \<noteq> None then State_Monad.return (c, s)
      else (case batch of
        Inl _ \<Rightarrow> State_Monad.return (Some NotDirectory, s)
      | Inr names \<Rightarrow> do {
          emit (SysScan (dr_fd d) names);
          (r, s1) \<leftarrow> scan_entries e (dr_rel d) after capacity names s;
          (if r \<noteq> None then State_Monad.return (r, s1)
           else if names = [] then State_Monad.return (None, s1)
           else do {
             again \<leftarrow> ctx_error e;
             (if again \<noteq> None then State_Monad.return (again, s1)
              else scan_batches e d after capacity batches s1) }) })) }"

section \<open>One page\<close>

record list_entry =
  en_name :: string
  en_rel :: string
  en_kind :: fs_kind
  en_size :: int
  en_modified :: int
  en_position :: position

record list_page =
  lp_rel :: string
  lp_entries :: "list_entry list"
  lp_has_more :: bool
  lp_source :: string
  lp_boundary :: bool
  lp_scanned :: "64 word"
  lp_retained :: nat

definition default_limit :: int where "default_limit = 100"
definition max_limit :: int where "max_limit = 500"

definition zero_fingerprint :: string where "zero_fingerprint = replicate 32 (CHR 0x00)"

text \<open>\<^verbatim>\<open>statDirectory\<close>.\<close>

definition stat_directory :: "fs_env \<Rightarrow> fd \<Rightarrow> (errno + raw_stamp) fs_io" where
  "stat_directory e d = do {
     st \<leftarrow> sys_fstat e d;
     State_Monad.return (case st of
       Inl err \<Rightarrow> Inl err
     | Inr s \<Rightarrow> if stamp_kind s \<noteq> KindDir then Inl ENOTDIR else Inr (directory_identity s))
   }"

text \<open>One stat of every selected name; in the second round each must be the entry it was in the first.\<close>

fun stat_round :: "fs_env \<Rightarrow> fd \<Rightarrow> (list_candidate \<times> raw_stamp option) list \<Rightarrow> (fs_code + raw_stamp list) fs_io" where
  "stat_round e d [] = State_Monad.return (Inr [])"
| "stat_round e d ((c, baseline) # rest) = do {
     ctx \<leftarrow> ctx_error e;
     (case ctx of
        Some err \<Rightarrow> State_Monad.return (Inl err)
      | None \<Rightarrow> do {
          st \<leftarrow> sys_stat e d (ca_name c);
          (case st of
             Inl _ \<Rightarrow> State_Monad.return (Inl SourceChanged)
           | Inr s \<Rightarrow>
               if (case baseline of None \<Rightarrow> False | Some b \<Rightarrow> \<not> same_entry b s) then State_Monad.return (Inl SourceChanged)
               else do {
                 others \<leftarrow> stat_round e d rest;
                 State_Monad.return (map_sum id ((#) s) others) }) }) }"

definition entry_of :: "list_candidate \<Rightarrow> raw_stamp \<Rightarrow> list_entry" where
  "entry_of c s =
     \<lparr>en_name = ca_name c, en_rel = ca_rel c, en_kind = stamp_kind s, en_size = st_size s,
      en_modified = st_mtime_sec s * 1000000000 + st_mtime_nsec s, en_position = ca_position c\<rparr>"

definition without_entries :: "list_page \<Rightarrow> list_page" where
  "without_entries p = p\<lparr>lp_entries := [], lp_has_more := False, lp_source := zero_fingerprint\<rparr>"

text \<open>The metadata of the selected candidates, and the page.\<close>

definition finish_page ::
  "fs_env \<Rightarrow> directory \<Rightarrow> nat \<Rightarrow> raw_stamp \<Rightarrow> list_candidate list \<Rightarrow> list_page \<Rightarrow> (fs_code option \<times> list_page) fs_io" where
  "finish_page e d limit before selected page = do {
     baselines \<leftarrow> stat_round e (dr_fd d) (map (\<lambda>c. (c, None)) selected);
     (case baselines of
        Inl err \<Rightarrow> State_Monad.return (Some err, without_entries page)
      | Inr bs \<Rightarrow> do {
          finals \<leftarrow> stat_round e (dr_fd d) (zip selected (map Some bs));
          (case finals of
             Inl err \<Rightarrow> State_Monad.return (Some err, without_entries page)
           | Inr fs \<Rightarrow> do {
               after \<leftarrow> stat_directory e (dr_fd d);
               State_Monad.return
                 (if after \<noteq> Inr before then (Some SourceChanged, without_entries page)
                  else (None, page\<lparr>lp_has_more := length selected > limit,
                    lp_entries := map2 entry_of (take limit selected) (take limit fs)\<rparr>)) }) }) }"

definition empty_page :: "directory \<Rightarrow> position option \<Rightarrow> list_page" where
  "empty_page d after =
     \<lparr>lp_rel = dr_rel d, lp_entries = [], lp_has_more = False, lp_source = zero_fingerprint,
      lp_boundary = (after = None), lp_scanned = 0, lp_retained = 0\<rparr>"

definition page_of_scan :: "list_page \<Rightarrow> list_scan \<Rightarrow> list_page" where
  "page_of_scan page s =
     page\<lparr>lp_boundary := sc_boundary s, lp_scanned := sc_scanned s, lp_retained := sc_retained s\<rparr>"

definition scan_page ::
  "fs_env \<Rightarrow> directory \<Rightarrow> nat \<Rightarrow> position option \<Rightarrow> raw_stamp \<Rightarrow> list_page \<Rightarrow> (fs_code option \<times> list_page) fs_io" where
  "scan_page e d limit after before page = do {
     answer \<leftarrow> look (fe_scan e);
     (r, s) \<leftarrow> scan_batches e d after (limit + 1) (case answer of Inl err \<Rightarrow> [Inl err] | Inr batches \<Rightarrow> batches) (no_scan after);
     (if r \<noteq> None then State_Monad.return (r, page_of_scan page s)
      else do {
        again \<leftarrow> stat_directory e (dr_fd d);
        (if again \<noteq> Inr before then State_Monad.return (Some SourceChanged, page_of_scan page s)
         else (let page1 = (page_of_scan page s)\<lparr>lp_source := source_fingerprint e before (sc_members s)\<rparr> in
           if \<not> sc_boundary s then State_Monad.return (None, page1)
           else finish_page e d limit before (sort_key ca_position (sc_heap s)) page1)) }) }"

definition effective_list_limit :: "int \<Rightarrow> fs_code + nat" where
  "effective_list_limit n =
     (let limit = if n = 0 then default_limit else n in
      if limit < 0 \<or> limit > max_limit then Inl LimitExceeded else Inr (nat limit))"

text \<open>A directory is listed once.\<close>

definition list_directory ::
  "fs_env \<Rightarrow> directory \<Rightarrow> int \<Rightarrow> position option \<Rightarrow> (fs_code option \<times> list_page \<times> directory) fs_io" where
  "list_directory e d requested after =
     (let page = empty_page d after;
        d1 = d\<lparr>dr_listed := True\<rparr> in do {
        c \<leftarrow> ctx_error e;
        (if c \<noteq> None then State_Monad.return (c, page, d)
         else if dr_listed d then State_Monad.return (Some NotDirectory, page, d)
         else (case effective_list_limit requested of
           Inl err \<Rightarrow> State_Monad.return (Some err, page, d1)
         | Inr limit \<Rightarrow>
             if (case after of None \<Rightarrow> False
                 | Some a \<Rightarrow> length (ps_nfc a) > path_max_bytes \<or> length (ps_stored a) > path_max_bytes)
             then State_Monad.return (Some InputTooLarge, page, d1)
             else do {
               before \<leftarrow> stat_directory e (dr_fd d);
               (case before of
                  Inl err \<Rightarrow> State_Monad.return (Some (map_path_error err), page, d1)
                | Inr identity \<Rightarrow> do {
                    (r, result) \<leftarrow> scan_page e d limit after identity page;
                    State_Monad.return (r, result, d1) }) })) })"

section \<open>The bounded heap keeps the first candidates\<close>

lemma join_rel_inj: "join_rel rel n = join_rel rel n' \<Longrightarrow> n = n'"
  by (auto simp: join_rel_def split: if_splits)

lemma candidate_of_inj: "ca_position (candidate_of e rel n) = ca_position (candidate_of e rel n') \<Longrightarrow> n = n'"
  by (auto simp: candidate_of_def position_of_def dest: join_rel_inj)

lemma take_insort:
  assumes "sorted (map f ys)" "0 < k" "k \<le> length ys" "inj_on f (set (c # ys))"
  shows "take k (insort_key f c ys) =
    (if f c < f (ys ! (k - 1)) then insort_key f c (take (k - 1) ys) else take k ys)"
  using assms
proof (induction ys arbitrary: k)
  case (Cons y ys)
  from Cons.prems(2) obtain m where k: "k = Suc m" by (cases k) auto
  show ?case
  proof (cases "f c \<le> f y")
    case le: True
    show ?thesis
    proof (cases "f c < f ((y # ys) ! m)")
      case True
      with le show ?thesis by (cases m) (simp_all add: k)
    next
      case False
      have eq: "(y # ys) ! i = c" if "i \<le> m" for i
      proof -
        from Cons.prems(3) k that have len: "m < length (y # ys)" "i < length (y # ys)" by simp_all
        have nm: "map f (y # ys) ! j = f ((y # ys) ! j)" if "j < length (y # ys)" for j
          using that by (rule nth_map)
        have "f ((y # ys) ! i) \<le> f ((y # ys) ! m)" "f y \<le> f ((y # ys) ! i)"
          using sorted_nth_mono[OF Cons.prems(1), of i m] sorted_nth_mono[OF Cons.prems(1), of 0 i]
            nm[of i] nm[of m] len that by (simp_all del: list.map(2))
        with le False have "f ((y # ys) ! i) = f c" by simp
        with Cons.prems(4) nth_mem[OF len(2)] show ?thesis unfolding inj_on_def by (metis list.set_intros(1,2))
      qed
      have "take (Suc m) (y # ys) = replicate (Suc m) c" "take m (y # ys) = replicate m c"
        using Cons.prems(3) k eq by (auto intro!: nth_equalityI simp del: take_Suc_Cons replicate_Suc)
      with le False show ?thesis by (simp add: k)
    qed
  next
    case False
    show ?thesis
    proof (cases m)
      case 0
      with False show ?thesis by (auto simp: k)
    next
      case (Suc n)
      with Cons.IH[of m] Cons.prems k False show ?thesis by (simp add: inj_on_def)
    qed
  qed
qed simp

text \<open>Candidates behind the caller's position, of the names that are not denied.\<close>

definition behind :: "position option \<Rightarrow> position \<Rightarrow> bool" where
  "behind after p \<longleftrightarrow> (case after of None \<Rightarrow> True | Some a \<Rightarrow> a < p)"

definition visible :: "string list \<Rightarrow> string list" where
  "visible names = filter (\<lambda>n. \<not> denied_segment n) names"

definition candidates :: "fs_env \<Rightarrow> string \<Rightarrow> position option \<Rightarrow> string list \<Rightarrow> list_candidate list" where
  "candidates e rel after names =
     filter (\<lambda>c. behind after (ca_position c)) (map (candidate_of e rel) (visible names))"

definition in_order :: "list_candidate list \<Rightarrow> list_candidate list" where
  "in_order cs = sort_key ca_position cs"

lemma candidates_inj: "inj_on ca_position (set (map (candidate_of e rel) names))"
  using candidate_of_inj by (auto simp: inj_on_def)

lemma in_order_step:
  assumes "inj_on ca_position (set (c # cs))"
  shows "in_order (cs @ [c]) = insort_key ca_position c (in_order cs)"
  unfolding in_order_def
  by (rule sort_key_inj_key_eq) (use assms in \<open>simp_all add: sorted_insort_key insert_commute\<close>)

definition scanned ::
  "fs_env \<Rightarrow> string \<Rightarrow> position option \<Rightarrow> nat \<Rightarrow> string list \<Rightarrow> list_scan \<Rightarrow> list_scan" where
  "scanned e rel after capacity names s =
     foldl (\<lambda>s name. let s1 = s\<lparr>sc_scanned := sc_scanned s + 1\<rparr> in
       if denied_segment name then s1 else scan_name e rel after capacity name s1) s names"

lemma scanned_simps [simp]:
  "scanned e rel after k [] s = s"
  "scanned e rel after k (names @ names') s = scanned e rel after k names' (scanned e rel after k names s)"
  "scanned e rel after k [n] s =
     (let s1 = s\<lparr>sc_scanned := sc_scanned s + 1\<rparr> in if denied_segment n then s1 else scan_name e rel after k n s1)"
  by (simp_all add: scanned_def)

lemma in_order_length [simp]: "length (in_order cs) = length cs"
  by (simp add: in_order_def)

lemma heap_step:
  assumes "0 < k" "inj_on ca_position (set (c # cs))" "h = take k (in_order cs)"
  shows "(if length h < k then heap_push c h
      else if compare_position (ca_position c) (ca_position (last h)) < 0 then heap_push c (butlast h) else h)
    = take k (in_order (cs @ [c]))"
proof -
  have sorted: "sorted (map ca_position (in_order cs))" by (simp add: in_order_def)
  have set: "set (in_order cs) = set cs" by (simp add: in_order_def)
  show ?thesis
  proof (cases "length cs < k")
    case True
    then show ?thesis by (simp add: assms(3) heap_push_def in_order_step[OF assms(2)])
  next
    case False
    then have k: "k \<le> length (in_order cs)" by simp
    have last: "last h = in_order cs ! (k - 1)" "butlast h = take (k - 1) (in_order cs)"
    proof -
      from k assms(1) have "0 < length h" by (simp add: assms(3))
      then have "h \<noteq> []" by simp
      then show "last h = in_order cs ! (k - 1)" using k assms(1) by (simp add: last_conv_nth assms(3) min_def)
      show "butlast h = take (k - 1) (in_order cs)" using k by (simp add: assms(3) butlast_take)
    qed
    from take_insort[OF sorted assms(1) k, of c] assms(2) set last k False show ?thesis
      by (simp add: in_order_step[OF assms(2)] assms(3) heap_push_def compare_position_order)
  qed
qed

text \<open>What a whole scan computes.\<close>

definition members_of :: "fs_env \<Rightarrow> string \<Rightarrow> string list \<Rightarrow> membership" where
  "members_of e rel names = foldl (\<lambda>m n. add_member e (position_of e rel n) m) no_members (visible names)"

definition boundary_in :: "fs_env \<Rightarrow> string \<Rightarrow> position option \<Rightarrow> string list \<Rightarrow> bool" where
  "boundary_in e rel after names \<longleftrightarrow>
     (case after of None \<Rightarrow> True | Some a \<Rightarrow> a \<in> set (map (position_of e rel) (visible names)))"

lemma visible_simps [simp]:
  "visible [] = []" "visible (xs @ ys) = visible xs @ visible ys"
  "visible (n # ns) = (if denied_segment n then visible ns else n # visible ns)"
  by (simp_all add: visible_def)

lemma candidates_simps [simp]:
  "candidates e rel after [] = []"
  "candidates e rel after (xs @ ys) = candidates e rel after xs @ candidates e rel after ys"
  "candidates e rel after [n] =
     (if denied_segment n \<or> \<not> behind after (position_of e rel n) then [] else [candidate_of e rel n])"
  by (auto simp: candidates_def candidate_of_def)

lemma candidate_position [simp]: "ca_position (candidate_of e rel n) = position_of e rel n"
  by (simp add: candidate_of_def)

lemma candidates_among: "set (candidates e rel after names) \<subseteq> set (map (candidate_of e rel) names)"
  by (auto simp: candidates_def visible_def)

lemma scan_name_skip:
  assumes "\<not> behind after (position_of e rel n)"
  shows "sc_heap (scan_name e rel after k n s) = sc_heap s"
    "sc_retained (scan_name e rel after k n s) = sc_retained s"
  using assms by (auto simp: scan_name_def behind_def compare_position_order Let_def split: option.splits)

lemma scan_name_keep:
  assumes "behind after (position_of e rel n)"
  shows "sc_heap (scan_name e rel after k n s) =
      (if length (sc_heap s) < k then heap_push (candidate_of e rel n) (sc_heap s)
       else if compare_position (ca_position (candidate_of e rel n)) (ca_position (last (sc_heap s))) < 0
       then heap_push (candidate_of e rel n) (butlast (sc_heap s)) else sc_heap s)"
    "sc_retained (scan_name e rel after k n s) =
      (if length (sc_heap s) < k then max (sc_retained s) (length (sc_heap s) + 1) else sc_retained s)"
  using assms by (auto simp: scan_name_def behind_def compare_position_order Let_def split: option.splits)

lemma scan_name_others:
  "sc_members (scan_name e rel after k n s) = add_member e (position_of e rel n) (sc_members s)"
  "sc_boundary (scan_name e rel after k n s) = (sc_boundary s \<or> after = Some (position_of e rel n))"
  "sc_scanned (scan_name e rel after k n s) = sc_scanned s"
  by (auto simp: scan_name_def Let_def split: option.splits)

lemma scanned_others:
  "sc_members (scanned e rel after k names (no_scan after)) = members_of e rel names"
  "sc_boundary (scanned e rel after k names (no_scan after)) = boundary_in e rel after names"
  "sc_scanned (scanned e rel after k names (no_scan after)) = of_nat (length names)"
  by (induction names rule: rev_induct)
    (auto simp: members_of_def boundary_in_def no_scan_def Let_def scan_name_others split: option.splits)

lemma scanned_heap:
  assumes "0 < k"
  shows "sc_heap (scanned e rel after k names (no_scan after)) = take k (in_order (candidates e rel after names))"
    "sc_retained (scanned e rel after k names (no_scan after)) = min k (length (candidates e rel after names))"
proof (induction names rule: rev_induct)
  case Nil
  show "sc_heap (scanned e rel after k [] (no_scan after)) = take k (in_order (candidates e rel after []))"
    "sc_retained (scanned e rel after k [] (no_scan after)) = min k (length (candidates e rel after []))"
    by (simp_all add: no_scan_def in_order_def)
next
  case (snoc n names)
  let ?c = "candidate_of e rel n" and ?s = "scanned e rel after k names (no_scan after)"
  have inj: "inj_on ca_position (set (?c # candidates e rel after names))"
    by (rule inj_on_subset[OF candidates_inj[of e rel "n # names"]]) (use candidates_among in fastforce)
  show "sc_heap (scanned e rel after k (names @ [n]) (no_scan after)) =
      take k (in_order (candidates e rel after (names @ [n])))"
  proof (cases "denied_segment n \<or> \<not> behind after (position_of e rel n)")
    case True
    with snoc.IH(1) show ?thesis by (auto simp: Let_def scan_name_skip)
  next
    case False
    then have "sc_heap (scanned e rel after k (names @ [n]) (no_scan after)) =
        (if length (sc_heap ?s) < k then heap_push ?c (sc_heap ?s)
         else if compare_position (ca_position ?c) (ca_position (last (sc_heap ?s))) < 0
         then heap_push ?c (butlast (sc_heap ?s)) else sc_heap ?s)"
      by (simp add: Let_def scan_name_keep)
    also have "\<dots> = take k (in_order (candidates e rel after names @ [?c]))"
      by (rule heap_step[OF assms inj snoc.IH(1)])
    finally show ?thesis using False by simp
  qed
  show "sc_retained (scanned e rel after k (names @ [n]) (no_scan after)) =
      min k (length (candidates e rel after (names @ [n])))"
    using snoc.IH by (auto simp: Let_def scan_name_skip scan_name_keep)
qed

section \<open>What a scan delivers\<close>

lemma yields_scan_entries:
  "yields (scan_entries e rel after k names s) (\<lambda>(r, s') d. d = [] \<and> (r = None \<longrightarrow> s' = scanned e rel after k names s))"
proof (induction names arbitrary: s)
  case Nil
  show ?case by (simp add: yields_return_iff)
next
  case (Cons n names)
  show ?case
    unfolding scan_entries.simps Let_def
    by (intro yields_intro) (auto simp: scanned_def Let_def intro: yields_weaken[OF Cons.IH])
qed

text \<open>All names up to the end of the directory, \<open>None\<close> when a read fails.\<close>

fun delivered :: "(errno + string list) list \<Rightarrow> string list option" where
  "delivered [] = Some []"
| "delivered (Inl _ # _) = None"
| "delivered (Inr names # batches) = (if names = [] then Some [] else map_option ((@) names) (delivered batches))"

lemma yields_scan_batches:
  "yields (scan_batches e d after k batches s)
     (\<lambda>(r, s') ev. r = None \<longrightarrow> (\<exists>nss. ev = map (SysScan (dr_fd d)) nss \<and> delivered batches = Some (concat nss) \<and>
        s' = scanned e (dr_rel d) after k (concat nss) s))"
proof (induction batches arbitrary: s)
  case Nil
  show ?case by (simp, intro yields_intro) (auto simp: scanned_def)
next
  case (Cons batch batches)
  show ?case
  proof (cases batch)
    case (Inl err)
    then show ?thesis by (simp, intro yields_intro) (simp_all add: yields_return_iff)
  next
    case (Inr names)
    show ?thesis
      unfolding scan_batches.simps Inr sum.case
    proof (rule yields_look_bind, rule yields_if, simp add: yields_return_iff, rule yields_emit_bind,
        rule yields_then[OF yields_scan_entries], goal_cases)
      case (1 c x ev)
      obtain r s1 where x: "x = (r, s1)" by (cases x)
      note 1 = 1[unfolded x prod.case]
      show ?case
      proof (cases "r = None \<and> names \<noteq> []")
        case False
        with 1 show ?thesis
          unfolding x prod.case by (auto simp: yields_return_iff scanned_def intro!: exI[of _ "[[]]"])
      next
        case True
        with 1 have s1: "s1 = scanned e (dr_rel d) after k names s" by simp
        have "yields (scan_batches e d after k batches s1) (\<lambda>(r, s') ev. r = None \<longrightarrow>
          (\<exists>nss. SysScan (dr_fd d) names # ev = map (SysScan (dr_fd d)) nss \<and>
            delivered (Inr names # batches) = Some (concat nss) \<and>
            s' = scanned e (dr_rel d) after k (concat nss) s))"
        proof (rule yields_weaken[OF Cons.IH], goal_cases)
          case (1 y ev)
          obtain r' s' where y: "y = (r', s')" by (cases y)
          show ?case
            unfolding y prod.case
          proof
            assume "r' = None"
            with 1 obtain nss where nss: "ev = map (SysScan (dr_fd d)) nss" "delivered batches = Some (concat nss)"
              "s' = scanned e (dr_rel d) after k (concat nss) s1"
              by (auto simp: y)
            show "\<exists>nss. SysScan (dr_fd d) names # ev = map (SysScan (dr_fd d)) nss \<and>
                delivered (Inr names # batches) = Some (concat nss) \<and>
                s' = scanned e (dr_rel d) after k (concat nss) s"
              by (rule exI[of _ "names # nss"]) (use nss s1 True in simp)
          qed
        qed
        then have "yields (do {
            again \<leftarrow> ctx_error e;
            (if again \<noteq> None then State_Monad.return (again, s1) else scan_batches e d after k batches s1) })
          (\<lambda>(r, s') ev. r = None \<longrightarrow>
            (\<exists>nss. SysScan (dr_fd d) names # ev = map (SysScan (dr_fd d)) nss \<and>
              delivered (Inr names # batches) = Some (concat nss) \<and>
              s' = scanned e (dr_rel d) after k (concat nss) s))"
          by (intro yields_look_bind yields_if) (auto simp: yields_return_iff)
        with 1 True show ?thesis
          unfolding x prod.case by (simp add: case_prod_unfold)
      qed
    qed
  qed
qed

section \<open>A whole page\<close>

lemma yields_look_at:
  assumes "\<And>t. yields (g (f t)) R"
  shows "yields (State_Monad.bind (look f) g) R"
  unfolding yields_def
proof
  fix w
  show "\<exists>d. tk_trace (snd (run_state (State_Monad.bind (look f) g) w)) = tk_trace w @ d \<and>
      R (fst (run_state (State_Monad.bind (look f) g) w)) d"
    using assms[of "tk_tick w", unfolded yields_def, rule_format, of "w\<lparr>tk_tick := tk_tick w + 1\<rparr>"]
    by (simp add: look_def)
qed

lemma yields_stat_directory:
  assumes "\<And>err ev. yields (g (Inl err)) (\<lambda>y d. R y (ev @ d))"
    and "\<And>s. stamp_kind s = KindDir \<Longrightarrow> yields (g (Inr (directory_identity s))) (\<lambda>y d. R y (SysFstat f s # d))"
  shows "yields (State_Monad.bind (stat_directory e f) g) R"
  unfolding stat_directory_def
proof (rule yields_assoc, rule yields_sys_fstat, goal_cases)
  case (1 err)
  from assms(1)[of err "[]"] show ?case by (simp add: yields_return_bind)
next
  case (2 s)
  from assms(1)[of ENOTDIR "[SysFstat f s]"] assms(2)[of s] show ?case
    by (auto intro!: yields_return_bind)
qed

definition stat_events :: "fd \<Rightarrow> list_candidate list \<Rightarrow> raw_stamp list \<Rightarrow> fs_event list" where
  "stat_events f cs ss = map2 (\<lambda>c s. SysStat f (ca_name c) s) cs ss"

definition baseline_holds :: "raw_stamp option \<Rightarrow> raw_stamp \<Rightarrow> bool" where
  "baseline_holds b s \<longleftrightarrow> (case b of None \<Rightarrow> True | Some x \<Rightarrow> same_entry x s)"

lemma baseline_holds_simps [simp]: "baseline_holds None s" "baseline_holds (Some x) s = same_entry x s"
  by (simp_all add: baseline_holds_def)

lemma yields_stat_round:
  "yields (stat_round e f items)
     (\<lambda>r ev. \<forall>ss. r = Inr ss \<longrightarrow> ev = stat_events f (map fst items) ss \<and> list_all2 baseline_holds (map snd items) ss)"
proof (induction items)
  case Nil
  show ?case by (simp add: yields_return_iff stat_events_def)
next
  case (Cons item items)
  obtain c b where item: "item = (c, b)" by (cases item)
  have rest: "yields (do {
        others \<leftarrow> stat_round e f items;
        State_Monad.return (map_sum id ((#) s) others) })
      (\<lambda>r ev. \<forall>ss. r = Inr ss \<longrightarrow>
        SysStat f (ca_name c) s # ev = stat_events f (c # map fst items) ss \<and>
        list_all2 baseline_holds (b # map snd items) ss)"
    if "baseline_holds b s" for s
  proof (rule yields_then[OF Cons.IH], goal_cases)
    case (1 others ev)
    then show ?case using that
      by (cases others) (auto simp: yields_return_iff stat_events_def)
  qed
  have failed: "yields (State_Monad.return (Inl err)) (\<lambda>r ev. \<forall>ss. r = Inr ss \<longrightarrow> P ss ev)" for err :: fs_code and P
    by (simp add: yields_return_iff)
  show ?case
    unfolding item stat_round.simps list.map fst_conv snd_conv
  proof (rule yields_look_bind, goal_cases)
    case (1 ctx)
    show ?case
    proof (cases ctx)
      case None
      show ?thesis
        unfolding None option.case
      proof (rule yields_sys_stat, goal_cases)
        case (1 err)
        show ?case unfolding sum.case by (rule failed)
      next
        case (2 s)
        show ?case
          unfolding sum.case
          by (rule yields_if, rule failed, rule rest) (auto simp: baseline_holds_def split: option.splits)
      qed
    next
      case (Some err)
      show ?thesis unfolding Some option.case by (rule failed)
    qed
  qed
qed

text \<open>Two rounds of stats between which every selected name is the same entry, then the directory as
  it was.\<close>

definition metadata_held :: "fd \<Rightarrow> raw_stamp \<Rightarrow> list_candidate list \<Rightarrow> raw_stamp list \<Rightarrow> fs_event list \<Rightarrow> bool" where
  "metadata_held f identity selected finals ev \<longleftrightarrow>
     (\<exists>baselines again. list_all2 same_entry baselines finals \<and> length finals = length selected \<and>
        directory_identity again = identity \<and>
        ev = stat_events f selected baselines @ stat_events f selected finals @ [SysFstat f again])"

lemma metadata_heldI:
  "list_all2 same_entry baselines finals \<Longrightarrow> length finals = length selected \<Longrightarrow> directory_identity again = identity \<Longrightarrow>
     metadata_held f identity selected finals
       (stat_events f selected baselines @ stat_events f selected finals @ [SysFstat f again])"
  unfolding metadata_held_def by blast

definition filled_page :: "nat \<Rightarrow> list_candidate list \<Rightarrow> raw_stamp list \<Rightarrow> list_page \<Rightarrow> list_page" where
  "filled_page limit selected finals page =
     page\<lparr>lp_has_more := length selected > limit, lp_entries := map2 entry_of (take limit selected) (take limit finals)\<rparr>"

lemma yields_finish_page:
  "yields (finish_page e d limit before selected page)
     (\<lambda>(r, p) ev. r = None \<longrightarrow>
       (\<exists>finals. p = filled_page limit selected finals page \<and> metadata_held (dr_fd d) before selected finals ev))"
proof -
  have failed: "yields (State_Monad.return (Some err, p)) (\<lambda>(r, p) ev. r = None \<longrightarrow> P p ev)"
    for err :: fs_code and p :: list_page and P
    by (simp add: yields_return_iff)
  have failed': "yields (State_Monad.return (Some err, p)) (\<lambda>y ev. (case y of (r, p) \<Rightarrow> \<lambda>ev. r = None \<longrightarrow> P p ev) (ev0 @ ev))"
    for err :: fs_code and p :: list_page and P ev0
    by (simp add: yields_return_iff)
  show ?thesis
    unfolding finish_page_def
  proof (rule yields_then[OF yields_stat_round], goal_cases)
    case (1 baselines ev1)
    show ?case
    proof (cases baselines)
      case (Inl err)
      show ?thesis unfolding Inl sum.case by (rule failed')
    next
      case (Inr bs)
      with 1 have bs: "ev1 = stat_events (dr_fd d) selected bs" "length bs = length selected"
        by (auto simp: o_def dest: list_all2_lengthD)
      show ?thesis
        unfolding Inr sum.case
      proof (rule yields_then[OF yields_stat_round], goal_cases)
        case (1 finals ev2)
        show ?case
        proof (cases finals)
          case (Inl err)
          show ?thesis unfolding Inl sum.case by (simp add: yields_return_iff)
        next
          case (Inr fs)
          have "map fst (zip selected (map Some bs)) = selected" "map snd (zip selected (map Some bs)) = map Some bs"
            using bs by simp_all
          with 1 Inr have fs: "ev2 = stat_events (dr_fd d) selected fs" "list_all2 same_entry bs fs"
            by (auto simp: list_all2_conv_all_nth)
          then have "length fs = length selected" using bs by (auto dest: list_all2_lengthD)
          with bs fs show ?thesis
            unfolding Inr sum.case
            by (intro yields_stat_directory)
              (auto simp: yields_return_iff filled_page_def intro: exI[of _ fs] metadata_heldI)
        qed
      qed
    qed
  qed
qed

text \<open>A page over the names the directory delivered.\<close>

definition page_over :: "fs_env \<Rightarrow> directory \<Rightarrow> nat \<Rightarrow> position option \<Rightarrow> raw_stamp \<Rightarrow> string list \<Rightarrow> list_page" where
  "page_over e d limit after identity names =
     \<lparr>lp_rel = dr_rel d, lp_entries = [], lp_has_more = False,
      lp_source = source_fingerprint e identity (members_of e (dr_rel d) names),
      lp_boundary = boundary_in e (dr_rel d) after names, lp_scanned = of_nat (length names),
      lp_retained = min (limit + 1) (length (candidates e (dr_rel d) after names))\<rparr>"

definition selection :: "fs_env \<Rightarrow> directory \<Rightarrow> nat \<Rightarrow> position option \<Rightarrow> string list \<Rightarrow> list_candidate list" where
  "selection e d limit after names = take (limit + 1) (in_order (candidates e (dr_rel d) after names))"

lemma sort_selection [simp]: "sort_key ca_position (selection e d limit after names) = selection e d limit after names"
  unfolding selection_def in_order_def by (rule sort_key_id_if_sorted) (metis sorted_sort_key sorted_wrt_take take_map)

definition scan_held ::
  "fs_env \<Rightarrow> directory \<Rightarrow> nat \<Rightarrow> position option \<Rightarrow> raw_stamp \<Rightarrow> list_page \<Rightarrow> fs_event list \<Rightarrow> bool" where
  "scan_held e d limit after identity p ev \<longleftrightarrow>
     (\<exists>t batches nss again ev'. fe_scan e t = Inr batches \<and> delivered batches = Some (concat nss) \<and>
        directory_identity again = identity \<and>
        ev = map (SysScan (dr_fd d)) nss @ SysFstat (dr_fd d) again # ev' \<and>
        (if boundary_in e (dr_rel d) after (concat nss)
         then \<exists>finals. metadata_held (dr_fd d) identity (selection e d limit after (concat nss)) finals ev' \<and>
           p = filled_page limit (selection e d limit after (concat nss)) finals
             (page_over e d limit after identity (concat nss))
         else ev' = [] \<and> p = page_over e d limit after identity (concat nss)))"

lemma page_of_scanned:
  "(page_of_scan (empty_page d after) (scanned e (dr_rel d) after (limit + 1) names (no_scan after)))
      \<lparr>lp_source := source_fingerprint e identity (members_of e (dr_rel d) names)\<rparr>
    = page_over e d limit after identity names"
  by (simp add: page_of_scan_def empty_page_def page_over_def scanned_others scanned_heap)

lemma yields_scan_page:
  "yields (scan_page e d limit after identity (empty_page d after))
     (\<lambda>(r, p) ev. r = None \<longrightarrow> scan_held e d limit after identity p ev)"
proof -
  have failed: "yields (State_Monad.return (Some err, p)) (\<lambda>y ev. (case y of (r, p) \<Rightarrow> \<lambda>ev. r = None \<longrightarrow> P p ev) (ev0 @ ev))"
    for err :: fs_code and p :: list_page and P ev0
    by (simp add: yields_return_iff)
  show ?thesis
    unfolding scan_page_def
  proof (rule yields_look_at, rule yields_then[OF yields_scan_batches], goal_cases)
    case (1 t x ev)
    obtain r s where x: "x = (r, s)" by (cases x)
    show ?case
    proof (cases r)
      case (Some err)
      show ?thesis unfolding x Some prod.case by (simp add: yields_return_iff)
    next
      case None
      with 1 obtain nss where nss: "ev = map (SysScan (dr_fd d)) nss"
        "delivered (case fe_scan e t of Inl err \<Rightarrow> [Inl err] | Inr batches \<Rightarrow> batches) = Some (concat nss)"
        "s = scanned e (dr_rel d) after (limit + 1) (concat nss) (no_scan after)"
        by (auto simp: x)
      then obtain batches where batches: "fe_scan e t = Inr batches" "delivered batches = Some (concat nss)"
        by (cases "fe_scan e t") auto
      note s = nss(3)
      have known: "sc_boundary s = boundary_in e (dr_rel d) after (concat nss)"
        "sc_heap s = selection e d limit after (concat nss)" "sc_members s = members_of e (dr_rel d) (concat nss)"
        by (simp_all add: s scanned_others scanned_heap selection_def)
      note page = page_of_scanned[where e = e and d = d and after = after and limit = limit and names = "concat nss" and identity = identity, folded s]
      show ?thesis
        unfolding x None prod.case
      proof (simp, rule yields_stat_directory, goal_cases)
        case (1 err ev')
        show ?case by (simp add: yields_return_iff)
      next
        case (2 again)
        show ?case
        proof (cases "directory_identity again = identity")
          case False
          then show ?thesis by (simp add: yields_return_iff)
        next
          case True
          let ?names = "concat nss"
          have held: "scan_held e d limit after identity p (map (SysScan (dr_fd d)) nss @ SysFstat (dr_fd d) again # ev')"
            if "if boundary_in e (dr_rel d) after ?names
              then \<exists>finals. metadata_held (dr_fd d) identity (selection e d limit after ?names) finals ev' \<and>
                p = filled_page limit (selection e d limit after ?names) finals (page_over e d limit after identity ?names)
              else ev' = [] \<and> p = page_over e d limit after identity ?names" for p ev'
            unfolding scan_held_def using batches True that by blast
          show ?thesis
          proof (cases "boundary_in e (dr_rel d) after ?names")
            case False
            then have "scan_held e d limit after identity (page_over e d limit after identity ?names)
                (map (SysScan (dr_fd d)) nss @ [SysFstat (dr_fd d) again])"
              by (intro held) simp
            with False True nss(1) known page show ?thesis by (simp add: yields_return_iff)
          next
            case boundary: True
            have "yields (finish_page e d limit identity (selection e d limit after ?names)
                (page_over e d limit after identity ?names))
              (\<lambda>y ev'. case y of (r, p) \<Rightarrow> r = None \<longrightarrow>
                scan_held e d limit after identity p (map (SysScan (dr_fd d)) nss @ SysFstat (dr_fd d) again # ev'))"
              by (rule yields_weaken[OF yields_finish_page]) (use boundary held in auto)
            with True boundary nss(1) known page show ?thesis by (simp add: case_prod_unfold)
          qed
        qed
      qed
    qed
  qed
qed

lemma yields_list_page:
  "yields (list_directory e d requested after)
     (\<lambda>(r, p, d') ev. (r = None \<longrightarrow> dr_listed d' \<and> \<not> dr_listed d \<and> (\<exists>limit first ev'.
        effective_list_limit requested = Inr limit \<and> stamp_kind first = KindDir \<and>
        ev = SysFstat (dr_fd d) first # ev' \<and> scan_held e d limit after (directory_identity first) p ev')))"
proof -
  have failed: "yields (State_Monad.return (Some err, p, d')) (\<lambda>(r, p, d') ev. r = None \<longrightarrow> P p d' ev)"
    for err :: fs_code and p :: list_page and d' :: directory and P
    by (simp add: yields_return_iff)
  have failed': "yields (State_Monad.return (Some err, p, d')) (\<lambda>y ev. (case y of (r, p, d') \<Rightarrow> \<lambda>ev. r = None \<longrightarrow> P p d' ev) (ev0 @ ev))"
    for err :: fs_code and p :: list_page and d' :: directory and P ev0
    by (simp add: yields_return_iff)
  show ?thesis
    unfolding list_directory_def Let_def
  proof (rule yields_look_bind, goal_cases)
    case (1 c)
    show ?case
    proof (cases "c = None \<and> \<not> dr_listed d")
      case False
      then show ?thesis by (auto simp: yields_return_iff)
    next
      case open_dir: True
      show ?thesis
      proof (cases "effective_list_limit requested")
        case (Inl err)
        with open_dir show ?thesis by (auto simp: yields_return_iff)
      next
        case (Inr limit)
        have "yields (do {
            before \<leftarrow> stat_directory e (dr_fd d);
            (case before of
               Inl err \<Rightarrow> State_Monad.return (Some (map_path_error err), empty_page d after, d\<lparr>dr_listed := True\<rparr>)
             | Inr identity \<Rightarrow> do {
                 (r, result) \<leftarrow> scan_page e d limit after identity (empty_page d after);
                 State_Monad.return (r, result, d\<lparr>dr_listed := True\<rparr>) }) })
          (\<lambda>(r, p, d') ev. r = None \<longrightarrow> dr_listed d' \<and> \<not> dr_listed d \<and> (\<exists>limit first ev'.
            effective_list_limit requested = Inr limit \<and> stamp_kind first = KindDir \<and>
            ev = SysFstat (dr_fd d) first # ev' \<and> scan_held e d limit after (directory_identity first) p ev'))"
        proof (rule yields_stat_directory, goal_cases)
          case (1 err ev)
          show ?case by (simp add: yields_return_iff)
        next
          case (2 first)
          show ?case
            unfolding sum.case
            by (rule yields_then[OF yields_scan_page]) (use 2 Inr open_dir in \<open>auto simp: yields_return_iff\<close>)
        qed
        with open_dir Inr show ?thesis by (auto simp: yields_return_iff)
      qed
    qed
  qed
qed

lemma listed_page:
  assumes "run_state (list_directory e d requested after) w = ((None, page, d'), w')" "tk_trace w = []"
  obtains limit first ev where "effective_list_limit requested = Inr limit" "stamp_kind first = KindDir"
    "tk_trace w' = SysFstat (dr_fd d) first # ev" "scan_held e d limit after (directory_identity first) page ev"
  using yields_trace[OF yields_list_page assms] by auto

lemma listed_page_held:
  assumes "run_state (list_directory e d requested after) w = ((None, page, d'), w')"
  obtains limit first ev where "effective_list_limit requested = Inr limit"
    "scan_held e d limit after (directory_identity first) page ev"
  using yields_list_page[of e d requested after, unfolded yields_def, rule_format, of w] assms by auto

lemma scan_heldE:
  assumes "scan_held e d limit after identity p ev"
  obtains t batches nss again ev' where "fe_scan e t = Inr batches" "delivered batches = Some (concat nss)"
    "directory_identity again = identity" "ev = map (SysScan (dr_fd d)) nss @ SysFstat (dr_fd d) again # ev'"
    "if boundary_in e (dr_rel d) after (concat nss)
     then \<exists>finals. metadata_held (dr_fd d) identity (selection e d limit after (concat nss)) finals ev' \<and>
       p = filled_page limit (selection e d limit after (concat nss)) finals (page_over e d limit after identity (concat nss))
     else ev' = [] \<and> p = page_over e d limit after identity (concat nss)"
  using assms unfolding scan_held_def by blast

lemma selection_take: "take limit (selection e d limit after names) = take limit (in_order (candidates e (dr_rel d) after names))"
  by (simp add: selection_def min_def)

lemma filled_names:
  assumes "length finals = length selected"
  shows "map en_name (lp_entries (filled_page limit selected finals p)) = map ca_name (take limit selected)"
    "map en_position (lp_entries (filled_page limit selected finals p)) = map ca_position (take limit selected)"
  using assms by (auto simp: filled_page_def entry_of_def intro!: nth_equalityI)

lemma listed_content:
  assumes "run_state (list_directory e d requested after) w = ((None, page, d'), w')"
  shows "\<exists>limit t batches names identity.
    effective_list_limit requested = Inr limit \<and> fe_scan e t = Inr batches \<and> delivered batches = Some names \<and>
    lp_source page = source_fingerprint e identity (members_of e (dr_rel d) names) \<and>
    lp_boundary page = boundary_in e (dr_rel d) after names \<and>
    (if lp_boundary page
     then map en_name (lp_entries page) = map ca_name (take limit (in_order (candidates e (dr_rel d) after names))) \<and>
       map en_position (lp_entries page) = map ca_position (take limit (in_order (candidates e (dr_rel d) after names))) \<and>
       lp_has_more page = (limit < length (candidates e (dr_rel d) after names))
     else lp_entries page = [] \<and> \<not> lp_has_more page)"
proof -
  from listed_page_held[OF assms] obtain limit first ev where page: "effective_list_limit requested = Inr limit"
    "scan_held e d limit after (directory_identity first) page ev" by blast
  from page(2) obtain t batches nss again ev' where scan: "fe_scan e t = Inr batches" "delivered batches = Some (concat nss)"
    and held: "if boundary_in e (dr_rel d) after (concat nss)
      then \<exists>finals. metadata_held (dr_fd d) (directory_identity first) (selection e d limit after (concat nss)) finals ev' \<and>
        page = filled_page limit (selection e d limit after (concat nss)) finals
          (page_over e d limit after (directory_identity first) (concat nss))
      else ev' = [] \<and> page = page_over e d limit after (directory_identity first) (concat nss)"
    by (rule scan_heldE)
  let ?names = "concat nss"
  show ?thesis
  proof (intro exI conjI)
    show "effective_list_limit requested = Inr limit" "fe_scan e t = Inr batches" "delivered batches = Some ?names"
      by fact+
    show "lp_source page = source_fingerprint e (directory_identity first) (members_of e (dr_rel d) ?names)"
      "lp_boundary page = boundary_in e (dr_rel d) after ?names"
      using held by (auto simp: filled_page_def page_over_def split: if_splits)
    have more: "limit < length (selection e d limit after ?names) \<longleftrightarrow> limit < length (candidates e (dr_rel d) after ?names)"
      by (auto simp: selection_def)
    show "if lp_boundary page
       then map en_name (lp_entries page) = map ca_name (take limit (in_order (candidates e (dr_rel d) after ?names))) \<and>
         map en_position (lp_entries page) = map ca_position (take limit (in_order (candidates e (dr_rel d) after ?names))) \<and>
         lp_has_more page = (limit < length (candidates e (dr_rel d) after ?names))
       else lp_entries page = [] \<and> \<not> lp_has_more page"
    proof (cases "boundary_in e (dr_rel d) after ?names")
      case True
      with held obtain finals where finals: "length finals = length (selection e d limit after ?names)"
        "page = filled_page limit (selection e d limit after ?names) finals
          (page_over e d limit after (directory_identity first) ?names)"
        unfolding metadata_held_def by auto
      with filled_names[OF finals(1)] True more show ?thesis
        by (simp add: selection_take) (simp add: filled_page_def page_over_def)
    next
      case False
      with held show ?thesis by (simp add: page_over_def)
    qed
  qed
qed

text \<open>C12. A page is exact.  When a listing succeeds, the directory delivered its names to the end, and
  the page's fingerprint and the verdict on the caller's position are about all of them.  When the
  position is there, or none was given, the entries are the first \<open>limit\<close> visible names behind it in
  canonical order, and the page says there are more exactly when there are.\<close>

theorem list_page_exact:
  assumes "run_state (list_directory e d requested after) w = ((None, page, d'), w')"
  shows "\<exists>limit t batches names identity.
    effective_list_limit requested = Inr limit \<and> fe_scan e t = Inr batches \<and> delivered batches = Some names \<and>
    lp_source page = source_fingerprint e identity (members_of e (dr_rel d) names) \<and>
    lp_boundary page = boundary_in e (dr_rel d) after names \<and>
    (if lp_boundary page
     then map en_name (lp_entries page) = map ca_name (take limit (in_order (candidates e (dr_rel d) after names))) \<and>
       map en_position (lp_entries page) = map ca_position (take limit (in_order (candidates e (dr_rel d) after names))) \<and>
       lp_has_more page = (limit < length (candidates e (dr_rel d) after names))
     else lp_entries page = [] \<and> \<not> lp_has_more page)"
  using assms by (rule listed_content)

text \<open>Behind the position of an entry come the entries after it.\<close>

lemma in_order_behind:
  assumes "distinct names" "k < length (in_order (candidates e rel None names))"
  shows "in_order (candidates e rel (Some (ca_position (in_order (candidates e rel None names) ! k))) names) =
    drop (Suc k) (in_order (candidates e rel None names))"
proof -
  let ?all = "in_order (candidates e rel None names)"
  let ?p = "ca_position (?all ! k)"
  have none: "candidates e rel None names = map (candidate_of e rel) (visible names)"
    by (simp add: candidates_def behind_def)
  have some: "candidates e rel (Some ?p) names = filter (\<lambda>c. ?p < ca_position c) (candidates e rel None names)"
    unfolding none by (simp add: candidates_def behind_def)
  have "distinct (map ca_position (candidates e rel None names))"
    unfolding none map_map distinct_map using assms(1) candidate_of_inj
    by (auto simp: visible_def inj_on_def)
  then have dist: "distinct (map ca_position ?all)"
    unfolding in_order_def distinct_map by simp
  have sorted: "sorted (map ca_position ?all)" by (simp add: in_order_def)
  have strict: "ca_position (?all ! i) < ca_position (?all ! j)" if "i < j" "j < length ?all" for i j
  proof -
    from that sorted have "ca_position (?all ! i) \<le> ca_position (?all ! j)"
      using sorted_nth_mono[OF sorted, of i j] by simp
    moreover from that dist have "ca_position (?all ! i) \<noteq> ca_position (?all ! j)"
      using nth_eq_iff_index_eq[OF dist, of i j] by simp
    ultimately show ?thesis by simp
  qed
  have "filter (\<lambda>c. ?p < ca_position c) (take (Suc k) ?all @ drop (Suc k) ?all) = drop (Suc k) ?all"
    unfolding filter_append
  proof -
    have "\<not> ?p < ca_position c" if c: "c \<in> set (take (Suc k) ?all)" for c
    proof -
      from c obtain i where "i < Suc k" "c = ?all ! i" using assms(2) by (auto simp: in_set_conv_nth)
      then show ?thesis using strict[of i k] assms(2) by (cases "i = k") (auto simp: not_less order_less_imp_le)
    qed
    then have "filter (\<lambda>c. ?p < ca_position c) (take (Suc k) ?all) = []" by (simp add: filter_empty_conv)
    moreover have "?p < ca_position c" if "c \<in> set (drop (Suc k) ?all)" for c
      using that strict[of k] by (auto simp: in_set_conv_nth)
    then have "filter (\<lambda>c. ?p < ca_position c) (drop (Suc k) ?all) = drop (Suc k) ?all" by simp
    ultimately show "filter (\<lambda>c. ?p < ca_position c) (take (Suc k) ?all) @ filter (\<lambda>c. ?p < ca_position c) (drop (Suc k) ?all) =
        drop (Suc k) ?all"
      by simp
  qed
  moreover have "in_order (filter P cs) = filter P (in_order cs)" for P cs
    by (simp add: in_order_def filter_sort)
  ultimately show ?thesis by (simp add: some)
qed

text \<open>C13. A page is stable.  What a page says of an entry was read from the second of two stats of
  that name between which the entry stayed the same, after the whole scan; and the directory had the
  same identity, size and modification time before the scan, after it and after the last stat.\<close>

theorem list_page_stable:
  assumes "run_state (list_directory e d requested after) w = ((None, page, d'), w')" "tk_trace w = []" "lp_boundary page"
  shows "\<exists>limit first nss again selected baselines finals last.
    tk_trace w' = [SysFstat (dr_fd d) first] @ map (SysScan (dr_fd d)) nss @ [SysFstat (dr_fd d) again] @
      stat_events (dr_fd d) selected baselines @ stat_events (dr_fd d) selected finals @ [SysFstat (dr_fd d) last] \<and>
    directory_identity again = directory_identity first \<and> directory_identity last = directory_identity first \<and>
    list_all2 same_entry baselines finals \<and>
    length finals = length selected \<and> lp_entries page = map2 entry_of (take limit selected) (take limit finals)"
proof -
  from listed_page[OF assms(1,2)] obtain limit first ev where page: "tk_trace w' = SysFstat (dr_fd d) first # ev"
    "scan_held e d limit after (directory_identity first) page ev" by blast
  from page(2) obtain t batches nss again ev' where ev: "ev = map (SysScan (dr_fd d)) nss @ SysFstat (dr_fd d) again # ev'"
    "directory_identity again = directory_identity first"
    and held: "if boundary_in e (dr_rel d) after (concat nss)
      then \<exists>finals. metadata_held (dr_fd d) (directory_identity first) (selection e d limit after (concat nss)) finals ev' \<and>
        page = filled_page limit (selection e d limit after (concat nss)) finals
          (page_over e d limit after (directory_identity first) (concat nss))
      else ev' = [] \<and> page = page_over e d limit after (directory_identity first) (concat nss)"
    by (rule scan_heldE)
  have "boundary_in e (dr_rel d) after (concat nss)"
    using held assms(3) by (auto simp: page_over_def split: if_splits)
  with held obtain finals where finals: "page = filled_page limit (selection e d limit after (concat nss)) finals
      (page_over e d limit after (directory_identity first) (concat nss))"
    and meta: "metadata_held (dr_fd d) (directory_identity first) (selection e d limit after (concat nss)) finals ev'"
    by auto
  from finals have entries: "lp_entries page = map2 entry_of (take limit (selection e d limit after (concat nss))) (take limit finals)"
    by (simp add: filled_page_def)
  obtain baselines last where "list_all2 same_entry baselines finals" "length finals = length (selection e d limit after (concat nss))"
    "directory_identity last = directory_identity first"
    "ev' = stat_events (dr_fd d) (selection e d limit after (concat nss)) baselines @
      stat_events (dr_fd d) (selection e d limit after (concat nss)) finals @ [SysFstat (dr_fd d) last]"
    using meta unfolding metadata_held_def by blast
  with page(1) ev entries show ?thesis by (simp only: append.simps) blast
qed

section \<open>The fingerprint ignores the order of the scan\<close>

fun bytes_value :: "nat list \<Rightarrow> nat" where
  "bytes_value [] = 0"
| "bytes_value (b # bs) = b * 256 ^ length bs + bytes_value bs"

lemma add_bytes_value:
  assumes "length xs = length ys"
  shows "length (snd (add_bytes xs ys)) = length xs \<and> list_all (\<lambda>b. b < 256) (snd (add_bytes xs ys)) \<and>
    bytes_value (snd (add_bytes xs ys)) + fst (add_bytes xs ys) * 256 ^ length xs = bytes_value xs + bytes_value ys"
  using assms
proof (induction xs ys rule: list_induct2)
  case (Cons x xs y ys)
  obtain c zs where add: "add_bytes xs ys = (c, zs)" by fastforce
  define t where "t = x + y + c"
  have "(t mod 256) * 256 ^ length xs + t div 256 * (256 * 256 ^ length xs) = t * 256 ^ length xs"
    by (metis (no_types, lifting) add.commute div_mult_mod_eq distrib_right mult.assoc)
  with Cons add t_def show ?case by (simp add: Let_def algebra_simps)
qed simp

lemma bytes_value_less: "list_all (\<lambda>b. b < 256) bs \<Longrightarrow> bytes_value bs < 256 ^ length bs"
proof (induction bs)
  case (Cons b bs)
  then have "b + 1 \<le> 256" "bytes_value bs < 256 ^ length bs" by simp_all
  then have "b * 256 ^ length bs + bytes_value bs < (b + 1) * 256 ^ length bs" by simp
  also have "\<dots> \<le> 256 * 256 ^ length bs" using \<open>b + 1 \<le> 256\<close> by (rule mult_le_mono1)
  finally show ?case by simp
qed simp

lemma bytes_value_inj:
  assumes "length bs = length cs" "bytes_value bs = bytes_value cs" "list_all (\<lambda>b. b < 256) bs" "list_all (\<lambda>b. b < 256) cs"
  shows "bs = cs"
  using assms
proof (induction bs cs rule: list_induct2)
  case (Cons b bs c cs)
  then have less: "bytes_value bs < 256 ^ length cs" "bytes_value cs < 256 ^ length cs"
    using bytes_value_less[of bs] bytes_value_less[of cs] by simp_all
  from Cons have "b * 256 ^ length cs + bytes_value bs = c * 256 ^ length cs + bytes_value cs" by simp
  then have "(b * 256 ^ length cs + bytes_value bs) div 256 ^ length cs = (c * 256 ^ length cs + bytes_value cs) div 256 ^ length cs"
    by (rule arg_cong)
  with less have "b = c" by (simp add: div_mult_self3)
  with Cons show ?case by simp
qed simp

lemma add_bytes_swap:
  assumes "length a = n" "length x = n" "length y = n"
  shows "snd (add_bytes (snd (add_bytes a x)) y) = snd (add_bytes (snd (add_bytes a y)) x)"
proof -
  have wraps: "length (snd (add_bytes u v)) = n" "list_all (\<lambda>b. b < 256) (snd (add_bytes u v))"
    "bytes_value (snd (add_bytes u v)) = (bytes_value u + bytes_value v) mod 256 ^ n"
    if "length u = n" "length v = n" for u v
  proof -
    from that add_bytes_value[of u v] show all: "length (snd (add_bytes u v)) = n" "list_all (\<lambda>b. b < 256) (snd (add_bytes u v))"
      by simp_all
    from that add_bytes_value[of u v] have "(bytes_value u + bytes_value v) mod 256 ^ n = bytes_value (snd (add_bytes u v)) mod 256 ^ n"
      by (metis mod_mult_self1)
    also have "\<dots> = bytes_value (snd (add_bytes u v))" using bytes_value_less[OF all(2)] all(1) by simp
    finally show "bytes_value (snd (add_bytes u v)) = (bytes_value u + bytes_value v) mod 256 ^ n" by simp
  qed
  show ?thesis
    by (rule bytes_value_inj) (simp_all add: wraps assms mod_simps ac_simps)
qed

lemma xor_bytes_swap: "xor_bytes (xor_bytes a x) y = xor_bytes (xor_bytes a y) x"
  unfolding xor_bytes_def by (rule nth_equalityI) (auto simp: ac_simps)

lemma foldl_mset:
  assumes "mset xs = mset ys" "P a" "\<And>a x. P a \<Longrightarrow> P (f a x)" "\<And>a x y. P a \<Longrightarrow> f (f a x) y = f (f a y) x"
  shows "foldl f a xs = foldl f a ys"
  using assms(1,2)
proof (induction xs arbitrary: a ys)
  case (Cons x xs)
  have front: "foldl f b (us @ [x]) = foldl f b (x # us)" if "P b" for us b
    using that
  proof (induction us arbitrary: b)
    case (Cons u us)
    with assms(3,4) show ?case by simp
  qed simp
  from Cons.prems(1) have "x \<in> set ys" using set_mset_mset[of ys] by (metis list.set_intros(1) set_mset_mset)
  then obtain us vs where ys: "ys = us @ x # vs" by (meson split_list)
  with Cons.prems(1) have "mset xs = mset (us @ vs)" by simp
  with Cons.IH[OF this assms(3)[OF Cons.prems(2)]] front[OF Cons.prems(2), of us] show ?case
    by (simp add: ys)
qed simp

text \<open>C14. The fingerprint of a directory's names does not depend on the order the directory delivers
  them in, so two scans of the same names at the same directory identity carry the same source.\<close>

theorem source_order_free:
  assumes "mset names = mset names'" "\<And>text. length (fe_sha e text) = 32"
  shows "source_fingerprint e identity (members_of e rel names) = source_fingerprint e identity (members_of e rel names')"
proof -
  have sizes: "length (mb_sum (add_member e p m)) = 32" if "length (mb_sum m) = 32" for p and m :: membership
    using that assms(2) add_bytes_value[of "mb_sum m" "member_item e p"] by (simp add: add_member_def member_item_def)
  have "members_of e rel names = members_of e rel names'"
    unfolding members_of_def
  proof (rule foldl_mset[where P = "\<lambda>m. length (mb_sum m) = 32"])
    show "mset (visible names) = mset (visible names')"
      using assms(1) by (simp add: visible_def)
    fix m :: membership and n n' assume "length (mb_sum m) = 32"
    moreover have "length (member_item e p) = 32" for p using assms(2) by (simp add: member_item_def)
    ultimately show "add_member e (position_of e rel n') (add_member e (position_of e rel n) m) =
        add_member e (position_of e rel n) (add_member e (position_of e rel n') m)"
      by (simp add: add_member_def xor_bytes_swap add_bytes_swap[where n = 32] ac_simps)
  qed (simp_all add: sizes no_members_def)
  then show ?thesis by simp
qed

section \<open>Witnesses\<close>

definition demo_list_stamp :: "32 word \<Rightarrow> raw_stamp" where
  "demo_list_stamp mode = \<lparr>st_device = 1, st_inode = 2, st_mode = mode, st_uid = 501, st_nlink = 2, st_size = 64,
     st_mtime_sec = 10, st_mtime_nsec = 0, st_ctime_sec = 10, st_ctime_nsec = 0\<rparr>"

definition demo_list_fs :: fs_env where
  "demo_list_fs = \<lparr>fe_vault = demo_vault, fe_sha = (\<lambda>s. replicate 32 (CHR 0x00)),
     fe_scan = (\<lambda>t. Inr [Inr [''b'', ''.h'', ''a'']]), fe_stat = (\<lambda>t. Inr (demo_list_stamp 0x81A4)),
     fe_fstat = (\<lambda>t. Inr (demo_list_stamp 0x41C0)), fe_open = (\<lambda>t. None), fe_read = (\<lambda>t. ('''', Some IoEOF)),
     fe_seek = (\<lambda>t. Some 0), fe_effect = (\<lambda>t. None), fe_write = (\<lambda>t. (0, None))\<rparr>"

definition demo_list_world :: fs_world where
  "demo_list_world = \<lparr>tk_tick = 0, tk_trace = [], fw_in = '''', fw_out = ''''\<rparr>"

definition demo_directory :: directory where
  "demo_directory = \<lparr>dr_fd = 3, dr_rel = ''.'', dr_listed = False\<rparr>"

lemma demo_list_parts:
  "fe_vault demo_list_fs = demo_vault" "fe_scan demo_list_fs = (\<lambda>t. Inr [Inr [''b'', ''.h'', ''a'']])"
  "fe_stat demo_list_fs = (\<lambda>t. Inr (demo_list_stamp 0x81A4))" "fe_fstat demo_list_fs = (\<lambda>t. Inr (demo_list_stamp 0x41C0))"
  "vf_ctx demo_vault = (\<lambda>k. None)" "vf_nfc demo_vault = (\<lambda>s. s)"
  by (simp_all add: demo_list_fs_def demo_vault_def)

lemma demo_list_names:
  "denied_segment ''b'' = False" "denied_segment ''.h''" "denied_segment ''a'' = False"
  "join_rel ''.'' ''a'' = ''a''" "join_rel ''.'' ''b'' = ''b''"
  "stamp_kind (demo_list_stamp 0x41C0) = KindDir"
  "same_entry (demo_list_stamp 0x81A4) (demo_list_stamp 0x81A4)"
  "effective_list_limit 1 = Inr (Suc 0)"
  by code_simp+

lemma demo_order: "compare_position (Position ''a'' ''a'') (Position ''b'' ''b'') = - 1"
  "Position ''a'' ''a'' \<le> Position ''b'' ''b''"
  by code_simp+

lemma demo_list_run:
  "\<exists>page d' w'. run_state (list_directory demo_list_fs demo_directory 1 None) demo_list_world = ((None, page, d'), w') \<and>
     lp_boundary page"
  by (simp add: list_directory_def demo_list_parts demo_list_names stat_directory_def sys_fstat_def sys_stat_def look_def emit_def
      scan_page_def no_scan_def empty_page_def page_of_scan_def finish_page_def demo_list_world_def demo_directory_def
      scan_name_def candidate_of_def position_of_def heap_push_def demo_order Let_def)

theorem list_page_exact_witness:
  "\<exists>page d' w' t batches names identity.
     run_state (list_directory demo_list_fs demo_directory 1 None) demo_list_world = ((None, page, d'), w') \<and>
     fe_scan demo_list_fs t = Inr batches \<and> delivered batches = Some names \<and>
     lp_source page = source_fingerprint demo_list_fs identity (members_of demo_list_fs ''.'' names)"
proof -
  from demo_list_run obtain page d' w' where
    run: "run_state (list_directory demo_list_fs demo_directory 1 None) demo_list_world = ((None, page, d'), w')" by blast
  from list_page_exact[OF run] run show ?thesis by (auto simp: demo_directory_def)
qed

theorem list_page_stable_witness:
  "\<exists>page d' w' limit selected finals.
     run_state (list_directory demo_list_fs demo_directory 1 None) demo_list_world = ((None, page, d'), w') \<and>
     length finals = length selected \<and> lp_entries page = map2 entry_of (take limit selected) (take limit finals)"
proof -
  from demo_list_run obtain page d' w' where
    run: "run_state (list_directory demo_list_fs demo_directory 1 None) demo_list_world = ((None, page, d'), w')" "lp_boundary page"
    by blast
  have "tk_trace demo_list_world = []" by (simp add: demo_list_world_def)
  from list_page_stable[OF run(1) this run(2)] run(1) show ?thesis by blast
qed

theorem source_order_free_witness:
  "source_fingerprint demo_list_fs (demo_list_stamp 0x41C0) (members_of demo_list_fs ''.'' [''b'', ''a'']) =
   source_fingerprint demo_list_fs (demo_list_stamp 0x41C0) (members_of demo_list_fs ''.'' [''a'', ''b''])"
  by (rule source_order_free) (simp_all add: demo_list_fs_def)

end
