(* ===== verification/GoBase64.thy ===== *)
theory GoBase64
  imports Prelude
begin

text \<open>
  \<^verbatim>\<open>base64.RawURLEncoding\<close>: the URL alphabet without padding.  The decoder skips line ends and does not
  look at the bits a last incomplete group leaves over.
\<close>

definition sextet_char :: "nat \<Rightarrow> char" where
  "sextet_char n =
     char_of (if n < 26 then n + 65 else if n < 52 then n + 71 else if n < 62 then n - 4 else if n = 62 then 45 else 95)"

definition char_sextet :: "char \<Rightarrow> nat option" where
  "char_sextet c =
     (let k = of_char c in
      if 65 \<le> k \<and> k \<le> 90 then Some (k - 65)
      else if 97 \<le> k \<and> k \<le> 122 then Some (k - 71)
      else if 48 \<le> k \<and> k \<le> 57 then Some (k + 4)
      else if k = 45 then Some 62
      else if k = (95 :: nat) then Some 63
      else None)"

fun byte_sextets :: "nat list \<Rightarrow> nat list" where
  "byte_sextets [] = []"
| "byte_sextets [a] = [a div 4, a mod 4 * 16]"
| "byte_sextets [a, b] = [a div 4, a mod 4 * 16 + b div 16, b mod 16 * 4]"
| "byte_sextets (a # b # c # r) =
     a div 4 # (a mod 4 * 16 + b div 16) # (b mod 16 * 4 + c div 64) # c mod 64 # byte_sextets r"

fun sextet_bytes :: "nat list \<Rightarrow> nat list option" where
  "sextet_bytes [] = Some []"
| "sextet_bytes [x] = None"
| "sextet_bytes [x, y] = Some [x * 4 + y div 16]"
| "sextet_bytes [x, y, z] = Some [x * 4 + y div 16, y mod 16 * 16 + z div 4]"
| "sextet_bytes (x # y # z # w # r) =
     map_option (\<lambda>s. (x * 4 + y div 16) # (y mod 16 * 16 + z div 4) # (z mod 4 * 64 + w) # s) (sextet_bytes r)"

definition encode64 :: "string \<Rightarrow> string" where
  "encode64 s = map sextet_char (byte_sextets (map of_char s))"

definition line_end :: "char \<Rightarrow> bool" where
  "line_end c \<longleftrightarrow> of_char c = (10 :: nat) \<or> of_char c = (13 :: nat)"

definition decode64 :: "string \<Rightarrow> string option" where
  "decode64 s =
     (case those (map char_sextet (filter (\<lambda>c. \<not> line_end c) s)) of
        None \<Rightarrow> None
      | Some xs \<Rightarrow> map_option (map char_of) (sextet_bytes xs))"

definition encoded_len :: "nat \<Rightarrow> nat" where
  "encoded_len n = n div 3 * 4 + (n mod 3 * 8 + 5) div 6"

definition decoded_len :: "nat \<Rightarrow> nat" where
  "decoded_len n = n div 4 * 3 + n mod 4 * 6 div 8"

lemma byte_sextets_less: "\<forall>b\<in>set bs. b < 256 \<Longrightarrow> x \<in> set (byte_sextets bs) \<Longrightarrow> x < 64"
  by (induction bs rule: byte_sextets.induct) auto

lemma sextet_bytes_of: "\<forall>b\<in>set bs. b < 256 \<Longrightarrow> sextet_bytes (byte_sextets bs) = Some bs"
proof (induction bs rule: byte_sextets.induct)
  case (2 a)
  then show ?case by simp
next
  case (3 a b)
  then have "b div 16 < 16" by (simp add: less_mult_imp_div_less)
  then show ?case by (simp add: mult.commute)
next
  case (4 a b c r)
  then have "b div 16 < 16" "c div 64 < 4" by (simp_all add: less_mult_imp_div_less)
  with 4 show ?case by (simp add: mult.commute)
qed simp

lemma char_sextet_of:
  assumes "n < 64"
  shows "char_sextet (sextet_char n) = Some n" "\<not> line_end (sextet_char n)"
  using assms by (auto simp: char_sextet_def sextet_char_def line_end_def Let_def)

lemma those_map_Some: "(\<And>x. x \<in> set xs \<Longrightarrow> f x = Some (g x)) \<Longrightarrow> those (map f xs) = Some (map g xs)"
  by (induction xs) simp_all

lemma decode64_encode64 [simp]: "decode64 (encode64 s) = Some s"
proof -
  let ?xs = "byte_sextets (map of_char s)"
  have less: "x < 64" if "x \<in> set ?xs" for x
    using that by (rule byte_sextets_less[rotated]) simp
  then have "filter (\<lambda>c. \<not> line_end c) (encode64 s) = encode64 s"
    by (simp add: encode64_def filter_map o_def char_sextet_of filter_id_conv)
  moreover have "those (map char_sextet (encode64 s)) = Some ?xs"
    unfolding encode64_def map_map o_def using those_map_Some[of ?xs "\<lambda>n. char_sextet (sextet_char n)" "\<lambda>n. n"] less
    by (simp add: char_sextet_of)
  moreover have "sextet_bytes ?xs = Some (map of_char s)" by (rule sextet_bytes_of) simp
  ultimately show ?thesis by (simp add: decode64_def o_def)
qed

lemma length_byte_sextets: "length (byte_sextets bs) = encoded_len (length bs)"
proof (induction bs rule: byte_sextets.induct)
  case (4 a b c r)
  have "Suc (Suc (Suc (length r))) div 3 = Suc (length r div 3)" by simp
  with 4 show ?case by (simp add: encoded_len_def del: div_add_self1 div_add_self2)
qed (simp_all add: encoded_len_def)

lemma length_encode64 [simp]: "length (encode64 s) = encoded_len (length s)"
  by (simp add: encode64_def length_byte_sextets)

lemma encode64_inj [simp]: "encode64 s = encode64 t \<longleftrightarrow> s = t"
  by (metis decode64_encode64 option.inject)

end
