(* ===== verification/Cursor.thy ===== *)
theory Cursor
  imports VaultList GoBase64
begin

text \<open>
  Continuation cursors (\<^verbatim>\<open>internal/tools/obsidian/cursor.go\<close>) and the sealing of values by the vault
  (\<^verbatim>\<open>internal/fsx/opaque_unix.go\<close>).  A cursor is a JSON envelope with a seal, in base64.  Of
  \<^verbatim>\<open>encoding/json\<close> the quoting of strings, the compaction of raw values and the strict decoder of
  the envelope are parameters; what \<^verbatim>\<open>json.Marshal\<close> writes of the envelope is written out.
\<close>

section \<open>Seals\<close>

text \<open>A vault's secretless authority and the keyed digest \<^verbatim>\<open>hmac\<close> over SHA-256.\<close>

record vault_seal =
  vs_authority :: string
  vs_hmac :: "string \<Rightarrow> string \<Rightarrow> string"

definition authority_domain :: string where
  "authority_domain = ''personal-mcp-gateway/fsx-opaque-root-authority/v1'' @ [CHR 0x00]"

definition authority_frame :: "string \<Rightarrow> raw_stamp \<Rightarrow> string" where
  "authority_frame root s =
     foldl append_uint64 (append_uint64 authority_domain (of_nat (length root)) @ root)
       [st_device s, st_inode s, ucast (st_mode s AND s_ifmt)]"

definition derive_authority :: "fs_env \<Rightarrow> string \<Rightarrow> (fs_code + string) fs_io" where
  "derive_authority e root = do {
     opened \<leftarrow> look (fe_open e);
     (case opened of
        Some err \<Rightarrow> State_Monad.return (Inl (map_open_dir_error err))
      | None \<Rightarrow> do {
          d \<leftarrow> moment;
          st \<leftarrow> sys_fstat e d;
          State_Monad.return (case st of
            Inl err \<Rightarrow> Inl (map_path_error err)
          | Inr s \<Rightarrow> if stamp_kind s \<noteq> KindDir then Inl NotDirectory else Inr (fe_sha e (authority_frame root s))) })
   }"

definition zero_binding :: string where "zero_binding = replicate 32 (CHR 0x00)"

definition bind_opaque :: "vault_seal option \<Rightarrow> string \<Rightarrow> string \<Rightarrow> string" where
  "bind_opaque sealer domain v =
     (case sealer of
        None \<Rightarrow> zero_binding
      | Some vault \<Rightarrow> vs_hmac vault (vs_authority vault) (append_uint64 domain (of_nat (length v)) @ v))"

definition verify_opaque :: "vault_seal option \<Rightarrow> string \<Rightarrow> string \<Rightarrow> string \<Rightarrow> bool" where
  "verify_opaque sealer domain v binding \<longleftrightarrow> sealer \<noteq> None \<and> bind_opaque sealer domain v = binding"

section \<open>Envelopes\<close>

datatype cursor_error = CursorInvalid | CursorMismatch | CursorStale

record cursor_envelope =
  ce_version :: int
  ce_tool :: string
  ce_query :: string
  ce_source :: string
  ce_position :: position
  ce_state :: string
  ce_seal :: string

record decoded_cursor =
  dc_tool :: string
  dc_query :: string
  dc_source :: string
  dc_position :: position
  dc_state :: string

text \<open>The parameters: quoting a string, compacting a raw value, the strict decoder run to the end of its
  input, and \<^verbatim>\<open>json.Valid\<close>.\<close>

record json_codec =
  jc_quote :: "string \<Rightarrow> string"
  jc_compact :: "string \<Rightarrow> string option"
  jc_envelope :: "string \<Rightarrow> cursor_envelope option"
  jc_valid :: "string \<Rightarrow> bool"

definition cursor_format_v2 :: int where "cursor_format_v2 = 2"
definition max_cursor_tool_bytes :: nat where "max_cursor_tool_bytes = 64"
definition max_cursor_field_bytes :: nat where "max_cursor_field_bytes = 4096"
definition max_cursor_bytes :: nat where "max_cursor_bytes = 16 * 1024"

definition cursor_seal_domain :: string where
  "cursor_seal_domain = ''personal-mcp-gateway/obsidian-cursor-envelope/v2''"

text \<open>All members but the seal, up to the closing brace.\<close>

definition envelope_members :: "json_codec \<Rightarrow> cursor_envelope \<Rightarrow> string option" where
  "envelope_members j c =
     map_option (\<lambda>state.
       ''{\"version\":'' @ itoa (ce_version c) @ '',\"tool\":'' @ jc_quote j (ce_tool c) @
       '',\"query\":'' @ jc_quote j (ce_query c) @ '',\"source\":'' @ jc_quote j (ce_source c) @
       '',\"position\":{\"nfc\":'' @ jc_quote j (ps_nfc (ce_position c)) @
       '',\"stored\":'' @ jc_quote j (ps_stored (ce_position c)) @ ''}'' @ state)
     (if ce_state c = '''' then Some '''' else map_option (\<lambda>s. '',\"state\":'' @ s) (jc_compact j (ce_state c)))"

definition marshal_fields :: "json_codec \<Rightarrow> cursor_envelope \<Rightarrow> string option" where
  "marshal_fields j c = map_option (\<lambda>s. s @ ''}'') (envelope_members j c)"

definition marshal_envelope :: "json_codec \<Rightarrow> cursor_envelope \<Rightarrow> string option" where
  "marshal_envelope j c = map_option (\<lambda>s. s @ '',\"seal\":'' @ jc_quote j (ce_seal c) @ ''}'') (envelope_members j c)"

definition valid_cursor_string :: "string \<Rightarrow> nat \<Rightarrow> bool" where
  "valid_cursor_string s most \<longleftrightarrow> s \<noteq> '''' \<and> length s \<le> most"

definition valid_raw_base64 :: "string \<Rightarrow> bool" where
  "valid_raw_base64 s \<longleftrightarrow> list_all (\<lambda>c. char_sextet c \<noteq> None) s"

definition decode_digest :: "string \<Rightarrow> string option" where
  "decode_digest s =
     (if length s \<noteq> encoded_len 32 then None
      else (case decode64 s of None \<Rightarrow> None | Some d \<Rightarrow> if length d = 32 then Some d else None))"

section \<open>Query hashes\<close>

definition write_hash_field :: "string \<Rightarrow> string \<Rightarrow> string" where
  "write_hash_field h v = append_uint64 h (of_nat (length v)) @ v"

definition tool_ls :: string where "tool_ls = ''ls''"

definition response_contract_v2 :: "64 word" where "response_contract_v2 = 2"

definition ls_query_hash :: "(string \<Rightarrow> string) \<Rightarrow> string \<Rightarrow> string \<Rightarrow> nat \<Rightarrow> string" where
  "ls_query_hash sha canonical base limit =
     sha (foldl write_hash_field []
       [tool_ls, canonical, base, append_uint64 [] (of_nat limit), append_uint64 [] response_contract_v2])"

text \<open>The normalized query is already encoded; encoding it may fail.\<close>

definition retrieval_query_hash :: "(string \<Rightarrow> string) \<Rightarrow> string \<Rightarrow> string option \<Rightarrow> string option" where
  "retrieval_query_hash sha tool encoded =
     map_option (\<lambda>v. sha (foldl write_hash_field [] [tool, v, append_uint64 [] response_contract_v2])) encoded"

section \<open>Encoding and decoding\<close>

definition encode_sealed_envelope ::
  "json_codec \<Rightarrow> vault_seal option \<Rightarrow> cursor_envelope \<Rightarrow> cursor_error + string" where
  "encode_sealed_envelope j sealer c =
     (if sealer = None then Inl CursorInvalid
      else (case marshal_fields j c of
        None \<Rightarrow> Inl CursorInvalid
      | Some v \<Rightarrow>
          let seal = bind_opaque sealer cursor_seal_domain v in
          if seal = zero_binding then Inl CursorInvalid
          else (case marshal_envelope j (c\<lparr>ce_seal := encode64 seal\<rparr>) of
            None \<Rightarrow> Inl CursorInvalid
          | Some text \<Rightarrow>
              if length text > max_cursor_bytes \<or> encoded_len (length text) > max_cursor_bytes
              then Inl CursorInvalid else Inr (encode64 text))))"

definition position_envelope :: "string \<Rightarrow> string \<Rightarrow> string \<Rightarrow> position \<Rightarrow> cursor_envelope" where
  "position_envelope tool query source p =
     \<lparr>ce_version = cursor_format_v2, ce_tool = tool, ce_query = encode64 query, ce_source = encode64 source,
      ce_position = p, ce_state = '''', ce_seal = ''''\<rparr>"

definition encode_cursor ::
  "json_codec \<Rightarrow> vault_seal option \<Rightarrow> string \<Rightarrow> string \<Rightarrow> string \<Rightarrow> position \<Rightarrow> cursor_error + string" where
  "encode_cursor j sealer tool query source p =
     (if \<not> valid_cursor_string tool max_cursor_tool_bytes \<or>
         \<not> valid_cursor_string (ps_nfc p) max_cursor_field_bytes \<or>
         \<not> valid_cursor_string (ps_stored p) max_cursor_field_bytes
      then Inl CursorInvalid
      else encode_sealed_envelope j sealer (position_envelope tool query source p))"

text \<open>\<open>state\<close> is what encoding the caller's state gave, \<open>None\<close> when there was none or it failed.\<close>

definition encode_cursor_state ::
  "json_codec \<Rightarrow> vault_seal option \<Rightarrow> string \<Rightarrow> string \<Rightarrow> string option \<Rightarrow> cursor_error + string" where
  "encode_cursor_state j sealer tool query state =
     (if \<not> valid_cursor_string tool max_cursor_tool_bytes then Inl CursorInvalid
      else (case state of
        None \<Rightarrow> Inl CursorInvalid
      | Some s \<Rightarrow>
          if s = '''' \<or> s = ''null'' then Inl CursorInvalid
          else encode_sealed_envelope j sealer
            \<lparr>ce_version = cursor_format_v2, ce_tool = tool, ce_query = encode64 query, ce_source = '''',
             ce_position = Position '''' '''', ce_state = s, ce_seal = ''''\<rparr>))"

text \<open>The envelope in a cursor: strict, canonical, of this version, sealed by this vault.\<close>

definition open_envelope :: "json_codec \<Rightarrow> vault_seal option \<Rightarrow> string \<Rightarrow> cursor_envelope option" where
  "open_envelope j sealer encoded =
     (if encoded = '''' \<or> length encoded > max_cursor_bytes \<or> \<not> valid_raw_base64 encoded then None
      else if decoded_len (length encoded) = 0 \<or> decoded_len (length encoded) > max_cursor_bytes then None
      else (case decode64 encoded of
        None \<Rightarrow> None
      | Some text \<Rightarrow>
          if text = '''' \<or> length text > max_cursor_bytes then None
          else (case jc_envelope j text of
            None \<Rightarrow> None
          | Some c \<Rightarrow>
              if marshal_envelope j c \<noteq> Some text then None
              else if ce_version c \<noteq> cursor_format_v2 \<or> \<not> valid_cursor_string (ce_tool c) max_cursor_tool_bytes \<or> sealer = None
              then None
              else (case (decode_digest (ce_seal c), marshal_fields j c) of
                (Some seal, Some v) \<Rightarrow> if verify_opaque sealer cursor_seal_domain v seal then Some c else None
              | _ \<Rightarrow> None))))"

definition decode_cursor :: "json_codec \<Rightarrow> vault_seal option \<Rightarrow> string \<Rightarrow> cursor_error + decoded_cursor" where
  "decode_cursor j sealer encoded =
     (case open_envelope j sealer encoded of
        None \<Rightarrow> Inl CursorInvalid
      | Some c \<Rightarrow>
          (case decode_digest (ce_query c) of
             None \<Rightarrow> Inl CursorInvalid
           | Some query \<Rightarrow>
               if ce_state c \<noteq> '''' then
                 (if ce_source c \<noteq> '''' \<or> ps_nfc (ce_position c) \<noteq> '''' \<or> ps_stored (ce_position c) \<noteq> '''' \<or>
                     \<not> jc_valid j (ce_state c) \<or> ce_state c = ''null''
                  then Inl CursorInvalid
                  else Inr \<lparr>dc_tool = ce_tool c, dc_query = query, dc_source = zero_fingerprint,
                    dc_position = Position '''' '''', dc_state = ce_state c\<rparr>)
               else if \<not> valid_cursor_string (ps_nfc (ce_position c)) max_cursor_field_bytes \<or>
                   \<not> valid_cursor_string (ps_stored (ce_position c)) max_cursor_field_bytes
               then Inl CursorInvalid
               else (case decode_digest (ce_source c) of
                 None \<Rightarrow> Inl CursorInvalid
               | Some source \<Rightarrow>
                   Inr \<lparr>dc_tool = ce_tool c, dc_query = query, dc_source = source, dc_position = ce_position c, dc_state = ''''\<rparr>)))"

text \<open>\<open>parse\<close> is the strict decoder of the tool's own state, run to the end of its input.\<close>

definition decode_cursor_state ::
  "json_codec \<Rightarrow> vault_seal option \<Rightarrow> (string \<Rightarrow> 'a option) \<Rightarrow> string \<Rightarrow> string \<Rightarrow> string \<Rightarrow> cursor_error + 'a" where
  "decode_cursor_state j sealer parse encoded tool query =
     (case decode_cursor j sealer encoded of
        Inl _ \<Rightarrow> Inl CursorInvalid
      | Inr d \<Rightarrow>
          if dc_tool d \<noteq> tool \<or> dc_query d \<noteq> query then Inl CursorMismatch
          else if dc_state d = '''' then Inl CursorInvalid
          else (case parse (dc_state d) of None \<Rightarrow> Inl CursorInvalid | Some s \<Rightarrow> Inr s))"

definition validate_cursor ::
  "json_codec \<Rightarrow> vault_seal option \<Rightarrow> string \<Rightarrow> string \<Rightarrow> string \<Rightarrow> string \<Rightarrow> cursor_error + position" where
  "validate_cursor j sealer encoded tool query source =
     (case decode_cursor j sealer encoded of
        Inl _ \<Rightarrow> Inl CursorInvalid
      | Inr d \<Rightarrow>
          if dc_tool d \<noteq> tool \<or> dc_query d \<noteq> query then Inl CursorMismatch
          else if dc_state d \<noteq> '''' then Inl CursorInvalid
          else if dc_source d \<noteq> source then Inl CursorStale
          else Inr (dc_position d))"

fun cursor_error_code :: "cursor_error \<Rightarrow> string" where
  "cursor_error_code CursorInvalid = ''cursor_invalid''"
| "cursor_error_code CursorMismatch = ''cursor_mismatch''"
| "cursor_error_code CursorStale = ''cursor_stale''"

fun cursor_error_message :: "cursor_error \<Rightarrow> string" where
  "cursor_error_message CursorMismatch = ''cursor does not match query''"
| "cursor_error_message CursorStale = ''cursor source changed''"
| "cursor_error_message CursorInvalid = ''cursor is invalid''"

section \<open>What a cursor carries\<close>

text \<open>\<^verbatim>\<open>encoding/json\<close> reads back what it wrote of this envelope, as it does of valid UTF-8.\<close>

definition parses_back :: "json_codec \<Rightarrow> cursor_envelope \<Rightarrow> bool" where
  "parses_back j c \<longleftrightarrow>
     (case marshal_envelope j c of None \<Rightarrow> True | Some text \<Rightarrow> jc_envelope j text = Some c)"

definition seal_of :: "json_codec \<Rightarrow> vault_seal \<Rightarrow> cursor_envelope \<Rightarrow> string option" where
  "seal_of j vault c = map_option (bind_opaque (Some vault) cursor_seal_domain) (marshal_fields j c)"

definition sealed_envelope :: "json_codec \<Rightarrow> vault_seal \<Rightarrow> cursor_envelope \<Rightarrow> cursor_envelope" where
  "sealed_envelope j vault c =
     (case seal_of j vault c of None \<Rightarrow> c | Some seal \<Rightarrow> c\<lparr>ce_seal := encode64 seal\<rparr>)"

lemma envelope_members_seal [simp]: "envelope_members j (c\<lparr>ce_seal := s\<rparr>) = envelope_members j c"
  unfolding envelope_members_def by (simp cong: if_cong)

lemma marshal_fields_seal [simp]: "marshal_fields j (c\<lparr>ce_seal := s\<rparr>) = marshal_fields j c"
  by (simp add: marshal_fields_def)

lemma encode_sealedD:
  assumes "encode_sealed_envelope j (Some vault) c = Inr text"
  obtains v raw where "marshal_fields j c = Some v" "text = encode64 raw"
    "bind_opaque (Some vault) cursor_seal_domain v \<noteq> zero_binding"
    "marshal_envelope j (c\<lparr>ce_seal := encode64 (bind_opaque (Some vault) cursor_seal_domain v)\<rparr>) = Some raw"
    "length raw \<le> max_cursor_bytes" "encoded_len (length raw) \<le> max_cursor_bytes"
  using assms by (auto simp: encode_sealed_envelope_def Let_def split: option.splits if_splits)

lemma valid_raw_encode64 [simp]: "valid_raw_base64 (encode64 s)"
proof -
  have "x < 64" if "x \<in> set (byte_sextets (map of_char s))" for x
    using that by (rule byte_sextets_less[rotated]) simp
  then show ?thesis by (auto simp: valid_raw_base64_def encode64_def list_all_iff char_sextet_of)
qed

lemma decode_digest_encode64 [simp]: "length d = 32 \<Longrightarrow> decode_digest (encode64 d) = Some d"
  by (simp add: decode_digest_def)

lemma decoded_encoded_len: "0 < n \<Longrightarrow> decoded_len (encoded_len n) = n"
proof -
  obtain k r where n: "n = 3 * k + r" "r < 3" by (metis mod_less_divisor mult_div_mod_eq zero_less_numeral)
  then have "r = 0 \<or> r = 1 \<or> r = 2" by linarith
  then show "decoded_len (encoded_len n) = n"
    by (auto simp: n decoded_len_def encoded_len_def)
qed

lemma marshal_envelope_not_empty: "marshal_envelope j c \<noteq> Some ''''"
  by (auto simp: marshal_envelope_def)

lemma open_sealed:
  assumes "encode_sealed_envelope j (Some vault) c = Inr text"
    and "parses_back j (sealed_envelope j vault c)"
    and "ce_version c = cursor_format_v2" "valid_cursor_string (ce_tool c) max_cursor_tool_bytes"
    and "\<And>m. length (vs_hmac vault (vs_authority vault) m) = 32"
  shows "open_envelope j (Some vault) text = Some (sealed_envelope j vault c)"
proof -
  from assms(1) obtain v raw where raw: "marshal_fields j c = Some v" "text = encode64 raw"
    "marshal_envelope j (c\<lparr>ce_seal := encode64 (bind_opaque (Some vault) cursor_seal_domain v)\<rparr>) = Some raw"
    "length raw \<le> max_cursor_bytes" "encoded_len (length raw) \<le> max_cursor_bytes"
    by (rule encode_sealedD)
  let ?c = "c\<lparr>ce_seal := encode64 (bind_opaque (Some vault) cursor_seal_domain v)\<rparr>"
  have sealed: "sealed_envelope j vault c = ?c"
    by (simp add: sealed_envelope_def seal_of_def raw(1))
  from raw(3) marshal_envelope_not_empty have "raw \<noteq> ''''" by metis
  then have len: "0 < length raw" by simp
  have "encode64 raw \<noteq> ''''"
    using decoded_encoded_len[OF len] len by (metis decoded_len_def div_0 length_encode64 list.size(3) mod_0 mult_0 add_0 less_irrefl)
  moreover have "jc_envelope j raw = Some ?c"
    using assms(2) raw(3) by (simp add: parses_back_def sealed)
  moreover have "length (bind_opaque (Some vault) cursor_seal_domain v) = 32"
    using assms(5) by (simp add: bind_opaque_def)
  ultimately show ?thesis
    using raw assms(3,4) len
    by (simp add: open_envelope_def sealed decoded_encoded_len verify_opaque_def)
qed

lemma decode_encoded:
  assumes "encode_cursor j (Some vault) tool query source p = Inr text"
    and "parses_back j (sealed_envelope j vault (position_envelope tool query source p))"
    and "length query = 32" "length source = 32" "\<And>m. length (vs_hmac vault (vs_authority vault) m) = 32"
  shows "decode_cursor j (Some vault) text =
    Inr \<lparr>dc_tool = tool, dc_query = query, dc_source = source, dc_position = p, dc_state = ''''\<rparr>"
proof -
  let ?c = "position_envelope tool query source p"
  from assms(1) have enc: "encode_sealed_envelope j (Some vault) ?c = Inr text"
    and valid: "valid_cursor_string tool max_cursor_tool_bytes" "valid_cursor_string (ps_nfc p) max_cursor_field_bytes"
      "valid_cursor_string (ps_stored p) max_cursor_field_bytes"
    by (auto simp: encode_cursor_def split: if_splits)
  have "open_envelope j (Some vault) text = Some (sealed_envelope j vault ?c)"
    by (rule open_sealed[OF enc assms(2) _ _ assms(5)]) (simp_all add: position_envelope_def valid)
  moreover have parts: "ce_query (sealed_envelope j vault ?c) = encode64 query" "ce_state (sealed_envelope j vault ?c) = ''''"
    "ce_tool (sealed_envelope j vault ?c) = tool" "ce_source (sealed_envelope j vault ?c) = encode64 source"
    "ce_position (sealed_envelope j vault ?c) = p"
    by (simp_all add: sealed_envelope_def position_envelope_def split: option.split)
  ultimately show ?thesis using assms(3,4) valid by (simp add: decode_cursor_def)
qed

text \<open>C16. A cursor comes back as what it was made of.  What \<^verbatim>\<open>EncodeCursor\<close> returns, \<^verbatim>\<open>DecodeCursor\<close>
  accepts at the same vault, with the tool, the query hash, the source and the position it was made
  for, whatever the digests.\<close>

theorem cursor_roundtrip:
  assumes "encode_cursor j (Some vault) tool query source p = Inr text"
    and "parses_back j (sealed_envelope j vault (position_envelope tool query source p))"
    and "length query = 32" "length source = 32" "\<And>m. length (vs_hmac vault (vs_authority vault) m) = 32"
  shows "decode_cursor j (Some vault) text =
    Inr \<lparr>dc_tool = tool, dc_query = query, dc_source = source, dc_position = p, dc_state = ''''\<rparr>"
  using assms by (rule decode_encoded)


end
