(* ===== verification/LsTool.thy ===== *)
theory LsTool
  imports Cursor
begin

text \<open>
  The listing tool (\<^verbatim>\<open>internal/tools/obsidian/tools.go\<close>), what it says of its coverage
  (\<^verbatim>\<open>coverage.go\<close>) and how it fits a page into the result budget (\<^verbatim>\<open>response_fit.go\<close>).  What
  \<^verbatim>\<open>json.Marshal\<close> writes of an output is written out but for the quoting of strings; the size of the
  complete result of the SDK is a parameter, as are the formatting of times and the opening of the
  directory, which the handler too takes as a function.
\<close>

section \<open>Coverage\<close>

record coverage =
  cv_result_complete :: bool
  cv_scope_complete :: bool
  cv_consistency :: string
  cv_files :: "64 word"
  cv_bytes :: "64 word"
  cv_validated :: "64 word"
  cv_stopped_by :: string
  cv_continuation :: string
  cv_next_cursor :: string

record coverage_work =
  wk_files :: "64 word"
  wk_bytes :: "64 word"
  wk_validated :: "64 word"

definition no_work :: coverage_work where
  "no_work = \<lparr>wk_files = 0, wk_bytes = 0, wk_validated = 0\<rparr>"

definition complete_coverage :: "coverage_work \<Rightarrow> coverage" where
  "complete_coverage w =
     \<lparr>cv_result_complete = True, cv_scope_complete = True, cv_consistency = ''stable'', cv_files = wk_files w,
      cv_bytes = wk_bytes w, cv_validated = wk_validated w, cv_stopped_by = ''scope'',
      cv_continuation = ''complete'', cv_next_cursor = ''''\<rparr>"

definition valid_cursor_stop :: "string \<Rightarrow> bool" where
  "valid_cursor_stop s \<longleftrightarrow> s \<in> set [''result_limit'', ''response_limit'', ''file_limit'', ''byte_limit'']"

definition cursor_coverage_with_scope :: "coverage_work \<Rightarrow> string \<Rightarrow> string \<Rightarrow> bool \<Rightarrow> coverage option" where
  "cursor_coverage_with_scope w stopped cursor scope =
     (if cursor = '''' \<or> \<not> valid_cursor_stop stopped then None
      else Some
        \<lparr>cv_result_complete = False, cv_scope_complete = scope, cv_consistency = ''stable'', cv_files = wk_files w,
         cv_bytes = wk_bytes w, cv_validated = wk_validated w, cv_stopped_by = stopped,
         cv_continuation = ''cursor'', cv_next_cursor = cursor\<rparr>)"

definition cursor_coverage :: "coverage_work \<Rightarrow> string \<Rightarrow> string \<Rightarrow> coverage option" where
  "cursor_coverage w stopped cursor = cursor_coverage_with_scope w stopped cursor True"

definition restart_coverage :: "coverage_work \<Rightarrow> string \<Rightarrow> coverage option" where
  "restart_coverage w stopped =
     (if stopped \<notin> set [''timeout'', ''canceled'', ''source_change'', ''error''] then None
      else Some
        \<lparr>cv_result_complete = False, cv_scope_complete = False, cv_consistency = ''best_effort'', cv_files = wk_files w,
         cv_bytes = wk_bytes w, cv_validated = wk_validated w, cv_stopped_by = stopped,
         cv_continuation = ''restart'', cv_next_cursor = ''''\<rparr>)"

section \<open>Outputs and their encoding\<close>

record ls_entry =
  le_name :: string
  le_path :: string
  le_type :: string
  le_size :: int
  le_modified :: string

record ls_output =
  lo_ok :: bool
  lo_path :: string
  lo_entries :: "ls_entry list option"
  lo_truncated :: bool
  lo_coverage :: coverage
  lo_error :: "(string \<times> string) option"

definition json_bool :: "bool \<Rightarrow> string" where
  "json_bool b = (if b then ''true'' else ''false'')"

text \<open>A member that is left out when empty, with the comma before it.\<close>

definition omit_empty :: "(string \<Rightarrow> string) \<Rightarrow> string \<Rightarrow> string \<Rightarrow> string" where
  "omit_empty quote label v = (if v = '''' then '''' else '',\"'' @ label @ ''\":'' @ quote v)"

definition json_entry :: "(string \<Rightarrow> string) \<Rightarrow> ls_entry \<Rightarrow> string" where
  "json_entry quote en =
     ''{\"name\":'' @ quote (le_name en) @ '',\"path\":'' @ quote (le_path en) @ '',\"type\":'' @ quote (le_type en) @
     '',\"size\":'' @ itoa (le_size en) @ omit_empty quote ''modified'' (le_modified en) @ ''}''"

definition json_coverage :: "(string \<Rightarrow> string) \<Rightarrow> coverage \<Rightarrow> string" where
  "json_coverage quote c =
     ''{\"result_complete\":'' @ json_bool (cv_result_complete c) @
     '',\"scope_complete\":'' @ json_bool (cv_scope_complete c) @
     '',\"consistency\":'' @ quote (cv_consistency c) @
     '',\"files_scanned\":'' @ utoa (unat (cv_files c)) @
     '',\"bytes_scanned\":'' @ utoa (unat (cv_bytes c)) @
     '',\"source_entries_validated\":'' @ utoa (unat (cv_validated c)) @
     '',\"stopped_by\":'' @ quote (cv_stopped_by c) @
     '',\"continuation\":'' @ quote (cv_continuation c) @
     omit_empty quote ''next_cursor'' (cv_next_cursor c) @ ''}''"

definition json_output :: "(string \<Rightarrow> string) \<Rightarrow> ls_output \<Rightarrow> string" where
  "json_output quote out =
     ''{\"ok\":'' @ json_bool (lo_ok out) @ omit_empty quote ''path'' (lo_path out) @ '',\"entries\":'' @
     (case lo_entries out of None \<Rightarrow> ''null'' | Some es \<Rightarrow> ''['' @ join_with CHR '','' (map (json_entry quote) es) @ '']'') @
     '',\"truncated\":'' @ json_bool (lo_truncated out) @ '',\"coverage\":'' @ json_coverage quote (lo_coverage out) @
     (case lo_error out of None \<Rightarrow> ''''
      | Some (code, message) \<Rightarrow>
          '',\"error\":{\"code\":'' @ quote code @ '',\"message\":'' @ quote message @ ''}'') @ ''}''"

definition max_sdk_result_bytes :: nat where "max_sdk_result_bytes = 64 * 1024"
definition sdk_result_reserve :: nat where "sdk_result_reserve = 8 * 1024"

definition max_structured_result_bytes :: nat where
  "max_structured_result_bytes = max_sdk_result_bytes - sdk_result_reserve"

definition structured_bytes :: "(string \<Rightarrow> string) \<Rightarrow> ls_output \<Rightarrow> nat" where
  "structured_bytes quote out = length (json_output quote out)"

definition structured_fits :: "(string \<Rightarrow> string) \<Rightarrow> ls_output \<Rightarrow> bool" where
  "structured_fits quote out \<longleftrightarrow> structured_bytes quote out \<le> max_structured_result_bytes"

section \<open>Errors\<close>

datatype ls_error = LsFs fs_code | LsCursor cursor_error | LsTooLarge | LsInvalidCoverage | LsEncode

definition fs_code_text :: "fs_code \<Rightarrow> string" where
  "fs_code_text c =
     (case c of
        PathDenied \<Rightarrow> ''path_denied'' | SymlinkDenied \<Rightarrow> ''symlink_denied'' | NotFound \<Rightarrow> ''not_found''
      | NotDirectory \<Rightarrow> ''not_directory'' | NotFile \<Rightarrow> ''unsupported_file'' | LimitExceeded \<Rightarrow> ''limit_exceeded''
      | InputTooLarge \<Rightarrow> ''input_too_large'' | FsTimeout \<Rightarrow> ''timeout'' | FsCanceled \<Rightarrow> ''canceled''
      | SourceChanged \<Rightarrow> ''source_changed'' | _ \<Rightarrow> ''path_denied'')"

definition tool_error_code :: "ls_error \<Rightarrow> string" where
  "tool_error_code err =
     (case err of
        LsCursor c \<Rightarrow> cursor_error_code c
      | LsTooLarge \<Rightarrow> ''response_too_large''
      | LsFs c \<Rightarrow> fs_code_text c
      | _ \<Rightarrow> ''path_denied'')"

definition sanitized_message :: "string \<Rightarrow> string" where
  "sanitized_message code =
     (if code = ''path_denied'' then ''path denied''
      else if code = ''symlink_denied'' then ''symlink traversal denied''
      else if code = ''not_found'' then ''path not found''
      else if code = ''not_directory'' then ''path is not a directory''
      else if code = ''limit_exceeded'' then ''limit exceeds maximum''
      else if code = ''input_too_large'' then ''input too large''
      else if code = ''timeout'' then ''operation timed out''
      else if code = ''canceled'' then ''operation canceled''
      else if code = ''source_changed'' then ''source changed during operation''
      else if code = ''cursor_invalid'' then cursor_error_message CursorInvalid
      else if code = ''cursor_mismatch'' then cursor_error_message CursorMismatch
      else if code = ''cursor_stale'' then cursor_error_message CursorStale
      else if code = ''response_too_large'' then ''response exceeds maximum size''
      else if code = ''unsupported_file'' then ''file type is not supported''
      else if code = ''invalid_utf8'' then ''source is not valid UTF-8''
      else if code = ''invalid_selector'' then ''selector is invalid''
      else if code = ''selector_not_found'' then ''selected source unit was not found''
      else if code = ''selector_ambiguous'' then ''selected source unit is ambiguous''
      else if code = ''invalid_regex'' then ''pattern is not a valid regular expression''
      else ''tool call failed'')"

definition restart_stop_for :: "fs_code \<Rightarrow> string" where
  "restart_stop_for c =
     (if c = FsTimeout then ''timeout'' else if c = FsCanceled then ''canceled''
      else if c = SourceChanged then ''source_change'' else ''error'')"

record call_result =
  cr_text :: string
  cr_is_error :: bool

definition success_call_result :: call_result where
  "success_call_result = \<lparr>cr_text = ''Obsidian result is available in structuredContent.'', cr_is_error = False\<rparr>"

definition error_call_result :: call_result where
  "error_call_result = \<lparr>cr_text = ''Obsidian request failed; inspect the structured error.'', cr_is_error = True\<rparr>"

definition ls_error_with_work :: "ls_error \<Rightarrow> coverage_work \<Rightarrow> string \<Rightarrow> call_result \<times> ls_output" where
  "ls_error_with_work err w stopped =
     (error_call_result,
      \<lparr>lo_ok = False, lo_path = '''', lo_entries = None, lo_truncated = False,
       lo_coverage = (case restart_coverage w stopped of Some c \<Rightarrow> c | None \<Rightarrow> the (restart_coverage w ''error'')),
       lo_error = Some (tool_error_code err, sanitized_message (tool_error_code err))\<rparr>)"

section \<open>Fitting a page\<close>

record fit_candidate =
  fc_entry :: ls_entry
  fc_position :: position

record fit_request =
  fr_path :: string
  fr_candidates :: "fit_candidate list"
  fr_has_more :: bool
  fr_work :: coverage_work

text \<open>What the tool is given: the codec, the vault's seal, the formatting of a time, the size of the
  complete SDK result around a text and an encoded output, and the opening of a directory.\<close>

record ls_host =
  lh_codec :: json_codec
  lh_vault :: "vault_seal option"
  lh_time :: "int \<Rightarrow> string"
  lh_result_bytes :: "call_result \<Rightarrow> string \<Rightarrow> nat option"
  lh_open :: "string \<Rightarrow> string \<Rightarrow> (fs_code + directory) fs_io"

abbreviation lh_quote :: "ls_host \<Rightarrow> string \<Rightarrow> string" where
  "lh_quote h \<equiv> jc_quote (lh_codec h)"

definition complete_fits :: "ls_host \<Rightarrow> call_result \<Rightarrow> ls_output \<Rightarrow> bool option" where
  "complete_fits h r out =
     map_option (\<lambda>n. n \<le> max_sdk_result_bytes) (lh_result_bytes h r (json_output (lh_quote h) out))"

text \<open>A successful output over some entries.\<close>

definition ok_output :: "string \<Rightarrow> ls_entry list \<Rightarrow> coverage \<Rightarrow> ls_output" where
  "ok_output path entries c =
     \<lparr>lo_ok = True, lo_path = path, lo_entries = Some entries, lo_truncated = (\<not> cv_result_complete c),
      lo_coverage = c, lo_error = None\<rparr>"

text \<open>The first loop, one encoded size per entry.\<close>

fun entry_sizes :: "fs_env \<Rightarrow> ls_host \<Rightarrow> fit_candidate list \<Rightarrow> (ls_error + nat list) fs_io" where
  "entry_sizes e h [] = State_Monad.return (Inr [])"
| "entry_sizes e h (c # cs) = do {
     ctx \<leftarrow> ctx_error e;
     (case ctx of
        Some err \<Rightarrow> State_Monad.return (Inl (LsFs err))
      | None \<Rightarrow> do {
          rest \<leftarrow> entry_sizes e h cs;
          State_Monad.return (map_sum id ((#) (length (json_entry (lh_quote h) (fc_entry c)))) rest) }) }"

text \<open>The coverage of a page that ends at the \<open>taken\<close>-th candidate.\<close>

definition fit_coverage ::
  "fs_env \<Rightarrow> fit_request \<Rightarrow> (position \<Rightarrow> cursor_error + string) \<Rightarrow> nat \<Rightarrow> fit_candidate \<Rightarrow> (ls_error + coverage) fs_io" where
  "fit_coverage e req cursor_for taken c =
     (if \<not> (taken < length (fr_candidates req) \<or> fr_has_more req)
      then State_Monad.return (Inr (complete_coverage (fr_work req)))
      else (case cursor_for (fc_position c) of
        Inl err \<Rightarrow> State_Monad.return (Inl (LsCursor err))
      | Inr cursor \<Rightarrow> do {
          ctx \<leftarrow> ctx_error e;
          State_Monad.return (case ctx of
            Some err \<Rightarrow> Inl (LsFs err)
          | None \<Rightarrow>
              (case cursor_coverage (fr_work req)
                 (if taken = length (fr_candidates req) \<and> fr_has_more req then ''result_limit'' else ''response_limit'') cursor of
                 None \<Rightarrow> Inl LsInvalidCoverage
               | Some cov \<Rightarrow> Inr cov)) }))"

text \<open>The second loop: the candidate at index \<open>i\<close> with the bytes of the encoded entries before it, and the
  best prefix so far.\<close>

fun fit_loop ::
  "fs_env \<Rightarrow> ls_host \<Rightarrow> fit_request \<Rightarrow> (position \<Rightarrow> cursor_error + string) \<Rightarrow> nat \<Rightarrow> nat \<Rightarrow>
     (nat \<times> coverage) option \<Rightarrow> (fit_candidate \<times> nat) list \<Rightarrow> (ls_error + (nat \<times> coverage) option) fs_io" where
  "fit_loop e h req cursor_for i before best [] = State_Monad.return (Inr best)"
| "fit_loop e h req cursor_for i before best ((c, bytes) # rest) = do {
     ctx \<leftarrow> ctx_error e;
     (case ctx of
        Some err \<Rightarrow> State_Monad.return (Inl (LsFs err))
      | None \<Rightarrow> do {
          coverage \<leftarrow> fit_coverage e req cursor_for (i + 1) c;
          (case coverage of
             Inl err \<Rightarrow> State_Monad.return (Inl err)
           | Inr cov \<Rightarrow>
               let one = structured_bytes (lh_quote h) (ok_output (fr_path req) [fc_entry c] cov) in
               fit_loop e h req cursor_for (i + 1) (before + bytes)
                 (if one + before + i > max_structured_result_bytes then best else Some (i + 1, cov)) rest) }) }"

definition finish_fit :: "ls_host \<Rightarrow> ls_output \<Rightarrow> ls_error + ls_output" where
  "finish_fit h out =
     (if \<not> structured_fits (lh_quote h) out then Inl LsTooLarge
      else (case complete_fits h success_call_result out of
        None \<Rightarrow> Inl LsEncode
      | Some fits \<Rightarrow> if fits then Inr out else Inl LsTooLarge))"

definition fit_ls_output ::
  "fs_env \<Rightarrow> ls_host \<Rightarrow> fit_request \<Rightarrow> (position \<Rightarrow> cursor_error + string) \<Rightarrow> (ls_error + ls_output) fs_io" where
  "fit_ls_output e h req cursor_for = do {
     ctx \<leftarrow> ctx_error e;
     (case ctx of
        Some err \<Rightarrow> State_Monad.return (Inl (LsFs err))
      | None \<Rightarrow>
          if fr_candidates req = [] then
            State_Monad.return (
              if fr_has_more req then Inl LsTooLarge
              else let out = ok_output (fr_path req) [] (complete_coverage (fr_work req)) in
                if structured_fits (lh_quote h) out then Inr out else Inl LsTooLarge)
          else do {
            sizes \<leftarrow> entry_sizes e h (fr_candidates req);
            (case sizes of
               Inl err \<Rightarrow> State_Monad.return (Inl err)
             | Inr ns \<Rightarrow> do {
                 best \<leftarrow> fit_loop e h req cursor_for 0 0 None (zip (fr_candidates req) ns);
                 (case best of
                    Inl err \<Rightarrow> State_Monad.return (Inl err)
                  | Inr None \<Rightarrow> State_Monad.return (Inl LsTooLarge)
                  | Inr (Some (taken, cov)) \<Rightarrow> do {
                      again \<leftarrow> ctx_error e;
                      State_Monad.return (case again of
                        Some err \<Rightarrow> Inl (LsFs err)
                      | None \<Rightarrow> finish_fit h
                          (ok_output (fr_path req) (map fc_entry (take taken (fr_candidates req))) cov)) }) }) }) }"

section \<open>The handler\<close>

record ls_input =
  li_path :: string
  li_base :: string
  li_limit :: int
  li_cursor :: string

definition kind_text :: "fs_kind \<Rightarrow> string" where
  "kind_text k =
     (case k of KindFile \<Rightarrow> ''file'' | KindDir \<Rightarrow> ''directory'' | KindSymlink \<Rightarrow> ''symlink'' | KindOther \<Rightarrow> ''other'')"

definition effective_limit :: "int \<Rightarrow> fs_code + int" where
  "effective_limit n =
     (if n = 0 then Inr default_limit else if n < 0 \<or> n > max_limit then Inl LimitExceeded else Inr n)"

definition fit_candidate_of :: "ls_host \<Rightarrow> string \<Rightarrow> list_entry \<Rightarrow> fit_candidate" where
  "fit_candidate_of h directory en =
     \<lparr>fc_entry = \<lparr>le_name = en_name en, le_path = project_child directory (en_name en), le_type = kind_text (en_kind en),
        le_size = en_size en, le_modified = lh_time h (en_modified en)\<rparr>,
      fc_position = en_position en\<rparr>"

text \<open>The page becomes an output.\<close>

definition ls_page_output ::
  "fs_env \<Rightarrow> ls_host \<Rightarrow> string \<Rightarrow> string \<Rightarrow> nat \<Rightarrow> coverage_work \<Rightarrow> list_page \<Rightarrow> (call_result \<times> ls_output) fs_io" where
  "ls_page_output e h directory query limit w page = do {
     out \<leftarrow> fit_ls_output e h
       \<lparr>fr_path = directory, fr_candidates = map (fit_candidate_of h directory) (take limit (lp_entries page)),
        fr_has_more = (lp_has_more page \<or> length (lp_entries page) > limit), fr_work = w\<rparr>
       (encode_cursor (lh_codec h) (lh_vault h) tool_ls query (lp_source page));
     State_Monad.return (case out of
       Inl err \<Rightarrow> ls_error_with_work err w ''error''
     | Inr result \<Rightarrow> (success_call_result, result)) }"

definition ls_directory ::
  "fs_env \<Rightarrow> ls_host \<Rightarrow> path_coordinate \<Rightarrow> int \<Rightarrow> decoded_cursor option \<Rightarrow> directory \<Rightarrow> (call_result \<times> ls_output) fs_io" where
  "ls_directory e h coordinate limit decoded d =
     (let directory = project coordinate (dr_rel d);
          query = ls_query_hash (fe_sha e) (dr_rel d) (pc_base coordinate) (nat limit) in
      if (case decoded of None \<Rightarrow> False | Some c \<Rightarrow> dc_query c \<noteq> query)
      then State_Monad.return (ls_error_with_work (LsCursor CursorMismatch) no_work ''error'')
      else do {
        (r, page, d1) \<leftarrow> list_directory e d limit (map_option dc_position decoded);
        (let w = no_work\<lparr>wk_files := lp_scanned page\<rparr> in
         case r of
           Some err \<Rightarrow> State_Monad.return (ls_error_with_work (LsFs err) w (restart_stop_for err))
         | None \<Rightarrow>
             if (case decoded of None \<Rightarrow> False | Some c \<Rightarrow> dc_source c \<noteq> lp_source page)
             then State_Monad.return (ls_error_with_work (LsCursor CursorStale) w ''source_change'')
             else if decoded \<noteq> None \<and> \<not> lp_boundary page
             then State_Monad.return (ls_error_with_work (LsCursor CursorInvalid) w ''error'')
             else ls_page_output e h directory query (nat limit) w page) })"

definition ls_tool :: "fs_env \<Rightarrow> ls_host \<Rightarrow> ls_input \<Rightarrow> (call_result \<times> ls_output) fs_io" where
  "ls_tool e h input =
     (case new_path_coordinate (li_base input) of
        Inl err \<Rightarrow> State_Monad.return (ls_error_with_work (LsFs err) no_work ''error'')
      | Inr coordinate \<Rightarrow>
          (case effective_limit (li_limit input) of
             Inl err \<Rightarrow> State_Monad.return (ls_error_with_work (LsFs err) no_work ''error'')
           | Inr limit \<Rightarrow>
               (case (if li_cursor input = '''' then Inr None
                      else map_sum id Some (decode_cursor (lh_codec h) (lh_vault h) (li_cursor input))) of
                  Inl err \<Rightarrow> State_Monad.return (ls_error_with_work (LsCursor err) no_work ''error'')
                | Inr decoded \<Rightarrow>
                    if (case decoded of None \<Rightarrow> False | Some c \<Rightarrow> dc_tool c \<noteq> tool_ls)
                    then State_Monad.return (ls_error_with_work (LsCursor CursorMismatch) no_work ''error'')
                    else do {
                      opened \<leftarrow> lh_open h (li_base input) (li_path input);
                      (case opened of
                         Inl err \<Rightarrow> State_Monad.return (ls_error_with_work (LsFs err) no_work (restart_stop_for err))
                       | Inr d \<Rightarrow> ls_directory e h coordinate limit decoded d) })))"

section \<open>The resolve tool\<close>

record resolve_output =
  ro_ok :: bool
  ro_path :: string
  ro_exists :: bool
  ro_type :: string
  ro_size :: "int option"
  ro_modified :: string
  ro_error :: "(string \<times> string) option"

definition resolve_error :: "fs_code \<Rightarrow> call_result \<times> resolve_output" where
  "resolve_error err =
     (error_call_result,
      \<lparr>ro_ok = False, ro_path = '''', ro_exists = False, ro_type = '''', ro_size = None, ro_modified = '''',
       ro_error = Some (tool_error_code (LsFs err), sanitized_message (tool_error_code (LsFs err)))\<rparr>)"

definition resolve_tool :: "vault_fs \<Rightarrow> (int \<Rightarrow> string) \<Rightarrow> string \<Rightarrow> string \<Rightarrow> call_result \<times> resolve_output" where
  "resolve_tool fs time base path =
     (case new_path_coordinate base of
        Inl err \<Rightarrow> resolve_error err
      | Inr coordinate \<Rightarrow>
          (case vault_resolve fs base path of
             Inl err \<Rightarrow> resolve_error err
           | Inr r \<Rightarrow>
               (success_call_result,
                \<lparr>ro_ok = True, ro_path = project coordinate (rv_rel r), ro_exists = rv_exists r,
                 ro_type = (if rv_exists r then (case rv_stat r of None \<Rightarrow> '''' | Some s \<Rightarrow> kind_text (fst_kind s)) else ''''),
                 ro_size = (if rv_exists r then map_option fst_size (rv_stat r) else None),
                 ro_modified = (if rv_exists r then (case rv_stat r of None \<Rightarrow> '''' | Some s \<Rightarrow> time (fst_modified s)) else ''''),
                 ro_error = None\<rparr>)))"

section \<open>The largest page that fits\<close>

lemma yields_result:
  assumes "yields m (\<lambda>r ev. P r)" "run_state m w = (r, w')"
  shows "P r"
  using assms(1)[unfolded yields_def, rule_format, of w] assms(2) by auto

lemma length_join_with_snoc: "length (join_with c (xs @ [x])) = length x + sum_list (map length xs) + length xs"
proof (induction xs)
  case (Cons y ys)
  then show ?case by (cases ys) simp_all
qed simp

lemma structured_bytes_snoc:
  "structured_bytes q (ok_output path (es @ [x]) cov) =
     structured_bytes q (ok_output path [x] cov) + sum_list (map (\<lambda>en. length (json_entry q en)) es) + length es"
  using length_join_with_snoc[of "CHR '',''" "map (json_entry q) es" "json_entry q x"]
  by (simp add: structured_bytes_def json_output_def ok_output_def o_def)

text \<open>The coverage that belongs to a prefix, and the output it would give.\<close>

definition page_coverage :: "fit_request \<Rightarrow> (position \<Rightarrow> cursor_error + string) \<Rightarrow> nat \<Rightarrow> coverage option" where
  "page_coverage req cursor_for n =
     (if n = length (fr_candidates req) \<and> \<not> fr_has_more req then Some (complete_coverage (fr_work req))
      else (case cursor_for (fc_position (fr_candidates req ! (n - 1))) of
        Inl _ \<Rightarrow> None
      | Inr cursor \<Rightarrow> cursor_coverage (fr_work req)
          (if n = length (fr_candidates req) then ''result_limit'' else ''response_limit'') cursor))"

definition prefix_output :: "fit_request \<Rightarrow> nat \<Rightarrow> coverage \<Rightarrow> ls_output" where
  "prefix_output req n cov = ok_output (fr_path req) (map fc_entry (take n (fr_candidates req))) cov"

definition fits_at :: "(string \<Rightarrow> string) \<Rightarrow> fit_request \<Rightarrow> (position \<Rightarrow> cursor_error + string) \<Rightarrow> nat \<Rightarrow> coverage \<Rightarrow> bool" where
  "fits_at q req cursor_for n cov \<longleftrightarrow>
     page_coverage req cursor_for n = Some cov \<and> structured_fits q (prefix_output req n cov)"

definition best_upto ::
  "(string \<Rightarrow> string) \<Rightarrow> fit_request \<Rightarrow> (position \<Rightarrow> cursor_error + string) \<Rightarrow> nat \<Rightarrow> (nat \<times> coverage) option \<Rightarrow> bool" where
  "best_upto q req cursor_for n best \<longleftrightarrow>
     (case best of
        None \<Rightarrow> \<forall>k cov. 0 < k \<and> k \<le> n \<longrightarrow> \<not> fits_at q req cursor_for k cov
      | Some (m, cov) \<Rightarrow> 0 < m \<and> m \<le> n \<and> fits_at q req cursor_for m cov \<and>
          (\<forall>k cov. m < k \<and> k \<le> n \<longrightarrow> \<not> fits_at q req cursor_for k cov))"

lemma best_upto_step:
  assumes "best_upto q req cursor_for n best" "page_coverage req cursor_for (Suc n) = Some cov"
  shows "best_upto q req cursor_for (Suc n)
    (if structured_fits q (prefix_output req (Suc n) cov) then Some (Suc n, cov) else best)"
proof (cases "structured_fits q (prefix_output req (Suc n) cov)")
  case True
  with assms(2) show ?thesis by (auto simp: best_upto_def fits_at_def)
next
  case False
  with assms(2) have no: "\<not> fits_at q req cursor_for (Suc n) cov'" for cov' by (auto simp: fits_at_def)
  show ?thesis
  proof (cases best)
    case None
    with assms(1) no have "\<not> fits_at q req cursor_for k cov'" if "0 < k" "k \<le> Suc n" for k cov'
      using that by (cases "k = Suc n") (auto simp: best_upto_def)
    with None False show ?thesis by (simp add: best_upto_def)
  next
    case (Some p)
    obtain m c where p: "p = (m, c)" by (cases p)
    with assms(1) Some no have "\<not> fits_at q req cursor_for k cov'" if "m < k" "k \<le> Suc n" for k cov'
      using that by (cases "k = Suc n") (auto simp: best_upto_def)
    with Some p False assms(1) show ?thesis by (simp add: best_upto_def)
  qed
qed

lemma yields_fit_coverage:
  assumes "0 < n" "n \<le> length (fr_candidates req)" "c = fr_candidates req ! (n - 1)"
  shows "yields (fit_coverage e req cursor_for n c) (\<lambda>r ev. \<forall>cov. r = Inr cov \<longrightarrow> page_coverage req cursor_for n = Some cov)"
proof (cases "n < length (fr_candidates req) \<or> fr_has_more req")
  case False
  with assms show ?thesis by (simp add: fit_coverage_def page_coverage_def yields_return_iff)
next
  case True
  show ?thesis
  proof (cases "cursor_for (fc_position c)")
    case (Inl err)
    with True show ?thesis by (simp add: fit_coverage_def yields_return_iff)
  next
    case (Inr cursor)
    with True assms show ?thesis
      by (auto simp: fit_coverage_def page_coverage_def yields_return_iff split: option.splits intro!: yields_look_bind)
  qed
qed

lemma yields_entry_sizes:
  "yields (entry_sizes e h cs) (\<lambda>r ev. \<forall>ns. r = Inr ns \<longrightarrow> ns = map (\<lambda>c. length (json_entry (lh_quote h) (fc_entry c))) cs)"
proof (induction cs)
  case Nil
  show ?case by (simp add: yields_return_iff)
next
  case (Cons c cs)
  show ?case
  proof (simp, rule yields_look_bind, goal_cases)
    case (1 ctx)
    show ?case
    proof (cases ctx)
      case None
      show ?thesis
        unfolding None option.case
      proof (rule yields_then[OF Cons.IH], goal_cases)
        case (1 r ev)
        then show ?case by (cases r) (auto simp: yields_return_iff)
      qed
    qed (simp add: yields_return_iff)
  qed
qed

lemma yields_fit_loop:
  assumes "fr_candidates req = gone @ map fst rest" "i = length gone"
    and "before = sum_list (map (\<lambda>c. length (json_entry (lh_quote h) (fc_entry c))) gone)"
    and "list_all (\<lambda>(c, n). n = length (json_entry (lh_quote h) (fc_entry c))) rest"
    and "best_upto (lh_quote h) req cursor_for i best"
  shows "yields (fit_loop e h req cursor_for i before best rest)
    (\<lambda>r ev. \<forall>b. r = Inr b \<longrightarrow> best_upto (lh_quote h) req cursor_for (length (fr_candidates req)) b)"
  using assms
proof (induction rest arbitrary: gone i before best)
  case Nil
  then show ?case by (simp add: yields_return_iff)
next
  case (Cons x rest)
  obtain c n where x: "x = (c, n)" by (cases x)
  from Cons.prems(1,2) x have nth: "fr_candidates req ! i = c" "i < length (fr_candidates req)" by simp_all
  have coverage: "yields (fit_coverage e req cursor_for (Suc i) c)
      (\<lambda>r ev. \<forall>cov. r = Inr cov \<longrightarrow> page_coverage req cursor_for (Suc i) = Some cov)"
    by (rule yields_fit_coverage) (use nth in simp_all)
  have prefix_eq: "take (Suc i) (fr_candidates req) = gone @ [c]"
    using Cons.prems(1,2) x by simp
  have size: "structured_bytes (lh_quote h) (ok_output (fr_path req) [fc_entry c] cov) + before + i =
      structured_bytes (lh_quote h) (prefix_output req (Suc i) cov)" for cov
    unfolding prefix_output_def prefix_eq map_append list.map structured_bytes_snoc
    by (simp add: Cons.prems(2,3) o_def)
  show ?case
    unfolding x fit_loop.simps
  proof (rule yields_look_bind, goal_cases)
    case (1 ctx)
    show ?case
    proof (cases ctx)
      case (Some err)
      then show ?thesis by (simp add: yields_return_iff)
    next
      case None
      show ?thesis
        unfolding None option.case
      proof (simp, rule yields_then[OF coverage], goal_cases)
        case (1 r ev)
        show ?case
        proof (cases r)
          case (Inl err)
          then show ?thesis by (simp add: yields_return_iff)
        next
          case (Inr cov)
          let ?best = "if structured_bytes (lh_quote h) (ok_output (fr_path req) [fc_entry c] cov) + before + i >
            max_structured_result_bytes then best else Some (Suc i, cov)"
          from 1 Inr have cov: "page_coverage req cursor_for (Suc i) = Some cov" by simp
          have best: "best_upto (lh_quote h) req cursor_for (Suc i) ?best"
            using best_upto_step[OF Cons.prems(5) cov] by (simp add: size structured_fits_def not_le if_distrib)
          have "yields (fit_loop e h req cursor_for (Suc i) (before + n) ?best rest)
            (\<lambda>r ev. \<forall>b. r = Inr b \<longrightarrow> best_upto (lh_quote h) req cursor_for (length (fr_candidates req)) b)"
            by (rule Cons.IH[of "gone @ [c]"]) (use Cons.prems x best in simp_all)
          then show ?thesis using Inr by (simp add: Let_def split: if_splits)
        qed
      qed
    qed
  qed
qed

lemma yields_fit:
  assumes "fr_candidates req \<noteq> []"
  shows "yields (fit_ls_output e h req cursor_for)
    (\<lambda>r ev. \<forall>out. r = Inr out \<longrightarrow> (\<exists>n cov. out = prefix_output req n cov \<and> finish_fit h out = Inr out \<and>
      best_upto (lh_quote h) req cursor_for (length (fr_candidates req)) (Some (n, cov))))"
proof -
  let ?P = "\<lambda>r :: ls_error + ls_output. \<forall>out. r = Inr out \<longrightarrow> (\<exists>n cov. out = prefix_output req n cov \<and> finish_fit h out = Inr out \<and>
      best_upto (lh_quote h) req cursor_for (length (fr_candidates req)) (Some (n, cov)))"
  have "yields (do {
        best \<leftarrow> fit_loop e h req cursor_for 0 0 None (zip (fr_candidates req) ns);
        (case best of
           Inl err \<Rightarrow> State_Monad.return (Inl err)
         | Inr None \<Rightarrow> State_Monad.return (Inl LsTooLarge)
         | Inr (Some (taken, cov)) \<Rightarrow> do {
             again \<leftarrow> ctx_error e;
             State_Monad.return (case again of
               Some err \<Rightarrow> Inl (LsFs err)
             | None \<Rightarrow> finish_fit h (ok_output (fr_path req) (map fc_entry (take taken (fr_candidates req))) cov)) }) })
      (\<lambda>r ev. ?P r)"
    if ns: "ns = map (\<lambda>c. length (json_entry (lh_quote h) (fc_entry c))) (fr_candidates req)" for ns
  proof (rule yields_then[OF yields_fit_loop[where gone = "[]"]], goal_cases)
    case (6 best ev)
    show ?case
    proof (cases best)
      case (Inr b)
      show ?thesis
      proof (cases b)
        case (Some p)
        obtain n cov where p: "p = (n, cov)" by (cases p)
        from 6 Inr Some p have best: "best_upto (lh_quote h) req cursor_for (length (fr_candidates req)) (Some (n, cov))"
          by simp
        show ?thesis
          unfolding Inr Some p sum.case option.case prod.case
        proof (rule yields_look_bind, goal_cases)
          case (1 again)
          from best show ?case
            by (cases again)
              (auto simp: yields_return_iff prefix_output_def finish_fit_def split: if_splits option.splits)
        qed
      qed (simp add: Inr yields_return_iff)
    qed (simp add: yields_return_iff)
  qed (use ns in \<open>auto simp: list_all_iff best_upto_def in_set_zip\<close>)
  note tail = this
  show ?thesis
    unfolding fit_ls_output_def
  proof (rule yields_look_bind, goal_cases)
    case (1 ctx)
    show ?case
    proof (cases ctx)
      case None
      show ?thesis
        unfolding None option.case if_not_P[OF assms]
      proof (rule yields_then[OF yields_entry_sizes], goal_cases)
        case (1 r ev)
        show ?case
        proof (cases r)
          case (Inr ns)
          with 1 show ?thesis unfolding Inr sum.case by (intro tail) simp
        qed (simp add: yields_return_iff)
      qed
    qed (simp add: yields_return_iff)
  qed
qed

text \<open>C15. A fitted page is the largest that fits.  When a page with candidates is fitted, the output holds
  a non-empty prefix of them with the coverage that belongs to it: complete only when nothing is
  left, otherwise a cursor at the last entry shown.  Encoded it is within the structured budget, and
  the complete result within that of the SDK; every longer prefix whose cursor can be made exceeds the
  structured budget.\<close>

theorem fitted_page_largest:
  assumes "run_state (fit_ls_output e h req cursor_for) w = (Inr out, w')" "fr_candidates req \<noteq> []"
  shows "\<exists>n cov. 0 < n \<and> n \<le> length (fr_candidates req) \<and> out = prefix_output req n cov \<and>
    page_coverage req cursor_for n = Some cov \<and>
    structured_bytes (lh_quote h) out \<le> max_structured_result_bytes \<and>
    complete_fits h success_call_result out = Some True \<and>
    (\<forall>k cov'. n < k \<and> k \<le> length (fr_candidates req) \<and> page_coverage req cursor_for k = Some cov' \<longrightarrow>
      max_structured_result_bytes < structured_bytes (lh_quote h) (prefix_output req k cov'))"
proof -
  from yields_result[OF yields_fit[OF assms(2)] assms(1)] obtain n cov where out: "out = prefix_output req n cov"
    "finish_fit h out = Inr out" and best: "best_upto (lh_quote h) req cursor_for (length (fr_candidates req)) (Some (n, cov))"
    by auto
  from best have "0 < n" "n \<le> length (fr_candidates req)" "page_coverage req cursor_for n = Some cov"
    and longer: "n < k \<Longrightarrow> k \<le> length (fr_candidates req) \<Longrightarrow> \<not> fits_at (lh_quote h) req cursor_for k cov'" for k cov'
    by (auto simp: best_upto_def fits_at_def)
  moreover from out(2) have "structured_bytes (lh_quote h) out \<le> max_structured_result_bytes"
    "complete_fits h success_call_result out = Some True"
    by (auto simp: finish_fit_def structured_fits_def split: if_splits option.splits)
  moreover have "max_structured_result_bytes < structured_bytes (lh_quote h) (prefix_output req k cov')"
    if "n < k" "k \<le> length (fr_candidates req)" "page_coverage req cursor_for k = Some cov'" for k cov'
    using longer[OF that(1,2)] that(3) by (simp add: fits_at_def structured_fits_def not_le)
  ultimately show ?thesis using out(1) by blast
qed

section \<open>Following cursors\<close>

lemma in_order_mset:
  assumes "mset names = mset names'"
  shows "in_order (candidates e rel after names) = in_order (candidates e rel after names')"
  unfolding in_order_def
proof (rule sort_key_inj_key_eq)
  show "mset (candidates e rel after names) = mset (sort_key ca_position (candidates e rel after names'))"
    using assms by (simp add: candidates_def visible_def)
  show "inj_on ca_position (set (candidates e rel after names))"
    by (rule inj_on_subset[OF candidates_inj candidates_among])
qed simp

text \<open>What a successful call did.\<close>

lemma ls_tool_ok:
  assumes "run_state (ls_tool e h input) w = ((r, out), w')" "lo_ok out"
  obtains coordinate limit decoded d w1 page d1 w2 w3 where
    "new_path_coordinate (li_base input) = Inr coordinate" "effective_limit (li_limit input) = Inr limit"
    "if li_cursor input = '''' then decoded = None
     else \<exists>c. decoded = Some c \<and> decode_cursor (lh_codec h) (lh_vault h) (li_cursor input) = Inr c \<and> dc_tool c = tool_ls \<and>
       dc_query c = ls_query_hash (fe_sha e) (dr_rel d) (pc_base coordinate) (nat limit) \<and>
       dc_source c = lp_source page \<and> lp_boundary page"
    "run_state (lh_open h (li_base input) (li_path input)) w = (Inr d, w1)"
    "run_state (list_directory e d limit (map_option dc_position decoded)) w1 = ((None, page, d1), w2)"
    "run_state (fit_ls_output e h
       \<lparr>fr_path = project coordinate (dr_rel d),
        fr_candidates = map (fit_candidate_of h (project coordinate (dr_rel d))) (take (nat limit) (lp_entries page)),
        fr_has_more = (lp_has_more page \<or> length (lp_entries page) > nat limit), fr_work = no_work\<lparr>wk_files := lp_scanned page\<rparr>\<rparr>
       (encode_cursor (lh_codec h) (lh_vault h) tool_ls
         (ls_query_hash (fe_sha e) (dr_rel d) (pc_base coordinate) (nat limit)) (lp_source page))) w2 = (Inr out, w3)"
    "r = success_call_result"
proof -
  have failed: "\<not> lo_ok (snd (ls_error_with_work err wk s))" for err wk s by (simp add: ls_error_with_work_def)
  have no: False if "ls_error_with_work err wk s = (r, out)" for err wk s
    using failed[of err wk s] that assms(2) by simp
  from assms(1) no obtain coordinate where coordinate: "new_path_coordinate (li_base input) = Inr coordinate"
    by (cases "new_path_coordinate (li_base input)") (auto simp: ls_tool_def)
  from assms(1) no coordinate obtain limit where limit: "effective_limit (li_limit input) = Inr limit"
    by (cases "effective_limit (li_limit input)") (auto simp: ls_tool_def)
  obtain decoded where decoded: "(if li_cursor input = '''' then Inr None
      else map_sum id Some (decode_cursor (lh_codec h) (lh_vault h) (li_cursor input))) = Inr decoded"
    using assms(1) no by (cases "if li_cursor input = '''' then Inr None
      else map_sum id Some (decode_cursor (lh_codec h) (lh_vault h) (li_cursor input))")
      (auto simp: ls_tool_def coordinate limit)
  have tool: "\<not> (case decoded of None \<Rightarrow> False | Some c \<Rightarrow> dc_tool c \<noteq> tool_ls)"
    using assms(1) no by (auto simp: ls_tool_def coordinate limit decoded simp del: not_None_eq split: if_splits)
  obtain opened w1 where opened: "run_state (lh_open h (li_base input) (li_path input)) w = (opened, w1)" by fastforce
  from assms(1) no tool opened obtain d where d: "opened = Inr d"
    by (cases opened) (auto simp: ls_tool_def coordinate limit decoded)
  have run: "run_state (ls_directory e h coordinate limit decoded d) w1 = ((r, out), w')"
    using assms(1) tool opened d by (simp add: ls_tool_def coordinate limit decoded)
  let ?query = "ls_query_hash (fe_sha e) (dr_rel d) (pc_base coordinate) (nat limit)"
  have query: "\<not> (case decoded of None \<Rightarrow> False | Some c \<Rightarrow> dc_query c \<noteq> ?query)"
    using run no by (auto simp: ls_directory_def Let_def split: if_splits)
  obtain res page d1 w2 where listed: "run_state (list_directory e d limit (map_option dc_position decoded)) w1 = ((res, page, d1), w2)"
    by (metis prod.exhaust)
  have res: "res = None"
    using run no query listed by (cases res) (auto simp: ls_directory_def Let_def)
  have source: "\<not> (case decoded of None \<Rightarrow> False | Some c \<Rightarrow> dc_source c \<noteq> lp_source page)"
    using run no query listed res by (auto simp: ls_directory_def Let_def split: if_splits)
  have boundary: "\<not> (decoded \<noteq> None \<and> \<not> lp_boundary page)"
    using run no query listed res source by (auto simp: ls_directory_def Let_def split: if_splits)
  let ?req = "\<lparr>fr_path = project coordinate (dr_rel d),
        fr_candidates = map (fit_candidate_of h (project coordinate (dr_rel d))) (take (nat limit) (lp_entries page)),
        fr_has_more = (lp_has_more page \<or> length (lp_entries page) > nat limit), fr_work = no_work\<lparr>wk_files := lp_scanned page\<rparr>\<rparr>"
  let ?cursor = "encode_cursor (lh_codec h) (lh_vault h) tool_ls ?query (lp_source page)"
  have page: "run_state (ls_page_output e h (project coordinate (dr_rel d)) ?query (nat limit) (no_work\<lparr>wk_files := lp_scanned page\<rparr>) page) w2 =
      ((r, out), w')"
    using run query listed res source boundary by (auto simp: ls_directory_def Let_def split: if_splits)
  obtain fit w3 where fit: "run_state (fit_ls_output e h ?req ?cursor) w2 = (fit, w3)" by fastforce
  with page no have "fit = Inr out \<and> r = success_call_result"
    by (cases fit) (auto simp: ls_page_output_def)
  with fit have fitted: "run_state (fit_ls_output e h ?req ?cursor) w2 = (Inr out, w3)" "r = success_call_result" by simp_all
  have cursor: "if li_cursor input = '''' then decoded = None
     else \<exists>c. decoded = Some c \<and> decode_cursor (lh_codec h) (lh_vault h) (li_cursor input) = Inr c \<and> dc_tool c = tool_ls \<and>
       dc_query c = ?query \<and> dc_source c = lp_source page \<and> lp_boundary page"
  proof (cases "li_cursor input = ''''")
    case True
    with decoded show ?thesis by simp
  next
    case False
    with decoded obtain c where "decode_cursor (lh_codec h) (lh_vault h) (li_cursor input) = Inr c" "decoded = Some c"
      by (cases "decode_cursor (lh_codec h) (lh_vault h) (li_cursor input)") auto
    with False tool query source boundary show ?thesis by simp
  qed
  show thesis
    by (rule that[OF coordinate limit cursor opened[unfolded d] listed[unfolded res] fitted])
qed

lemma fit_result:
  assumes "run_state (fit_ls_output e h req cursor_for) w = (Inr out, w')"
  shows "if fr_candidates req = [] then \<not> fr_has_more req \<and> out = ok_output (fr_path req) [] (complete_coverage (fr_work req))
    else \<exists>n cov. 0 < n \<and> n \<le> length (fr_candidates req) \<and> out = prefix_output req n cov \<and>
      page_coverage req cursor_for n = Some cov"
proof (cases "fr_candidates req = []")
  case True
  obtain ctx w1 where ctx: "run_state (ctx_error e) w = (ctx, w1)" by fastforce
  with True assms show ?thesis
    by (cases ctx) (auto simp: fit_ls_output_def Let_def split: if_splits)
next
  case False
  with yields_result[OF yields_fit[OF False] assms] show ?thesis
    by (auto simp: best_upto_def fits_at_def)
qed

text \<open>A directory that stays as it is, at every opening and every scan; and a vault and a codec that do
  what they are documented to.\<close>

definition steady :: "fs_env \<Rightarrow> ls_host \<Rightarrow> ls_input \<Rightarrow> string \<Rightarrow> string list \<Rightarrow> bool" where
  "steady e h input rel names \<longleftrightarrow> distinct names \<and>
     (\<forall>w d w'. run_state (lh_open h (li_base input) (li_path input)) w = (Inr d, w') \<longrightarrow> dr_rel d = rel) \<and>
     (\<forall>t batches ns. fe_scan e t = Inr batches \<and> delivered batches = Some ns \<longrightarrow> mset ns = mset names)"

definition honest :: "fs_env \<Rightarrow> ls_host \<Rightarrow> vault_seal \<Rightarrow> string \<Rightarrow> string list \<Rightarrow> bool" where
  "honest e h vault rel names \<longleftrightarrow> lh_vault h = Some vault \<and>
     (\<forall>text. length (fe_sha e text) = 32) \<and> (\<forall>text. length (vs_hmac vault (vs_authority vault) text) = 32) \<and>
     (\<forall>x y. \<forall>n\<in>set names. parses_back (lh_codec h) (sealed_envelope (lh_codec h) vault
        (position_envelope tool_ls (fe_sha e x) (fe_sha e y) (position_of e rel n))))"

text \<open>All visible entries of a directory, in canonical order.\<close>

definition whole_listing :: "fs_env \<Rightarrow> string \<Rightarrow> string list \<Rightarrow> list_candidate list" where
  "whole_listing e rel names = in_order (candidates e rel None names)"

definition starts_at :: "fs_env \<Rightarrow> ls_host \<Rightarrow> string \<Rightarrow> string list \<Rightarrow> string \<Rightarrow> nat \<Rightarrow> bool" where
  "starts_at e h rel names cursor k \<longleftrightarrow>
     (if cursor = '''' then k = 0
      else 0 < k \<and> k \<le> length (whole_listing e rel names) \<and>
        (\<exists>c. decode_cursor (lh_codec h) (lh_vault h) cursor = Inr c \<and>
          dc_position c = ca_position (whole_listing e rel names ! (k - 1))))"

definition shown_names :: "ls_output \<Rightarrow> string list" where
  "shown_names out = (case lo_entries out of None \<Rightarrow> [] | Some es \<Rightarrow> map le_name es)"

lemma effective_limit_twice:
  assumes "effective_limit n = Inr limit"
  shows "effective_list_limit limit = Inr (nat limit)" "0 < nat limit"
  using assms by (auto simp: effective_limit_def effective_list_limit_def default_limit_def max_limit_def split: if_splits)

lemma shown_fit:
  "shown_names (ok_output path (map fc_entry (take n (map (fit_candidate_of h directory) entries))) cov) =
     take n (map en_name entries)"
  by (simp add: shown_names_def ok_output_def fit_candidate_of_def take_map o_def)

lemma whole_listing_names: "c \<in> set (whole_listing e rel names) \<Longrightarrow> \<exists>n\<in>set names. c = candidate_of e rel n"
  using candidates_among[of e rel None names] by (auto simp: whole_listing_def in_order_def)

lemma listed_order:
  assumes "steady e h input rel names" "dr_rel d = rel"
    and "run_state (list_directory e d limit after) w = ((None, page, d'), w')"
    and "effective_list_limit limit = Inr n"
    and "if after = None then k = 0 else 0 < k \<and> k \<le> length (whole_listing e rel names) \<and>
      after = Some (ca_position (whole_listing e rel names ! (k - 1))) \<and> lp_boundary page"
  shows "map en_name (lp_entries page) = map ca_name (take n (drop k (whole_listing e rel names)))"
    "map en_position (lp_entries page) = map ca_position (take n (drop k (whole_listing e rel names)))"
    "lp_has_more page = (n < length (whole_listing e rel names) - k)"
    "\<exists>x. lp_source page = fe_sha e x"
proof -
  from listed_content[OF assms(3)] assms(2,4) obtain t batches ns identity where
    content: "fe_scan e t = Inr batches" "delivered batches = Some ns"
    "lp_source page = source_fingerprint e identity (members_of e rel ns)"
    "lp_boundary page = boundary_in e rel after ns"
    and entries: "if lp_boundary page
     then map en_name (lp_entries page) = map ca_name (take n (in_order (candidates e rel after ns))) \<and>
       map en_position (lp_entries page) = map ca_position (take n (in_order (candidates e rel after ns))) \<and>
       lp_has_more page = (n < length (candidates e rel after ns))
     else lp_entries page = [] \<and> \<not> lp_has_more page"
    by auto
  from assms(1) content(1,2) have names: "mset ns = mset names" "distinct names" by (auto simp: steady_def)
  have order: "in_order (candidates e rel after ns) = drop k (whole_listing e rel names)"
  proof (cases "after = None")
    case True
    with assms(5) show ?thesis using in_order_mset[OF names(1), of e rel None] by (simp add: whole_listing_def)
  next
    case False
    with assms(5) obtain k' where k: "k = Suc k'" "k' < length (whole_listing e rel names)"
      "after = Some (ca_position (whole_listing e rel names ! k'))" by (cases k) auto
    show ?thesis
      using in_order_behind[OF names(2), of k' e rel] k in_order_mset[OF names(1), of e rel after]
      by (simp add: whole_listing_def)
  qed
  have "lp_boundary page"
    using assms(5) content(4) by (cases "after = None") (auto simp: boundary_in_def)
  moreover have "length (candidates e rel after ns) = length (whole_listing e rel names) - k"
    using arg_cong[OF order, of length] by simp
  ultimately show "map en_name (lp_entries page) = map ca_name (take n (drop k (whole_listing e rel names)))"
    "map en_position (lp_entries page) = map ca_position (take n (drop k (whole_listing e rel names)))"
    "lp_has_more page = (n < length (whole_listing e rel names) - k)"
    using entries order by simp_all
  show "\<exists>x. lp_source page = fe_sha e x" using content(3) by (auto simp: source_fingerprint_def)
qed

text \<open>One call shows the entries from where its cursor points, and says where the next one starts.\<close>

definition serves :: "fs_env \<Rightarrow> ls_host \<Rightarrow> string \<Rightarrow> string list \<Rightarrow> ls_output \<Rightarrow> nat \<Rightarrow> nat \<Rightarrow> bool" where
  "serves e h rel names out k n \<longleftrightarrow>
     shown_names out = map ca_name (take n (drop k (whole_listing e rel names))) \<and>
     (cv_continuation (lo_coverage out) = ''complete'' \<and> k + n = length (whole_listing e rel names) \<or>
      cv_continuation (lo_coverage out) = ''cursor'' \<and> 0 < n \<and> k + n < length (whole_listing e rel names) \<and>
      cv_next_cursor (lo_coverage out) \<noteq> '''' \<and>
      starts_at e h rel names (cv_next_cursor (lo_coverage out)) (k + n))"

lemma ls_serves:
  assumes "steady e h input rel names" "honest e h vault rel names"
    and "run_state (ls_tool e h input) w = ((r, out), w')" "lo_ok out"
    and "starts_at e h rel names (li_cursor input) k"
  obtains n where "serves e h rel names out k n"
proof -
  let ?all = "whole_listing e rel names"
  from assms(3,4) obtain coordinate limit decoded d w1 page d1 w2 w3 where
    coordinate: "new_path_coordinate (li_base input) = Inr coordinate"
    and limit: "effective_limit (li_limit input) = Inr limit"
    and cursor: "if li_cursor input = '''' then decoded = None
     else \<exists>c. decoded = Some c \<and> decode_cursor (lh_codec h) (lh_vault h) (li_cursor input) = Inr c \<and> dc_tool c = tool_ls \<and>
       dc_query c = ls_query_hash (fe_sha e) (dr_rel d) (pc_base coordinate) (nat limit) \<and>
       dc_source c = lp_source page \<and> lp_boundary page"
    and opened: "run_state (lh_open h (li_base input) (li_path input)) w = (Inr d, w1)"
    and listed: "run_state (list_directory e d limit (map_option dc_position decoded)) w1 = ((None, page, d1), w2)"
    and fitted: "run_state (fit_ls_output e h
       \<lparr>fr_path = project coordinate (dr_rel d),
        fr_candidates = map (fit_candidate_of h (project coordinate (dr_rel d))) (take (nat limit) (lp_entries page)),
        fr_has_more = (lp_has_more page \<or> length (lp_entries page) > nat limit), fr_work = no_work\<lparr>wk_files := lp_scanned page\<rparr>\<rparr>
       (encode_cursor (lh_codec h) (lh_vault h) tool_ls
         (ls_query_hash (fe_sha e) (dr_rel d) (pc_base coordinate) (nat limit)) (lp_source page))) w2 = (Inr out, w3)"
    by (rule ls_tool_ok)
  let ?limit = "nat limit"
  let ?query = "ls_query_hash (fe_sha e) (dr_rel d) (pc_base coordinate) ?limit"
  have rel: "dr_rel d = rel" using assms(1) opened by (auto simp: steady_def)
  have "if map_option dc_position decoded = None then k = 0 else 0 < k \<and> k \<le> length ?all \<and>
      map_option dc_position decoded = Some (ca_position (?all ! (k - 1))) \<and> lp_boundary page"
    using assms(5) cursor by (auto simp: starts_at_def split: if_splits)
  note page = listed_order[OF assms(1) rel listed effective_limit_twice(1)[OF limit] this]
  have k: "k \<le> length ?all" using assms(5) by (auto simp: starts_at_def split: if_splits)
  have len: "length (lp_entries page) = min ?limit (length ?all - k)"
    using arg_cong[OF page(1), of length] by simp
  let ?req = "\<lparr>fr_path = project coordinate (dr_rel d),
        fr_candidates = map (fit_candidate_of h (project coordinate (dr_rel d))) (take ?limit (lp_entries page)),
        fr_has_more = (lp_has_more page \<or> length (lp_entries page) > ?limit), fr_work = no_work\<lparr>wk_files := lp_scanned page\<rparr>\<rparr>"
  have take_all: "take ?limit (lp_entries page) = lp_entries page" using len by simp
  have more: "fr_has_more ?req = (?limit < length ?all - k)" using page(3) len by simp
  note fit = fit_result[OF fitted]
  show thesis
  proof (cases "lp_entries page = []")
    case True
    with fit more take_all have out: "out = ok_output (project coordinate (dr_rel d)) [] (complete_coverage (no_work\<lparr>wk_files := lp_scanned page\<rparr>))"
      by simp
    have "length ?all - k = 0"
      using True len effective_limit_twice(2)[OF limit] by auto
    with k have "serves e h rel names out k 0"
      by (simp add: serves_def out shown_names_def ok_output_def complete_coverage_def)
    then show thesis by (rule that)
  next
    case False
    with fit take_all obtain n cov where n: "0 < n" "n \<le> length (lp_entries page)" "out = prefix_output ?req n cov"
      and cov: "page_coverage ?req (encode_cursor (lh_codec h) (lh_vault h) tool_ls ?query (lp_source page)) n = Some cov"
      by auto
    have small: "min n ?limit = n" using n(2) len by simp
    have names: "shown_names out = map ca_name (take n (drop k ?all))"
      unfolding n(3) prefix_output_def
      using shown_fit[of "project coordinate (dr_rel d)" n h "project coordinate (dr_rel d)" "lp_entries page" cov] page(1) small
      by (simp add: take_all take_map)
    have coverage: "lo_coverage out = cov" by (simp add: n(3) prefix_output_def ok_output_def)
    show thesis
    proof (cases "n = length (lp_entries page) \<and> \<not> fr_has_more ?req")
      case True
      with cov take_all have "cov = complete_coverage (no_work\<lparr>wk_files := lp_scanned page\<rparr>)"
        by (simp add: page_coverage_def)
      moreover from True more len k have "k + n = length ?all" by auto
      ultimately have "serves e h rel names out k n"
        by (simp add: serves_def names coverage complete_coverage_def)
      then show thesis by (rule that)
    next
      case False
      let ?p = "en_position (lp_entries page ! (n - 1))"
      have inside: "k + n < length ?all" using False n(2) more len k by auto
      have pos: "?p = ca_position (?all ! (k + n - 1))"
      proof -
        from n(1) obtain m where m: "n = Suc m" by (cases n) auto
        with n(2) inside len have bounds: "m < ?limit" "m < length ?all - k" "k \<le> length ?all" "m < length (lp_entries page)"
          by simp_all
        have "?p = map en_position (lp_entries page) ! m" using bounds by (simp add: m)
        also have "\<dots> = ca_position (?all ! (k + n - 1))"
          unfolding page(2) using bounds by (simp add: m)
        finally show ?thesis .
      qed
      from False cov take_all n obtain cur where made: "encode_cursor (lh_codec h) (lh_vault h) tool_ls ?query (lp_source page) ?p = Inr cur"
        and cov': "cov = \<lparr>cv_result_complete = False, cv_scope_complete = True, cv_consistency = ''stable'', cv_files = lp_scanned page,
          cv_bytes = 0, cv_validated = 0, cv_stopped_by = (if n = length (lp_entries page) then ''result_limit'' else ''response_limit''),
          cv_continuation = ''cursor'', cv_next_cursor = cur\<rparr>" "cur \<noteq> ''''"
        by (auto simp: page_coverage_def fit_candidate_of_def cursor_coverage_def cursor_coverage_with_scope_def no_work_def
            split: sum.splits if_splits)
      obtain x where x: "lp_source page = fe_sha e x" using page(4) by blast
      obtain y where y: "?query = fe_sha e y" by (simp add: ls_query_hash_def)
      have "?all ! (k + n - 1) \<in> set ?all" using inside n(1) by simp
      from whole_listing_names[OF this] obtain nm where nm: "nm \<in> set names" "?all ! (k + n - 1) = candidate_of e rel nm" by blast
      have "decode_cursor (lh_codec h) (Some vault) cur =
          Inr \<lparr>dc_tool = tool_ls, dc_query = ?query, dc_source = lp_source page, dc_position = ?p, dc_state = ''''\<rparr>"
      proof (rule decode_encoded)
        show "encode_cursor (lh_codec h) (Some vault) tool_ls ?query (lp_source page) ?p = Inr cur"
          using made assms(2) by (simp add: honest_def)
        show "parses_back (lh_codec h) (sealed_envelope (lh_codec h) vault (position_envelope tool_ls ?query (lp_source page) ?p))"
          using assms(2) nm pos by (simp add: honest_def x y)
        show "length ?query = 32" "length (lp_source page) = 32" "length (vs_hmac vault (vs_authority vault) m) = 32" for m
          using assms(2) by (simp_all add: honest_def x y)
      qed
      then have "starts_at e h rel names cur (k + n)"
        using inside n(1) pos assms(2) cov'(2) by (simp add: starts_at_def honest_def)
      with inside n(1) cov' have "serves e h rel names out k n"
        by (simp add: serves_def names coverage)
      then show thesis by (rule that)
    qed
  qed
qed

section \<open>A whole listing\<close>

text \<open>Successive calls, the first without a cursor, each later one with the cursor of the one before.
  Between them anything may pass: each call begins in a world of its own.\<close>

inductive listing :: "fs_env \<Rightarrow> ls_host \<Rightarrow> ls_input \<Rightarrow> ls_output list \<Rightarrow> bool" where
  first_page: "run_state (ls_tool e h (input\<lparr>li_cursor := ''''\<rparr>)) w = ((r, out), w') \<Longrightarrow> lo_ok out \<Longrightarrow>
     listing e h input [out]"
| next_page: "listing e h input (outs @ [out]) \<Longrightarrow> cv_continuation (lo_coverage out) = ''cursor'' \<Longrightarrow>
     run_state (ls_tool e h (input\<lparr>li_cursor := cv_next_cursor (lo_coverage out)\<rparr>)) w = ((r, out'), w') \<Longrightarrow> lo_ok out' \<Longrightarrow>
     listing e h input (outs @ [out, out'])"

lemma listing_serves:
  assumes "listing e h input outs" "steady e h input rel names" "honest e h vault rel names"
  shows "outs \<noteq> [] \<and> (\<exists>k n. serves e h rel names (last outs) k n \<and>
    concat (map shown_names (butlast outs)) = map ca_name (take k (whole_listing e rel names)) \<and>
    length outs \<le> Suc k)"
  using assms
proof (induction rule: listing.induct)
  case (first_page e h input w r out w')
  have "steady e h (input\<lparr>li_cursor := ''''\<rparr>) rel names" using first_page(3) by (simp add: steady_def)
  from ls_serves[OF this first_page(4,1,2), of 0] obtain n where "serves e h rel names out 0 n"
    by (auto simp: starts_at_def)
  then show ?case by force
next
  case (next_page e h input outs out w r out' w')
  from next_page obtain k n where prev: "serves e h rel names out k n"
    "concat (map shown_names outs) = map ca_name (take k (whole_listing e rel names))" "length outs \<le> k"
    by (auto simp: butlast_append)
  with next_page(2) have inside: "0 < n" "k + n < length (whole_listing e rel names)"
    "starts_at e h rel names (cv_next_cursor (lo_coverage out)) (k + n)"
    "shown_names out = map ca_name (take n (drop k (whole_listing e rel names)))"
    by (auto simp: serves_def)
  have "steady e h (input\<lparr>li_cursor := cv_next_cursor (lo_coverage out)\<rparr>) rel names"
    using next_page(6) by (simp add: steady_def)
  from ls_serves[OF this next_page(7,3,4), of "k + n"] inside(3) obtain m where "serves e h rel names out' (k + n) m"
    by auto
  moreover have "concat (map shown_names (outs @ [out])) = map ca_name (take (k + n) (whole_listing e rel names))"
    using prev(2) inside(4) by (simp add: take_add)
  moreover have "length (outs @ [out, out']) \<le> Suc (k + n)" using prev(3) inside(1) by simp
  ultimately show ?case by (intro conjI exI[of _ "k + n"] exI[of _ m]) (simp_all add: butlast_append)
qed

text \<open>C11. Following the cursors lists a directory completely.  When the last page of a sequence of calls
  is complete, the names shown, page after page, are all visible names of the directory, each once and in
  canonical order; and every page but the last advances, so there are at most as many calls as names and
  one.  The directory keeps its names while the calls last; where pages are cut to fit makes no
  difference.\<close>

theorem listing_complete:
  assumes "listing e h input outs" "steady e h input rel names" "honest e h vault rel names"
    and "cv_continuation (lo_coverage (last outs)) = ''complete''"
  shows "concat (map shown_names outs) = map ca_name (whole_listing e rel names) \<and>
    length outs \<le> Suc (length (whole_listing e rel names))"
proof -
  from listing_serves[OF assms(1-3)] obtain k n where page: "outs \<noteq> []" "serves e h rel names (last outs) k n"
    "concat (map shown_names (butlast outs)) = map ca_name (take k (whole_listing e rel names))" "length outs \<le> Suc k"
    by blast
  from page(2) assms(4) have last: "shown_names (last outs) = map ca_name (take n (drop k (whole_listing e rel names)))"
    "k + n = length (whole_listing e rel names)"
    by (auto simp: serves_def)
  have "concat (map shown_names (butlast outs @ [last outs])) = map ca_name (take (k + n) (whole_listing e rel names))"
    using page(3) last(1) by (simp add: take_add)
  then show ?thesis using page(1,4) last(2) by simp
qed

section \<open>Witnesses\<close>

definition demo_vault_seal :: vault_seal where
  "demo_vault_seal = \<lparr>vs_authority = '''', vs_hmac = (\<lambda>k m. replicate 32 (CHR ''m''))\<rparr>"

definition demo_codec_base :: json_codec where
  "demo_codec_base = \<lparr>jc_quote = (\<lambda>s. s), jc_compact = Some, jc_envelope = (\<lambda>s. None), jc_valid = (\<lambda>s. True)\<rparr>"

definition demo_sha :: string where "demo_sha = replicate 32 (CHR 0x00)"

definition demo_envelope :: "string \<Rightarrow> cursor_envelope" where
  "demo_envelope n = (position_envelope tool_ls demo_sha demo_sha (Position n n))\<lparr>ce_seal := encode64 (replicate 32 (CHR ''m''))\<rparr>"

definition demo_codec :: json_codec where
  "demo_codec = demo_codec_base\<lparr>jc_envelope := (\<lambda>s. find (\<lambda>c. marshal_envelope demo_codec_base c = Some s)
     (map demo_envelope [''a'', ''b'', ''.h'']))\<rparr>"

lemma demo_marshal: "marshal_envelope demo_codec c = marshal_envelope demo_codec_base c"
  "marshal_fields demo_codec c = marshal_fields demo_codec_base c"
  by (simp_all add: marshal_envelope_def marshal_fields_def envelope_members_def demo_codec_def demo_codec_base_def)

lemma demo_sealed:
  "sealed_envelope demo_codec demo_vault_seal (position_envelope tool_ls demo_sha demo_sha (Position n n)) = demo_envelope n"
  by (simp add: sealed_envelope_def seal_of_def demo_marshal marshal_fields_def envelope_members_def position_envelope_def
      demo_envelope_def bind_opaque_def demo_vault_seal_def)

lemma demo_two: "itoa 2 = ''2''"
  by code_simp

lemma demo_raw:
  "marshal_envelope demo_codec_base (demo_envelope n) = Some (
     ''{\"version\":2,\"tool\":ls,\"query\":'' @ encode64 demo_sha @ '',\"source\":'' @ encode64 demo_sha @
     '',\"position\":{\"nfc\":'' @ n @ '',\"stored\":'' @ n @ ''},\"seal\":'' @ encode64 (replicate 32 (CHR ''m'')) @ ''}'')"
  by (simp add: marshal_envelope_def envelope_members_def demo_codec_base_def demo_envelope_def position_envelope_def
      cursor_format_v2_def tool_ls_def demo_two)

lemma demo_parses: "n \<in> set [''a'', ''b'', ''.h''] \<Longrightarrow> parses_back demo_codec (demo_envelope n)"
  by (auto simp: parses_back_def demo_marshal demo_raw) (auto simp: demo_codec_def demo_raw)

lemma encoded_len_bounds: "0 < k \<Longrightarrow> k < 350 \<Longrightarrow> encoded_len k < 500 \<and> 0 < encoded_len k"
proof -
  obtain q r where k: "k = 3 * q + r" "r < 3" by (metis mod_less_divisor mult_div_mod_eq zero_less_numeral)
  then have "r = 0 \<or> r = 1 \<or> r = 2" by linarith
  then show "0 < k \<Longrightarrow> k < 350 \<Longrightarrow> encoded_len k < 500 \<and> 0 < encoded_len k"
    by (auto simp: k encoded_len_def)
qed

definition demo_cursor :: "string \<Rightarrow> string" where
  "demo_cursor n = encode64 (the (marshal_envelope demo_codec_base (demo_envelope n)))"

lemma demo_encode:
  assumes "n \<in> set [''a'', ''b'', ''.h'']"
  shows "encode_cursor demo_codec (Some demo_vault_seal) tool_ls demo_sha demo_sha (Position n n) = Inr (demo_cursor n)"
    and "length (demo_cursor n) < 500" "demo_cursor n \<noteq> ''''"
proof -
  have seal: "bind_opaque (Some demo_vault_seal) cursor_seal_domain v = replicate 32 (CHR ''m'')" for v
    by (simp add: bind_opaque_def demo_vault_seal_def)
  obtain v where v: "marshal_fields demo_codec (position_envelope tool_ls demo_sha demo_sha (Position n n)) = Some v"
    by (simp add: demo_marshal marshal_fields_def envelope_members_def position_envelope_def)
  obtain R where R: "marshal_envelope demo_codec_base (demo_envelope n) = Some R" "length R < 350" "0 < length R"
    using assms demo_raw[of n] by (auto simp: demo_sha_def encoded_len_def)
  have sealed: "marshal_envelope demo_codec ((position_envelope tool_ls demo_sha demo_sha (Position n n))\<lparr>ce_seal := encode64 (replicate 32 (CHR ''m''))\<rparr>) = Some R"
    using R(1) by (simp add: demo_marshal demo_envelope_def)
  have "replicate 32 (CHR ''m'') \<noteq> zero_binding" by code_simp
  moreover have "\<not> max_cursor_bytes < length R" "\<not> max_cursor_bytes < encoded_len (length R)"
    using R(2) by (simp_all add: max_cursor_bytes_def encoded_len_def)
  ultimately have "encode_sealed_envelope demo_codec (Some demo_vault_seal)
      (position_envelope tool_ls demo_sha demo_sha (Position n n)) = Inr (demo_cursor n)"
    by (simp only: encode_sealed_envelope_def v seal sealed Let_def demo_cursor_def R(1)) simp
  moreover have "valid_cursor_string tool_ls max_cursor_tool_bytes" "valid_cursor_string n max_cursor_field_bytes"
    using assms by (auto simp: valid_cursor_string_def tool_ls_def max_cursor_tool_bytes_def max_cursor_field_bytes_def)
  ultimately show "encode_cursor demo_codec (Some demo_vault_seal) tool_ls demo_sha demo_sha (Position n n) = Inr (demo_cursor n)"
    by (simp add: encode_cursor_def)
  have "length (demo_cursor n) < 500 \<and> 0 < length (demo_cursor n)"
    using R(2,3) by (simp add: demo_cursor_def R(1) encoded_len_bounds)
  then show "length (demo_cursor n) < 500" "demo_cursor n \<noteq> ''''" by auto
qed

theorem cursor_roundtrip_witness:
  "decode_cursor demo_codec (Some demo_vault_seal) (demo_cursor ''a'') =
     Inr \<lparr>dc_tool = tool_ls, dc_query = demo_sha, dc_source = demo_sha, dc_position = Position ''a'' ''a'', dc_state = ''''\<rparr>"
proof (rule cursor_roundtrip[OF demo_encode(1)])
  show "parses_back demo_codec (sealed_envelope demo_codec demo_vault_seal
      (position_envelope tool_ls demo_sha demo_sha (Position ''a'' ''a'')))"
    by (simp add: demo_sealed demo_parses)
qed (simp_all add: demo_sha_def demo_vault_seal_def)

lemma demo_open: "open_envelope demo_codec (Some demo_vault_seal) (demo_cursor ''a'') = Some (demo_envelope ''a'')"
proof -
  have enc: "encode_sealed_envelope demo_codec (Some demo_vault_seal) (position_envelope tool_ls demo_sha demo_sha (Position ''a'' ''a'')) =
      Inr (demo_cursor ''a'')"
    using demo_encode(1)[of "''a''"] by (simp add: encode_cursor_def split: if_splits)
  show ?thesis
    unfolding demo_sealed[symmetric]
  proof (rule open_sealed[OF enc])
    show "parses_back demo_codec (sealed_envelope demo_codec demo_vault_seal
        (position_envelope tool_ls demo_sha demo_sha (Position ''a'' ''a'')))"
      by (simp add: demo_sealed demo_parses)
  qed (simp_all add: position_envelope_def valid_cursor_string_def tool_ls_def max_cursor_tool_bytes_def demo_vault_seal_def)
qed


definition demo_host :: ls_host where
  "demo_host = \<lparr>lh_codec = demo_codec, lh_vault = Some demo_vault_seal, lh_time = (\<lambda>t. ''now''),
     lh_result_bytes = (\<lambda>r s. Some (length s)), lh_open = (\<lambda>base path. State_Monad.return (Inr demo_directory))\<rparr>"

definition demo_request :: "fit_request" where
  "demo_request = \<lparr>fr_path = ''.'', fr_candidates =
     map (\<lambda>n. \<lparr>fc_entry = \<lparr>le_name = n, le_path = n, le_type = ''file'', le_size = 64, le_modified = ''now''\<rparr>,
       fc_position = Position n n\<rparr>) [''a'', ''b''],
     fr_has_more = False, fr_work = no_work\<rparr>"

lemma demo_numbers: "itoa 64 = ''64''" "utoa 0 = ''0''" "utoa 3 = ''3''"
  by code_simp+

lemma demo_host_parts:
  "lh_codec demo_host = demo_codec" "lh_vault demo_host = Some demo_vault_seal" "jc_quote demo_codec = (\<lambda>s. s)"
  "lh_result_bytes demo_host = (\<lambda>r s. Some (length s))" "lh_time demo_host = (\<lambda>t. ''now'')"
  "lh_open demo_host = (\<lambda>base path. State_Monad.return (Inr demo_directory))"
  by (simp_all add: demo_host_def demo_codec_def demo_codec_base_def)

lemma demo_ctx: "fe_vault demo_list_fs = demo_vault" "vf_ctx demo_vault = (\<lambda>k. None)"
  by (rule demo_list_parts)+

lemmas demo_json = structured_bytes_def structured_fits_def json_output_def json_entry_def json_coverage_def json_bool_def
  omit_empty_def ok_output_def complete_coverage_def cursor_coverage_def cursor_coverage_with_scope_def valid_cursor_stop_def
  no_work_def max_structured_result_bytes_def max_sdk_result_bytes_def sdk_result_reserve_def complete_fits_def finish_fit_def
  demo_numbers demo_host_parts

lemma demo_fit:
  "\<exists>out w'. run_state (fit_ls_output demo_list_fs demo_host demo_request (\<lambda>p. Inr (demo_cursor ''a''))) demo_list_world = (Inr out, w')"
proof -
  have "(8 :: nat) + length (demo_cursor ''a'') < 600" using demo_encode(2)[of "''a''"] by simp
  then show ?thesis
    by (simp add: fit_ls_output_def fit_coverage_def demo_request_def look_def demo_ctx demo_json demo_encode(3) Let_def)
qed

theorem fitted_page_largest_witness:
  "\<exists>out w' n cov. run_state (fit_ls_output demo_list_fs demo_host demo_request (\<lambda>p. Inr (demo_cursor ''a''))) demo_list_world = (Inr out, w') \<and>
     0 < n \<and> out = prefix_output demo_request n cov \<and> structured_bytes (lh_quote demo_host) out \<le> max_structured_result_bytes"
proof -
  from demo_fit obtain out w' where run: "run_state (fit_ls_output demo_list_fs demo_host demo_request (\<lambda>p. Inr (demo_cursor ''a'')))
    demo_list_world = (Inr out, w')" by blast
  have "fr_candidates demo_request \<noteq> []" by (simp add: demo_request_def)
  from fitted_page_largest[OF run this] run show ?thesis by auto
qed

text \<open>A directory of two visible names, read one name at a time.\<close>

definition demo_input :: "string \<Rightarrow> ls_input" where
  "demo_input cursor = \<lparr>li_path = ''.'', li_base = '''', li_limit = 1, li_cursor = cursor\<rparr>"

lemma demo_coordinate: "new_path_coordinate '''' = Inr \<lparr>pc_base = ''.'', pc_segments = []\<rparr>"
  "effective_limit 1 = Inr 1" "project_child ''.'' ''a'' = ''a''" "project_child ''.'' ''b'' = ''b''"
  by code_simp+

lemma demo_digest: "fe_sha demo_list_fs s = demo_sha" "ls_query_hash (fe_sha demo_list_fs) c b n = demo_sha"
  "source_fingerprint demo_list_fs i m = demo_sha"
  by (simp_all add: demo_list_fs_def demo_sha_def ls_query_hash_def source_fingerprint_def)

lemma demo_behind:
  "compare_position (Position ''a'' ''a'') (Position ''a'' ''a'') = 0"
  "compare_position (Position ''b'' ''b'') (Position ''a'' ''a'') = 1"
  by code_simp+

lemma demo_stamp: "stamp_kind (demo_list_stamp 0x81A4) = KindFile" "st_size (demo_list_stamp 0x81A4) = 64"
  by code_simp+

lemmas demo_listing = list_directory_def demo_list_parts demo_list_names stat_directory_def sys_fstat_def sys_stat_def look_def
  emit_def scan_page_def no_scan_def empty_page_def page_of_scan_def finish_page_def demo_list_world_def demo_directory_def
  scan_name_def candidate_of_def position_of_def heap_push_def demo_order demo_behind Let_def

lemma demo_first:
  "\<exists>out w'. run_state (ls_tool demo_list_fs demo_host (demo_input '''')) demo_list_world = ((success_call_result, out), w') \<and>
     lo_ok out \<and> cv_continuation (lo_coverage out) = ''cursor'' \<and> cv_next_cursor (lo_coverage out) = demo_cursor ''a''"
proof -
  have "length (demo_cursor ''a'') < 500" using demo_encode(2)[of "''a''"] by simp
  then show ?thesis
    by (simp add: ls_tool_def ls_directory_def ls_page_output_def fit_ls_output_def fit_coverage_def demo_input_def demo_coordinate
        demo_digest demo_listing demo_json demo_encode(1,3) fit_candidate_of_def entry_of_def project_def kind_text_def demo_stamp)
qed

lemma demo_decode:
  "decode_cursor demo_codec (Some demo_vault_seal) (demo_cursor ''a'') =
     Inr \<lparr>dc_tool = tool_ls, dc_query = demo_sha, dc_source = demo_sha, dc_position = Position ''a'' ''a'', dc_state = ''''\<rparr>"
proof (rule decode_encoded[OF demo_encode(1)])
  show "parses_back demo_codec (sealed_envelope demo_codec demo_vault_seal
      (position_envelope tool_ls demo_sha demo_sha (Position ''a'' ''a'')))"
    by (simp add: demo_sealed demo_parses)
qed (simp_all add: demo_sha_def demo_vault_seal_def)

definition demo_page2 :: list_page where
  "demo_page2 = \<lparr>lp_rel = ''.'', lp_entries = [entry_of (candidate_of demo_list_fs ''.'' ''b'') (demo_list_stamp 0x81A4)],
     lp_has_more = False, lp_source = demo_sha, lp_boundary = True, lp_scanned = 3, lp_retained = 1\<rparr>"

lemma demo_page_two:
  "\<exists>d' w'. run_state (list_directory demo_list_fs demo_directory 1 (Some (Position ''a'' ''a''))) demo_list_world = ((None, demo_page2, d'), w')"
  by (simp add: demo_listing path_max_bytes_def demo_digest demo_page2_def)

lemma demo_second:
  "\<exists>out w'. run_state (ls_tool demo_list_fs demo_host (demo_input (demo_cursor ''a''))) demo_list_world = ((success_call_result, out), w') \<and>
     lo_ok out \<and> cv_continuation (lo_coverage out) = ''complete''"
proof -
  have no: "demo_cursor ''a'' \<noteq> ''''" using demo_encode(3)[of "''a''"] by simp
  have "run_state (ls_tool demo_list_fs demo_host (demo_input (demo_cursor ''a''))) demo_list_world =
      run_state (ls_directory demo_list_fs demo_host \<lparr>pc_base = ''.'', pc_segments = []\<rparr> 1 (Some
        \<lparr>dc_tool = tool_ls, dc_query = demo_sha, dc_source = demo_sha, dc_position = Position ''a'' ''a'', dc_state = ''''\<rparr>)
        demo_directory) demo_list_world"
    by (simp add: ls_tool_def demo_input_def demo_coordinate no demo_host_parts demo_decode)
  moreover obtain d' w2 where page: "run_state (list_directory demo_list_fs demo_directory 1 (Some (Position ''a'' ''a''))) demo_list_world =
      ((None, demo_page2, d'), w2)"
    using demo_page_two by blast
  have "\<exists>out w'. run_state (ls_directory demo_list_fs demo_host \<lparr>pc_base = ''.'', pc_segments = []\<rparr> 1 (Some
        \<lparr>dc_tool = tool_ls, dc_query = demo_sha, dc_source = demo_sha, dc_position = Position ''a'' ''a'', dc_state = ''''\<rparr>)
        demo_directory) demo_list_world = ((success_call_result, out), w') \<and>
      lo_ok out \<and> cv_continuation (lo_coverage out) = ''complete''"
    by (simp add: ls_directory_def Let_def demo_digest page)
      (simp add: demo_page2_def ls_page_output_def fit_ls_output_def fit_coverage_def look_def demo_ctx Let_def demo_json
        fit_candidate_of_def entry_of_def candidate_of_def kind_text_def demo_stamp demo_coordinate project_def demo_directory_def)
  ultimately show ?thesis by simp
qed

lemma demo_steady: "steady demo_list_fs demo_host (demo_input cursor) ''.'' [''b'', ''.h'', ''a'']"
  by (auto simp: steady_def demo_host_parts demo_directory_def demo_list_parts)

lemma demo_honest: "honest demo_list_fs demo_host demo_vault_seal ''.'' [''b'', ''.h'', ''a'']"
proof -
  have "position_of demo_list_fs ''.'' n = Position n n" if "n \<in> set [''b'', ''.h'', ''a'']" for n
    using that by (auto simp: position_of_def demo_list_parts demo_list_names) (simp_all add: join_rel_def)
  note position = this
  show ?thesis
    unfolding honest_def
  proof (intro conjI allI ballI)
    fix x y n assume n: "n \<in> set [''b'', ''.h'', ''a'']"
    then have "parses_back demo_codec (demo_envelope n)" by (intro demo_parses) auto
    then show "parses_back (lh_codec demo_host) (sealed_envelope (lh_codec demo_host) demo_vault_seal
        (position_envelope tool_ls (fe_sha demo_list_fs x) (fe_sha demo_list_fs y) (position_of demo_list_fs ''.'' n)))"
      by (simp only: demo_host_parts demo_digest position[OF n] demo_sealed)
  qed (simp_all add: demo_host_parts demo_digest demo_sha_def demo_vault_seal_def)
qed

theorem listing_complete_witness:
  "\<exists>outs. listing demo_list_fs demo_host (demo_input '''') outs \<and> length outs = 2 \<and>
     concat (map shown_names outs) = map ca_name (whole_listing demo_list_fs ''.'' [''b'', ''.h'', ''a''])"
proof -
  from demo_first obtain out1 w1 where first: "run_state (ls_tool demo_list_fs demo_host (demo_input '''')) demo_list_world =
      ((success_call_result, out1), w1)" "lo_ok out1"
    "cv_continuation (lo_coverage out1) = ''cursor''" "cv_next_cursor (lo_coverage out1) = demo_cursor ''a''"
    by blast
  from demo_second obtain out2 w2 where second: "run_state (ls_tool demo_list_fs demo_host (demo_input (demo_cursor ''a''))) demo_list_world =
      ((success_call_result, out2), w2)" "lo_ok out2" "cv_continuation (lo_coverage out2) = ''complete''"
    by blast
  have inputs: "(demo_input '''')\<lparr>li_cursor := c\<rparr> = demo_input c" for c by (simp add: demo_input_def)
  have "listing demo_list_fs demo_host (demo_input '''') ([] @ [out1])"
    using first_page[of demo_list_fs demo_host "demo_input ''''"] first(1,2) inputs by simp
  from next_page[OF this first(3), unfolded first(4) inputs, OF second(1,2)]
  have listing: "listing demo_list_fs demo_host (demo_input '''') [out1, out2]" by simp
  from listing_complete[OF listing demo_steady demo_honest] second(3) listing show ?thesis by force
qed

end
