(* ===== verification/GoJson.thy ===== *)
theory GoJson
  imports Prelude
begin

text \<open>
  What the tools use of \<^verbatim>\<open>encoding/json\<close>, on parsed values: an object keeps its members in the
  order of the text, repetitions included.  Turning text into a value and back is a parameter of
  the definitions that need it.  A \<^verbatim>\<open>json.RawMessage\<close> is the value of its text.
\<close>

datatype json =
    JNull
  | JBool bool
  | JNum string
  | JStr string
  | JArr "json list"
  | JObj "(string \<times> json) list"

section \<open>Decoding into maps and scalars\<close>

text \<open>\<^verbatim>\<open>map[string]json.RawMessage\<close>: the last member of a name counts, null gives the nil map.\<close>

type_synonym members = "(string \<times> json) list"

definition lookup_member :: "string \<Rightarrow> members \<Rightarrow> json option" where
  "lookup_member k ms = map_of (rev ms) k"

definition decode_map :: "json \<Rightarrow> members option" where
  "decode_map j = (case j of JObj ms \<Rightarrow> Some ms | JNull \<Rightarrow> Some [] | _ \<Rightarrow> None)"

definition decode_list :: "json \<Rightarrow> json list option" where
  "decode_list j = (case j of JArr xs \<Rightarrow> Some xs | JNull \<Rightarrow> Some [] | _ \<Rightarrow> None)"

text \<open>An absent value is the empty raw message, which is not valid JSON.\<close>

definition decode_opt :: "(json \<Rightarrow> 'a option) \<Rightarrow> json option \<Rightarrow> 'a option" where
  "decode_opt d r = Option.bind r d"

definition decode_string :: "json \<Rightarrow> string option" where
  "decode_string j = (case j of JStr s \<Rightarrow> Some s | JNull \<Rightarrow> Some '''' | _ \<Rightarrow> None)"

text \<open>\<^verbatim>\<open>strconv.ParseInt(s, 10, 64)\<close> on a number literal.\<close>

fun digits_nat :: "nat \<Rightarrow> string \<Rightarrow> nat option" where
  "digits_nat n '''' = Some n"
| "digits_nat n (c # cs) =
     (if 48 \<le> (of_char c :: nat) \<and> (of_char c :: nat) \<le> 57
      then digits_nat (10 * n + (of_char c - 48)) cs else None)"

definition parse_int64 :: "string \<Rightarrow> int option" where
  "parse_int64 s =
     (let neg = has_prefix s ''-''; body = (if neg then tl s else s) in
      if body = '''' then None
      else (case digits_nat 0 body of
        None \<Rightarrow> None
      | Some n \<Rightarrow>
          (let v = (if neg then - int n else int n) in
           if - (2 ^ 63) \<le> v \<and> v < 2 ^ 63 then Some v else None)))"

definition decode_int64 :: "json \<Rightarrow> int option" where
  "decode_int64 j = (case j of JNum s \<Rightarrow> parse_int64 s | JNull \<Rightarrow> Some 0 | _ \<Rightarrow> None)"

fun decode_all :: "('a \<Rightarrow> 'b option) \<Rightarrow> 'a list \<Rightarrow> 'b list option" where
  "decode_all d [] = Some []"
| "decode_all d (x # xs) =
     (case d x of None \<Rightarrow> None | Some y \<Rightarrow> map_option ((#) y) (decode_all d xs))"

section \<open>Decoding into structs\<close>

text \<open>A member goes to the field of its exact name, otherwise to the field whose name it folds to:
  ASCII letters match in either case, and the long s and the Kelvin sign match s and k.  A member
  of the wrong type leaves its field and makes the whole decoding fail after the other members
  were stored.\<close>

fun fold_member :: "string \<Rightarrow> string" where
  "fold_member '''' = ''''"
| "fold_member (c # cs) =
     (if c = CHR 0xC5 \<and> has_prefix cs [CHR 0xBF] then CHR ''S'' # fold_member (tl cs)
      else if c = CHR 0xE2 \<and> has_prefix cs [CHR 0x84, CHR 0xAA] then CHR ''K'' # fold_member (tl (tl cs))
      else if 97 \<le> (of_char c :: nat) \<and> (of_char c :: nat) \<le> 122
      then char_of ((of_char c :: nat) - 32) # fold_member cs
      else c # fold_member cs)"

type_synonym 's field = "string \<times> (json \<Rightarrow> 's \<Rightarrow> bool \<times> 's)"

definition find_field :: "'s field list \<Rightarrow> string \<Rightarrow> (json \<Rightarrow> 's \<Rightarrow> bool \<times> 's) option" where
  "find_field fields k =
     (case map_of fields k of
        Some d \<Rightarrow> Some d
      | None \<Rightarrow> map_of (map (\<lambda>(f, d). (fold_member f, d)) fields) (fold_member k))"

fun decode_members :: "'s field list \<Rightarrow> members \<Rightarrow> 's \<Rightarrow> bool \<times> 's" where
  "decode_members fields [] s = (True, s)"
| "decode_members fields ((k, v) # ms) s =
     (case find_field fields k of
        None \<Rightarrow> decode_members fields ms s
      | Some d \<Rightarrow>
          (case d v s of (ok, s1) \<Rightarrow>
             (case decode_members fields ms s1 of (ok', s2) \<Rightarrow> (ok \<and> ok', s2))))"

definition decode_struct :: "'s field list \<Rightarrow> json option \<Rightarrow> 's \<Rightarrow> bool \<times> 's" where
  "decode_struct fields r s =
     (case r of
        None \<Rightarrow> (False, s)
      | Some (JObj ms) \<Rightarrow> decode_members fields ms s
      | Some JNull \<Rightarrow> (True, s)
      | Some _ \<Rightarrow> (False, s))"

text \<open>Fields of the types the tools use.\<close>

definition string_field :: "string \<Rightarrow> ('s \<Rightarrow> string) \<Rightarrow> ((string \<Rightarrow> string) \<Rightarrow> 's \<Rightarrow> 's) \<Rightarrow> 's field" where
  "string_field name get upd = (name, \<lambda>j s.
     (case j of JStr x \<Rightarrow> (True, upd (\<lambda>_. x) s) | JNull \<Rightarrow> (True, s) | _ \<Rightarrow> (False, s)))"

definition string_ptr_field ::
  "string \<Rightarrow> ((string option \<Rightarrow> string option) \<Rightarrow> 's \<Rightarrow> 's) \<Rightarrow> 's field" where
  "string_ptr_field name upd = (name, \<lambda>j s.
     (case j of JStr x \<Rightarrow> (True, upd (\<lambda>_. Some x) s) | JNull \<Rightarrow> (True, upd (\<lambda>_. None) s)
      | _ \<Rightarrow> (False, s)))"

definition int64_field :: "string \<Rightarrow> ((int \<Rightarrow> int) \<Rightarrow> 's \<Rightarrow> 's) \<Rightarrow> 's field" where
  "int64_field name upd = (name, \<lambda>j s.
     (case j of
        JNum t \<Rightarrow> (case parse_int64 t of Some n \<Rightarrow> (True, upd (\<lambda>_. n) s) | None \<Rightarrow> (False, s))
      | JNull \<Rightarrow> (True, s) | _ \<Rightarrow> (False, s)))"

definition raw_field :: "string \<Rightarrow> ((json option \<Rightarrow> json option) \<Rightarrow> 's \<Rightarrow> 's) \<Rightarrow> 's field" where
  "raw_field name upd = (name, \<lambda>j s. (True, upd (\<lambda>_. Some j) s))"

definition raw_list_field ::
  "string \<Rightarrow> ((json list \<Rightarrow> json list) \<Rightarrow> 's \<Rightarrow> 's) \<Rightarrow> 's field" where
  "raw_list_field name upd = (name, \<lambda>j s.
     (case decode_list j of Some xs \<Rightarrow> (True, upd (\<lambda>_. xs) s) | None \<Rightarrow> (False, s)))"

section \<open>Numbers\<close>

text \<open>A number literal as mantissa and decimal exponent, and the comparison of \<^verbatim>\<open>big.Rat\<close>.
  \<^verbatim>\<open>Rat.SetString\<close> gives up on a nonzero number whose exponent is beyond a million.\<close>

fun span_digits :: "string \<Rightarrow> string \<times> string" where
  "span_digits '''' = ('''', '''')"
| "span_digits (c # cs) =
     (if 48 \<le> (of_char c :: nat) \<and> (of_char c :: nat) \<le> 57
      then (case span_digits cs of (a, b) \<Rightarrow> (c # a, b)) else ('''', c # cs))"

definition parse_exponent :: "string \<Rightarrow> int option" where
  "parse_exponent s =
     (if s = '''' then Some 0
      else if hd s \<noteq> CHR ''e'' \<and> hd s \<noteq> CHR ''E'' then None
      else parse_int64 (if has_prefix (tl s) ''+'' then tl (tl s) else tl s))"

definition parse_number :: "string \<Rightarrow> (int \<times> int) option" where
  "parse_number s =
     (let neg = has_prefix s ''-''; body = (if neg then tl s else s);
          (whole, r1) = span_digits body;
          (frac, r2) = (if has_prefix r1 ''.'' then span_digits (tl r1) else ('''', r1)) in
      if whole @ frac = '''' then None
      else (case (digits_nat 0 (whole @ frac), parse_exponent r2) of
        (Some m, Some e) \<Rightarrow>
          (let e1 = e - int (length frac) in
           if m \<noteq> 0 \<and> \<bar>e1\<bar> > 1000000 then None else Some (if neg then - int m else int m, e1))
      | _ \<Rightarrow> None))"

definition same_number :: "int \<times> int \<Rightarrow> int \<times> int \<Rightarrow> bool" where
  "same_number x y \<longleftrightarrow>
     (if fst x = 0 \<or> fst y = 0 then fst x = fst y
      else let e = min (snd x) (snd y) in
        fst x * 10 ^ nat (snd x - e) = fst y * 10 ^ nat (snd y - e))"

end
