(* ===== verification/YnabQuota.thy ===== *)
theory YnabQuota
  imports Prelude
begin

text \<open>
  The provider's shared allowance and its outage circuits (\<^verbatim>\<open>internal/tools/ynab/quota.go\<close>):
  the CLOSED / OPEN / HALF\_OPEN machine of one operation family, and the transactions that
  reserve a request slot and record its outcome in the shared database.

  An instant is a number of nanoseconds since the epoch.  \<^verbatim>\<open>UnixNano\<close> keeps the low 64 bits,
  and \<^verbatim>\<open>time.Unix(0, n)\<close> gives the instant \<open>n\<close>; the zero \<^verbatim>\<open>time.Time\<close> is \<^const>\<open>None\<close>.  Failure and epoch
  counters grow by at most one per recorded attempt and are kept unbounded.
\<close>

definition nanos_second :: int where "nanos_second = 1000000000"

definition int64 :: "int \<Rightarrow> int" where
  "int64 x = (x + 2 ^ 63) mod 2 ^ 64 - 2 ^ 63"

definition quota_limit :: nat where "quota_limit = 200"
definition quota_window :: int where "quota_window = 3600 * nanos_second"
definition circuit_threshold :: int where "circuit_threshold = 3"
definition circuit_cooldown :: int where "circuit_cooldown = 30 * nanos_second"
definition probe_lease :: int where "probe_lease = 45 * nanos_second"

lemma int64_small [simp]: "- (2 ^ 63) \<le> x \<Longrightarrow> x < 2 ^ 63 \<Longrightarrow> int64 x = x"
  by (simp add: int64_def)

section \<open>One circuit\<close>

record attempt_permit =
  ap_token :: string
  ap_family :: string
  ap_epoch :: int
  ap_probe :: bool

datatype attempt_outcome = AttemptHealthy | AttemptTransient | AttemptNeutral

record circuit_state =
  cs_failures :: int
  cs_epoch :: int
  cs_recovery_floor :: int
  cs_open_until :: int
  cs_lease_until :: int

definition new_circuit :: circuit_state where
  "new_circuit = \<lparr>cs_failures = 0, cs_epoch = 0, cs_recovery_floor = 0, cs_open_until = 0,
     cs_lease_until = 0\<rparr>"

text \<open>The new state, whether the attempt is the probe, and when a refused caller may return.\<close>

definition circuit_admit :: "circuit_state \<Rightarrow> int \<Rightarrow> circuit_state \<times> bool \<times> int option" where
  "circuit_admit s now =
     (let n = int64 now in
      if cs_open_until s > n then (s, False, Some (cs_open_until s))
      else if cs_lease_until s > n then (s, False, Some (cs_lease_until s))
      else if cs_open_until s \<noteq> 0 \<or> cs_lease_until s \<noteq> 0 then
        (s\<lparr>cs_epoch := cs_epoch s + 1, cs_open_until := 0, cs_lease_until := int64 (now + probe_lease)\<rparr>,
         True, None)
      else (s, False, None))"

definition circuit_complete ::
  "circuit_state \<Rightarrow> attempt_permit \<Rightarrow> attempt_outcome \<Rightarrow> int \<Rightarrow> circuit_state" where
  "circuit_complete s p outcome now =
     (if ap_probe p \<and> ap_epoch p \<noteq> cs_epoch s then s
      else if ap_epoch p < cs_recovery_floor s then s
      else if outcome = AttemptNeutral then
        (if ap_probe p
         then s\<lparr>cs_epoch := cs_epoch s + 1, cs_open_until := int64 (now + circuit_cooldown),
                cs_lease_until := 0\<rparr>
         else s)
      else if outcome = AttemptHealthy then
        (if ap_epoch p = cs_epoch s then
           let s1 = s\<lparr>cs_failures := 0, cs_open_until := 0, cs_lease_until := 0\<rparr> in
           if ap_probe p then s1\<lparr>cs_recovery_floor := ap_epoch p\<rparr> else s1
         else s)
      else if \<not> ap_probe p \<and> (cs_open_until s \<noteq> 0 \<or> cs_lease_until s \<noteq> 0) then s
      else
        let s1 = s\<lparr>cs_epoch := cs_epoch s + 1, cs_failures := cs_failures s + 1\<rparr> in
        if ap_probe p \<or> cs_failures s1 \<ge> circuit_threshold
        then s1\<lparr>cs_open_until := int64 (now + circuit_cooldown), cs_lease_until := 0\<rparr>
        else s1)"

section \<open>Results\<close>

datatype result_status = StatusNone | StatusSuccess | NotAttempted | StatusError | StatusUncertain

text \<open>The fields of \<^verbatim>\<open>Result\<close> the attempt path sets; \<^verbatim>\<open>RetryAt\<close> is the RFC 3339 text of a second,
  here the number of that second.\<close>

record provider_result =
  pr_status :: result_status
  pr_error :: string
  pr_code :: string
  pr_recovery :: string
  pr_http :: int
  pr_retry_at :: "int option"
  pr_retry_after :: string

definition no_result :: provider_result where
  "no_result = \<lparr>pr_status = StatusNone, pr_error = '''', pr_code = '''', pr_recovery = '''',
     pr_http = 0, pr_retry_at = None, pr_retry_after = ''''\<rparr>"

definition rfc3339 :: "int \<Rightarrow> int option" where
  "rfc3339 t = Some (t div nanos_second)"

definition state_failure :: provider_result where
  "state_failure = no_result\<lparr>pr_status := NotAttempted,
     pr_error := ''local provider state unavailable; request not dispatched'',
     pr_code := ''local_state'', pr_recovery := ''contact_operator''\<rparr>"

definition wait_result :: "string \<Rightarrow> int \<Rightarrow> provider_result" where
  "wait_result code until = no_result\<lparr>pr_status := NotAttempted,
     pr_error := (if code = ''rate_limited''
       then ''provider rate limited; shared request allowance is unavailable''
       else ''provider outage circuit is cooling down''),
     pr_code := code, pr_recovery := ''wait'', pr_retry_at := rfc3339 until\<rparr>"

section \<open>The shared database\<close>

text \<open>The three tables.  Each statement of a transaction may fail, by \<open>fault\<close>; then nothing the
  transaction did is kept.\<close>

record quota_db =
  qd_reservations :: "(string \<times> int) list"
  qd_cooldowns :: "string \<rightharpoonup> int"
  qd_circuits :: "string \<times> string \<rightharpoonup> circuit_state"

datatype sql_step = SqlBegin | SqlCooldown | SqlPrune | SqlCount | SqlReadCircuit | SqlWriteCircuit
  | SqlInsert | SqlRaiseCooldown | SqlCommit

definition read_circuit :: "quota_db \<Rightarrow> string \<Rightarrow> string \<Rightarrow> circuit_state" where
  "read_circuit db token family =
     (case qd_circuits db (token, family) of None \<Rightarrow> new_circuit | Some s \<Rightarrow> s)"

definition write_circuit :: "quota_db \<Rightarrow> string \<Rightarrow> string \<Rightarrow> circuit_state \<Rightarrow> quota_db" where
  "write_circuit db token family s = db\<lparr>qd_circuits := (qd_circuits db)((token, family) \<mapsto> s)\<rparr>"

definition token_slots :: "string \<Rightarrow> quota_db \<Rightarrow> int list" where
  "token_slots token db = map snd (filter (\<lambda>(t, a). t = token) (qd_reservations db))"

definition prune :: "int \<Rightarrow> quota_db \<Rightarrow> quota_db" where
  "prune now db = db\<lparr>qd_reservations :=
     filter (\<lambda>(t, a). \<not> a \<le> int64 (now - quota_window)) (qd_reservations db)\<rparr>"

definition quota_reserve ::
  "(sql_step \<Rightarrow> bool) \<Rightarrow> string \<Rightarrow> string \<Rightarrow> int \<Rightarrow> quota_db \<Rightarrow>
     (attempt_permit \<times> provider_result) \<times> quota_db" where
  "quota_reserve fault token family now db =
     (let p = \<lparr>ap_token = token, ap_family = family, ap_epoch = 0, ap_probe = False\<rparr> in
      if fault SqlBegin \<or> fault SqlCooldown then ((p, state_failure), db)
      else
        let until = (case qd_cooldowns db token of None \<Rightarrow> 0 | Some u \<Rightarrow> u) in
        if until > int64 now then ((p, wait_result ''rate_limited'' until), db)
        else if fault SqlPrune \<or> fault SqlCount then ((p, state_failure), db)
        else
          let db1 = prune now db; slots = token_slots token db1 in
          if length slots \<ge> quota_limit
          then ((p, wait_result ''rate_limited'' (Min (set slots) + quota_window)), db)
          else if fault SqlReadCircuit then ((p, state_failure), db)
          else (case circuit_admit (read_circuit db1 token family) now of
             (s, probe, Some retry) \<Rightarrow>
               ((p\<lparr>ap_probe := probe\<rparr>, wait_result ''upstream_unavailable'' retry), db)
           | (s, probe, None) \<Rightarrow>
               (let p1 = p\<lparr>ap_probe := probe, ap_epoch := cs_epoch s\<rparr> in
                if fault SqlWriteCircuit \<or> fault SqlInsert \<or> fault SqlCommit
                then ((p1, state_failure), db)
                else ((p1, no_result),
                      (write_circuit db1 token family s)\<lparr>qd_reservations :=
                         qd_reservations db1 @ [(token, int64 now)]\<rparr>))))"

text \<open>What recording an outcome does to the circuit: a delay the server asked for fences
  in-flight successes just as an outage does.  \<^const>\<open>None\<close> is the zero time, which is before
  every \<open>now\<close>.\<close>

definition circuit_record ::
  "circuit_state \<Rightarrow> attempt_permit \<Rightarrow> attempt_outcome \<Rightarrow> int \<Rightarrow> int option \<Rightarrow> circuit_state" where
  "circuit_record s0 p outcome now family_until =
     (let s = circuit_complete s0 p outcome now in
      case family_until of
        Some u \<Rightarrow>
          if u > now then
            s\<lparr>cs_epoch := cs_epoch s + 1,
              cs_open_until := (if int64 u > cs_open_until s then int64 u else cs_open_until s),
              cs_lease_until := 0\<rparr>
          else s
      | None \<Rightarrow> s)"

text \<open>The instant until which the circuit stays open, or an error.\<close>

definition quota_record ::
  "(sql_step \<Rightarrow> bool) \<Rightarrow> attempt_permit \<Rightarrow> attempt_outcome \<Rightarrow> int \<Rightarrow> int option \<Rightarrow> int option \<Rightarrow>
     quota_db \<Rightarrow> (unit + int option) \<times> quota_db" where
  "quota_record fault p outcome now family_until token_until db =
     (if fault SqlBegin \<or> fault SqlReadCircuit then (Inl (), db)
      else
        let s1 = circuit_record (read_circuit db (ap_token p) (ap_family p)) p outcome now family_until in
        if fault SqlWriteCircuit then (Inl (), db)
        else
          let db1 = write_circuit db (ap_token p) (ap_family p) s1;
              db2 = (case token_until of
                       None \<Rightarrow> db1
                     | Some u \<Rightarrow> db1\<lparr>qd_cooldowns := (qd_cooldowns db1)(ap_token p \<mapsto>
                         (case qd_cooldowns db1 (ap_token p) of
                            None \<Rightarrow> int64 u | Some v \<Rightarrow> max v (int64 u)))\<rparr>) in
          if (token_until \<noteq> None \<and> fault SqlRaiseCooldown) \<or> fault SqlCommit then (Inl (), db)
          else (Inr (if cs_open_until s1 > int64 now then Some (cs_open_until s1) else None), db2))"

definition complete_attempt ::
  "(sql_step \<Rightarrow> bool) \<Rightarrow> attempt_permit \<Rightarrow> bool \<Rightarrow> int \<Rightarrow> int option \<Rightarrow> quota_db \<Rightarrow> bool \<times> quota_db" where
  "complete_attempt fault p transient now defer_until db =
     (case quota_record fault p (if transient then AttemptTransient else AttemptHealthy) now
             defer_until None db of
        (r, db1) \<Rightarrow> (case r of Inl _ \<Rightarrow> False | Inr _ \<Rightarrow> True, db1))"

section \<open>The shared allowance\<close>

datatype quota_op =
    OpReserve "sql_step \<Rightarrow> bool" string string int
  | OpRecord "sql_step \<Rightarrow> bool" attempt_permit attempt_outcome int "int option" "int option"

text \<open>A serial history of transactions, as \<^verbatim>\<open>_txlock=immediate\<close> makes it, with the slots granted.\<close>

fun quota_run :: "quota_op list \<Rightarrow> quota_db \<Rightarrow> (string \<times> int) list \<times> quota_db" where
  "quota_run [] db = ([], db)"
| "quota_run (OpReserve fault token family now # ops) db =
     (case quota_reserve fault token family now db of
        ((p, r), db1) \<Rightarrow>
          (case quota_run ops db1 of
             (log, db2) \<Rightarrow> ((if pr_status r = StatusNone then [(token, now)] else []) @ log, db2)))"
| "quota_run (OpRecord fault p outcome now fu tu # ops) db =
     quota_run ops (snd (quota_record fault p outcome now fu tu db))"

fun reserve_times :: "quota_op list \<Rightarrow> int list" where
  "reserve_times [] = []"
| "reserve_times (OpReserve fault token family now # ops) = now # reserve_times ops"
| "reserve_times (OpRecord fault p outcome now fu tu # ops) = reserve_times ops"

definition granted_in :: "string \<Rightarrow> int \<Rightarrow> (string \<times> int) list \<Rightarrow> nat" where
  "granted_in token x log =
     length (filter (\<lambda>(t, a). t = token \<and> x < a \<and> a \<le> x + quota_window) log)"

lemma quota_record_slots: "qd_reservations (snd (quota_record f p oc now fu tu db)) = qd_reservations db"
  by (auto simp: quota_record_def write_circuit_def Let_def split: option.split)

lemma quota_reserve_cases:
  assumes "quota_reserve fault token family now db = ((p, r), db1)"
  obtains (refused) "pr_status r \<noteq> StatusNone" "db1 = db"
    | (granted) s where "pr_status r = StatusNone" "r = no_result"
        "\<not> int64 now < (case qd_cooldowns db token of None \<Rightarrow> 0 | Some u \<Rightarrow> u)"
        "length (token_slots token (prune now db)) < quota_limit"
        "circuit_admit (read_circuit db token family) now = (s, ap_probe p, None)"
        "p = \<lparr>ap_token = token, ap_family = family, ap_epoch = cs_epoch s, ap_probe = ap_probe p\<rparr>"
        "db1 = (write_circuit (prune now db) token family s)\<lparr>qd_reservations :=
           qd_reservations (prune now db) @ [(token, int64 now)]\<rparr>"
proof -
  have sf: "pr_status state_failure \<noteq> StatusNone" "\<And>c u. pr_status (wait_result c u) \<noteq> StatusNone"
    by (simp_all add: state_failure_def wait_result_def)
  have rc: "read_circuit (prune now db) token family = read_circuit db token family"
    by (simp add: read_circuit_def prune_def)
  obtain s probe retry where adm: "circuit_admit (read_circuit db token family) now = (s, probe, retry)"
    by (metis prod.exhaust)
  show ?thesis
  proof (cases "db1 = db \<and> pr_status r \<noteq> StatusNone")
    case True
    then show ?thesis using refused by blast
  next
    case False
    with assms sf adm rc show ?thesis
      by (intro granted[of s])
        (auto simp: quota_reserve_def Let_def no_result_def split: if_splits option.splits)
  qed
qed

text \<open>The state of a history: the slots still in the table are the recent ones of the log.\<close>

definition quota_inv :: "int \<Rightarrow> (string \<times> int) list \<Rightarrow> quota_db \<Rightarrow> bool" where
  "quota_inv t log db \<longleftrightarrow>
     (\<exists>u \<le> t. qd_reservations db = filter (\<lambda>(k, a). u - quota_window < a) log) \<and>
     (\<forall>(k, a) \<in> set log. a \<le> t) \<and>
     (\<forall>k x. granted_in k x log \<le> quota_limit)"

lemma quota_inv_later:
  assumes "quota_inv t log db" "t \<le> t'"
  shows "quota_inv t' log db"
proof -
  from assms(1) obtain u where "u \<le> t" "qd_reservations db = filter (\<lambda>(k, a). u - quota_window < a) log"
    and rest: "\<forall>(k, a) \<in> set log. a \<le> t" "\<forall>k x. granted_in k x log \<le> quota_limit"
    by (auto simp: quota_inv_def)
  with assms(2) have "\<exists>u \<le> t'. qd_reservations db = filter (\<lambda>(k, a). u - quota_window < a) log"
    by (intro exI[of _ u]) simp
  moreover have "\<forall>(k, a) \<in> set log. a \<le> t'" using rest(1) assms(2) by fastforce
  ultimately show ?thesis using rest(2) by (simp add: quota_inv_def)
qed

lemma length_filter_mono:
  "(\<And>x. P x \<Longrightarrow> Q x) \<Longrightarrow> length (filter P xs) \<le> length (filter Q xs)"
  by (induction xs) (auto intro: le_SucI)

lemma quota_inv_record: "quota_inv t log db \<Longrightarrow> quota_inv t log (snd (quota_record f p oc n fu tu db))"
  by (simp add: quota_inv_def quota_record_slots)

lemma quota_inv_grant:
  assumes "quota_inv t log db" "t \<le> now" "0 \<le> now" "now < 2 ^ 63"
    and "length (token_slots token (prune now db)) < quota_limit"
    and "qd_reservations db1 = qd_reservations (prune now db) @ [(token, int64 now)]"
  shows "quota_inv now (log @ [(token, now)]) db1"
proof -
  have n64: "int64 now = now" "int64 (now - quota_window) = now - quota_window"
    using assms(3,4) by (simp_all add: quota_window_def nanos_second_def)
  from assms(1) obtain u where u: "u \<le> t" "qd_reservations db = filter (\<lambda>(k, a). u - quota_window < a) log"
    and le: "\<forall>(k, a) \<in> set log. a \<le> t" and b: "\<And>k x. granted_in k x log \<le> quota_limit"
    by (auto simp: quota_inv_def)
  have pr: "qd_reservations (prune now db) = filter (\<lambda>(k, a). now - quota_window < a) log"
    using u assms(2) n64 by (auto simp: prune_def intro!: filter_cong)
  have w: "0 < quota_window" by (simp add: quota_window_def nanos_second_def)
  have slots: "length (filter (\<lambda>(k, a). k = token \<and> now - quota_window < a) log) < quota_limit"
    using assms(5) pr by (simp add: token_slots_def case_prod_unfold conj_commute)
  have "granted_in k x (log @ [(token, now)]) \<le> quota_limit" for k x
  proof (cases "k = token \<and> x < now \<and> now \<le> x + quota_window")
    case True
    have "granted_in k x log \<le> length (filter (\<lambda>(k, a). k = token \<and> now - quota_window < a) log)"
      unfolding granted_in_def using True by (intro length_filter_mono) auto
    with slots True show ?thesis by (simp add: granted_in_def)
  next
    case False
    with b[of k x] show ?thesis by (auto simp: granted_in_def)
  qed
  moreover have "\<forall>(k, a) \<in> set (log @ [(token, now)]). a \<le> now" using le assms(2) by fastforce
  moreover have "qd_reservations db1 = filter (\<lambda>(k, a). now - quota_window < a) (log @ [(token, now)])"
    using pr assms(6) n64 w by simp
  ultimately show ?thesis unfolding quota_inv_def by blast
qed

lemma quota_run_inv:
  "quota_run ops db = (log, db') \<Longrightarrow> quota_inv t log0 db \<Longrightarrow> sorted (t # reserve_times ops) \<Longrightarrow>
     \<forall>n \<in> set (reserve_times ops). 0 \<le> n \<and> n < 2 ^ 63 \<Longrightarrow> \<exists>t'. quota_inv t' (log0 @ log) db'"
proof (induction ops db arbitrary: log log0 t rule: quota_run.induct)
  case (1 db)
  then show ?case by auto
next
  case (2 fault token family now ops db)
  obtain p r db1 where q: "quota_reserve fault token family now db = ((p, r), db1)" by (metis prod.exhaust)
  obtain log1 where run: "quota_run ops db1 = (log1, db')"
    and log: "log = (if pr_status r = StatusNone then [(token, now)] else []) @ log1"
    using 2(2) q by (auto split: prod.splits)
  have now: "t \<le> now" "0 \<le> now" "now < 2 ^ 63" "sorted (now # reserve_times ops)"
    using 2(4,5) by auto
  note ih = 2(1)[OF q[symmetric] refl run _ now(4)]
  from q show ?case
  proof (cases rule: quota_reserve_cases)
    case refused
    then have "quota_inv now log0 db1" using quota_inv_later[OF 2(3) now(1)] by simp
    from ih[OF this] 2(5) log refused(1) show ?thesis by auto
  next
    case (granted s)
    then have "quota_inv now (log0 @ [(token, now)]) db1"
      using quota_inv_grant[OF 2(3) now(1-3)] by simp
    from ih[OF this] 2(5) log granted(1) show ?thesis by auto
  qed
next
  case (3 fault p outcome now fu tu ops db)
  from 3(1)[OF _ quota_inv_record[OF 3(3)]] 3(2,4,5) show ?case by simp
qed


section \<open>Circuits\<close>

text \<open>A circuit and the permits issued under it.\<close>

inductive circuit_run :: "circuit_state \<Rightarrow> attempt_permit list \<Rightarrow> bool" where
  fresh: "circuit_run new_circuit []"
| admitted:
    "circuit_run s ps \<Longrightarrow> 0 < now \<Longrightarrow> now < 2 ^ 62 \<Longrightarrow> circuit_admit s now = (s', probe, None) \<Longrightarrow>
       circuit_run s' (\<lparr>ap_token = token, ap_family = family, ap_epoch = cs_epoch s', ap_probe = probe\<rparr> # ps)"
| recorded:
    "circuit_run s ps \<Longrightarrow> 0 < now \<Longrightarrow> now < 2 ^ 62 \<Longrightarrow> p \<in> set ps \<Longrightarrow>
       (\<forall>u. fu = Some u \<longrightarrow> u < 2 ^ 62) \<Longrightarrow> circuit_run (circuit_record s p outcome now fu) ps"

definition circuit_closed :: "circuit_state \<Rightarrow> bool" where
  "circuit_closed s \<longleftrightarrow> cs_open_until s = 0 \<and> cs_lease_until s = 0"

text \<open>The permits that carry the current epoch.\<close>

definition current_permits :: "circuit_state \<Rightarrow> attempt_permit list \<Rightarrow> attempt_permit list" where
  "current_permits s ps = filter (\<lambda>p. ap_epoch p = cs_epoch s) ps"

definition circuit_inv :: "circuit_state \<Rightarrow> attempt_permit list \<Rightarrow> bool" where
  "circuit_inv s ps \<longleftrightarrow>
     (\<forall>p \<in> set ps. ap_epoch p \<le> cs_epoch s) \<and>
     0 \<le> cs_open_until s \<and> 0 \<le> cs_lease_until s \<and>
     (cs_open_until s \<noteq> 0 \<longrightarrow> cs_lease_until s = 0 \<and> current_permits s ps = []) \<and>
     (cs_lease_until s \<noteq> 0 \<longrightarrow> (\<exists>p. current_permits s ps = [p] \<and> ap_probe p))"

lemma current_none:
  "\<forall>p \<in> set ps. ap_epoch p < cs_epoch s \<Longrightarrow> current_permits s ps = []"
  by (auto simp: current_permits_def filter_empty_conv)

lemma circuit_inv_bump:
  assumes "\<forall>p \<in> set ps. ap_epoch p \<le> e" "e < cs_epoch s" "0 \<le> cs_open_until s" "cs_lease_until s = 0"
  shows "circuit_inv s ps"
proof -
  have lt: "\<forall>p \<in> set ps. ap_epoch p < cs_epoch s" using assms(1,2) by fastforce
  from current_none[OF this] lt assms(3,4) show ?thesis by (auto simp: circuit_inv_def)
qed

text \<open>What completing an attempt can do: nothing, trip the circuit, count a failure, or heal.\<close>

lemma circuit_complete_cases:
  obtains (stale) "circuit_complete s p outcome now = s"
    | (tripped) f where "circuit_complete s p outcome now
         = s\<lparr>cs_epoch := cs_epoch s + 1, cs_failures := f, cs_open_until := int64 (now + circuit_cooldown),
             cs_lease_until := 0\<rparr>"
    | (failed) "cs_open_until s = 0" "cs_lease_until s = 0"
        "circuit_complete s p outcome now = s\<lparr>cs_epoch := cs_epoch s + 1, cs_failures := cs_failures s + 1\<rparr>"
    | (healed) r where "outcome = AttemptHealthy" "ap_epoch p = cs_epoch s"
        "circuit_complete s p outcome now
         = s\<lparr>cs_failures := 0, cs_open_until := 0, cs_lease_until := 0, cs_recovery_floor := r\<rparr>"
proof -
  let ?fail = "s\<lparr>cs_epoch := cs_epoch s + 1, cs_failures := cs_failures s + 1\<rparr>"
  let ?c = "int64 (now + circuit_cooldown)"
  have "circuit_complete s p outcome now = s
    \<or> circuit_complete s p outcome now = s\<lparr>cs_epoch := cs_epoch s + 1, cs_open_until := ?c, cs_lease_until := 0\<rparr>
    \<or> outcome = AttemptHealthy \<and> ap_epoch p = cs_epoch s
    \<or> circuit_complete s p outcome now = ?fail\<lparr>cs_open_until := ?c, cs_lease_until := 0\<rparr>
    \<or> cs_open_until s = 0 \<and> cs_lease_until s = 0 \<and> circuit_complete s p outcome now = ?fail"
    unfolding circuit_complete_def Let_def by (cases outcome) simp_all
  then consider (n) "circuit_complete s p outcome now = s"
    | (q) "circuit_complete s p outcome now = s\<lparr>cs_epoch := cs_epoch s + 1, cs_open_until := ?c, cs_lease_until := 0\<rparr>"
    | (h) "outcome = AttemptHealthy" "ap_epoch p = cs_epoch s"
    | (t) "circuit_complete s p outcome now = ?fail\<lparr>cs_open_until := ?c, cs_lease_until := 0\<rparr>"
    | (f) "cs_open_until s = 0" "cs_lease_until s = 0" "circuit_complete s p outcome now = ?fail"
    by blast
  then show thesis
  proof cases
    case n
    then show thesis by (rule stale)
  next
    case q
    then show thesis using tripped[of "cs_failures s"] by simp
  next
    case h
    show thesis
    proof (cases "ap_epoch p < cs_recovery_floor s")
      case True
      with h stale show thesis by (simp add: circuit_complete_def)
    next
      case False
      with h healed[of "if ap_probe p then ap_epoch p else cs_recovery_floor s"] show thesis
        by (simp add: circuit_complete_def Let_def split: if_splits)
    qed
  next
    case t
    then show thesis using tripped[of "cs_failures s + 1"] by simp
  next
    case f
    then show thesis using failed by simp
  qed
qed

lemma circuit_complete_inv:
  assumes "circuit_inv s ps" "0 < now" "now < 2 ^ 62" "p \<in> set ps"
  shows "circuit_inv (circuit_complete s p outcome now) ps"
proof -
  let ?s = "circuit_complete s p outcome now"
  have cool: "int64 (now + circuit_cooldown) = now + circuit_cooldown"
    using assms(2,3) by (simp add: circuit_cooldown_def nanos_second_def)
  have le: "\<forall>p \<in> set ps. ap_epoch p \<le> cs_epoch s" using assms(1) by (simp add: circuit_inv_def)
  have cd: "0 < circuit_cooldown" by (simp add: circuit_cooldown_def nanos_second_def)
  consider "?s = s"
    | "cs_epoch ?s = cs_epoch s + 1" "0 \<le> cs_open_until ?s" "cs_lease_until ?s = 0"
    | "cs_epoch ?s = cs_epoch s" "cs_open_until ?s = 0" "cs_lease_until ?s = 0"
    by (cases rule: circuit_complete_cases[of s p outcome now]) (use that cool cd assms(2) in auto)
  then show ?thesis
  proof cases
    case 1
    with assms(1) show ?thesis by simp
  next
    case 2
    then show ?thesis using circuit_inv_bump[OF le] by simp
  next
    case 3
    with le show ?thesis by (simp add: circuit_inv_def)
  qed
qed

lemma circuit_record_inv:
  assumes "circuit_inv s ps" "0 < now" "now < 2 ^ 62" "p \<in> set ps" "\<forall>u. fu = Some u \<longrightarrow> u < 2 ^ 62"
  shows "circuit_inv (circuit_record s p outcome now fu) ps"
proof -
  note c = circuit_complete_inv[OF assms(1-4), of outcome]
  show ?thesis
  proof (cases "\<exists>u. fu = Some u \<and> now < u")
    case True
    then obtain u where u: "fu = Some u" "now < u" by blast
    with assms(2,5) have u64: "int64 u = u" "0 < u" by auto
    let ?c = "circuit_complete s p outcome now" and ?r = "circuit_record s p outcome now fu"
    have "cs_epoch ?r = cs_epoch ?c + 1" "0 \<le> cs_open_until ?r" "cs_lease_until ?r = 0"
      using u u64 by (auto simp: circuit_record_def Let_def)
    moreover have "\<forall>p \<in> set ps. ap_epoch p \<le> cs_epoch ?c" using c by (simp add: circuit_inv_def)
    ultimately show ?thesis using circuit_inv_bump by simp
  next
    case False
    with c show ?thesis by (auto simp: circuit_record_def Let_def split: option.split)
  qed
qed

lemma circuit_admit_inv:
  assumes "circuit_inv s ps" "0 < now" "now < 2 ^ 62" "circuit_admit s now = (s', probe, None)"
    and "ap_epoch q = cs_epoch s'" "ap_probe q = probe"
  shows "circuit_inv s' (q # ps)"
proof (cases "circuit_closed s")
  case True
  with assms show ?thesis
    by (auto simp: circuit_admit_def circuit_closed_def circuit_inv_def Let_def split: if_splits)
next
  case False
  have lease: "int64 (now + probe_lease) = now + probe_lease" "0 < now + probe_lease"
    using assms(2,3) by (simp_all add: probe_lease_def nanos_second_def)
  from False assms(4) have s': "s' = s\<lparr>cs_epoch := cs_epoch s + 1, cs_open_until := 0,
      cs_lease_until := int64 (now + probe_lease)\<rparr>" "probe"
    by (auto simp: circuit_admit_def circuit_closed_def Let_def split: if_splits)
  have le: "\<forall>p \<in> set ps. ap_epoch p \<le> cs_epoch s" using assms(1) by (simp add: circuit_inv_def)
  then have "\<forall>p \<in> set ps. ap_epoch p < cs_epoch s'" using s'(1) by fastforce
  from current_none[OF this] this s' lease assms(5,6) show ?thesis
    by (auto simp: circuit_inv_def current_permits_def)
qed

lemma circuit_run_inv: "circuit_run s ps \<Longrightarrow> circuit_inv s ps"
proof (induction rule: circuit_run.induct)
  case fresh
  then show ?case by (simp add: circuit_inv_def new_circuit_def)
next
  case (admitted s ps now s' probe token family)
  then show ?case by (intro circuit_admit_inv) auto
next
  case (recorded s ps now p fu outcome)
  then show ?case by (intro circuit_record_inv) auto
qed


section \<open>Concrete histories\<close>

definition empty_db :: quota_db where
  "empty_db = \<lparr>qd_reservations = [], qd_cooldowns = Map.empty, qd_circuits = Map.empty\<rparr>"


definition tripped :: circuit_state where
  "tripped = \<lparr>cs_failures = 3, cs_epoch = 3, cs_recovery_floor = 0,
     cs_open_until = 1 + circuit_cooldown, cs_lease_until = 0\<rparr>"

definition demo_permit :: "int \<Rightarrow> attempt_permit" where
  "demo_permit e = \<lparr>ap_token = ''t'', ap_family = ''GET:plans'', ap_epoch = e, ap_probe = False\<rparr>"

lemma tripped_run: "circuit_run tripped [demo_permit 2, demo_permit 1, demo_permit 0]"
proof -
  have step: "circuit_run (new_circuit\<lparr>cs_failures := e + 1, cs_epoch := e + 1\<rparr>) (demo_permit e # ps)"
    if "circuit_run (new_circuit\<lparr>cs_failures := e, cs_epoch := e\<rparr>) ps" "0 \<le> e" "e < 2" for e ps
  proof -
    have "circuit_admit (new_circuit\<lparr>cs_failures := e, cs_epoch := e\<rparr>) 1
        = (new_circuit\<lparr>cs_failures := e, cs_epoch := e\<rparr>, False, None)"
      by (simp add: circuit_admit_def new_circuit_def Let_def)
    from circuit_run.admitted[OF that(1) _ _ this, of "''t''" "''GET:plans''"]
    have "circuit_run (new_circuit\<lparr>cs_failures := e, cs_epoch := e\<rparr>) (demo_permit e # ps)"
      by (simp add: demo_permit_def)
    from circuit_run.recorded[OF this, of 1 "demo_permit e" None AttemptTransient] that(2,3) show ?thesis
      by (simp add: circuit_record_def circuit_complete_def demo_permit_def new_circuit_def
          circuit_threshold_def Let_def)
  qed
  have 0: "circuit_run (new_circuit\<lparr>cs_failures := 0, cs_epoch := 0\<rparr>) []"
    using circuit_run.fresh by (simp add: new_circuit_def)
  note 2 = step[OF step[OF 0]]
  have "circuit_admit (new_circuit\<lparr>cs_failures := 2, cs_epoch := 2\<rparr>) 1
      = (new_circuit\<lparr>cs_failures := 2, cs_epoch := 2\<rparr>, False, None)"
    by (simp add: circuit_admit_def new_circuit_def Let_def)
  from circuit_run.admitted[OF _ _ _ this, of _ "''t''" "''GET:plans''"] 2
  have "circuit_run (new_circuit\<lparr>cs_failures := 2, cs_epoch := 2\<rparr>) [demo_permit 2, demo_permit 1, demo_permit 0]"
    by (simp add: demo_permit_def)
  from circuit_run.recorded[OF this, of 1 "demo_permit 2" None AttemptTransient] show ?thesis
    by (simp add: circuit_record_def circuit_complete_def demo_permit_def new_circuit_def tripped_def
        circuit_threshold_def circuit_cooldown_def nanos_second_def Let_def)
qed


end
