(* ===== verification/YnabItem.thy ===== *)
theory YnabItem
  imports GoJson GoPath YnabQuota
begin

text \<open>
  One item of a YNAB batch: its identity, the provider route it names and every check made before
  anything is dispatched (\<^verbatim>\<open>internal/tools/ynab/tools.go\<close>: \<^verbatim>\<open>itemID\<close>, \<^verbatim>\<open>route\<close>, \<^verbatim>\<open>transactionRoute\<close>,
  \<^verbatim>\<open>validateItem\<close>, \<^verbatim>\<open>validateDates\<close>, \<^verbatim>\<open>validateExport\<close>, \<^verbatim>\<open>transactionLookup\<close>, \<^verbatim>\<open>transactionIdentity\<close>;
  \<^verbatim>\<open>validation_data.go\<close>: \<^verbatim>\<open>validatePayload\<close>).  Today's date is an argument.
\<close>

datatype verb = VList | VGet | VCreate | VUpdate | VDelete | VImport

fun verb_name :: "verb \<Rightarrow> string" where
  "verb_name VList = ''list''"
| "verb_name VGet = ''get''"
| "verb_name VCreate = ''create''"
| "verb_name VUpdate = ''update''"
| "verb_name VDelete = ''delete''"
| "verb_name VImport = ''import_transactions''"

record item =
  it_type :: string
  it_plan :: string
  it_id :: string
  it_transaction :: string
  it_account :: string
  it_category :: string
  it_category_group :: string
  it_payee :: string
  it_payee_location :: string
  it_scheduled :: string
  it_month :: string
  it_since :: string
  it_until :: string
  it_knowledge :: "int option"
  it_filter :: string
  it_include_accounts :: bool
  it_data :: "json option"
  it_source :: string
  it_format :: string
  it_filename :: string

text \<open>An error is its message, or the verb and type it calls unsupported, the type quoted (\<^verbatim>\<open>%q\<close>)
  or bare; \<^verbatim>\<open>strconv.Quote\<close> is an argument of the text.\<close>

datatype item_error = Message string | Unsupported verb string bool

fun error_text :: "(string \<Rightarrow> string) \<Rightarrow> item_error \<Rightarrow> string" where
  "error_text quote (Message m) = m"
| "error_text quote (Unsupported v kind quoted) =
     ''unsupported '' @ verb_name v @ '' type '' @ (if quoted then quote kind else kind)"

section \<open>Identities\<close>

definition item_id :: "item \<Rightarrow> string" where
  "item_id x =
     (if it_id x \<noteq> '''' then it_id x
      else if it_type x = ''transaction'' then it_transaction x
      else if it_type x = ''account'' then it_account x
      else if it_type x = ''category'' then it_category x
      else if it_type x = ''category_group'' then it_category_group x
      else if it_type x = ''payee'' then it_payee x
      else if it_type x = ''payee_location'' then it_payee_location x
      else if it_type x = ''scheduled_transaction'' then it_scheduled x
      else if it_type x = ''month'' then it_month x
      else '''')"

text \<open>The anonymous struct with the two identities of a transaction's data.\<close>

record identities =
  id_own :: "string option"
  id_import :: "string option"

definition no_identities :: identities where
  "no_identities = \<lparr>id_own = None, id_import = None\<rparr>"

definition decode_identities :: "json option \<Rightarrow> bool \<times> identities" where
  "decode_identities r =
     decode_struct [string_ptr_field ''id'' id_own_update, string_ptr_field ''import_id'' id_import_update]
       r no_identities"

definition transaction_identity :: "item \<Rightarrow> string \<times> string" where
  "transaction_identity x =
     (case decode_identities (it_data x) of
        (True, b) \<Rightarrow>
          (let own = (case id_own b of Some i \<Rightarrow> if item_id x = '''' then i else item_id x
                      | None \<Rightarrow> item_id x) in
           case id_import b of Some i \<Rightarrow> (own, i) | None \<Rightarrow> (own, ''''))
      | (False, b) \<Rightarrow> (item_id x, ''''))"

definition transaction_lookup :: "item \<Rightarrow> bool" where
  "transaction_lookup x =
     (if it_type x \<noteq> ''transaction'' \<or> it_data x = None then False
      else (case decode_identities (it_data x) of
        (ok, b) \<Rightarrow> ok \<and> (id_own b \<notin> {None, Some ''''} \<or> id_import b \<notin> {None, Some ''''})))"

section \<open>Routes\<close>

text \<open>\<^verbatim>\<open>url.PathEscape\<close>\<close>

definition path_plain :: "char \<Rightarrow> bool" where
  "path_plain c \<longleftrightarrow>
     (let n = (of_char c :: nat) in
      48 \<le> n \<and> n \<le> 57 \<or> 65 \<le> n \<and> n \<le> 90 \<or> 97 \<le> n \<and> n \<le> 122 \<or> c \<in> set ''-_.~$&+=:@'')"

definition upper_hex :: "nat \<Rightarrow> char" where
  "upper_hex n = (if n < 10 then char_of (48 + n) else char_of (55 + n))"

definition escape_char :: "char \<Rightarrow> string" where
  "escape_char c =
     (if path_plain c then [c]
      else [CHR ''%'', upper_hex (of_char c div 16), upper_hex (of_char c mod 16)])"

definition path_escape :: "string \<Rightarrow> string" where
  "path_escape s = concat (map escape_char s)"

record operation =
  op_method :: string
  op_path :: string
  op_requires_id :: bool

abbreviation op :: "string \<Rightarrow> string \<Rightarrow> bool \<Rightarrow> item_error + operation" where
  "op m p r \<equiv> Inr \<lparr>op_method = m, op_path = p, op_requires_id = r\<rparr>"

definition plan_path :: "item \<Rightarrow> string \<Rightarrow> string" where
  "plan_path x rest = ''/plans/'' @ path_escape (it_plan x) @ rest"

definition unsupported :: "verb \<Rightarrow> string \<Rightarrow> item_error + operation" where
  "unsupported v kind = Inl (Unsupported v kind True)"

definition resource_base :: "string \<Rightarrow> string" where
  "resource_base kind =
     (case map_of [(''account'', ''accounts''), (''category'', ''categories''),
        (''category_group'', ''category_groups''), (''payee'', ''payees''),
        (''payee_location'', ''payee_locations''), (''month'', ''months''),
        (''money_movement'', ''money_movements''), (''money_movement_group'', ''money_movement_groups''),
        (''transaction'', ''transactions''), (''scheduled_transaction'', ''scheduled_transactions'')] kind
      of Some b \<Rightarrow> b | None \<Rightarrow> '''')"

definition transaction_list_path :: "item \<Rightarrow> string" where
  "transaction_list_path x =
     (let base0 = plan_path x ''/transactions'';
          base1 = (if it_account x \<noteq> ''''
                   then plan_path x ''/accounts/'' @ path_escape (it_account x) @ ''/transactions'' else base0);
          base2 = (if it_category x \<noteq> ''''
                   then plan_path x ''/categories/'' @ path_escape (it_category x) @ ''/transactions'' else base1);
          base3 = (if it_payee x \<noteq> ''''
                   then plan_path x ''/payees/'' @ path_escape (it_payee x) @ ''/transactions'' else base2)
      in if it_month x \<noteq> ''''
         then plan_path x ''/months/'' @ path_escape (it_month x) @ ''/transactions'' else base3)"

definition transaction_route :: "verb \<Rightarrow> item \<Rightarrow> item_error + operation" where
  "transaction_route v x =
     (let base = plan_path x ''/transactions'' in
      case v of
        VImport \<Rightarrow> op ''POST'' (base @ ''/import'') False
      | VList \<Rightarrow> op ''GET'' (transaction_list_path x) False
      | VGet \<Rightarrow> op ''GET'' (base @ ''/'' @ path_escape (item_id x)) True
      | VCreate \<Rightarrow> op ''POST'' base False
      | VUpdate \<Rightarrow>
          if item_id x = '''' then op ''PATCH'' base False
          else op ''PUT'' (base @ ''/'' @ path_escape (item_id x)) True
      | VDelete \<Rightarrow> op ''DELETE'' (base @ ''/'' @ path_escape (item_id x)) True)"

definition plain_route :: "verb \<Rightarrow> item \<Rightarrow> item_error + operation" where
  "plain_route v x =
     (let path = plan_path x ''/'' @ resource_base (it_type x); one = path @ ''/'' @ path_escape (item_id x) in
      case v of
        VList \<Rightarrow> op ''GET'' path False
      | VGet \<Rightarrow> op ''GET'' one True
      | VCreate \<Rightarrow> op ''POST'' path False
      | VUpdate \<Rightarrow> op (if it_type x = ''scheduled_transaction'' then ''PUT'' else ''PATCH'') one True
      | VDelete \<Rightarrow>
          if it_type x = ''scheduled_transaction'' then op ''DELETE'' one True
          else unsupported v (it_type x)
      | VImport \<Rightarrow> unsupported v (it_type x))"

definition route :: "verb \<Rightarrow> item \<Rightarrow> item_error + operation" where
  "route v x =
     (if v = VImport \<and> it_type x = ''bank_import''
      then op ''POST'' (plan_path x ''/transactions/import'') False
      else if it_type x = ''user'' \<and> v = VGet then op ''GET'' ''/user'' False
      else if it_type x = ''plan'' \<and> v = VList then op ''GET'' ''/plans'' False
      else if it_type x = ''plan'' \<and> v = VGet then op ''GET'' (plan_path x '''') False
      else if it_type x = ''settings'' \<and> v = VGet then op ''GET'' (plan_path x ''/settings'') False
      else if resource_base (it_type x) = '''' then unsupported v (it_type x)
      else if it_type x = ''transaction'' then transaction_route v x
      else if (it_type x = ''money_movement'' \<or> it_type x = ''money_movement_group'') \<and> v = VList then
        (if it_month x \<noteq> ''''
         then op ''GET'' (plan_path x ''/months/'' @ path_escape (it_month x) @ ''/'' @
                resource_base (it_type x)) False
         else op ''GET'' (plan_path x ''/'' @ resource_base (it_type x)) False)
      else if it_type x = ''payee_location'' \<and> v = VList \<and> it_payee x \<noteq> '''' then
        op ''GET'' (plan_path x ''/payees/'' @ path_escape (it_payee x) @ ''/payee_locations'') False
      else if it_type x = ''month'' \<and> v = VList then op ''GET'' (plan_path x ''/months'') False
      else if it_type x = ''month'' \<and> v = VGet then
        op ''GET'' (plan_path x ''/months/'' @ path_escape (it_month x)) True
      else if it_type x = ''category'' \<and> it_month x \<noteq> '''' \<and> (v = VGet \<or> v = VUpdate) then
        op (if v = VGet then ''GET'' else ''PATCH'')
          (plan_path x ''/months/'' @ path_escape (it_month x) @ ''/categories/'' @
             path_escape (it_category x)) True
      else plain_route v x)"

section \<open>Dates\<close>

text \<open>\<^verbatim>\<open>time.Parse("2006-01-02", s)\<close> as a number of days, and the calendar behind it.\<close>

definition leap_year :: "nat \<Rightarrow> bool" where
  "leap_year y \<longleftrightarrow> y mod 4 = 0 \<and> (y mod 100 \<noteq> 0 \<or> y mod 400 = 0)"

definition month_lengths :: "nat \<Rightarrow> int list" where
  "month_lengths y = [31, if leap_year y then 29 else 28, 31, 30, 31, 30, 31, 31, 30, 31, 30, 31]"

definition day_number :: "nat \<Rightarrow> nat \<Rightarrow> nat \<Rightarrow> int" where
  "day_number y m d =
     365 * int y + (int y + 3) div 4 - (int y + 99) div 100 + (int y + 399) div 400 +
     sum_list (take (m - 1) (month_lengths y)) + int d"

definition parse_date :: "string \<Rightarrow> int option" where
  "parse_date s =
     (case s of
        [y1, y2, y3, y4, s1, m1, m2, s2, d1, d2] \<Rightarrow>
          if s1 = CHR ''-'' \<and> s2 = CHR ''-'' then
            (case (digits_nat 0 [y1, y2, y3, y4], digits_nat 0 [m1, m2], digits_nat 0 [d1, d2]) of
               (Some y, Some m, Some d) \<Rightarrow>
                 if 1 \<le> m \<and> m \<le> 12 \<and> 1 \<le> d \<and> int d \<le> month_lengths y ! (m - 1)
                 then Some (day_number y m d) else None
             | _ \<Rightarrow> None)
          else None
      | _ \<Rightarrow> None)"

text \<open>The current UTC date, as year, month and day.\<close>

type_synonym date = "nat \<times> nat \<times> nat"

definition pad :: "nat \<Rightarrow> nat \<Rightarrow> string" where
  "pad w n = replicate (w - length (utoa n)) CHR ''0'' @ utoa n"

definition month_text :: "date \<Rightarrow> string" where
  "month_text t = (case t of (y, m, d) \<Rightarrow> pad 4 y @ ''-'' @ pad 2 m)"

definition validate_dates :: "date \<Rightarrow> item \<Rightarrow> string option" where
  "validate_dates today x =
     (if it_since x = '''' \<or> it_until x = ''''
      then Some ''since_date and until_date are required for transaction lists''
      else (case parse_date (it_since x) of
        None \<Rightarrow> Some ''since_date must be YYYY-MM-DD''
      | Some a \<Rightarrow>
          (let bad = Some ''until_date must be YYYY-MM-DD and not precede since_date'' in
           case parse_date (it_until x) of
             None \<Rightarrow> bad
           | Some b \<Rightarrow>
               if b < a then bad
               else
                 let m0 = (if it_month x = ''current'' then month_text today else it_month x);
                     m1 = (if length m0 = 10 then take 7 m0 else m0) in
                 if it_month x \<noteq> '''' \<and> (\<not> has_prefix (it_since x) m1 \<or> \<not> has_prefix (it_until x) m1)
                 then Some ''month transaction dates must remain within month''
                 else None)))"

section \<open>Payloads\<close>

abbreviation present :: "string \<Rightarrow> members \<Rightarrow> bool" where
  "present k ms \<equiv> lookup_member k ms \<noteq> None"

text \<open>Present and not the literal null.\<close>

abbreviation given :: "string \<Rightarrow> members \<Rightarrow> bool" where
  "given k ms \<equiv> (case lookup_member k ms of None \<Rightarrow> False | Some v \<Rightarrow> v \<noteq> JNull)"

definition check_amounts :: "members \<Rightarrow> string option" where
  "check_amounts ms =
     (if \<exists>name \<in> set [''amount'', ''balance'', ''budgeted'', ''goal_target''].
           given name ms \<and> decode_opt decode_int64 (lookup_member name ms) = None
      then Some ''amount fields must be integer milliunits'' else None)"

definition check_goal :: "members \<Rightarrow> string option" where
  "check_goal ms =
     (if \<not> present ''goal_frequency'' ms then None
      else if \<not> given ''goal_target'' ms then Some ''goal_frequency requires goal_target''
      else if present ''goal_target_date'' ms
        then Some ''goal_frequency cannot combine with goal_target_date''
      else None)"

definition check_identity :: "verb \<Rightarrow> item \<Rightarrow> members \<Rightarrow> string option" where
  "check_identity v x ms =
     (if it_type x = ''transaction'' \<and> v = VUpdate \<and>
         (if item_id x \<noteq> '''' then 1 else 0) + length (filter (\<lambda>n. given n ms) [''id'', ''import_id'']) \<noteq> (1::nat)
      then Some ''transaction update requires one ID or import ID'' else None)"

definition check_date :: "date \<Rightarrow> item \<Rightarrow> members \<Rightarrow> string option" where
  "check_date today x ms =
     (case lookup_member ''date'' ms of
        None \<Rightarrow> None
      | Some value \<Rightarrow>
          (case Option.bind (decode_string value) parse_date of
             None \<Rightarrow> Some ''date must be YYYY-MM-DD''
           | Some day \<Rightarrow>
               (case today of (y, m, d) \<Rightarrow>
                  if it_type x = ''transaction'' \<and> day > day_number y m d
                  then Some ''future transactions require scheduled_transaction''
                  else if it_type x = ''scheduled_transaction'' \<and>
                    (\<not> day > day_number y m d \<or> day > day_number (y + 5) m d)
                  then Some ''scheduled date must be future and within five years''
                  else None)))"

text \<open>The amounts of a split.\<close>

definition child_amount :: "json \<Rightarrow> int option" where
  "child_amount j =
     (case decode_struct [int64_field ''amount'' id] (Some j) 0 of (ok, n) \<Rightarrow> if ok then Some n else None)"

definition max_int64 :: int where "max_int64 = 2 ^ 63 - 1"
definition min_int64 :: int where "min_int64 = - (2 ^ 63)"

fun split_sum :: "int \<Rightarrow> int list \<Rightarrow> int option" where
  "split_sum acc [] = Some acc"
| "split_sum acc (n # ns) =
     (if n > 0 \<and> acc > max_int64 - n \<or> n < 0 \<and> acc < min_int64 - n then None
      else split_sum (int64 (acc + n)) ns)"

definition check_split :: "verb \<Rightarrow> members \<Rightarrow> string option" where
  "check_split v ms =
     (case lookup_member ''subtransactions'' ms of
        None \<Rightarrow> None
      | Some subs \<Rightarrow>
          (case Option.bind (decode_list subs) (decode_all child_amount) of
             None \<Rightarrow> Some ''split requires nonempty subtransactions with integer amounts''
           | Some [] \<Rightarrow> Some ''split requires nonempty subtransactions with integer amounts''
           | Some (c # cs) \<Rightarrow>
               if lookup_member ''category_id'' ms \<noteq> Some JNull
               then Some ''split category_id must be explicit null''
               else if v \<noteq> VCreate then None
               else (case decode_opt decode_int64 (lookup_member ''amount'' ms) of
                  None \<Rightarrow> Some ''split requires parent amount''
                | Some amount \<Rightarrow>
                    (case split_sum 0 (c # cs) of
                       None \<Rightarrow> Some ''split amount overflow''
                     | Some summed \<Rightarrow>
                         if summed \<noteq> amount then Some ''split amounts must sum to the parent amount''
                         else None))))"

definition check_transaction :: "date \<Rightarrow> verb \<Rightarrow> item \<Rightarrow> members \<Rightarrow> string option" where
  "check_transaction today v x ms =
     first_err [check_identity v x ms, check_date today x ms,
       fail_if (it_type x = ''scheduled_transaction'' \<and>
           (\<not> present ''date'' ms \<or> \<not> present ''account_id'' ms))
         ''scheduled transactions require date and account_id'',
       check_split v ms]"

definition validate_payload :: "date \<Rightarrow> verb \<Rightarrow> item \<Rightarrow> string option" where
  "validate_payload today v x =
     (let scopes = length (filter (\<lambda>s. s \<noteq> '''') [it_account x, it_category x, it_payee x, it_month x]) in
      if (it_type x = ''transaction'' \<and> v = VList \<or> it_type x = ''export'' \<and> it_source x = ''transactions'')
         \<and> scopes > 1
      then Some ''choose one transaction scope''
      else if v \<noteq> VCreate \<and> v \<noteq> VUpdate \<or> it_type x = ''export'' then None
      else (case decode_opt decode_map (it_data x) of
        None \<Rightarrow> Some ''data must contain resource fields''
      | Some ms \<Rightarrow>
          if ms = [] then Some ''data must contain resource fields''
          else first_err [check_amounts ms, check_goal ms,
            (if it_type x \<noteq> ''transaction'' \<and> it_type x \<noteq> ''scheduled_transaction'' then None
             else check_transaction today v x ms)]))"

section \<open>Items\<close>

definition validate_export :: "date \<Rightarrow> item \<Rightarrow> string option" where
  "validate_export today x =
     (if it_plan x = '''' \<or> it_filename x = '''' \<or> it_source x = '''' \<or> it_format x = ''''
      then Some ''export requires plan_id, filename, source, and format''
      else if it_source x = ''plan'' \<and> it_format x \<noteq> ''json'' then Some ''plan exports require json''
      else if it_source x \<noteq> ''plan'' \<and> it_source x \<noteq> ''transactions''
        then Some ''unsupported export source''
      else first_err
        [(if it_source x = ''transactions'' then validate_dates today x else None),
         fail_if (it_source x = ''transactions'' \<and> it_format x \<noteq> ''json'' \<and> it_format x \<noteq> ''csv'')
           ''transaction export format must be json or csv'',
         fail_if (path_base (it_filename x) \<noteq> it_filename x \<or> sublist ''..'' (it_filename x) \<or>
             \<not> has_suffix (it_filename x) (''.'' @ it_format x))
           ''filename must be a confined basename with matching extension''])"

definition identity_texts :: "item \<Rightarrow> string list" where
  "identity_texts x = [it_plan x, item_id x, it_account x, it_category x, it_payee x, it_category_group x]"

definition bad_identity :: "string \<Rightarrow> bool" where
  "bad_identity s \<longleftrightarrow>
     s = ''.'' \<or> s = ''..'' \<or>
     contains_any s [CHR ''/'', CHR 0x5C, CHR ''?'', CHR ''#'', CHR 0x0D, CHR 0x0A]"

definition needs_id :: "verb \<Rightarrow> item \<Rightarrow> bool" where
  "needs_id v x \<longleftrightarrow>
     (v = VGet \<or> v = VDelete \<or> v = VUpdate \<and> \<not> (it_type x = ''transaction'' \<and> transaction_lookup x)) \<and>
     item_id x = '''' \<and> it_type x \<noteq> ''plan'' \<and> it_type x \<noteq> ''settings''"

definition validate_item :: "date \<Rightarrow> verb \<Rightarrow> item \<Rightarrow> item_error option" where
  "validate_item today v x =
     (if it_type x = '''' then Some (Message ''type is required'')
      else if list_ex bad_identity (identity_texts x) then Some (Message ''invalid resource identity'')
      else (case validate_payload today v x of
        Some m \<Rightarrow> Some (Message m)
      | None \<Rightarrow>
          if it_type x = ''user'' then
            (if v \<noteq> VGet then Some (Unsupported v ''user'' False) else None)
          else if it_type x = ''plan'' \<and> v = VList then None
          else if it_type x = ''export'' then
            (if v \<noteq> VCreate then Some (Message ''export is create-only'')
             else map_option Message (validate_export today x))
          else if it_plan x = '''' then Some (Message ''plan_id is required'')
          else (case route v x of
            Inl e \<Rightarrow> Some e
          | Inr _ \<Rightarrow>
              if needs_id v x then Some (Message ''resource id is required'')
              else if it_type x = ''transaction'' \<and> v = VList then map_option Message (validate_dates today x)
              else if it_type x = ''category'' \<and> it_month x \<noteq> '''' \<and> v = VList
                then Some (Message ''month category requires get or update'')
              else None)))"

section \<open>Split amounts\<close>

definition in_int64 :: "int \<Rightarrow> bool" where
  "in_int64 n \<longleftrightarrow> min_int64 \<le> n \<and> n \<le> max_int64"

lemma split_sum_exact:
  assumes "in_int64 acc" "list_all in_int64 ns" "split_sum acc ns = Some r"
  shows "r = acc + sum_list ns \<and> in_int64 r"
  using assms
proof (induction acc ns rule: split_sum.induct)
  case (2 acc n ns)
  have ok: "\<not> (n > 0 \<and> acc > max_int64 - n \<or> n < 0 \<and> acc < min_int64 - n)"
    using 2(4) by (auto split: if_splits)
  then have "in_int64 (acc + n)" using 2(2,3) by (auto simp: in_int64_def)
  then have "int64 (acc + n) = acc + n" by (simp add: in_int64_def min_int64_def max_int64_def)
  with 2(1)[OF ok] \<open>in_int64 (acc + n)\<close> 2(3,4) ok show ?case by (auto simp: add.assoc)
qed simp

lemma parse_int64_range: "parse_int64 s = Some n \<Longrightarrow> in_int64 n"
  by (auto simp: parse_int64_def Let_def in_int64_def min_int64_def max_int64_def split: if_splits option.splits)

lemma decode_members_invariant:
  assumes "\<And>f d v s. (f, d) \<in> set ms \<Longrightarrow> P s \<Longrightarrow> P (snd (d v s))" "P s"
  shows "P (snd (decode_members ms body s))"
  using assms(2)
proof (induction body arbitrary: s)
  case (Cons kv body)
  obtain k v where kv: "kv = (k, v)" by fastforce
  show ?case
  proof (cases "find_field ms k")
    case None
    with Cons kv show ?thesis by simp
  next
    case (Some d)
    then have "\<exists>f. (f, d) \<in> set ms"
      by (auto simp: find_field_def split: option.splits dest!: map_of_SomeD)
    then have "P (snd (d v s))" using assms(1) Cons.prems by blast
    from Cons.IH[OF this] Some show ?thesis by (simp add: kv case_prod_unfold)
  qed
qed simp

lemma child_amount_range:
  assumes "child_amount j = Some n"
  shows "in_int64 n"
proof -
  have 0: "in_int64 0" by (simp add: in_int64_def min_int64_def max_int64_def)
  have body: "in_int64 (snd (decode_members [int64_field ''amount'' id] body 0))" for body
    by (rule decode_members_invariant[where P = in_int64])
      (auto simp: 0 int64_field_def split: json.splits option.splits intro: parse_int64_range)
  have "in_int64 (snd (decode_struct [int64_field ''amount'' id] (Some j) 0))"
    using body by (cases j) (simp_all add: decode_struct_def 0)
  with assms show ?thesis by (auto simp: child_amount_def split: prod.splits if_splits)
qed

lemma decode_all_range: "decode_all child_amount js = Some ns \<Longrightarrow> list_all in_int64 ns"
  by (induction js arbitrary: ns) (auto split: option.splits dest: child_amount_range)

text \<open>A split adds up.  A create whose split passes the checks has at least one child, its
  category is explicitly null, and the amounts of its children add up to the parent's amount as
  integers: no wrap-around of the 64-bit sum can make an unequal split look equal.\<close>

theorem split_amounts_exact:
  assumes "check_split VCreate ms = None" "lookup_member ''subtransactions'' ms = Some subs"
  shows "\<exists>rows amounts amount. decode_list subs = Some rows \<and> decode_all child_amount rows = Some amounts \<and>
    amounts \<noteq> [] \<and> decode_opt decode_int64 (lookup_member ''amount'' ms) = Some amount \<and>
    sum_list amounts = amount \<and> lookup_member ''category_id'' ms = Some JNull"
proof -
  from assms obtain c cs where d: "Option.bind (decode_list subs) (decode_all child_amount) = Some (c # cs)"
    by (auto simp: check_split_def split: option.splits list.splits)
  from d assms obtain amount where a: "lookup_member ''category_id'' ms = Some JNull"
    "decode_opt decode_int64 (lookup_member ''amount'' ms) = Some amount" "split_sum 0 (c # cs) = Some amount"
    by (auto simp del: split_sum.simps simp: check_split_def split: option.splits if_splits)
  from d obtain rows where r: "decode_list subs = Some rows" "decode_all child_amount rows = Some (c # cs)"
    by (auto simp: Option.bind_eq_Some_conv)
  have "in_int64 0" by (simp add: in_int64_def min_int64_def max_int64_def)
  from split_sum_exact[OF this decode_all_range[OF r(2)] a(3)] r a show ?thesis by auto
qed

theorem split_amounts_exact_witness:
  "\<exists>rows. decode_list (JArr [JObj [(''amount'', JNum ''-5'')], JObj [(''Amount'', JNum ''-7'')]]) = Some rows"
proof -
  let ?subs = "JArr [JObj [(''amount'', JNum ''-5'')], JObj [(''Amount'', JNum ''-7'')]]"
  let ?ms = "[(''amount'', JNum ''-12''), (''category_id'', JNull), (''subtransactions'', ?subs)]"
  have "check_split VCreate ?ms = None" "lookup_member ''subtransactions'' ?ms = Some ?subs" by code_simp+
  from split_amounts_exact[OF this] show ?thesis by blast
qed

section \<open>Confined routes\<close>

definition seg_path :: "string list \<Rightarrow> string" where
  "seg_path segs = concat (map (\<lambda>s. CHR ''/'' # s) segs)"

text \<open>A segment that reads as itself: no separator, query, fragment or blank, and no dot segment.\<close>

definition safe_seg :: "string \<Rightarrow> bool" where
  "safe_seg s \<longleftrightarrow> s \<noteq> ''.'' \<and> s \<noteq> ''..'' \<and> list_all (\<lambda>c. path_plain c \<or> c = CHR ''%'') s"

definition safe_path :: "string \<Rightarrow> bool" where
  "safe_path p \<longleftrightarrow> (\<exists>segs. p = seg_path segs \<and> list_all safe_seg segs)"

text \<open>What the input schema admits as a month: \<^verbatim>\<open>^([0-9]{4}-[0-9]{2}-01|current)$\<close>, or none.\<close>

definition schema_month :: "string \<Rightarrow> bool" where
  "schema_month m \<longleftrightarrow> m = '''' \<or> m = ''current'' \<or>
     (\<exists>y1 y2 y3 y4 m1 m2. m = [y1, y2, y3, y4, CHR ''-'', m1, m2, CHR ''-'', CHR ''0'', CHR ''1''] \<and>
        digits_nat 0 [y1, y2, y3, y4, m1, m2] \<noteq> None)"

lemma upper_hex_plain: "n < 16 \<Longrightarrow> path_plain (upper_hex n)"
  by (auto simp: path_plain_def upper_hex_def Let_def)

lemma escape_char_safe: "list_all (\<lambda>c. path_plain c \<or> c = CHR ''%'') (escape_char c)"
proof -
  have "(of_char c :: nat) div 16 < 16" "(of_char c :: nat) mod 16 < 16"
    using less_mult_imp_div_less[of "of_char c" 16 16] by simp_all
  then show ?thesis by (simp add: escape_char_def upper_hex_plain)
qed

lemma path_escape_chars: "list_all (\<lambda>c. path_plain c \<or> c = CHR ''%'') (path_escape s)"
  by (induction s) (simp_all add: path_escape_def escape_char_safe)

lemma path_escape_id: "CHR ''%'' \<notin> set (path_escape s) \<Longrightarrow> path_escape s = s"
  by (induction s) (auto simp: path_escape_def escape_char_def split: if_splits)

lemma path_escape_safe: "s \<noteq> ''.'' \<Longrightarrow> s \<noteq> ''..'' \<Longrightarrow> safe_seg (path_escape s)"
  using path_escape_id[of s] path_escape_chars[of s] by (auto simp: safe_seg_def)

lemma schema_month_safe: "schema_month m \<Longrightarrow> safe_seg (path_escape m)"
  by (rule path_escape_safe) (auto simp: schema_month_def)

lemma identities_safe:
  assumes "validate_item today v x = None"
  shows "safe_seg (path_escape (it_plan x))" "safe_seg (path_escape (item_id x))"
    "safe_seg (path_escape (it_account x))" "safe_seg (path_escape (it_category x))"
    "safe_seg (path_escape (it_payee x))"
proof -
  have "\<not> list_ex bad_identity (identity_texts x)"
    using assms by (auto simp: validate_item_def split: if_splits)
  then have "list_all (\<lambda>s. s \<noteq> ''.'' \<and> s \<noteq> ''..'') (identity_texts x)"
    by (auto simp: list_all_iff list_ex_iff bad_identity_def)
  then show "safe_seg (path_escape (it_plan x))" "safe_seg (path_escape (item_id x))"
    "safe_seg (path_escape (it_account x))" "safe_seg (path_escape (it_category x))"
    "safe_seg (path_escape (it_payee x))"
    by (auto simp: identity_texts_def intro: path_escape_safe)
qed

lemma resource_base_safe: "safe_seg (resource_base kind)"
proof -
  have "list_all safe_seg ['''', ''accounts'', ''categories'', ''category_groups'', ''payees'',
      ''payee_locations'', ''months'', ''money_movements'', ''money_movement_groups'', ''transactions'',
      ''scheduled_transactions'']" by code_simp
  moreover have "resource_base kind \<in> set ['''', ''accounts'', ''categories'', ''category_groups'', ''payees'',
      ''payee_locations'', ''months'', ''money_movements'', ''money_movement_groups'', ''transactions'',
      ''scheduled_transactions'']" by (simp add: resource_base_def)
  ultimately show ?thesis unfolding list_all_iff by blast
qed

lemma literals_safe:
  "safe_seg ''plans''" "safe_seg ''user''" "safe_seg ''settings''" "safe_seg ''months''" "safe_seg ''accounts''"
  "safe_seg ''categories''" "safe_seg ''payees''" "safe_seg ''transactions''" "safe_seg ''import''"
  "safe_seg ''payee_locations''"
  by code_simp+

lemma safe_pathI: "p = seg_path segs \<Longrightarrow> list_all safe_seg segs \<Longrightarrow> safe_path p"
  by (auto simp: safe_path_def)

lemma plan_paths_safe:
  assumes "safe_seg (path_escape (it_plan x))" "safe_seg a" "safe_seg b" "safe_seg c"
  shows "safe_path (plan_path x '''')" "safe_path (plan_path x (CHR ''/'' # a))"
    "safe_path (plan_path x (CHR ''/'' # a @ CHR ''/'' # b))"
    "safe_path (plan_path x (CHR ''/'' # a @ CHR ''/'' # b @ CHR ''/'' # c))"
proof -
  let ?p = "[''plans'', path_escape (it_plan x)]"
  have "plan_path x '''' = seg_path ?p" "plan_path x (CHR ''/'' # a) = seg_path (?p @ [a])"
    "plan_path x (CHR ''/'' # a @ CHR ''/'' # b) = seg_path (?p @ [a, b])"
    "plan_path x (CHR ''/'' # a @ CHR ''/'' # b @ CHR ''/'' # c) = seg_path (?p @ [a, b, c])"
    by (simp_all add: plan_path_def seg_path_def)
  with assms literals_safe(1) show "safe_path (plan_path x '''')" "safe_path (plan_path x (CHR ''/'' # a))"
    "safe_path (plan_path x (CHR ''/'' # a @ CHR ''/'' # b))"
    "safe_path (plan_path x (CHR ''/'' # a @ CHR ''/'' # b @ CHR ''/'' # c))"
    by (auto intro!: safe_pathI)
qed

lemma plan_literals:
  "plan_path x (''/settings'') = plan_path x (CHR ''/'' # ''settings'')"
  "plan_path x (''/months'') = plan_path x (CHR ''/'' # ''months'')"
  by simp_all

lemma transaction_route_safe:
  assumes "safe_seg (path_escape (it_plan x))" "safe_seg (path_escape (item_id x))"
    "safe_seg (path_escape (it_account x))" "safe_seg (path_escape (it_category x))"
    "safe_seg (path_escape (it_payee x))" "safe_seg (path_escape (it_month x))"
    and "transaction_route v x = Inr r"
  shows "safe_path (op_path r)"
proof -
  note scoped = plan_paths_safe(4)[OF assms(1) _ _ literals_safe(8)]
  have "safe_path (transaction_list_path x)"
    using plan_paths_safe(2)[OF assms(1) literals_safe(8,8,8)]
      scoped[OF literals_safe(5) assms(3)] scoped[OF literals_safe(6) assms(4)]
      scoped[OF literals_safe(7) assms(5)] scoped[OF literals_safe(4) assms(6)]
    by (simp add: transaction_list_path_def Let_def plan_path_def)
  moreover have "safe_path (plan_path x ''/transactions'')"
    "safe_path (plan_path x ''/transactions'' @ ''/import'')"
    "safe_path (plan_path x ''/transactions'' @ ''/'' @ path_escape (item_id x))"
    using plan_paths_safe(2)[OF assms(1) literals_safe(8,8,8)]
      plan_paths_safe(3)[OF assms(1) literals_safe(8,9,8)]
      plan_paths_safe(3)[OF assms(1) literals_safe(8) assms(2) literals_safe(8)]
    by (simp_all add: plan_path_def)
  ultimately show ?thesis using assms(7)
    by (cases v) (auto simp: transaction_route_def Let_def split: if_splits)
qed

lemma plain_route_safe:
  assumes "safe_seg (path_escape (it_plan x))" "safe_seg (path_escape (item_id x))"
    and "plain_route v x = Inr r"
  shows "safe_path (op_path r)"
proof -
  have "safe_path (plan_path x ''/'' @ resource_base (it_type x))"
    "safe_path ((plan_path x ''/'' @ resource_base (it_type x)) @ ''/'' @ path_escape (item_id x))"
    using plan_paths_safe(2,3)[OF assms(1) resource_base_safe assms(2) literals_safe(8)]
    by (simp_all add: plan_path_def)
  then show ?thesis using assms(3)
    by (cases v) (auto simp: plain_route_def unsupported_def Let_def split: if_splits)
qed

text \<open>C40. A route stays where its type puts it.  The provider path of an item that passed the checks
  is a sequence of segments that no separator, query, fragment, blank or dot segment from an
  identity can change, provided the month is one the input schema admits.\<close>

theorem route_confined:
  assumes "validate_item today v x = None" "route v x = Inr r" "schema_month (it_month x)"
  shows "safe_path (op_path r)"
proof -
  note s = identities_safe[OF assms(1)] and m = schema_month_safe[OF assms(3)]
  have "safe_path (plan_path x ''/transactions/import'')" "safe_path ''/user''" "safe_path ''/plans''"
    "safe_path (plan_path x '''')" "safe_path (plan_path x ''/settings'')" "safe_path (plan_path x ''/months'')"
    using plan_paths_safe(3)[OF s(1) literals_safe(8,9,8)] plan_paths_safe(1)[OF s(1) literals_safe(1,1,1)]
      plan_paths_safe(2)[OF s(1) literals_safe(3,1,1)] plan_paths_safe(2)[OF s(1) literals_safe(4,1,1)]
      safe_pathI[of "''/user''" "[''user'']"] safe_pathI[of "''/plans''" "[''plans'']"] literals_safe(1,2)
    by (simp_all add: plan_path_def seg_path_def)
  moreover have "safe_path (plan_path x ''/months/'' @ path_escape (it_month x) @ ''/'' @ resource_base (it_type x))"
    "safe_path (plan_path x ''/'' @ resource_base (it_type x))"
    "safe_path (plan_path x ''/payees/'' @ path_escape (it_payee x) @ ''/payee_locations'')"
    "safe_path (plan_path x ''/months/'' @ path_escape (it_month x))"
    using plan_paths_safe(4)[OF s(1) literals_safe(4) m resource_base_safe]
      plan_paths_safe(2)[OF s(1) resource_base_safe m m]
      plan_paths_safe(4)[OF s(1) literals_safe(7) s(5) literals_safe(10)]
      plan_paths_safe(3)[OF s(1) literals_safe(4) m m]
    by (simp_all add: plan_path_def)
  moreover have "safe_path (plan_path x ''/months/'' @ path_escape (it_month x) @ ''/categories/'' @
      path_escape (it_category x))"
    by (rule safe_pathI[of _ "[''plans'', path_escape (it_plan x), ''months'', path_escape (it_month x),
        ''categories'', path_escape (it_category x)]"])
      (use s(1,4) m literals_safe in \<open>simp_all add: plan_path_def seg_path_def\<close>)
  ultimately show ?thesis
    using assms(2) transaction_route_safe[OF s m] plain_route_safe[OF s(1,2)]
    unfolding route_def unsupported_def by (auto split: if_splits)
qed

theorem route_confined_witness: "safe_path ''/plans/p%20q/months/2026-09-01/transactions''"
proof -
  let ?x = "\<lparr>it_type = ''transaction'', it_plan = ''p q'', it_id = '''', it_transaction = '''', it_account = '''',
     it_category = '''', it_category_group = '''', it_payee = '''', it_payee_location = '''', it_scheduled = '''',
     it_month = ''2026-09-01'', it_since = ''2026-09-01'', it_until = ''2026-09-30'', it_knowledge = None,
     it_filter = '''', it_include_accounts = False, it_data = None, it_source = '''', it_format = '''',
     it_filename = ''''\<rparr>"
  have "validate_item (2026, 9, 1) VList ?x = None" by code_simp
  moreover have "route VList ?x = op ''GET'' ''/plans/p%20q/months/2026-09-01/transactions'' False" by code_simp
  moreover have "schema_month (it_month ?x)" by (simp add: schema_month_def)
  ultimately show ?thesis using route_confined[of "(2026, 9, 1)" VList ?x] by simp
qed

end
