(* ===== verification/YnabResult.thy ===== *)
theory YnabResult
  imports YnabItem "HOL-Library.Char_ord" "HOL-Library.List_Lexorder" "HOL-Library.Multiset"
begin

text \<open>
  The result of one item and what is made of a provider response
  (\<^verbatim>\<open>internal/tools/ynab/projection.go\<close>, \<^verbatim>\<open>transaction_result.go\<close>, \<^verbatim>\<open>response_fit.go\<close>): projection
  into named collections, acknowledgement of a mutation, confirmation of the fields a
  transaction update asked for, and the fit of the whole answer into its size limit.

  Parsing is an argument.  The iteration order over the table of collections, which Go leaves
  open, is an argument too.
\<close>

record artifact =
  af_filename :: string
  af_format :: string
  af_mime :: string
  af_bytes :: nat
  af_location :: string
  af_records :: "nat option"
  af_knowledge :: "int option"
  af_item :: item

record item_result = provider_result +
  ir_index :: nat
  ir_ids :: "string list option"
  ir_dups :: "string list"
  ir_collections :: "(string \<times> json list) list"
  ir_artifact :: "artifact option"
  ir_knowledge :: "int option"
  ir_default_plan :: string
  ir_data :: string

text \<open>A provider failure with the item's index and none of the other fields.\<close>

definition with_index :: "nat \<Rightarrow> provider_result \<Rightarrow> item_result" where
  "with_index i r = provider_result.extend r
     (item_result.fields i None [] [] None None '''' '''')"

definition error_result :: "nat \<Rightarrow> string \<Rightarrow> string \<Rightarrow> string \<Rightarrow> item_result" where
  "error_result i message code recovery =
     with_index i (no_result\<lparr>pr_status := StatusError, pr_error := message, pr_code := code,
       pr_recovery := recovery\<rparr>)"

definition success_result :: "nat \<Rightarrow> item_result" where
  "success_result i = with_index i (no_result\<lparr>pr_status := StatusSuccess\<rparr>)"

definition normalize_result :: "'a provider_result_scheme \<Rightarrow> 'a provider_result_scheme" where
  "normalize_result r =
     (if pr_status r = StatusUncertain
      then r\<lparr>pr_code := ''uncertain_write'', pr_recovery := ''inspect_before_retry''\<rparr> else r)"

section \<open>Records\<close>

definition set_member :: "string \<Rightarrow> json option \<Rightarrow> members \<Rightarrow> members" where
  "set_member k v ms = ms @ [(k, case v of Some j \<Rightarrow> j | None \<Rightarrow> JNull)]"

definition drop_member :: "string \<Rightarrow> members \<Rightarrow> members" where
  "drop_member k ms = filter (\<lambda>(n, v). n \<noteq> k) ms"

text \<open>\<^verbatim>\<open>json.Marshal\<close> of a map sorts its keys.\<close>

definition marshal_map :: "members \<Rightarrow> json" where
  "marshal_map ms =
     JObj (map (\<lambda>k. (k, case lookup_member k ms of Some v \<Rightarrow> v | None \<Rightarrow> JNull))
       (sort (remdups (map fst ms))))"

type_synonym collections = "(string \<times> json list) list"

definition ensure_collection :: "string \<Rightarrow> collections \<Rightarrow> collections" where
  "ensure_collection kind cs = (if map_of cs kind = None then cs @ [(kind, [])] else cs)"

definition append_row :: "string \<Rightarrow> json \<Rightarrow> collections \<Rightarrow> collections" where
  "append_row kind row cs =
     map (\<lambda>(k, rows). (k, if k = kind then rows @ [row] else rows)) (ensure_collection kind cs)"

text \<open>A record is a non-null object.\<close>

definition decode_record :: "json \<Rightarrow> members option" where
  "decode_record j = (case j of JObj ms \<Rightarrow> Some ms | _ \<Rightarrow> None)"

definition plan_extras :: "string list" where
  "plan_extras = [''accounts'', ''category_groups'', ''categories'', ''payees'', ''payee_locations'',
     ''months'', ''transactions'', ''subtransactions'', ''scheduled_transactions'', ''scheduled_subtransactions'']"

text \<open>The nested collection of a kind and the member it comes from.\<close>

definition nested_kind :: "string \<Rightarrow> (string \<times> string) option" where
  "nested_kind kind =
     (if kind = ''category_groups'' \<or> kind = ''months'' then Some (''categories'', ''categories'')
      else if kind = ''transactions'' then Some (''subtransactions'', ''subtransactions'')
      else if kind = ''scheduled_transactions'' then Some (''scheduled_subtransactions'', ''subtransactions'')
      else None)"

text \<open>An absent member and an empty raw message are the same to \<^verbatim>\<open>len\<close>.\<close>

definition link_child :: "string \<Rightarrow> members \<Rightarrow> members \<Rightarrow> members" where
  "link_child kind parent child =
     (if kind = ''transactions'' \<and> \<not> present ''transaction_id'' child
      then set_member ''transaction_id'' (lookup_member ''id'' parent) child
      else if kind = ''scheduled_transactions'' \<and> \<not> present ''scheduled_transaction_id'' child
      then set_member ''scheduled_transaction_id'' (lookup_member ''id'' parent) child
      else if kind = ''category_groups'' \<and> \<not> present ''category_group_id'' child
      then set_member ''category_group_id'' (lookup_member ''id'' parent) child
      else if kind = ''months'' then set_member ''month'' (lookup_member ''month'' parent) child
      else child)"

text \<open>A nested record has a kind without nested collections of its own.\<close>

definition add_leaf :: "string \<Rightarrow> members \<Rightarrow> collections \<Rightarrow> collections" where
  "add_leaf kind ms cs = append_row kind (marshal_map ms) cs"

fun add_children :: "string \<Rightarrow> string \<Rightarrow> members \<Rightarrow> json list \<Rightarrow> collections \<Rightarrow> collections option" where
  "add_children kind nested parent [] cs = Some cs"
| "add_children kind nested parent (row # rows) cs =
     (case decode_record row of
        None \<Rightarrow> None
      | Some child \<Rightarrow>
          add_children kind nested parent rows (add_leaf nested (link_child kind parent child) cs))"

definition add_record :: "string \<Rightarrow> json \<Rightarrow> collections \<Rightarrow> collections option" where
  "add_record kind raw cs =
     (case decode_record raw of
        None \<Rightarrow> None
      | Some ms \<Rightarrow>
          if kind = ''plans''
          then Some (append_row kind (marshal_map (fold drop_member plan_extras ms)) cs)
          else (case nested_kind kind of
            None \<Rightarrow> Some (append_row kind (marshal_map ms) cs)
          | Some (nested, source) \<Rightarrow>
              (case lookup_member source ms of
                 None \<Rightarrow> Some (append_row kind (marshal_map ms) cs)
               | Some value \<Rightarrow>
                   (case decode_list value of
                      None \<Rightarrow> None
                    | Some rows \<Rightarrow>
                        map_option (append_row kind (marshal_map (drop_member source ms)))
                          (add_children kind nested ms rows (ensure_collection nested cs))))))"

section \<open>Projection\<close>

definition provider_collections :: "(string \<times> string) list" where
  "provider_collections =
     [(''plan'', ''plans''), (''user'', ''users''), (''settings'', ''settings''), (''account'', ''accounts''),
      (''category'', ''categories''), (''category_group'', ''category_groups''), (''payee'', ''payees''),
      (''payee_location'', ''payee_locations''), (''month'', ''months''), (''transaction'', ''transactions''),
      (''scheduled_transaction'', ''scheduled_transactions''), (''money_movement'', ''money_movements''),
      (''money_movement_group'', ''money_movement_groups''), (''subtransaction'', ''subtransactions''),
      (''scheduled_subtransaction'', ''scheduled_subtransactions'')]"

text \<open>A projection fails, or panics on an assignment to a nil map.\<close>

datatype project_error = BadResponse | NilMap

definition or_bad :: "'a option \<Rightarrow> project_error + 'a" where
  "or_bad x = (case x of None \<Rightarrow> Inl BadResponse | Some v \<Rightarrow> Inr v)"

text \<open>A null entry of the accounts decodes to the nil map.\<close>

definition decode_entry :: "json \<Rightarrow> members option option" where
  "decode_entry j = (case j of JObj ms \<Rightarrow> Some (Some ms) | JNull \<Rightarrow> Some None | _ \<Rightarrow> None)"

fun add_accounts ::
  "json option \<Rightarrow> members option list \<Rightarrow> collections \<Rightarrow> project_error + collections" where
  "add_accounts plan_id [] cs = Inr cs"
| "add_accounts plan_id (None # rest) cs = Inl NilMap"
| "add_accounts plan_id (Some account # rest) cs =
     (case add_record ''accounts'' (marshal_map (set_member ''plan_id'' plan_id account)) cs of
        None \<Rightarrow> Inl BadResponse
      | Some cs1 \<Rightarrow> add_accounts plan_id rest cs1)"

text \<open>The accounts inside a plan row come out as records of their own.\<close>

definition add_plan_accounts :: "json \<Rightarrow> collections \<Rightarrow> project_error + collections" where
  "add_plan_accounts row cs =
     (case decode_map row of
        None \<Rightarrow> Inl BadResponse
      | Some plan \<Rightarrow>
          (case lookup_member ''accounts'' plan of
             None \<Rightarrow> Inr cs
           | Some accounts \<Rightarrow>
               (case Option.bind (decode_list accounts) (decode_all decode_entry) of
                  None \<Rightarrow> Inl BadResponse
                | Some entries \<Rightarrow>
                    add_accounts (lookup_member ''id'' plan) entries (ensure_collection ''accounts'' cs))))"

fun add_rows :: "string \<Rightarrow> json list \<Rightarrow> collections \<Rightarrow> project_error + collections" where
  "add_rows plural [] cs = Inr cs"
| "add_rows plural (row # rows) cs =
     (case (if plural = ''plans'' then add_plan_accounts row cs else Inr cs) of
        Inl e \<Rightarrow> Inl e
      | Inr cs1 \<Rightarrow>
          (case add_record plural row cs1 of
             None \<Rightarrow> Inl BadResponse | Some cs2 \<Rightarrow> add_rows plural rows cs2))"

fun project_collections ::
  "(string \<times> string) list \<Rightarrow> members \<Rightarrow> collections \<Rightarrow> project_error + collections" where
  "project_collections [] d cs = Inr cs"
| "project_collections ((singular, plural) # rest) d cs =
     (case (case lookup_member singular d of
              None \<Rightarrow> Some cs | Some value \<Rightarrow> add_record plural value cs) of
        None \<Rightarrow> Inl BadResponse
      | Some cs1 \<Rightarrow>
          if singular = plural then project_collections rest d cs1
          else (case lookup_member plural d of
            None \<Rightarrow> project_collections rest d cs1
          | Some value \<Rightarrow>
              (case decode_list value of
                 None \<Rightarrow> Inl BadResponse
               | Some rows \<Rightarrow>
                   (case add_rows plural rows (ensure_collection plural cs1) of
                      Inl e \<Rightarrow> Inl e
                    | Inr cs2 \<Rightarrow> project_collections rest d cs2))))"

text \<open>\<^verbatim>\<open>struct { Data map[string]json.RawMessage }\<close>; a repeated member merges into the map.\<close>

definition envelope_data :: "json \<Rightarrow> members option option" where
  "envelope_data j =
     (case decode_struct [(''data'', \<lambda>v s.
            (case v of JObj ms \<Rightarrow> (True, Some (case s of None \<Rightarrow> ms | Some old \<Rightarrow> old @ ms))
             | JNull \<Rightarrow> (True, None) | _ \<Rightarrow> (False, s)))] (Some j) None
      of (ok, d) \<Rightarrow> if ok then Some d else None)"

definition decode_ids :: "json option \<Rightarrow> string list option option" where
  "decode_ids v =
     (case v of
        None \<Rightarrow> Some None
      | Some JNull \<Rightarrow> Some None
      | Some j \<Rightarrow> map_option Some (Option.bind (decode_list j) (decode_all decode_string)))"

definition decode_default_plan :: "members \<Rightarrow> string option" where
  "decode_default_plan d =
     (case lookup_member ''default_plan'' d of
        None \<Rightarrow> Some ''''
      | Some JNull \<Rightarrow> Some ''''
      | Some j \<Rightarrow> (case decode_struct [string_field ''id'' id (\<lambda>f s. f s)] (Some j) '''' of
          (ok, p) \<Rightarrow> if ok then Some p else None))"

definition decode_knowledge :: "members \<Rightarrow> int option option" where
  "decode_knowledge d =
     (case lookup_member ''server_knowledge'' d of
        None \<Rightarrow> Some None | Some j \<Rightarrow> map_option Some (decode_int64 j))"

definition bad_resource :: "nat \<Rightarrow> item_result" where
  "bad_resource i = error_result i ''provider returned an invalid resource response''
     ''invalid_response'' ''contact_operator''"

text \<open>\<^const>\<open>None\<close> is the panic.\<close>

definition project_provider_result ::
  "(string \<times> string) list \<Rightarrow> (string \<Rightarrow> json option) \<Rightarrow> nat \<Rightarrow> string \<Rightarrow> string list \<Rightarrow>
     item_result option" where
  "project_provider_result order parse i raw expected =
     (case Option.bind (parse raw) envelope_data of
        Some (Some d) \<Rightarrow>
          if expected \<noteq> [] \<and> \<not> list_ex (\<lambda>k. given k d) expected then Some (bad_resource i)
          else (case (decode_default_plan d, decode_knowledge d, decode_ids (lookup_member ''transaction_ids'' d),
                      decode_ids (lookup_member ''duplicate_import_ids'' d)) of
            (Some plan, Some knowledge, Some ids, Some dups) \<Rightarrow>
              (case project_collections order d [] of
                 Inl BadResponse \<Rightarrow> Some (bad_resource i)
               | Inl NilMap \<Rightarrow> None
               | Inr cs \<Rightarrow>
                   Some (if cs = [] \<and> ids = None \<and> dups = None then bad_resource i
                     else (success_result i)\<lparr>ir_ids := ids,
                            ir_dups := (case dups of None \<Rightarrow> [] | Some l \<Rightarrow> l),
                            ir_collections := cs, ir_knowledge := knowledge, ir_default_plan := plan,
                            ir_data := raw\<rparr>))
          | _ \<Rightarrow> Some (bad_resource i))
      | _ \<Rightarrow> Some (bad_resource i))"

section \<open>Acknowledgement\<close>

definition record_id :: "json \<Rightarrow> string option" where
  "record_id j =
     (case decode_struct [string_field ''id'' id (\<lambda>f s. f s)] (Some j) '''' of
        (ok, i) \<Rightarrow> if ok \<and> i \<noteq> '''' then Some i else None)"

definition mutation_kinds :: "string list" where
  "mutation_kinds = [''accounts'', ''categories'', ''category_groups'', ''payees'', ''transactions'',
     ''scheduled_transactions'']"

definition collected_ids :: "collections \<Rightarrow> string list" where
  "collected_ids cs =
     concat (map (\<lambda>kind. case map_of cs kind of None \<Rightarrow> [] | Some rows \<Rightarrow> List.map_filter record_id rows)
       mutation_kinds)"

definition acknowledge :: "item_result \<Rightarrow> item_result" where
  "acknowledge r =
     (let found = (if ir_ids r = None \<or> ir_ids r = Some [] then collected_ids (ir_collections r) else []);
          r1 = (if found \<noteq> [] then r\<lparr>ir_ids := Some found\<rparr> else r)\<lparr>ir_collections := []\<rparr> in
      if pr_status r1 = StatusSuccess \<and> ir_artifact r1 = None \<and> ir_ids r1 = None \<and> ir_dups r1 = []
      then r1\<lparr>pr_status := StatusUncertain, pr_error := ''provider did not return a mutation identity''\<rparr>
      else r1)"

section \<open>Requested values\<close>

text \<open>\<^verbatim>\<open>requestedValueMatches\<close> over decoded values, one function per loop.  \<open>rows_match\<close> drops the rows it
  used; \<open>fields_match\<close> skips a member that a later one of the same name overwrites.\<close>

function (sequential) value_matches :: "json \<Rightarrow> json \<Rightarrow> bool"
  and fields_match :: "members \<Rightarrow> members \<Rightarrow> bool"
  and rows_match :: "json list \<Rightarrow> json list \<Rightarrow> bool"
  and take_row :: "json \<Rightarrow> json list \<Rightarrow> json list option" where
  "value_matches (JObj a) got = (case got of JObj b \<Rightarrow> fields_match a b | _ \<Rightarrow> False)"
| "value_matches (JArr a) got =
     (case got of JArr b \<Rightarrow> length a = length b \<and> rows_match a b | _ \<Rightarrow> False)"
| "value_matches (JNum a) got =
     (case got of
        JNum b \<Rightarrow> (case (parse_number a, parse_number b) of
          (Some x, Some y) \<Rightarrow> same_number x y | _ \<Rightarrow> False)
      | _ \<Rightarrow> False)"
| "value_matches want got = (want = got)"
| "fields_match [] b = True"
| "fields_match ((k, v) # rest) b =
     (if k \<in> fst ` set rest then fields_match rest b
      else (case lookup_member k b of
        None \<Rightarrow> False
      | Some w \<Rightarrow> value_matches v w \<and> fields_match rest b))"
| "rows_match [] b = True"
| "rows_match (v # rest) b =
     (case take_row v b of None \<Rightarrow> False | Some b' \<Rightarrow> rows_match rest b')"
| "take_row v [] = None"
| "take_row v (w # ws) =
     (if value_matches v w then Some ws else map_option ((#) w) (take_row v ws))"
  by pat_completeness auto

termination by size_change

text \<open>What a match promises: the wanted members are covered, wanted rows are covered by different
  rows, numbers are equal as numbers.\<close>

inductive covers :: "json \<Rightarrow> json \<Rightarrow> bool" where
  covers_obj:
    "(\<And>k v. lookup_member k a = Some v \<Longrightarrow> \<exists>w. lookup_member k b = Some w \<and> covers v w) \<Longrightarrow>
       covers (JObj a) (JObj b)"
| covers_arr: "list_all2 covers a ys \<Longrightarrow> mset ys = mset b \<Longrightarrow> covers (JArr a) (JArr b)"
| covers_num:
    "parse_number a = Some x \<Longrightarrow> parse_number b = Some y \<Longrightarrow> same_number x y \<Longrightarrow> covers (JNum a) (JNum b)"
| covers_null: "covers JNull JNull"
| covers_bool: "covers (JBool p) (JBool p)"
| covers_str: "covers (JStr s) (JStr s)"

lemma lookup_member_Nil [simp]: "lookup_member k [] = None"
  by (simp add: lookup_member_def)

lemma lookup_member_Cons:
  "lookup_member k ((n, v) # ms) = (case lookup_member k ms of Some w \<Rightarrow> Some w | None \<Rightarrow> if k = n then Some v else None)"
  by (auto simp: lookup_member_def map_add_def split: option.splits)

lemma lookup_member_None: "lookup_member k ms = None \<longleftrightarrow> k \<notin> fst ` set ms"
  by (simp add: lookup_member_def map_of_eq_None_iff)

lemma matches_cover:
  "value_matches want got \<Longrightarrow> covers want got"
  "fields_match a b \<Longrightarrow> lookup_member k a = Some v \<Longrightarrow> \<exists>w. lookup_member k b = Some w \<and> covers v w"
  "rows_match ws rs \<Longrightarrow> \<exists>ys. list_all2 covers ws ys \<and> mset ys \<subseteq># mset rs"
  "take_row u rs = Some left \<Longrightarrow> \<exists>w. covers u w \<and> mset rs = add_mset w (mset left)"
proof (induction want got and a b and ws rs and u rs arbitrary: and k v and and left
    rule: value_matches_fields_match_rows_match_take_row.induct)
  case (1 a got)
  then show ?case by (cases got) (auto intro!: covers_obj)
next
  case (2 a got)
  then obtain b where b: "got = JArr b" "length a = length b" "rows_match a b" by (cases got) auto
  with 2 obtain ys where ys: "list_all2 covers a ys" "mset ys \<subseteq># mset b" by blast
  then have "size (mset ys) = size (mset b)" using b(2) by (simp add: list_all2_lengthD)
  with ys(2) have "mset ys = mset b" by (metis mset_subset_size subset_mset.le_imp_less_or_eq nat_less_le)
  with ys b show ?case by (auto intro: covers_arr)
next
  case (3 a got)
  then show ?case by (cases got) (auto intro: covers_num split: option.splits)
next
  case "4_1"
  then show ?case by (auto intro: covers_null)
next
  case "4_2"
  then show ?case by (auto intro: covers_bool)
next
  case "4_3"
  then show ?case by (auto intro: covers_str)
next
  case (5 b)
  then show ?case by simp
next
  case (6 n u rest b)
  show ?case
  proof (cases "n \<in> fst ` set rest")
    case True
    then have "lookup_member n rest \<noteq> None" by (simp add: lookup_member_None)
    with True 6 show ?thesis
      by (auto simp: lookup_member_Cons split: option.splits if_splits)
  next
    case False
    with 6(4) obtain w where "lookup_member n b = Some w" "value_matches u w" "fields_match rest b"
      by (auto split: option.splits)
    with False 6 show ?thesis
      by (auto simp: lookup_member_Cons lookup_member_None[symmetric] split: option.splits if_splits)
  qed
next
  case (7 b)
  then show ?case by auto
next
  case (8 u rest b)
  then obtain b' where b': "take_row u b = Some b'" "rows_match rest b'" by (auto split: option.splits)
  with 8 obtain w ys where "covers u w" "mset b = add_mset w (mset b')" "list_all2 covers rest ys"
    "mset ys \<subseteq># mset b'"
    by blast
  then show ?case by (intro exI[of _ "w # ys"]) simp
next
  case (9 u)
  then show ?case by simp
next
  case (10 u w ws)
  then show ?case by (auto split: if_splits)
qed

section \<open>Confirming a transaction update\<close>

definition requested_json_matches :: "json option \<Rightarrow> json option \<Rightarrow> bool" where
  "requested_json_matches want got =
     (case (want, got) of (Some a, Some b) \<Rightarrow> value_matches a b | _ \<Rightarrow> False)"

fun comma_list :: "string list \<Rightarrow> string" where
  "comma_list [] = ''''"
| "comma_list [s] = s"
| "comma_list (s # t # ss) = s @ '', '' @ comma_list (t # ss)"

definition unconfirmed_transaction :: "item_result \<Rightarrow> string list \<Rightarrow> item_result" where
  "unconfirmed_transaction r missing =
     acknowledge (r\<lparr>pr_status := StatusUncertain,
       pr_error := ''provider did not apply or confirm requested fields: '' @
         comma_list missing @ ''; other fields may have changed''\<rparr>)"

record transaction_envelope =
  te_one :: "json option"
  te_many :: "json list"

definition transaction_candidates :: "json \<Rightarrow> json list option" where
  "transaction_candidates j =
     (case decode_struct [(''data'', \<lambda>v s. decode_struct
            [raw_field ''transaction'' te_one_update, raw_list_field ''transactions'' te_many_update] (Some v) s)]
          (Some j) \<lparr>te_one = None, te_many = []\<rparr>
      of (ok, e) \<Rightarrow> if ok then Some (te_many e @ (case te_one e of None \<Rightarrow> [] | Some t \<Rightarrow> [t])) else None)"

definition member_text :: "string \<Rightarrow> members \<Rightarrow> string" where
  "member_text k ms = (case decode_opt decode_string (lookup_member k ms) of Some s \<Rightarrow> s | None \<Rightarrow> '''')"

definition same_transaction :: "string \<Rightarrow> string \<Rightarrow> members \<Rightarrow> bool" where
  "same_transaction own import record \<longleftrightarrow>
     own \<noteq> '''' \<and> member_text ''id'' record = own \<or>
     own = '''' \<and> import \<noteq> '''' \<and> member_text ''import_id'' record = import"

fun find_transaction :: "string \<Rightarrow> string \<Rightarrow> json list \<Rightarrow> members option" where
  "find_transaction own import [] = None"
| "find_transaction own import (row # rows) =
     (case decode_map row of
        None \<Rightarrow> find_transaction own import rows
      | Some record \<Rightarrow>
          if same_transaction own import record then Some record
          else find_transaction own import rows)"

definition checked_fields :: "members \<Rightarrow> string list" where
  "checked_fields requested =
     filter (\<lambda>k. present k requested) [''date'', ''amount'', ''category_id'', ''subtransactions'']"

definition confirm_transaction_fields ::
  "(string \<Rightarrow> json option) \<Rightarrow> item \<Rightarrow> item_result \<Rightarrow> item_result" where
  "confirm_transaction_fields parse x r =
     (case decode_opt decode_map (it_data x) of
        None \<Rightarrow> r
      | Some requested \<Rightarrow>
          (let checked = checked_fields requested in
           if checked = [] \<or> pr_status r \<noteq> StatusSuccess then r
           else (case Option.bind (parse (ir_data r)) transaction_candidates of
              None \<Rightarrow> unconfirmed_transaction r checked
            | Some candidates \<Rightarrow>
                (case transaction_identity x of
                   (own, import) \<Rightarrow>
                     (case find_transaction own import candidates of
                        None \<Rightarrow> unconfirmed_transaction r checked
                      | Some actual \<Rightarrow>
                          (let missing = filter (\<lambda>k. \<not> requested_json_matches
                                 (lookup_member k requested) (lookup_member k actual)) checked in
                           if missing \<noteq> [] then unconfirmed_transaction r missing else r))))))"

lemma unconfirmed_status [simp]: "pr_status (unconfirmed_transaction r ms) = StatusUncertain"
  by (simp add: unconfirmed_transaction_def acknowledge_def Let_def)

lemma find_transaction_sound:
  "find_transaction own import rows = Some ms \<Longrightarrow>
     (\<exists>row \<in> set rows. decode_map row = Some ms) \<and> same_transaction own import ms"
  by (induction own import rows rule: find_transaction.induct) (auto split: option.splits if_splits)

text \<open>C39. A confirmed update was applied.  When an update keeps its success, the provider's answer
  holds a record with the item's identity that covers every checked field the item asked for:
  members by name, numbers as numbers, and the rows of a split by different rows.\<close>

theorem confirmed_update_covers:
  assumes "confirm_transaction_fields parse x r = r'" "pr_status r' = StatusSuccess"
    and "decode_opt decode_map (it_data x) = Some requested"
    and "k \<in> set (checked_fields requested)" "lookup_member k requested = Some want"
  shows "\<exists>j rows row record got. parse (ir_data r) = Some j \<and> transaction_candidates j = Some rows \<and>
    row \<in> set rows \<and> decode_map row = Some record \<and>
    same_transaction (fst (transaction_identity x)) (snd (transaction_identity x)) record \<and>
    lookup_member k record = Some got \<and> covers want got"
proof -
  have ne: "checked_fields requested \<noteq> []" using assms(4) by auto
  obtain own import where id: "transaction_identity x = (own, import)" by fastforce
  have "pr_status r = StatusSuccess"
    using assms(1,2,3) ne by (auto simp: confirm_transaction_fields_def Let_def split: if_splits)
  with assms(1,2,3) ne id obtain rs actual where
      rs: "Option.bind (parse (ir_data r)) transaction_candidates = Some rs"
    and found: "find_transaction own import rs = Some actual"
    and all: "filter (\<lambda>k. \<not> requested_json_matches (lookup_member k requested) (lookup_member k actual))
        (checked_fields requested) = []"
    by (auto simp: confirm_transaction_fields_def Let_def split: option.splits if_splits)
  from all assms(4,5) have "requested_json_matches (Some want) (lookup_member k actual)"
    by (auto simp: filter_empty_conv)
  then obtain got where "lookup_member k actual = Some got" "value_matches want got"
    by (auto simp: requested_json_matches_def split: option.splits)
  moreover from rs obtain j where "parse (ir_data r) = Some j" "transaction_candidates j = Some rs"
    by (auto simp: Option.bind_eq_Some_conv)
  ultimately show ?thesis using find_transaction_sound[OF found] matches_cover(1) id by fastforce
qed

theorem confirmed_update_covers_witness:
  "\<exists>record got. same_transaction ''t'' '''' record \<and> lookup_member ''amount'' record = Some got \<and> covers (JNum ''5'') got"
proof -
  let ?parse = "\<lambda>s. Some (JObj [(''data'', JObj [(''transactions'',
      JArr [JObj [(''id'', JStr ''u'')], JObj [(''id'', JStr ''t''), (''amount'', JNum ''50e-1'')]])])])"
  let ?x = "\<lparr>it_type = ''transaction'', it_plan = ''p'', it_id = '''', it_transaction = ''t'', it_account = '''',
     it_category = '''', it_category_group = '''', it_payee = '''', it_payee_location = '''', it_scheduled = '''',
     it_month = '''', it_since = '''', it_until = '''', it_knowledge = None,
     it_filter = '''', it_include_accounts = False, it_data = Some (JObj [(''amount'', JNum ''5'')]),
     it_source = '''', it_format = '''', it_filename = ''''\<rparr>"
  have "confirm_transaction_fields ?parse ?x (success_result 0) = success_result 0"
    "pr_status (success_result 0) = StatusSuccess" "decode_opt decode_map (it_data ?x) = Some [(''amount'', JNum ''5'')]"
    "''amount'' \<in> set (checked_fields [(''amount'', JNum ''5'')])"
    "lookup_member ''amount'' [(''amount'', JNum ''5'')] = Some (JNum ''5'')" "transaction_identity ?x = (''t'', '''')"
    by code_simp+
  with confirmed_update_covers[of ?parse ?x "success_result 0" "success_result 0" "[(''amount'', JNum ''5'')]"
      "''amount''" "JNum ''5''"]
  show ?thesis by auto
qed

text \<open>Rows are taken greedily, so a covered request can still be refused.\<close>

lemma greedy_refuses_covered:
  assumes "want = JArr [JObj [(''amount'', JNum ''5'')], JObj [(''amount'', JNum ''5''), (''memo'', JStr ''x'')]]"
    and "got = JArr [JObj [(''amount'', JNum ''5''), (''memo'', JStr ''x'')], JObj [(''amount'', JNum ''5'')]]"
  shows "covers want got \<and> \<not> value_matches want got"
proof -
  have row: "covers j j'" if "value_matches j j'" for j j' using matches_cover(1) that by blast
  have "covers (JObj [(''amount'', JNum ''5'')]) (JObj [(''amount'', JNum ''5'')])"
    "covers (JObj [(''amount'', JNum ''5''), (''memo'', JStr ''x'')]) (JObj [(''amount'', JNum ''5''), (''memo'', JStr ''x'')])"
    by (rule row, code_simp)+
  then have "covers want got" unfolding assms
    by (intro covers_arr[where ys = "[JObj [(''amount'', JNum ''5'')], JObj [(''amount'', JNum ''5''), (''memo'', JStr ''x'')]]"])
      (simp_all add: add_mset_commute)
  moreover have "\<not> value_matches want got" unfolding assms by code_simp
  ultimately show ?thesis by blast
qed

section \<open>The answer of a batch\<close>

definition max_result_bytes :: nat where "max_result_bytes = 192 * 1024"
definition result_envelope_reserve :: nat where "result_envelope_reserve = 8 * 1024"

text \<open>\<open>row_size\<close> is the length of a row's text and \<open>answer_size\<close> that of the encoded answer, if it can
  be encoded.  The answer is an error when an item is not a success, or when \<open>forced\<close>.\<close>

definition failed_answer :: "item_result list \<Rightarrow> bool" where
  "failed_answer rs \<longleftrightarrow> list_ex (\<lambda>r. pr_status r \<noteq> StatusSuccess) rs"

definition too_large_result :: "bool \<Rightarrow> item_result \<Rightarrow> item_result" where
  "too_large_result mutation r =
     (if pr_status r = NotAttempted then r
      else normalize_result
        ((error_result (ir_index r)
           (if mutation
            then ''provider operation was dispatched but its result cannot be delivered within the response limit; do not replay automatically''
            else ''result exceeds 192 KiB; narrow the dates or scope, reduce the batch, or request a file export'')
           ''response_too_large'' ''fix_request'')
         \<lparr>pr_status := (if mutation then StatusUncertain else StatusError)\<rparr>))"

definition finish_output ::
  "(json \<Rightarrow> nat) \<Rightarrow> (item_result list \<Rightarrow> nat option) \<Rightarrow> item_result list \<Rightarrow> bool \<Rightarrow>
     bool \<times> item_result list" where
  "finish_output row_size answer_size rs0 mutation =
     (let rs = map normalize_result rs0;
          limit = max_result_bytes - result_envelope_reserve;
          size = sum_list (map (\<lambda>r. sum_list (map (\<lambda>(k, rows). sum_list (map row_size rows)) (ir_collections r))) rs);
          large = (size > limit \<or> (case answer_size rs of None \<Rightarrow> True | Some n \<Rightarrow> n > limit))
      in if large then (True, map (too_large_result mutation) rs) else (failed_answer rs, rs))"

lemma normalize_simps [simp]:
  "pr_status (normalize_result r) = pr_status r" "ir_index (normalize_result r) = ir_index r"
  by (simp_all add: normalize_result_def)

end
