(* ===== verification/YnabDispatch.thy ===== *)
theory YnabDispatch
  imports YnabQuota TraceIO
begin

text \<open>
  The provider's only HTTP attempt boundary (\<^verbatim>\<open>internal/tools/ynab/reliability.go\<close>): one call of
  \<^verbatim>\<open>dispatch\<close> takes a provider slot, reserves an allowance, sends, classifies the answer, gives
  the slot back, records the outcome and decides whether the attempt may be repeated.

  The operations are state transformers over the shared database and the trace of what the call
  did.  Everything the call can only look is read from a schedule, at successive moments: the
  clock, the state of the caller's context, the answers of the network, the failing statements,
  and what other calls did to the shared database since the last look.  Delays are compared as
  exact integers; \<^verbatim>\<open>Time.Sub\<close> saturates, which cannot change a comparison with a delay of at most
  a second.
\<close>

definition read_attempts :: nat where "read_attempts = 2"
definition retry_cap :: int where "retry_cap = nanos_second"
definition max_provider_bytes :: nat where "max_provider_bytes = 32 * 1024 * 1024"

definition transient_status :: "int \<Rightarrow> bool" where
  "transient_status status \<longleftrightarrow> status \<in> {408, 500, 502, 503, 504}"

section \<open>Retry-After\<close>

text \<open>\<^verbatim>\<open>strconv.ParseUint(value, 10, 32)\<close>\<close>

definition decimal_value :: "string \<Rightarrow> nat" where
  "decimal_value s = foldl (\<lambda>n c. 10 * n + (of_char c - 48)) 0 s"

definition parse_uint32 :: "string \<Rightarrow> nat option" where
  "parse_uint32 s =
     (if s \<noteq> '''' \<and> list_all (\<lambda>c. 48 \<le> (of_char c :: nat) \<and> of_char c \<le> (57 :: nat)) s
         \<and> decimal_value s < 2 ^ 32
      then Some (decimal_value s) else None)"

text \<open>The date formats of the standard library: \<^verbatim>\<open>http.ParseTime\<close>, and \<^verbatim>\<open>time.Parse\<close> followed by
  \<^verbatim>\<open>Format\<close> with the layout RFC 1123.\<close>

record http_dates =
  hd_parse :: "string \<Rightarrow> int option"
  hd_rfc1123 :: "string \<Rightarrow> string option"

definition retry_time :: "http_dates \<Rightarrow> string \<Rightarrow> int \<Rightarrow> int option" where
  "retry_time dates value0 now =
     (let value = trim_space value0 in
      if value = '''' then None
      else (case parse_uint32 value of
        Some seconds \<Rightarrow> Some (now + int seconds * nanos_second)
      | None \<Rightarrow> (case hd_parse dates value of
          Some at \<Rightarrow> if int64 at \<noteq> at then None else Some (if at < now then now else at)
        | None \<Rightarrow> None)))"

definition retry_after :: "http_dates \<Rightarrow> string \<Rightarrow> string" where
  "retry_after dates value =
     (case parse_uint32 value of
        Some n \<Rightarrow> utoa n
      | None \<Rightarrow> (case hd_rfc1123 dates value of Some d \<Rightarrow> d | None \<Rightarrow> ''''))"

section \<open>Results of an attempt\<close>

definition canceled_result :: "bool \<Rightarrow> bool \<Rightarrow> provider_result" where
  "canceled_result dispatched write =
     (let r0 = no_result\<lparr>pr_status := NotAttempted, pr_error := ''call canceled before dispatch'',
                pr_code := ''canceled'', pr_recovery := ''retry_read''\<rparr>;
          r1 = (if dispatched
                then r0\<lparr>pr_status := StatusError, pr_error := ''provider call canceled''\<rparr> else r0);
          r2 = (if write then r1\<lparr>pr_recovery := ''fix_request''\<rparr> else r1)
      in if write \<and> dispatched
         then r2\<lparr>pr_status := StatusUncertain, pr_code := ''uncertain_write'',
                 pr_recovery := ''inspect_before_retry''\<rparr>
         else r2)"

definition provider_failure :: "string \<Rightarrow> string \<Rightarrow> int \<Rightarrow> bool \<Rightarrow> bool \<Rightarrow> provider_result" where
  "provider_failure code message status write ambiguous =
     (let r = no_result\<lparr>pr_status := StatusError, pr_error := message, pr_code := code,
                pr_http := status, pr_recovery :=
                  (if code = ''authentication'' \<or> code = ''permission'' then ''fix_credentials''
                   else if code = ''upstream_unavailable'' then ''retry_read''
                   else if code = ''invalid_response'' \<or> code = ''local_state'' then ''contact_operator''
                   else ''fix_request'')\<rparr>
      in if write \<and> ambiguous
         then r\<lparr>pr_status := StatusUncertain, pr_code := ''uncertain_write'',
                pr_recovery := ''inspect_before_retry''\<rparr>
         else r)"

section \<open>The call and its schedule\<close>

text \<open>A response whose body breaks off does so after \<open>hr_broken\<close> bytes.\<close>

record http_response =
  hr_status :: int
  hr_retry_after :: string
  hr_body :: string
  hr_broken :: "nat option"

datatype dispatch_event =
    TookSlot | GaveSlot
  | Reserved attempt_permit quota_db
  | Sent "string \<times> string" attempt_permit "http_response option"
  | Recorded attempt_permit attempt_outcome bool
  | Slept int
  | TookExport | GaveExport
  | Staged string | Wrote string string | Published string string | Removed string

record dispatch_env =
  de_open :: bool
  de_now :: "nat \<Rightarrow> int"
  de_cancelled :: "nat \<Rightarrow> bool"
  de_slot :: "nat \<Rightarrow> bool"
  de_others :: "nat \<Rightarrow> quota_db \<Rightarrow> quota_db"
  de_fault :: "nat \<Rightarrow> sql_step \<Rightarrow> bool"
  de_answer :: "nat \<Rightarrow> http_response option"
  de_jitter :: "nat \<Rightarrow> int"
  de_deadline :: "nat \<Rightarrow> int option"
  de_slept :: "nat \<Rightarrow> bool"
  de_dates :: http_dates

record dispatch_world = "dispatch_event ticked" +
  dw_db :: quota_db

type_synonym 'a dispatch_io = "(dispatch_world, 'a) state"

text \<open>A transaction on the shared database sees what the other calls committed before it.\<close>

definition transact :: "dispatch_env \<Rightarrow> ((sql_step \<Rightarrow> bool) \<Rightarrow> quota_db \<Rightarrow> 'a \<times> quota_db) \<Rightarrow> 'a dispatch_io" where
  "transact e body = State (\<lambda>w.
     (case body (de_fault e (tk_tick w)) (de_others e (tk_tick w) (dw_db w)) of
        (r, db) \<Rightarrow> (r, w\<lparr>tk_tick := tk_tick w + 1, dw_db := db\<rparr>)))"

definition reserve_slot ::
  "dispatch_env \<Rightarrow> string \<Rightarrow> string \<Rightarrow> (attempt_permit \<times> provider_result) dispatch_io" where
  "reserve_slot e token family = do {
     now \<leftarrow> look (de_now e);
     (p, denial) \<leftarrow> transact e (\<lambda>fault. quota_reserve fault token family now);
     db \<leftarrow> State_Monad.get;
     (if pr_status denial = StatusNone then emit (Reserved p (dw_db db)) else State_Monad.return ());
     State_Monad.return (p, denial)
   }"

definition finish_attempt ::
  "dispatch_env \<Rightarrow> attempt_permit \<Rightarrow> attempt_outcome \<Rightarrow> int option \<Rightarrow> int option \<Rightarrow>
     (unit + int option) dispatch_io" where
  "finish_attempt e p outcome family_until token_until = do {
     now \<leftarrow> look (de_now e);
     r \<leftarrow> transact e (\<lambda>fault. quota_record fault p outcome now family_until token_until);
     emit (Recorded p outcome (\<not> isl r));
     State_Monad.return r
   }"

section \<open>Reading an answer\<close>

text \<open>The body, the failure, whether it is transient, the delay asked for and the token's
  cooldown.  A nil body is the empty string.\<close>

type_synonym reading = "string \<times> provider_result \<times> bool \<times> int option \<times> int option"

definition read_body :: "http_response \<Rightarrow> string option" where
  "read_body resp =
     (case hr_broken resp of
        Some k \<Rightarrow> if k \<le> max_provider_bytes then None
                  else Some (take (max_provider_bytes + 1) (hr_body resp))
      | None \<Rightarrow> Some (take (max_provider_bytes + 1) (hr_body resp)))"

definition status_code :: "int \<Rightarrow> string" where
  "status_code status =
     (if status = 401 then ''authentication''
      else if status = 403 then ''permission''
      else if status = 404 then ''not_found''
      else if status = 409 then ''conflict''
      else if status \<ge> 500 \<or> status = 408 then ''upstream_unavailable''
      else ''invalid_request'')"

definition read_rate_limited ::
  "dispatch_env \<Rightarrow> http_response \<Rightarrow> int option \<Rightarrow> reading dispatch_io" where
  "read_rate_limited e resp hint0 = do {
     hint1 \<leftarrow> (case hint0 of
        Some h \<Rightarrow> State_Monad.return h
      | None \<Rightarrow> do { n \<leftarrow> look (de_now e); State_Monad.return (n + quota_window) });
     n1 \<leftarrow> look (de_now e);
     hint \<leftarrow> (if hint1 < n1 + nanos_second
       then do { n2 \<leftarrow> look (de_now e); State_Monad.return (n2 + nanos_second) }
       else State_Monad.return hint1);
     State_Monad.return ('''',
       (wait_result ''rate_limited'' hint)\<lparr>pr_status := StatusError, pr_http := 429,
          pr_retry_after := retry_after (de_dates e) (hr_retry_after resp)\<rparr>,
       False, Some hint, Some hint)
   }"

definition read_success ::
  "dispatch_env \<Rightarrow> bool \<Rightarrow> http_response \<Rightarrow> int option \<Rightarrow> reading dispatch_io" where
  "read_success e write resp hint =
     (case read_body resp of
        None \<Rightarrow> do {
          c \<leftarrow> look (de_cancelled e);
          State_Monad.return ('''', provider_failure ''upstream_unavailable''
            ''provider response did not complete'' (hr_status resp) write True, \<not> c, hint, None) }
      | Some raw \<Rightarrow>
          State_Monad.return (raw,
            (if length raw > max_provider_bytes
             then provider_failure ''response_too_large'' ''provider response exceeds 32 MiB''
                    (hr_status resp) write True
             else no_result), False, hint, None))"

definition read_answer ::
  "dispatch_env \<Rightarrow> bool \<Rightarrow> http_response option \<Rightarrow> reading dispatch_io" where
  "read_answer e write answer =
     (case answer of
        None \<Rightarrow> do {
          c \<leftarrow> look (de_cancelled e);
          State_Monad.return ('''', provider_failure ''upstream_unavailable''
            ''provider request did not complete'' 0 write True, \<not> c, None, None) }
      | Some resp \<Rightarrow> do {
          n \<leftarrow> look (de_now e);
          let hint = retry_time (de_dates e) (hr_retry_after resp) n;
          (if hr_status resp = 429 then read_rate_limited e resp hint
           else if hr_status resp < 200 \<or> hr_status resp > 299 then
             State_Monad.return ('''', provider_failure (status_code (hr_status resp))
               (''provider returned HTTP '' @ itoa (hr_status resp)) (hr_status resp) write
               (hr_status resp \<ge> 500 \<or> hr_status resp = 408),
               transient_status (hr_status resp), hint, None)
           else read_success e write resp hint) })"

section \<open>Attempts\<close>

text \<open>What follows a recorded attempt: the answer of the call, or \<^const>\<open>None\<close> for another attempt.\<close>

definition after_attempt ::
  "dispatch_env \<Rightarrow> bool \<Rightarrow> bool \<Rightarrow> reading \<Rightarrow> (unit + int option) \<Rightarrow>
     (string \<times> provider_result) option dispatch_io" where
  "after_attempt e write final rd recorded =
     (case rd of (raw, result, transient, hint, token_until) \<Rightarrow>
       (case recorded of
          Inl _ \<Rightarrow> State_Monad.return (Some ('''', provider_failure ''local_state''
            ''unable to record provider recovery state'' 0 write True))
        | Inr retry_at \<Rightarrow> do {
            c \<leftarrow> look (de_cancelled e);
            (if c then State_Monad.return (Some ('''', canceled_result True write))
             else if pr_status result = StatusNone then State_Monad.return (Some (raw, no_result))
             else if \<not> write \<and> transient \<and> retry_at \<noteq> None then
               State_Monad.return (Some ('''',
                 result\<lparr>pr_recovery := ''wait'', pr_retry_at := rfc3339 (the retry_at)\<rparr>))
             else if write \<or> \<not> transient \<or> final then State_Monad.return (Some ('''', result))
             else do {
               delay0 \<leftarrow> look (de_jitter e);
               delay \<leftarrow> (case hint of
                   None \<Rightarrow> State_Monad.return delay0
                 | Some h \<Rightarrow> do {
                     n1 \<leftarrow> look (de_now e);
                     (if h - n1 > delay0
                      then do { n2 \<leftarrow> look (de_now e); State_Monad.return (h - n2) }
                      else State_Monad.return delay0) });
               (if delay > retry_cap then
                  State_Monad.return (Some ('''',
                    result\<lparr>pr_recovery := ''wait'', pr_retry_at := Option.bind hint rfc3339\<rparr>))
                else do {
                  remaining \<leftarrow> look (de_deadline e);
                  (if (case remaining of Some r \<Rightarrow> r \<le> delay | None \<Rightarrow> False)
                   then State_Monad.return (Some ('''', result))
                   else do {
                     emit (Slept delay);
                     ok \<leftarrow> look (de_slept e);
                     State_Monad.return (if ok then None else Some ('''', canceled_result True False)) }) }) }) }))"

definition send_attempt ::
  "dispatch_env \<Rightarrow> string \<Rightarrow> string \<Rightarrow> bool \<Rightarrow> bool \<Rightarrow> attempt_permit \<Rightarrow>
     (string \<times> provider_result) option dispatch_io" where
  "send_attempt e verb resource write final p = do {
     answer \<leftarrow> look (de_answer e);
     emit (Sent (verb, resource) p answer);
     (raw, result, transient, hint, token_until) \<leftarrow> read_answer e write answer;
     emit GaveSlot;
     c \<leftarrow> look (de_cancelled e);
     recorded \<leftarrow> finish_attempt e p
       (if c then AttemptNeutral else if transient then AttemptTransient else AttemptHealthy)
       (if transient then hint else None) token_until;
     after_attempt e write final (raw, result, transient, hint, token_until) recorded
   }"

definition dispatch_attempt ::
  "dispatch_env \<Rightarrow> string \<Rightarrow> string \<Rightarrow> string \<Rightarrow> nat \<Rightarrow> (string \<times> provider_result) option dispatch_io" where
  "dispatch_attempt e token verb resource attempt = do {
     let write = (verb \<noteq> ''GET'');
     let halted = State_Monad.return (Some ('''', canceled_result (attempt > 0) write));
     c0 \<leftarrow> look (de_cancelled e);
     (if c0 then halted
      else do {
        slot \<leftarrow> look (de_slot e);
        (if \<not> slot then halted
         else do {
           emit TookSlot;
           (p, denial) \<leftarrow> reserve_slot e token (verb @ '':'' @ resource);
           (if pr_status denial \<noteq> StatusNone then do {
              emit GaveSlot;
              c1 \<leftarrow> look (de_cancelled e);
              (if c1 then halted
               else State_Monad.return (Some ('''',
                 if attempt > 0 then denial\<lparr>pr_status := StatusError\<rparr> else denial))) }
            else do {
              c2 \<leftarrow> look (de_cancelled e);
              (if c2 then do {
                 emit GaveSlot;
                 _ \<leftarrow> finish_attempt e p AttemptNeutral None None;
                 halted }
               else send_attempt e verb resource write (attempt + 1 = read_attempts) p) }) }) })
   }"

text \<open>The attempt loop, \<open>left\<close> turns from its bound; running out of turns is the panic of the code.\<close>

fun dispatch_loop ::
  "nat \<Rightarrow> dispatch_env \<Rightarrow> string \<Rightarrow> string \<Rightarrow> string \<Rightarrow> nat \<Rightarrow> (string \<times> provider_result) option dispatch_io" where
  "dispatch_loop 0 e token verb resource attempt = State_Monad.return None"
| "dispatch_loop (Suc left) e token verb resource attempt = do {
     done \<leftarrow> dispatch_attempt e token verb resource attempt;
     (case done of
        Some r \<Rightarrow> State_Monad.return (Some r)
      | None \<Rightarrow> dispatch_loop left e token verb resource (attempt + 1))
   }"

definition dispatch ::
  "dispatch_env \<Rightarrow> string \<Rightarrow> string \<Rightarrow> string \<Rightarrow> (string \<times> provider_result) option dispatch_io" where
  "dispatch e token verb resource = do {
     c \<leftarrow> look (de_cancelled e);
     (if c then State_Monad.return (Some ('''', canceled_result False (verb \<noteq> ''GET'')))
      else if \<not> de_open e then State_Monad.return (Some ('''', state_failure))
      else dispatch_loop read_attempts e token verb resource 0)
   }"

section \<open>Reasoning about the trace\<close>

lemma yields_transact [yields_intro]: "(\<And>x. R x []) \<Longrightarrow> yields (transact e body) R"
  by (simp add: yields_def transact_def split: prod.split)

subsection \<open>The two transactions\<close>

lemma quota_reserve_refused:
  "quota_reserve fault token family now db = ((p, r), db1) \<Longrightarrow> pr_status r = StatusNone \<or> pr_status r = NotAttempted"
  by (auto simp: quota_reserve_def Let_def state_failure_def wait_result_def no_result_def
      split: if_splits prod.splits option.splits)

definition booked :: "string \<Rightarrow> quota_db \<Rightarrow> bool" where
  "booked token db \<longleftrightarrow> (\<exists>rest t. qd_reservations db = rest @ [(token, t)])"

lemma reserve_slot_yields:
  "yields (reserve_slot e token family)
     (\<lambda>(p, r) d. (pr_status r = StatusNone \<longrightarrow> (\<exists>db. d = [Reserved p db] \<and> booked token db)) \<and>
        (pr_status r \<noteq> StatusNone \<longrightarrow> d = [] \<and> pr_status r = NotAttempted))"
  unfolding yields_def
proof
  fix w :: dispatch_world
  obtain p r db where q: "quota_reserve (de_fault e (tk_tick w + 1)) token family (de_now e (tk_tick w))
      (de_others e (tk_tick w + 1) (dw_db w)) = ((p, r), db)"
    by (metis prod.exhaust)
  have "booked token db" if "pr_status r = StatusNone"
    using q by (cases rule: quota_reserve_cases) (use that in \<open>auto simp: booked_def\<close>)
  with quota_reserve_refused[OF q] show "\<exists>d. tk_trace (snd (run_state (reserve_slot e token family) w)) = tk_trace w @ d \<and>
      (case fst (run_state (reserve_slot e token family) w) of (p, r) \<Rightarrow> \<lambda>d.
        (pr_status r = StatusNone \<longrightarrow> (\<exists>db. d = [Reserved p db] \<and> booked token db)) \<and>
        (pr_status r \<noteq> StatusNone \<longrightarrow> d = [] \<and> pr_status r = NotAttempted)) d"
    by (cases "pr_status r = StatusNone")
      (auto simp: reserve_slot_def look_def transact_def emit_def q[simplified] State_Monad.get_def)
qed

lemma finish_attempt_yields:
  "yields (finish_attempt e p oc fu tu) (\<lambda>r d. d = [Recorded p oc (\<not> isl r)])"
  unfolding finish_attempt_def
proof (intro yields_intro, rule yields_bind)
  fix now
  show "yields (transact e (\<lambda>fault. quota_record fault p oc now fu tu)) (\<lambda>r d. yields (State_Monad.bind
      (emit (Recorded p oc (\<not> isl r))) (\<lambda>_. State_Monad.return r))
      (\<lambda>r d'. d @ d' = [Recorded p oc (\<not> isl r)]))"
    by (rule yields_transact, intro yields_intro) simp
qed

subsection \<open>The answer\<close>

lemma read_body_limit:
  "read_body resp = Some raw \<Longrightarrow> length raw \<le> max_provider_bytes \<Longrightarrow> raw = hr_body resp"
  by (auto simp: read_body_def split: option.splits if_splits)

text \<open>What a reading may claim about an answer.\<close>

definition honest_reading :: "bool \<Rightarrow> http_response option \<Rightarrow> reading \<Rightarrow> bool" where
  "honest_reading write answer rd =
     (case rd of (raw, result, transient, hint, token_until) \<Rightarrow>
        pr_status result \<noteq> NotAttempted \<and>
        (pr_status result = StatusNone \<longrightarrow>
           (\<exists>resp. answer = Some resp \<and> 200 \<le> hr_status resp \<and> hr_status resp < 300 \<and>
              raw = hr_body resp \<and> length raw \<le> max_provider_bytes)) \<and>
        (write \<and> pr_status result = StatusError \<longrightarrow>
           (\<exists>resp. answer = Some resp \<and> \<not> (200 \<le> hr_status resp \<and> hr_status resp < 300) \<and>
              hr_status resp < 500 \<and> hr_status resp \<noteq> 408)))"

lemma read_answer_yields:
  "yields (read_answer e write answer) (\<lambda>rd d. d = [] \<and> honest_reading write answer rd)"
proof (cases answer)
  case None
  then show ?thesis
    by (simp add: read_answer_def) (intro yields_intro, simp add: honest_reading_def provider_failure_def Let_def)
next
  case (Some resp)
  have "yields (read_rate_limited e resp hint) (\<lambda>rd d. d = [] \<and> honest_reading write answer rd)"
    if "hr_status resp = 429" for hint
    unfolding read_rate_limited_def
    by (intro yields_intro; use Some that in \<open>simp add: honest_reading_def wait_result_def\<close>)
  moreover have "yields (read_success e write resp hint) (\<lambda>rd d. d = [] \<and> honest_reading write answer rd)"
    if "\<not> (hr_status resp < 200 \<or> hr_status resp > 299)" for hint
    using Some that read_body_limit[of resp]
    unfolding read_success_def
    by (cases "read_body resp"; simp only: option.case; intro yields_intro;
        auto simp: honest_reading_def provider_failure_def no_result_def Let_def)
  ultimately show ?thesis
    unfolding Some read_answer_def option.case Let_def
    by (intro yields_intro) (auto simp: honest_reading_def provider_failure_def Let_def)
qed

subsection \<open>One attempt\<close>

text \<open>The three ways an attempt goes: refused before it holds an allowance, withdrawn with the
  allowance spent, or sent.\<close>

definition halted_result :: "nat \<Rightarrow> (string \<times> provider_result) option \<Rightarrow> bool" where
  "halted_result attempt r \<longleftrightarrow>
     (\<exists>res. r = Some ('''', res) \<and> pr_status res \<noteq> StatusNone \<and>
        (pr_status res = NotAttempted \<longleftrightarrow> attempt = 0))"

definition sent_result ::
  "bool \<Rightarrow> nat \<Rightarrow> http_response option \<Rightarrow> (string \<times> provider_result) option \<Rightarrow> dispatch_event list \<Rightarrow> bool" where
  "sent_result write attempt answer r rest \<longleftrightarrow>
     (rest = [] \<or> (\<exists>t \<le> retry_cap. rest = [Slept t])) \<and>
     (case r of
        None \<Rightarrow> \<not> write \<and> attempt + 1 \<noteq> read_attempts \<and> rest \<noteq> []
      | Some (raw, res) \<Rightarrow> honest_reading write answer (raw, res, False, None, None) \<and>
          (write \<longrightarrow> rest = []))"

definition attempt_shape ::
  "string \<Rightarrow> string \<Rightarrow> string \<Rightarrow> nat \<Rightarrow> (string \<times> provider_result) option \<Rightarrow> dispatch_event list \<Rightarrow> bool" where
  "attempt_shape token verb resource attempt r d \<longleftrightarrow>
     halted_result attempt r \<and> (d = [] \<or> d = [TookSlot, GaveSlot]) \<or>
     halted_result attempt r \<and>
       (\<exists>p db ok. d = [TookSlot, Reserved p db, GaveSlot, Recorded p AttemptNeutral ok]) \<or>
     (\<exists>p db answer outcome ok rest.
        d = [TookSlot, Reserved p db, Sent (verb, resource) p answer, GaveSlot, Recorded p outcome ok] @ rest \<and>
        booked token db \<and> sent_result (verb \<noteq> ''GET'') attempt answer r rest)"

lemma canceled_status [simp]:
  "pr_status (canceled_result sent write) =
     (if \<not> sent then NotAttempted else if write then StatusUncertain else StatusError)"
  by (simp add: canceled_result_def Let_def)

lemma after_attempt_yields:
  assumes "honest_reading write answer rd"
  shows "yields (after_attempt e write (attempt + 1 = read_attempts) rd recorded)
     (sent_result write attempt answer)"
proof -
  obtain raw res transient hint tu where rd: "rd = (raw, res, transient, hint, tu)" by (metis prod.exhaust)
  note h = assms[unfolded rd]
  show ?thesis
  proof (cases recorded)
    case (Inl u)
    then show ?thesis unfolding after_attempt_def rd prod.case sum.case
      by (simp, intro yields_intro)
        (simp add: sent_result_def honest_reading_def provider_failure_def Let_def)
  next
    case (Inr retry_at)
    then show ?thesis unfolding after_attempt_def rd prod.case sum.case
      by (simp only: sum.case, intro yields_intro;
          use h in \<open>auto simp: sent_result_def honest_reading_def no_result_def\<close>)
  qed
qed

lemma send_attempt_yields:
  "yields (send_attempt e verb resource write (attempt + 1 = read_attempts) p)
     (\<lambda>r d. \<exists>answer outcome ok rest.
        d = [Sent (verb, resource) p answer, GaveSlot, Recorded p outcome ok] @ rest \<and>
        sent_result write attempt answer r rest)"
  unfolding send_attempt_def
proof (intro yields_intro, rule yields_then[OF read_answer_yields], simp only: case_prod_unfold,
    intro yields_intro, rule yields_then[OF finish_attempt_yields], rule yields_weaken, rule after_attempt_yields)
  fix answer rd d c r d'
  assume "d = [] \<and> honest_reading write answer rd"
  then show "honest_reading write answer (fst rd, fst (snd rd), fst (snd (snd rd)),
      fst (snd (snd (snd rd))), snd (snd (snd (snd rd))))" by simp
qed auto

lemma reserved_yields:
  assumes "booked token db"
  shows "yields
     (do { c2 \<leftarrow> look (de_cancelled e);
           (if c2 then do {
              emit GaveSlot;
              _ \<leftarrow> finish_attempt e p AttemptNeutral None None;
              State_Monad.return (Some ('''', canceled_result (attempt > 0) (verb \<noteq> ''GET''))) }
            else send_attempt e verb resource (verb \<noteq> ''GET'') (attempt + 1 = read_attempts) p) })
     (\<lambda>r d. attempt_shape token verb resource attempt r (TookSlot # Reserved p db # d))"
proof (rule yields_look_bind, rule yields_if)
  show "yields (do { emit GaveSlot;
              _ \<leftarrow> finish_attempt e p AttemptNeutral None None;
              State_Monad.return (Some ('''', canceled_result (attempt > 0) (verb \<noteq> ''GET''))) })
     (\<lambda>r d. attempt_shape token verb resource attempt r (TookSlot # Reserved p db # d))"
    by (rule yields_emit_bind, rule yields_then[OF finish_attempt_yields], rule yields_return)
      (auto simp: attempt_shape_def halted_result_def)
  show "yields (send_attempt e verb resource (verb \<noteq> ''GET'') (attempt + 1 = read_attempts) p)
     (\<lambda>r d. attempt_shape token verb resource attempt r (TookSlot # Reserved p db # d))"
    by (rule yields_weaken[OF send_attempt_yields]) (use assms in \<open>auto simp: attempt_shape_def\<close>)
qed

lemma dispatch_attempt_yields:
  "yields (dispatch_attempt e token verb resource attempt) (attempt_shape token verb resource attempt)"
proof -
  have halted: "yields (State_Monad.return (Some ('''', canceled_result (attempt > 0) (verb \<noteq> ''GET'')))) R"
    if "\<And>r. halted_result attempt r \<Longrightarrow> R r []" for R
    by (rule yields_return, rule that) (auto simp: halted_result_def)
  have denied: "halted_result attempt (Some ('''', if attempt > 0 then denial\<lparr>pr_status := StatusError\<rparr> else denial))"
    if "pr_status denial = NotAttempted" for denial
    using that by (simp add: halted_result_def)
  show ?thesis
    unfolding dispatch_attempt_def Let_def
  proof (rule yields_look_bind, rule yields_if, goal_cases)
    case 1
    show ?case by (rule halted) (simp add: attempt_shape_def)
  next
    case 2
    show ?case
    proof (rule yields_look_bind, rule yields_if, goal_cases)
      case 1
      show ?case by (rule halted) (simp add: attempt_shape_def)
    next
      case 2
      show ?case
      proof (rule yields_emit_bind, rule yields_then[OF reserve_slot_yields], goal_cases)
        case (1 x d)
        note slot = 1
        obtain p denial where x: "x = (p, denial)" by fastforce
        show ?case
          unfolding x prod.case
        proof (rule yields_if, goal_cases)
          case 1
          with slot x have d: "d = []" "pr_status denial = NotAttempted" by auto
          show ?case
            by (rule yields_emit_bind, rule yields_look_bind, rule yields_if;
                (rule halted | rule yields_return))
              (use d denied in \<open>auto simp: attempt_shape_def\<close>)
        next
          case 2
          with slot x obtain db where "d = [Reserved p db]" "booked token db" by auto
          then show ?case using reserved_yields[of token db] by simp
        qed
      qed
    qed
  qed
qed

section \<open>The call\<close>

text \<open>A call that does not end before its first attempt is one attempt, or a read whose first
  attempt was sent and slept on, and a second.\<close>

definition call_shape ::
  "string \<Rightarrow> string \<Rightarrow> string \<Rightarrow> (string \<times> provider_result) option \<Rightarrow> dispatch_event list \<Rightarrow> bool" where
  "call_shape token verb resource r d \<longleftrightarrow> r \<noteq> None \<and>
     (attempt_shape token verb resource 0 r d \<or>
      (\<exists>d0 d1 p db answer outcome ok t. verb = ''GET'' \<and> d = d0 @ d1 \<and>
         d0 = [TookSlot, Reserved p db, Sent (verb, resource) p answer, GaveSlot, Recorded p outcome ok, Slept t] \<and>
         booked token db \<and> t \<le> retry_cap \<and> attempt_shape token verb resource 1 r d1))"

lemma attempt_again:
  assumes "attempt_shape token verb resource attempt None d"
  obtains p db answer outcome ok t where
    "verb = ''GET''" "attempt + 1 \<noteq> read_attempts" "booked token db" "t \<le> retry_cap"
    "d = [TookSlot, Reserved p db, Sent (verb, resource) p answer, GaveSlot, Recorded p outcome ok, Slept t]"
  using assms by (auto simp: attempt_shape_def halted_result_def sent_result_def)

lemma second_attempt_last: "\<not> attempt_shape token verb resource 1 None d"
proof
  assume "attempt_shape token verb resource 1 None d"
  then show False by (rule attempt_again) (simp add: read_attempts_def)
qed

lemma dispatch_yields: "yields (dispatch e token verb resource) (call_shape token verb resource)"
proof -
  let ?shape = "attempt_shape token verb resource"
  have two: "read_attempts = Suc (Suc 0)" by (simp add: read_attempts_def)
  have second: "yields (dispatch_loop (Suc 0) e token verb resource (0 + 1)) (\<lambda>r d. r \<noteq> None \<and> ?shape 1 r d)"
    unfolding dispatch_loop.simps
  proof (rule yields_then[OF dispatch_attempt_yields], goal_cases)
    case (1 x d)
    with second_attempt_last have "x \<noteq> None" by (metis add_0)
    then obtain y where "x = Some y" by blast
    with 1 show ?case unfolding \<open>x = Some y\<close> option.case by (intro yields_return) simp
  qed
  have first: "yields (dispatch_loop read_attempts e token verb resource 0) (call_shape token verb resource)"
    unfolding two dispatch_loop.simps(2)[of "Suc 0"]
  proof (rule yields_then[OF dispatch_attempt_yields], goal_cases)
    case (1 x d)
    show ?case
    proof (cases x)
      case (Some y)
      with 1 show ?thesis unfolding Some option.case by (intro yields_return) (simp add: call_shape_def)
    next
      case None
      with 1 have "?shape 0 None d" by simp
      then show ?thesis unfolding None option.case
        by (rule attempt_again) (rule yields_weaken[OF second], auto simp: call_shape_def)
    qed
  qed
  show ?thesis
    unfolding dispatch_def
    by (rule yields_look_bind, rule yields_if, rule yields_return, simp add: call_shape_def
        attempt_shape_def halted_result_def, rule yields_if, rule yields_return, simp add: call_shape_def
        attempt_shape_def halted_result_def state_failure_def, rule first)
qed

lemma dispatch_shape:
  assumes "run_state (dispatch e token verb resource) w = (r, w')" "tk_trace w = []"
  shows "call_shape token verb resource r (tk_trace w')"
proof -
  have "\<exists>d. tk_trace (snd (run_state (dispatch e token verb resource) w)) = tk_trace w @ d \<and>
      call_shape token verb resource (fst (run_state (dispatch e token verb resource) w)) d"
    using dispatch_yields unfolding yields_def by blast
  with assms show ?thesis by simp
qed

lemma yields_dispatch_some: "\<exists>raw res. fst (run_state (dispatch e token verb resource) w) = Some (raw, res)"
proof -
  have "\<exists>d. tk_trace (snd (run_state (dispatch e token verb resource) w)) = tk_trace w @ d \<and>
      call_shape token verb resource (fst (run_state (dispatch e token verb resource) w)) d"
    using dispatch_yields unfolding yields_def by blast
  then show ?thesis unfolding call_shape_def by auto
qed

definition sends :: "dispatch_event list \<Rightarrow> dispatch_event list" where
  "sends t = filter (\<lambda>ev. case ev of Sent _ _ _ \<Rightarrow> True | _ \<Rightarrow> False) t"

definition naps :: "dispatch_event list \<Rightarrow> int list" where
  "naps t = List.map_filter (\<lambda>ev. case ev of Slept d \<Rightarrow> Some d | _ \<Rightarrow> None) t"

definition slot_use :: "dispatch_event list \<Rightarrow> int" where
  "slot_use t = int (count_list t TookSlot) - int (count_list t GaveSlot)"

lemmas trace_measures = sends_def naps_def slot_use_def

lemma attempt_measures:
  assumes "attempt_shape token verb resource attempt r d"
  shows "length (sends d) \<le> 1" "\<forall>t \<in> set (naps d). t \<le> retry_cap" "slot_use d = 0"
  using assms by (auto simp: attempt_shape_def sent_result_def trace_measures)

lemma measures_append:
  "sends (t @ u) = sends t @ sends u" "naps (t @ u) = naps t @ naps u" "slot_use (t @ u) = slot_use t + slot_use u"
  by (simp_all add: trace_measures map_filter_def)

text \<open>C31. A call of \<^verbatim>\<open>dispatch\<close> comes back: whatever the clock, the network, the database and the other
  calls do, the bounded attempt loop is left by a return and the panic after it is not reached.\<close>

theorem dispatch_returns: "\<exists>raw res. fst (run_state (dispatch e token verb resource) w) = Some (raw, res)"
  by (rule yields_dispatch_some)

text \<open>C32. Replays are bounded.  One call sends at most two requests, and at most one that is not a GET;
  it never sleeps for more than a second at a time, and it gives back every provider slot it took.\<close>

theorem dispatch_replays_bounded:
  assumes "run_state (dispatch e token verb resource) w = (r, w')" "tk_trace w = []"
  shows "length (sends (tk_trace w')) \<le> (if verb = ''GET'' then 2 else 1) \<and>
    (\<forall>t \<in> set (naps (tk_trace w')). t \<le> nanos_second) \<and> slot_use (tk_trace w') = 0"
  using dispatch_shape[OF assms] unfolding call_shape_def
proof (elim conjE disjE exE)
  assume "attempt_shape token verb resource 0 r (tk_trace w')"
  from attempt_measures[OF this] show ?thesis by (auto simp: retry_cap_def)
next
  fix d0 d1 p db answer outcome ok t
  assume d: "verb = ''GET''" "tk_trace w' = d0 @ d1" "t \<le> retry_cap"
      "d0 = [TookSlot, Reserved p db, Sent (verb, resource) p answer, GaveSlot, Recorded p outcome ok, Slept t]"
    and "attempt_shape token verb resource 1 r d1"
  from attempt_measures[OF this(5)] d show ?thesis
    unfolding d(2) measures_append by (auto simp: trace_measures retry_cap_def)
qed

lemma call_cases:
  assumes "call_shape token verb resource r d"
  obtains (one) "attempt_shape token verb resource 0 r d"
    | (two) p db answer outcome ok t d1 where "verb = ''GET''" "booked token db"
        "d = [TookSlot, Reserved p db, Sent (verb, resource) p answer, GaveSlot, Recorded p outcome ok, Slept t] @ d1"
        "attempt_shape token verb resource 1 r d1"
  using assms unfolding call_shape_def by blast

definition booked_send :: "string \<Rightarrow> dispatch_event list \<Rightarrow> attempt_permit \<Rightarrow> dispatch_event list \<Rightarrow> bool" where
  "booked_send token before p after \<longleftrightarrow>
     (\<exists>earlier db outcome ok later. before = earlier @ [Reserved p db] \<and> booked token db \<and>
        after = GaveSlot # Recorded p outcome ok # later)"

lemma attempt_booked_send:
  assumes "attempt_shape token verb resource attempt r d" "d = before @ Sent k p answer # after"
  shows "booked_send token before p after"
proof -
  have "Sent k p answer \<in> set d" using assms(2) by simp
  with assms(1) obtain q db k' a oc ok rest where d: "booked token db" "\<And>k p a. Sent k p a \<notin> set rest"
    "d = [TookSlot, Reserved q db, Sent k' q a, GaveSlot, Recorded q oc ok] @ rest"
    by (auto simp: attempt_shape_def sent_result_def)
  have "Sent k p answer \<notin> set rest" by (rule d(2))
  with assms(2) have "before = [TookSlot, Reserved q db] \<and> p = q \<and>
      after = GaveSlot # Recorded q oc ok # rest"
    by (auto simp: d(3) Cons_eq_append_conv append_eq_Cons_conv)
  with d(1) show ?thesis by (auto simp: booked_send_def)
qed

lemma booked_send_prepend: "booked_send token before p after \<Longrightarrow> booked_send token (d @ before) p after"
  unfolding booked_send_def by fastforce

text \<open>C33. Nothing is sent on credit.  Each request of a call is sent directly after its permit's
  reservation was committed, the slot standing in the shared database at that moment, and it is
  followed by giving the provider slot back and recording the outcome under the same permit.\<close>

theorem dispatch_reserves_first:
  assumes "run_state (dispatch e token verb resource) w = (r, w')" "tk_trace w = []"
    and "tk_trace w' = before @ Sent k p answer # after"
  shows "booked_send token before p after"
  using dispatch_shape[OF assms(1,2)]
proof (cases rule: call_cases)
  case one
  then show ?thesis using assms(3) by (rule attempt_booked_send)
next
  case (two p0 db answer0 oc ok t d1)
  let ?d0 = "[TookSlot, Reserved p0 db, Sent (verb, resource) p0 answer0, GaveSlot, Recorded p0 oc ok, Slept t]"
  from two(3) assms(3) consider
      "before = [TookSlot, Reserved p0 db]" "p = p0" "after = GaveSlot # Recorded p0 oc ok # Slept t # d1"
    | b where "before = ?d0 @ b" "d1 = b @ Sent k p answer # after"
    by (auto simp: Cons_eq_append_conv append_eq_Cons_conv)
  then show ?thesis
  proof cases
    case 1
    with two(2) show ?thesis by (auto simp: booked_send_def)
  next
    case 2
    from attempt_booked_send[OF two(4) 2(2)] show ?thesis unfolding 2(1) by (rule booked_send_prepend)
  qed
qed

definition complete_answer :: "dispatch_event list \<Rightarrow> string \<Rightarrow> bool" where
  "complete_answer t raw \<longleftrightarrow>
     (\<exists>k p resp. last (sends t) = Sent k p (Some resp) \<and> 200 \<le> hr_status resp \<and> hr_status resp < 300 \<and>
        raw = hr_body resp \<and> length raw \<le> max_provider_bytes)"

definition refused_answer :: "dispatch_event list \<Rightarrow> bool" where
  "refused_answer t \<longleftrightarrow>
     (\<exists>k p resp. sends t = [Sent k p (Some resp)] \<and> \<not> (200 \<le> hr_status resp \<and> hr_status resp < 300) \<and>
        hr_status resp < 500 \<and> hr_status resp \<noteq> 408)"

lemma attempt_report:
  assumes "attempt_shape token verb resource attempt (Some (raw, res)) d"
  shows "sends d = [] \<Longrightarrow> pr_status res = NotAttempted \<longleftrightarrow> attempt = 0"
    and "sends d \<noteq> [] \<Longrightarrow> pr_status res \<noteq> NotAttempted"
    and "pr_status res = StatusNone \<Longrightarrow> complete_answer d raw \<and> sends d \<noteq> []"
    and "verb \<noteq> ''GET'' \<Longrightarrow> sends d \<noteq> [] \<Longrightarrow> pr_status res = StatusError \<Longrightarrow> refused_answer d"
  using assms
  by (auto simp: attempt_shape_def halted_result_def sent_result_def honest_reading_def sends_def
      complete_answer_def refused_answer_def)

lemma complete_answer_append: "complete_answer d1 raw \<Longrightarrow> sends d1 \<noteq> [] \<Longrightarrow> complete_answer (d0 @ d1) raw"
  by (simp add: complete_answer_def measures_append)

text \<open>C34. A call tells the truth about what it did.  It reports \<^verbatim>\<open>not_attempted\<close> exactly when it sent
  nothing; it hands back a body only as the whole body of a 2xx answer within 32 MiB; and once a
  write was sent, anything short of a definite refusal by the provider is reported as uncertain,
  never as an error that would invite a replay.\<close>

theorem dispatch_reports_honestly:
  assumes "run_state (dispatch e token verb resource) w = (Some (raw, res), w')" "tk_trace w = []"
  shows "(pr_status res = NotAttempted \<longleftrightarrow> sends (tk_trace w') = []) \<and>
    (pr_status res = StatusNone \<longrightarrow> complete_answer (tk_trace w') raw) \<and>
    (verb \<noteq> ''GET'' \<and> sends (tk_trace w') \<noteq> [] \<and> pr_status res = StatusError \<longrightarrow>
       refused_answer (tk_trace w'))"
  using dispatch_shape[OF assms]
proof (cases rule: call_cases)
  case one
  from attempt_report[OF this] show ?thesis by blast
next
  case (two p0 db answer0 oc ok t d1)
  have "sends (tk_trace w') \<noteq> []" by (simp add: two(3) sends_def)
  moreover have "pr_status res \<noteq> NotAttempted" using attempt_report(1,2)[OF two(4)] by auto
  moreover have "complete_answer (tk_trace w') raw" if "pr_status res = StatusNone"
    unfolding two(3) using attempt_report(3)[OF two(4) that] by (intro complete_answer_append) auto
  ultimately show ?thesis using two(1) by simp
qed

section \<open>A concrete call\<close>

definition demo_dates :: http_dates where
  "demo_dates = \<lparr>hd_parse = (\<lambda>s. None), hd_rfc1123 = (\<lambda>s. None)\<rparr>"

text \<open>A provider that answers the first request with 503 and the second with a body.\<close>

definition demo_env :: dispatch_env where
  "demo_env = \<lparr>de_open = True, de_now = (\<lambda>k. 1), de_cancelled = (\<lambda>k. False), de_slot = (\<lambda>k. True),
     de_others = (\<lambda>k db. db), de_fault = (\<lambda>k s. False),
     de_answer = (\<lambda>k. Some \<lparr>hr_status = (if k < 10 then 503 else 200), hr_retry_after = '''',
        hr_body = ''ok'', hr_broken = None\<rparr>),
     de_jitter = (\<lambda>k. 5), de_deadline = (\<lambda>k. None), de_slept = (\<lambda>k. True), de_dates = demo_dates\<rparr>"

definition demo_world :: dispatch_world where
  "demo_world = \<lparr>tk_tick = 0, tk_trace = [], dw_db = empty_db\<rparr>"

abbreviation demo_call :: "(string \<times> provider_result) option \<times> dispatch_world" where
  "demo_call \<equiv> run_state (dispatch demo_env ''t'' ''POST'' ''plan'') demo_world"

lemma demo_sends: "length (sends (tk_trace (snd demo_call))) = 1"
  by code_simp

lemma demo_start: "tk_trace demo_world = []"
  by (simp add: demo_world_def)

theorem dispatch_replays_bounded_witness: "slot_use (tk_trace (snd demo_call)) = 0"
  using dispatch_replays_bounded[OF _ demo_start, of demo_env "''t''" "''POST''" "''plan''" "fst demo_call" "snd demo_call"]
  by (simp add: prod_eq_iff)

theorem dispatch_reserves_first_witness:
  "\<exists>before k p answer after. tk_trace (snd demo_call) = before @ Sent k p answer # after \<and>
     booked_send ''t'' before p after"
proof -
  from demo_sends have "sends (tk_trace (snd demo_call)) \<noteq> []" by (metis list.size(3) zero_neq_one)
  then obtain ev where "ev \<in> set (sends (tk_trace (snd demo_call)))"
    using list.set_sel(1) by blast
  then obtain k p answer where "Sent k p answer \<in> set (tk_trace (snd demo_call))"
    by (auto simp: sends_def split: dispatch_event.splits)
  then obtain before after where t: "tk_trace (snd demo_call) = before @ Sent k p answer # after"
    by (meson split_list)
  have "run_state (dispatch demo_env ''t'' ''POST'' ''plan'') demo_world = (fst demo_call, snd demo_call)" by simp
  from dispatch_reserves_first[OF this demo_start t] t show ?thesis by blast
qed

theorem dispatch_reports_honestly_witness:
  "\<exists>raw res. fst demo_call = Some (raw, res) \<and> pr_status res \<noteq> NotAttempted"
proof -
  obtain raw res where r: "fst demo_call = Some (raw, res)"
    using yields_dispatch_some by blast
  then have "run_state (dispatch demo_env ''t'' ''POST'' ''plan'') demo_world = (Some (raw, res), snd demo_call)"
    by (simp add: prod_eq_iff)
  from dispatch_reports_honestly[OF this demo_start] demo_sends r show ?thesis by auto
qed

end
