(* ===== verification/YnabProvider.thy ===== *)
theory YnabProvider
  imports YnabResult YnabDispatch
begin

text \<open>
  One item's request to the provider, \<open>pe_request\<close> telling whether the request can be built (\<^verbatim>\<open>internal/tools/ynab/tools.go\<close>: \<^verbatim>\<open>requestProvider\<close>,
  \<^verbatim>\<open>providerBody\<close>, \<^verbatim>\<open>nativeTransactions\<close>, \<^verbatim>\<open>correlateNativeResults\<close>, \<^verbatim>\<open>groupResults\<close>,
  \<^verbatim>\<open>nativeBatchIdentifiable\<close>).  A value \<^const>\<open>None\<close> is a panic.
\<close>

record provider_env =
  pe_dispatch :: dispatch_env
  pe_token :: string
  pe_base :: string
  pe_request :: "string \<Rightarrow> string \<Rightarrow> json option \<Rightarrow> bool"
  pe_parse :: "string \<Rightarrow> json option"
  pe_quote :: "string \<Rightarrow> string"
  pe_order :: "(string \<times> string) list"

section \<open>The request\<close>

text \<open>\<^verbatim>\<open>url.QueryEscape\<close>, and \<^verbatim>\<open>url.Values.Encode\<close> on names already in order.\<close>

definition query_plain :: "char \<Rightarrow> bool" where
  "query_plain c \<longleftrightarrow> path_plain c \<and> c \<notin> set ''$&+=:@''"

definition query_escape :: "string \<Rightarrow> string" where
  "query_escape s = concat (map (\<lambda>c.
     if c = CHR '' '' then ''+''
     else if query_plain c then [c]
     else [CHR ''%'', upper_hex (of_char c div 16), upper_hex (of_char c mod 16)]) s)"

fun encode_query :: "(string \<times> string) list \<Rightarrow> string" where
  "encode_query [] = ''''"
| "encode_query [(k, v)] = query_escape k @ ''='' @ query_escape v"
| "encode_query ((k, v) # q # qs) = query_escape k @ ''='' @ query_escape v @ ''&'' @ encode_query (q # qs)"

definition provider_query :: "verb \<Rightarrow> item \<Rightarrow> (string \<times> string) list" where
  "provider_query v x =
     (if it_include_accounts x \<and> v = VList \<and> it_type x = ''plan'' then [(''include_accounts'', ''true'')] else []) @
     (case it_knowledge x of Some n \<Rightarrow> [(''last_knowledge_of_server'', itoa n)] | None \<Rightarrow> []) @
     (if it_since x \<noteq> '''' then [(''since_date'', it_since x)] else []) @
     (if it_filter x \<noteq> '''' then [(''type'', it_filter x)] else []) @
     (if it_until x \<noteq> '''' then [(''until_date'', it_until x)] else [])"

definition provider_target :: "string \<Rightarrow> operation \<Rightarrow> (string \<times> string) list \<Rightarrow> string" where
  "provider_target base r q = base @ op_path r @ (if q = [] then '''' else ''?'' @ encode_query q)"

definition provider_body :: "item \<Rightarrow> json option" where
  "provider_body x =
     (case it_data x of
        None \<Rightarrow> None
      | Some d \<Rightarrow>
          if it_type x = ''transaction'' \<and> item_id x = '''' \<and> transaction_lookup x
          then Some (JObj [(''transactions'', JArr [d])])
          else Some (JObj [(it_type x, d)]))"

definition expected_keys :: "verb \<Rightarrow> item \<Rightarrow> operation \<Rightarrow> string list" where
  "expected_keys v x r =
     (if it_type x = ''transaction'' \<and> op_method r = ''PATCH''
      then [''transactions'', ''transaction_ids'', ''duplicate_import_ids'']
      else if v = VImport then [''transaction_ids'']
      else if v = VList then
        [if it_type x = ''category'' then ''category_groups''
         else case map_of provider_collections (it_type x) of Some p \<Rightarrow> p | None \<Rightarrow> '''']
      else [it_type x])"

definition mutating :: "verb \<Rightarrow> bool" where
  "mutating v \<longleftrightarrow> v = VCreate \<or> v = VUpdate \<or> v = VDelete \<or> v = VImport"

definition plain_error :: "nat \<Rightarrow> string \<Rightarrow> item_result" where
  "plain_error i message = error_result i message '''' ''''"

text \<open>What an item makes of the answer of its call.\<close>

definition item_answer ::
  "provider_env \<Rightarrow> nat \<Rightarrow> verb \<Rightarrow> item \<Rightarrow> bool \<Rightarrow> operation \<Rightarrow> (string \<times> provider_result) option \<Rightarrow>
     item_result option" where
  "item_answer e i v x proj r answer =
     (case answer of
        None \<Rightarrow> None
      | Some (data, failure) \<Rightarrow>
          if pr_status failure \<noteq> StatusNone then Some (with_index i failure)
          else if \<not> proj then Some ((success_result i)\<lparr>ir_data := data\<rparr>)
          else map_option
            (\<lambda>res. if pr_status res = StatusError \<and> mutating v
                   then res\<lparr>pr_status := StatusUncertain\<rparr> else res)
            (project_provider_result (pe_order e) (pe_parse e) i data (expected_keys v x r)))"

definition request_provider ::
  "provider_env \<Rightarrow> nat \<Rightarrow> verb \<Rightarrow> item \<Rightarrow> bool \<Rightarrow> item_result option dispatch_io" where
  "request_provider e i v x proj =
     (case route v x of
        Inl err \<Rightarrow> State_Monad.return (Some (plain_error i (error_text (pe_quote e) err)))
      | Inr r \<Rightarrow>
          let sends_body = (op_method r \<in> {''POST'', ''PATCH'', ''PUT''} \<and> v \<noteq> VImport) in
          if sends_body \<and> provider_body x = None
          then State_Monad.return (Some (plain_error i ''invalid provider request body''))
          else if \<not> pe_request e (op_method r) (provider_target (pe_base e) r (provider_query v x))
              (if sends_body then provider_body x else None)
          then State_Monad.return (Some (plain_error i ''provider request construction failed''))
          else do {
            answer \<leftarrow> dispatch (pe_dispatch e) (pe_token e) (op_method r) (it_type x);
            State_Monad.return (item_answer e i v x proj r answer) })"

section \<open>Native batches\<close>

definition is_native :: "verb \<Rightarrow> item \<Rightarrow> bool" where
  "is_native v x \<longleftrightarrow> it_type x = ''transaction'' \<and> (v = VCreate \<or> v = VUpdate)"

definition native_key :: "verb \<Rightarrow> item \<Rightarrow> string option" where
  "native_key v x =
     (case transaction_identity x of
        (own0, import) \<Rightarrow>
          (let own = (if v = VCreate then '''' else own0) in
           if own = '''' \<and> import = '''' then None
           else Some (if import = '''' then ''id:'' @ own else import)))"

fun native_identifiable :: "verb \<Rightarrow> item list \<Rightarrow> string list \<Rightarrow> bool" where
  "native_identifiable v [] seen = True"
| "native_identifiable v (x # xs) seen =
     (case native_key v x of
        None \<Rightarrow> False
      | Some key \<Rightarrow> key \<notin> set seen \<and> native_identifiable v xs (key # seen))"

fun group_results :: "nat \<Rightarrow> item list \<Rightarrow> item_result \<Rightarrow> item_result list" where
  "group_results i [] base = []"
| "group_results i (x # xs) base =
     base\<lparr>ir_index := i, ir_data := '''', ir_collections := [], ir_artifact := None\<rparr> #
     group_results (i + 1) xs base"

text \<open>The data an update sends for an item without an import identity carries its identity; null
  decodes to the nil map, which cannot take a member.  Encoding the body of raw messages, which are
  valid JSON, does not fail.\<close>

definition native_map :: "item \<Rightarrow> members option" where
  "native_map x = decode_opt decode_record (it_data x)"

definition native_data :: "verb \<Rightarrow> item \<Rightarrow> json" where
  "native_data v x =
     (if v = VUpdate \<and> snd (transaction_identity x) = ''''
      then marshal_map (set_member ''id'' (Some (JStr (fst (transaction_identity x))))
             (case native_map x of Some ms \<Rightarrow> ms | None \<Rightarrow> []))
      else (case it_data x of Some d \<Rightarrow> d | None \<Rightarrow> JNull))"

definition native_body :: "verb \<Rightarrow> item list \<Rightarrow> json" where
  "native_body v xs = JObj [(''transactions'', JArr (map (native_data v) xs))]"

record saved_row =
  sr_id :: string
  sr_import :: string

text \<open>Errors of the decoding are ignored, what was stored before them is not.\<close>

definition saved_row_of :: "json \<Rightarrow> saved_row" where
  "saved_row_of j =
     snd (decode_struct [string_field ''id'' sr_id sr_id_update, string_field ''import_id'' sr_import sr_import_update]
       (Some j) \<lparr>sr_id = '''', sr_import = ''''\<rparr>)"

definition saved_rows :: "item_result \<Rightarrow> saved_row list" where
  "saved_rows provider =
     (case map_of (ir_collections provider) ''transactions'' of None \<Rightarrow> [] | Some rows \<Rightarrow> map saved_row_of rows)"

definition saved_ids :: "item_result \<Rightarrow> string list" where
  "saved_ids provider =
     (case ir_ids provider of None \<Rightarrow> [] | Some ids \<Rightarrow> ids) @
     filter (\<lambda>i. i \<noteq> '''') (map sr_id (saved_rows provider))"

text \<open>The last row of an import identity counts.\<close>

definition saved_by_import :: "item_result \<Rightarrow> string \<Rightarrow> string option" where
  "saved_by_import provider import =
     map_of (rev (map (\<lambda>s. (sr_import s, sr_id s))
       (filter (\<lambda>s. sr_id s \<noteq> '''' \<and> sr_import s \<noteq> '''') (saved_rows provider)))) import"

definition correlate_one :: "item_result \<Rightarrow> nat \<Rightarrow> item \<Rightarrow> item_result" where
  "correlate_one provider i x =
     (case transaction_identity x of
        (own, import) \<Rightarrow>
          if own \<noteq> '''' \<and> own \<in> set (saved_ids provider) then (success_result i)\<lparr>ir_ids := Some [own]\<rparr>
          else if import \<noteq> '''' \<and> saved_by_import provider import \<noteq> None
          then (success_result i)\<lparr>ir_ids := Some [the (saved_by_import provider import)]\<rparr>
          else if import \<noteq> '''' \<and> import \<in> set (ir_dups provider)
          then (success_result i)\<lparr>ir_dups := [import]\<rparr>
          else (success_result i)\<lparr>pr_status := StatusUncertain,
                 pr_error := ''provider did not return a correlatable transaction identity''\<rparr>)"

fun correlate_native :: "nat \<Rightarrow> item list \<Rightarrow> item_result \<Rightarrow> item_result list" where
  "correlate_native i [] provider = []"
| "correlate_native i (x # xs) provider = correlate_one provider i x # correlate_native (i + 1) xs provider"

definition native_target :: "provider_env \<Rightarrow> item list \<Rightarrow> string" where
  "native_target e xs = pe_base e @ ''/plans/'' @ path_escape (it_plan (hd xs)) @ ''/transactions''"

definition native_answer ::
  "provider_env \<Rightarrow> verb \<Rightarrow> nat \<Rightarrow> item list \<Rightarrow> (string \<times> provider_result) option \<Rightarrow>
     item_result list option" where
  "native_answer e v start xs answer =
     (case answer of
        None \<Rightarrow> None
      | Some (raw, failure) \<Rightarrow>
          if pr_status failure \<noteq> StatusNone then Some (group_results start xs (with_index 0 failure))
          else (case project_provider_result (pe_order e) (pe_parse e) start raw
                  [''transactions'', ''transaction_ids'', ''duplicate_import_ids''] of
            None \<Rightarrow> None
          | Some provider \<Rightarrow>
              Some (if pr_status provider \<noteq> StatusSuccess
                then group_results start xs (provider\<lparr>pr_status := StatusUncertain\<rparr>)
                else
                  let results = correlate_native start xs provider in
                  if v = VUpdate
                  then map2 (\<lambda>x r. (confirm_transaction_fields (pe_parse e) x (r\<lparr>ir_data := raw\<rparr>))\<lparr>ir_data := ''''\<rparr>)
                         xs results
                  else results)))"

definition native_transactions ::
  "provider_env \<Rightarrow> verb \<Rightarrow> nat \<Rightarrow> item list \<Rightarrow> item_result list option dispatch_io" where
  "native_transactions e v start xs =
     (let group = (\<lambda>m. State_Monad.return (Some (group_results start xs (plain_error 0 m))));
          verb = (if v = VUpdate then ''PATCH'' else ''POST'');
          faults = filter (\<lambda>x. v = VUpdate \<and> snd (transaction_identity x) = '''' \<and> native_map x = None) xs in
      if faults \<noteq> [] then
        (if it_data (hd faults) = Some JNull then State_Monad.return None
         else group ''invalid transaction fields'')
      else if \<not> pe_request e verb (native_target e xs) (Some (native_body v xs)) then group ''provider request construction failed''
      else do {
        answer \<leftarrow> dispatch (pe_dispatch e) (pe_token e) verb ''transaction'';
        State_Monad.return (native_answer e v start xs answer) })"

section \<open>Traces of a request\<close>

lemma request_provider_yields:
  "yields (request_provider e i v x proj) (\<lambda>res d.
     (d = [] \<and> (\<exists>m. res = Some (plain_error i m))) \<or>
     (\<exists>r ans. route v x = Inr r \<and> call_shape (pe_token e) (op_method r) (it_type x) ans d \<and>
        res = item_answer e i v x proj r ans))"
proof (cases "route v x")
  case (Inl err)
  then show ?thesis unfolding request_provider_def Inl sum.case by (intro yields_intro) auto
next
  case (Inr r)
  show ?thesis unfolding request_provider_def Inr sum.case Let_def
  proof (intro yields_if yields_return, goal_cases)
    case 3
    show ?case
      by (rule yields_then[OF dispatch_yields], rule yields_return) auto
  qed auto
qed

lemma native_transactions_yields:
  "yields (native_transactions e v start xs) (\<lambda>res d.
     (d = [] \<and> (res = None \<or> (\<exists>m. res = Some (group_results start xs (plain_error 0 m))))) \<or>
     (\<exists>ans. call_shape (pe_token e) (if v = VUpdate then ''PATCH'' else ''POST'') ''transaction'' ans d \<and>
        res = native_answer e v start xs ans))"
  unfolding native_transactions_def Let_def
proof (intro yields_if yields_return, goal_cases)
  case 4
  show ?case
    by (rule yields_then[OF dispatch_yields], rule yields_return) auto
qed auto

lemma error_result_fields [simp]:
  "pr_status (error_result i m c rc) = StatusError" "ir_index (error_result i m c rc) = i"
  "pr_status (success_result i) = StatusSuccess" "ir_index (success_result i) = i"
  "pr_status (with_index i r) = pr_status r" "ir_index (with_index i r) = i"
  by (simp_all add: error_result_def success_result_def with_index_def provider_result.defs item_result.defs)

text \<open>A result that names its item and has a status.\<close>

definition named :: "nat \<Rightarrow> item_result \<Rightarrow> bool" where
  "named i r \<longleftrightarrow> ir_index r = i \<and> pr_status r \<noteq> StatusNone"

lemma named_simps [simp]:
  "named i (error_result i m c rc)" "named i (success_result i)" "named i (plain_error i m)"
  by (simp_all add: named_def plain_error_def)

lemma project_named:
  "project_provider_result order parse i raw expected = Some r \<Longrightarrow> named i r"
  by (auto simp: project_provider_result_def bad_resource_def named_def split: option.splits project_error.splits
      sum.splits if_splits)

lemma item_answer_named:
  "item_answer e i v x proj r ans = Some res \<Longrightarrow> named i res"
  by (auto simp: item_answer_def split: option.splits if_splits dest!: project_named)
    (auto simp: named_def)

end
