(* ===== verification/YnabExport.thy ===== *)
theory YnabExport
  imports YnabProvider
begin

text \<open>
  File exports (\<^verbatim>\<open>internal/tools/ynab/exports.go\<close>): one complete provider response, checked, rendered
  and written to a private stage that is then linked to its final name.  What the file system
  answers is read from the schedule; what the export does to it are events of the call's trace.
  \<^verbatim>\<open>json.Marshal\<close> is an argument of the rendering.
\<close>

definition export_write_chunk :: nat where "export_write_chunk = 32 * 1024"
definition max_export_bytes :: nat where "max_export_bytes = 64 * 1024 * 1024"

section \<open>Rendering\<close>

text \<open>\<^verbatim>\<open>fmt.Sprint\<close> of a decoded value.\<close>

fun spaced :: "string list \<Rightarrow> string" where
  "spaced [] = ''''"
| "spaced [s] = s"
| "spaced (s # t # ss) = s @ '' '' @ spaced (t # ss)"

fun go_sprint :: "json \<Rightarrow> string" where
  "go_sprint JNull = ''<nil>''"
| "go_sprint (JBool b) = (if b then ''true'' else ''false'')"
| "go_sprint (JNum t) = t"
| "go_sprint (JStr s) = s"
| "go_sprint (JArr xs) = ''['' @ spaced (map go_sprint xs) @ '']''"
| "go_sprint (JObj ms) =
     (let printed = map (\<lambda>(k, v). (k, go_sprint v)) ms in
      ''map['' @ spaced (map (\<lambda>k. k @ '':'' @ (case map_of (rev printed) k of Some t \<Rightarrow> t | None \<Rightarrow> ''''))
        (sort (remdups (map fst ms)))) @ '']'')"

definition csv_value :: "json option \<Rightarrow> string" where
  "csv_value v =
     (case v of
        None \<Rightarrow> ''''
      | Some JNull \<Rightarrow> ''''
      | Some (JStr s) \<Rightarrow> if s \<noteq> '''' \<and> hd s \<in> set ''=+-@'' then [CHR 0x27] @ s else s
      | Some j \<Rightarrow> go_sprint j)"

text \<open>\<^verbatim>\<open>csv.Writer\<close> with the default comma and line end.\<close>

definition csv_needs_quotes :: "string \<Rightarrow> bool" where
  "csv_needs_quotes f \<longleftrightarrow> f \<noteq> '''' \<and>
     (f = [CHR 0x5C, CHR ''.''] \<or> contains_any f [CHR 0x0A, CHR 0x0D, CHR 0x22, CHR '',''] \<or> 0 < leading_space f)"

definition csv_field :: "string \<Rightarrow> string" where
  "csv_field f =
     (if csv_needs_quotes f
      then [CHR 0x22] @ concat (map (\<lambda>c. if c = CHR 0x22 then [CHR 0x22, CHR 0x22] else [c]) f) @ [CHR 0x22]
      else f)"

fun csv_fields :: "string list \<Rightarrow> string" where
  "csv_fields [] = ''''"
| "csv_fields [f] = csv_field f"
| "csv_fields (f # g # fs) = csv_field f @ '','' @ csv_fields (g # fs)"

definition csv_line :: "string list \<Rightarrow> string" where
  "csv_line fs = csv_fields fs @ [CHR 0x0A]"

definition csv_header :: "string list" where
  "csv_header = [''id'', ''account_id'', ''date'', ''amount_milliunits'', ''category_id'', ''payee_name'',
     ''memo'', ''cleared'', ''approved'', ''flag_color'', ''deleted'', ''subtransactions_json'']"

definition csv_sub :: "(json \<Rightarrow> string option) \<Rightarrow> members \<Rightarrow> string option" where
  "csv_sub print ms =
     (case lookup_member ''subtransactions'' ms of
        None \<Rightarrow> Some '''' | Some JNull \<Rightarrow> Some '''' | Some v \<Rightarrow> print v)"

definition csv_row :: "(json \<Rightarrow> string option) \<Rightarrow> members \<Rightarrow> string list option" where
  "csv_row print ms =
     (case csv_sub print ms of
        None \<Rightarrow> None
      | Some sub \<Rightarrow> Some (map (\<lambda>k. csv_value (lookup_member k ms))
          [''id'', ''account_id'', ''date'', ''amount'', ''category_id'', ''payee_name'', ''memo'', ''cleared'',
           ''approved'', ''flag_color'', ''deleted''] @ [csv_value (Some (JStr sub))]))"

record export_envelope =
  ee_rows :: "json list"
  ee_knowledge :: "json option"

definition export_data :: "json \<Rightarrow> export_envelope option" where
  "export_data j =
     (case decode_struct [(''data'', \<lambda>v s. decode_struct
            [raw_list_field ''transactions'' ee_rows_update, raw_field ''server_knowledge'' ee_knowledge_update]
            (Some v) s)] (Some j) \<lparr>ee_rows = [], ee_knowledge = None\<rparr>
      of (ok, e) \<Rightarrow> if ok then Some e else None)"

text \<open>A \<^verbatim>\<open>json.Number\<close> also takes a string that is a number literal; an integer literal has no
  leading zero.\<close>

definition integer_literal :: "string \<Rightarrow> int option" where
  "integer_literal s =
     (let body = (if has_prefix s ''-'' then tl s else s) in
      if has_prefix body ''0'' \<and> body \<noteq> ''0'' then None else parse_int64 s)"

definition transaction_export_metadata :: "json \<Rightarrow> (nat \<times> int option) option" where
  "transaction_export_metadata j =
     (case export_data j of
        None \<Rightarrow> None
      | Some e \<Rightarrow> Some (length (ee_rows e),
          (case ee_knowledge e of
             Some (JNum t) \<Rightarrow> parse_int64 t | Some (JStr s) \<Rightarrow> integer_literal s | _ \<Rightarrow> None)))"

definition transaction_csv :: "(json \<Rightarrow> string option) \<Rightarrow> json \<Rightarrow> string option" where
  "transaction_csv print j =
     (case Option.bind (export_data j) (\<lambda>e. Option.bind (decode_all decode_map (ee_rows e))
          (decode_all (csv_row print))) of
        None \<Rightarrow> None
      | Some rows \<Rightarrow> Some (concat (map csv_line (csv_header # rows))))"

definition valid_ynab_envelope :: "json \<Rightarrow> string \<Rightarrow> bool" where
  "valid_ynab_envelope j source =
     (case decode_struct [raw_field ''data'' (\<lambda>f s. f s)] (Some j) None of
        (True, Some (JObj ms)) \<Rightarrow>
          (case lookup_member source ms of
             None \<Rightarrow> False
           | Some v \<Rightarrow>
               (case v of
                  JObj _ \<Rightarrow> source \<noteq> ''transactions''
                | JArr _ \<Rightarrow> source \<noteq> ''plan''
                | _ \<Rightarrow> source \<noteq> ''transactions'' \<and> source \<noteq> ''plan''))
      | _ \<Rightarrow> False)"

text \<open>The payload of an export, its record count and its server knowledge, or the error message.\<close>

definition export_payload ::
  "(string \<Rightarrow> json option) \<Rightarrow> (json \<Rightarrow> string option) \<Rightarrow> item \<Rightarrow> string \<Rightarrow>
     string + (string \<times> nat option \<times> int option)" where
  "export_payload parse print x raw =
     (case parse raw of
        None \<Rightarrow> Inl ''provider returned an invalid export response''
      | Some j \<Rightarrow>
          if \<not> valid_ynab_envelope j (it_source x) then Inl ''provider returned an invalid export response''
          else if it_source x \<noteq> ''transactions'' then Inr (raw, None, None)
          else (case transaction_export_metadata j of
            None \<Rightarrow> Inl ''provider transactions cannot be read for export''
          | Some (n, knowledge) \<Rightarrow>
              if it_format x \<noteq> ''csv'' then Inr (raw, Some n, knowledge)
              else (case transaction_csv print j of
                None \<Rightarrow> Inl ''provider transactions cannot be rendered as CSV''
              | Some text \<Rightarrow> Inr (text, Some n, knowledge))))"

section \<open>Publishing\<close>

datatype lstat_answer = LstatExists | LstatAbsent | LstatBroken
datatype create_answer = CreateDone | CreateTaken | CreateBroken

record export_env = provider_env +
  xe_slot :: "nat \<Rightarrow> bool"
  xe_root :: "nat \<Rightarrow> bool"
  xe_lstat :: "nat \<Rightarrow> lstat_answer"
  xe_random :: "nat \<Rightarrow> nat list option"
  xe_create :: "nat \<Rightarrow> create_answer"
  xe_write :: "nat \<Rightarrow> nat option"
  xe_close :: "nat \<Rightarrow> bool"
  xe_link :: "nat \<Rightarrow> bool"
  xe_print :: "json \<Rightarrow> string option"
  xe_export_root :: string

abbreviation canceled :: "'a provider_env_scheme \<Rightarrow> bool dispatch_io" where
  "canceled e \<equiv> look (de_cancelled (pe_dispatch e))"

definition valid_export_filename :: "string \<Rightarrow> bool" where
  "valid_export_filename name \<longleftrightarrow>
     name \<noteq> '''' \<and> name \<noteq> ''.'' \<and> name \<noteq> ''..'' \<and> \<not> contains_any name [CHR ''/'', CHR 0x5C] \<and>
     \<not> sublist ''..'' name"

definition stage_name :: "nat list \<Rightarrow> string" where
  "stage_name token = ''.export-'' @ hex_encode token @ ''.partial''"

text \<open>The name of a stage that was created exclusively, with \<open>tries\<close> left.\<close>

fun new_export_temp :: "nat \<Rightarrow> export_env \<Rightarrow> string option dispatch_io" where
  "new_export_temp 0 e = State_Monad.return None"
| "new_export_temp (Suc tries) e = do {
     token \<leftarrow> look (xe_random e);
     (case token of
        None \<Rightarrow> State_Monad.return None
      | Some bytes \<Rightarrow> do {
          made \<leftarrow> look (xe_create e);
          (case made of
             CreateTaken \<Rightarrow> new_export_temp tries e
           | CreateBroken \<Rightarrow> State_Monad.return None
           | CreateDone \<Rightarrow> do { emit (Staged (stage_name bytes)); State_Monad.return (Some (stage_name bytes)) }) })
   }"

datatype write_end = WriteDone | WriteCanceled | WriteFailed

text \<open>A write takes \<open>Some n\<close> bytes or fails; a short one is an error.\<close>

function write_export :: "export_env \<Rightarrow> string \<Rightarrow> string \<Rightarrow> write_end dispatch_io" where
  "write_export e name payload =
     (if payload = '''' then do {
        c \<leftarrow> canceled e;
        State_Monad.return (if c then WriteCanceled else WriteDone) }
      else do {
        c \<leftarrow> canceled e;
        (if c then State_Monad.return WriteCanceled
         else do {
           let n = min export_write_chunk (length payload);
           written \<leftarrow> look (xe_write e);
           (if written \<noteq> Some n then State_Monad.return WriteFailed
            else do {
              emit (Wrote name (take n payload));
              write_export e name (drop n payload) }) }) })"
  by auto
termination
  by (relation "measure (\<lambda>(e, name, payload). length payload)") (auto simp: export_write_chunk_def)

declare write_export.simps [simp del]

definition export_error :: "nat \<Rightarrow> string \<Rightarrow> string \<Rightarrow> item_result" where
  "export_error i message code =
     error_result i message code
       (if code = ''local_state'' \<or> code = ''invalid_response'' then ''contact_operator'' else ''fix_request'')"

definition export_artifact ::
  "export_env \<Rightarrow> item \<Rightarrow> string \<Rightarrow> nat option \<Rightarrow> int option \<Rightarrow> artifact" where
  "export_artifact e x payload records knowledge =
     \<lparr>af_filename = it_filename x, af_format = it_format x,
      af_mime = (if it_format x = ''csv'' then ''text/csv'' else ''application/json''),
      af_bytes = length payload, af_location = path_join [xe_export_root e, it_filename x],
      af_records = records, af_knowledge = knowledge, af_item = x\<rparr>"

text \<open>Filling a stage and linking it; the link fails when the name has been taken meanwhile.\<close>

definition fill_and_link ::
  "export_env \<Rightarrow> nat \<Rightarrow> item \<Rightarrow> string \<Rightarrow> string \<Rightarrow> nat option \<Rightarrow> int option \<Rightarrow> item_result dispatch_io" where
  "fill_and_link e i x stage payload records knowledge = do {
     w \<leftarrow> write_export e stage payload;
     (if w = WriteCanceled then State_Monad.return (export_error i ''export canceled'' ''canceled'')
      else if w = WriteFailed then State_Monad.return (export_error i ''unable to write export'' ''local_state'')
      else do {
        closed \<leftarrow> look (xe_close e);
        (if \<not> closed then State_Monad.return (export_error i ''unable to write export'' ''local_state'')
         else do {
           c \<leftarrow> canceled e;
           (if c then State_Monad.return (export_error i ''export canceled'' ''canceled'')
            else do {
              linked \<leftarrow> look (xe_link e);
              (if \<not> linked
               then State_Monad.return (export_error i ''unable to publish export'' ''local_state'')
               else do {
                 emit (Published stage (it_filename x));
                 State_Monad.return ((success_result i)
                   \<lparr>ir_artifact := Some (export_artifact e x payload records knowledge)\<rparr>) }) }) }) })
   }"

definition publish_export ::
  "export_env \<Rightarrow> nat \<Rightarrow> item \<Rightarrow> string \<Rightarrow> nat option \<Rightarrow> int option \<Rightarrow> item_result dispatch_io" where
  "publish_export e i x payload records knowledge = do {
     root \<leftarrow> look (xe_root e);
     (if \<not> root then State_Monad.return (export_error i ''export root unavailable'' ''local_state'')
      else do {
        st \<leftarrow> look (xe_lstat e);
        (if st = LstatExists
         then State_Monad.return (export_error i ''export filename already exists'' ''conflict'')
         else if st = LstatBroken
         then State_Monad.return (export_error i ''export destination unavailable'' ''local_state'')
         else do {
           stage \<leftarrow> new_export_temp 8 e;
           (case stage of
              None \<Rightarrow> State_Monad.return (export_error i ''unable to create export'' ''local_state'')
            | Some name \<Rightarrow> do {
                r \<leftarrow> fill_and_link e i x name payload records knowledge;
                emit (Removed name);
                State_Monad.return r }) }) })
   }"

definition export_response :: "export_env \<Rightarrow> nat \<Rightarrow> item \<Rightarrow> string \<Rightarrow> item_result dispatch_io" where
  "export_response e i x raw =
     (case export_payload (pe_parse e) (xe_print e) x raw of
        Inl message \<Rightarrow> State_Monad.return (export_error i message ''invalid_response'')
      | Inr (payload, records, knowledge) \<Rightarrow>
          if length payload > max_export_bytes
          then State_Monad.return (export_error i ''export exceeds 64 MiB'' ''response_too_large'')
          else do {
            c \<leftarrow> canceled e;
            (if c then State_Monad.return (export_error i ''export canceled'' ''canceled'')
             else if \<not> valid_export_filename (it_filename x)
             then State_Monad.return (export_error i ''invalid export destination'' ''invalid_request'')
             else publish_export e i x payload records knowledge) })"

definition export_source :: "item \<Rightarrow> verb \<times> item" where
  "export_source x =
     (if it_source x = ''plan'' then (VGet, x\<lparr>it_type := ''plan''\<rparr>)
      else (VList, x\<lparr>it_type := ''transaction''\<rparr>))"

definition not_admitted :: "nat \<Rightarrow> string \<Rightarrow> item_result" where
  "not_admitted i message =
     (export_error i message ''canceled'')\<lparr>pr_status := NotAttempted\<rparr>"

definition export_item :: "export_env \<Rightarrow> nat \<Rightarrow> item \<Rightarrow> item_result option dispatch_io" where
  "export_item e i x = do {
     slot \<leftarrow> look (xe_slot e);
     (if \<not> slot
      then State_Monad.return (Some (not_admitted i ''call canceled before export admission''))
      else do {
        emit TookExport;
        c \<leftarrow> canceled e;
        r \<leftarrow> (if c
              then State_Monad.return (Some (not_admitted i ''call canceled before export dispatch''))
              else do {
                answer \<leftarrow> request_provider (provider_env.truncate e) i (fst (export_source x))
                  (snd (export_source x)) False;
                (case answer of
                   None \<Rightarrow> State_Monad.return None
                 | Some res \<Rightarrow>
                     if pr_status res \<noteq> StatusSuccess then State_Monad.return (Some res)
                     else do {
                       done \<leftarrow> export_response e i x (ir_data res);
                       State_Monad.return (Some done) }) });
        emit GaveExport;
        State_Monad.return r })
   }"

section \<open>What an export leaves behind\<close>

definition exports :: "dispatch_event list \<Rightarrow> dispatch_event list" where
  "exports t = filter (\<lambda>ev. case ev of
     Staged _ \<Rightarrow> True | Wrote _ _ \<Rightarrow> True | Published _ _ \<Rightarrow> True | Removed _ \<Rightarrow> True | _ \<Rightarrow> False) t"

lemma exports_append [simp]: "exports (t @ u) = exports t @ exports u"
  by (simp add: exports_def)

lemma exports_simps [simp]:
  "exports [] = []" "exports (Staged s # t) = Staged s # exports t" "exports (Wrote s c # t) = Wrote s c # exports t"
  "exports (Published s n # t) = Published s n # exports t" "exports (Removed s # t) = Removed s # exports t"
  "exports (TookExport # t) = exports t" "exports (GaveExport # t) = exports t"
  "exports (TookSlot # t) = exports t" "exports (GaveSlot # t) = exports t" "exports (Reserved p db # t) = exports t"
  "exports (Sent k p a # t) = exports t" "exports (Recorded p oc ok # t) = exports t" "exports (Slept d # t) = exports t"
  by (simp_all add: exports_def)

lemma exports_map_Wrote [simp]: "exports (map (Wrote s) cs) = map (Wrote s) cs"
  by (induction cs) simp_all

lemma attempt_no_exports: "attempt_shape token verb resource n r d \<Longrightarrow> exports d = []"
  by (auto simp: attempt_shape_def sent_result_def)

lemma dispatch_no_exports: "yields (dispatch e token verb resource) (\<lambda>r d. exports d = [])"
  by (rule yields_weaken[OF dispatch_yields]) (auto simp: call_shape_def dest: attempt_no_exports)

lemma request_no_exports:
  "yields (request_provider e i v x proj) (\<lambda>res d. exports d = [] \<and> (\<forall>r. res = Some r \<longrightarrow> named i r))"
  by (rule yields_weaken[OF request_provider_yields])
    (auto simp: call_shape_def dest: attempt_no_exports intro: item_answer_named)

lemma write_export_yields:
  "yields (write_export e name payload)
     (\<lambda>w d. \<exists>chunks. d = map (Wrote name) chunks \<and> (w = WriteDone \<longrightarrow> concat chunks = payload))"
proof (induction e name payload rule: write_export.induct)
  case (1 e name payload)
  let ?n = "min export_write_chunk (length payload)"
  show ?case
  proof (cases "payload = ''''")
    case True
    then show ?thesis by (subst write_export.simps) (simp, intro yields_intro, simp)
  next
    case False
    have step: "yields (write_export e name (drop ?n payload)) (\<lambda>w d. \<exists>chunks.
        Wrote name (take ?n payload) # d = map (Wrote name) chunks \<and> (w = WriteDone \<longrightarrow> concat chunks = payload))"
    proof (rule yields_weaken[OF 1(1)], goal_cases)
      case (5 w d)
      then obtain chunks where "d = map (Wrote name) chunks" "w = WriteDone \<longrightarrow> concat chunks = drop ?n payload"
        by blast
      then show ?case by (intro exI[of _ "take ?n payload # chunks"]) auto
    qed (use False in auto)
    show ?thesis
      using False unfolding write_export.simps[of e name payload] Let_def
      by (simp only: if_False) (intro yields_intro step; simp)
  qed
qed

lemma export_error_simps [simp]:
  "pr_status (export_error i m c) = StatusError" "pr_status (not_admitted i m) = NotAttempted"
  "named i (export_error i m c)" "named i (not_admitted i m)" "named i ((success_result i)\<lparr>ir_artifact := a\<rparr>)"
  by (simp_all add: export_error_def not_admitted_def named_def)

lemma fill_and_link_yields:
  "yields (fill_and_link e i x stage payload records knowledge)
     (\<lambda>r d. named i r \<and> (\<exists>chunks. (d = map (Wrote stage) chunks \<and> pr_status r = StatusError) \<or>
        (d = map (Wrote stage) chunks @ [Published stage (it_filename x)] \<and> concat chunks = payload \<and>
         pr_status r = StatusSuccess \<and> ir_artifact r = Some (export_artifact e x payload records knowledge))))"
  unfolding fill_and_link_def
proof (rule yields_then[OF write_export_yields], goal_cases)
  case (1 w d)
  then obtain chunks where d: "d = map (Wrote stage) chunks" "w = WriteDone \<longrightarrow> concat chunks = payload" by blast
  let ?R = "\<lambda>r d'. named i r \<and> ((d' = [] \<and> pr_status r = StatusError) \<or>
      (d' = [Published stage (it_filename x)] \<and> w = WriteDone \<and> pr_status r = StatusSuccess \<and>
       ir_artifact r = Some (export_artifact e x payload records knowledge)))"
  show ?case
  proof (rule yields_weaken[where R = ?R], goal_cases)
    case 1
    show ?case by (intro yields_intro) (cases w; simp)+
  next
    case (2 r d')
    then show ?case by (intro conjI exI[of _ chunks]) (use d in auto)
  qed
qed

lemma new_export_temp_yields:
  "yields (new_export_temp tries e) (\<lambda>r d. d = (case r of None \<Rightarrow> [] | Some name \<Rightarrow> [Staged name]))"
proof (induction tries)
  case 0
  then show ?case by (simp add: yields_return)
next
  case (Suc tries)
  show ?case unfolding new_export_temp.simps
  proof (rule yields_look_bind, goal_cases)
    case (1 token)
    show ?case
    proof (cases token)
      case None
      then show ?thesis by (simp add: yields_return)
    next
      case (Some bytes)
      show ?thesis unfolding Some option.case
      proof (rule yields_look_bind, goal_cases)
        case (1 made)
        show ?case
          by (cases made) (auto simp: Suc intro!: yields_intro)
      qed
    qed
  qed
qed

text \<open>The export events of one item: none, or a stage with its chunks, published whole or not, and
  removed.\<close>

definition export_shape :: "export_env \<Rightarrow> nat \<Rightarrow> item \<Rightarrow> item_result \<Rightarrow> dispatch_event list \<Rightarrow> bool" where
  "export_shape e i x r d \<longleftrightarrow> named i r \<and>
     ((d = [] \<and> pr_status r \<noteq> StatusSuccess) \<or>
     (\<exists>stage chunks. d = Staged stage # map (Wrote stage) chunks @ [Removed stage] \<and> pr_status r = StatusError) \<or>
     (\<exists>stage chunks raw records knowledge.
        d = Staged stage # map (Wrote stage) chunks @ [Published stage (it_filename x), Removed stage] \<and>
        pr_status r = StatusSuccess \<and> valid_export_filename (it_filename x) \<and>
        export_payload (pe_parse e) (xe_print e) x raw = Inr (concat chunks, records, knowledge) \<and>
        length (concat chunks) \<le> max_export_bytes \<and>
        ir_artifact r = Some (export_artifact e x (concat chunks) records knowledge)))"

lemma export_shape_events: "export_shape e i x r d \<Longrightarrow> exports d = d"
  by (auto simp: export_shape_def)

lemma publish_export_yields:
  assumes "export_payload (pe_parse e) (xe_print e) x raw = Inr (payload, records, knowledge)"
    and "length payload \<le> max_export_bytes" "valid_export_filename (it_filename x)"
  shows "yields (publish_export e i x payload records knowledge) (export_shape e i x)"
  unfolding publish_export_def
proof (intro yields_intro, goal_cases)
  case (4 root st)
  show ?case
  proof (rule yields_then[OF new_export_temp_yields], goal_cases)
    case (1 stage d)
    show ?case
    proof (cases stage)
      case None
      with 1 show ?thesis by (simp add: yields_return export_shape_def)
    next
      case (Some name)
      with 1 have d: "d = [Staged name]" by simp
      show ?thesis unfolding Some option.case d
      proof (rule yields_then[OF fill_and_link_yields], intro yields_intro, goal_cases)
        case (1 r d)
        then show ?case using assms by (fastforce simp: export_shape_def)
      qed
    qed
  qed
qed (simp_all add: export_shape_def)

lemma export_response_yields: "yields (export_response e i x raw) (export_shape e i x)"
proof (cases "export_payload (pe_parse e) (xe_print e) x raw")
  case (Inl m)
  then show ?thesis by (simp add: export_response_def yields_return export_shape_def)
next
  case (Inr p)
  obtain payload records knowledge where p: "p = (payload, records, knowledge)" by (metis prod.exhaust)
  show ?thesis unfolding export_response_def Inr p sum.case prod.case
    using publish_export_yields[OF Inr[unfolded p]]
    by (intro yields_intro) (auto simp: export_shape_def not_less)
qed

lemma export_item_yields:
  "yields (export_item e i x) (\<lambda>res d. \<forall>r. res = Some r \<longrightarrow> export_shape e i x r (exports d))"
  unfolding export_item_def
proof (intro yields_intro, goal_cases)
  case (3 slot c)
  show ?case
  proof (rule yields_then[OF request_no_exports], goal_cases)
    case (1 answer d)
    show ?case
    proof (cases answer)
      case None
      then show ?thesis by (simp, intro yields_intro) simp
    next
      case (Some res)
      show ?thesis
      proof (cases "pr_status res = StatusSuccess")
        case True
        have "yields (State_Monad.bind (export_response e i x (ir_data res))
            (\<lambda>done. State_Monad.bind (emit GaveExport) (\<lambda>_. State_Monad.return (Some done))))
          (\<lambda>y d'. \<forall>r. y = Some r \<longrightarrow> export_shape e i x r (exports (TookExport # d @ d')))"
          by (rule yields_then[OF export_response_yields], intro yields_intro)
            (use 1 export_shape_events in simp)
        then show ?thesis unfolding Some option.case using True by simp
      next
        case False
        have "named i res" "exports d = []" using 1 Some by auto
        with False show ?thesis unfolding Some option.case
          by simp (intro yields_intro, simp add: export_shape_def)
      qed
    qed
  qed
qed (simp_all add: export_shape_def)

text \<open>C38. An export is published whole or not at all.  It touches the export directory only through one
  exclusively created stage that is always removed; success means that the stage was linked to
  the item's own safe filename after every byte of the rendered payload, within 64 MiB, had been
  written to it in order, and the reported artifact describes exactly those bytes; every other
  outcome publishes nothing.\<close>

theorem export_all_or_nothing:
  assumes "run_state (export_item e i x) w = (Some r, w')" "tk_trace w = []"
  shows "export_shape e i x r (exports (tk_trace w'))"
proof -
  have "\<exists>d. tk_trace (snd (run_state (export_item e i x) w)) = tk_trace w @ d \<and>
      (\<forall>r. fst (run_state (export_item e i x) w) = Some r \<longrightarrow> export_shape e i x r (exports d))"
    using export_item_yields unfolding yields_def by blast
  with assms show ?thesis by simp
qed

definition demo_item :: item where
  "demo_item = \<lparr>it_type = ''export'', it_plan = ''p'', it_id = '''', it_transaction = '''', it_account = '''',
     it_category = '''', it_category_group = '''', it_payee = '''', it_payee_location = '''', it_scheduled = '''',
     it_month = '''', it_since = ''2026-09-01'', it_until = ''2026-09-30'', it_knowledge = None,
     it_filter = '''', it_include_accounts = False, it_data = None, it_source = ''plan'', it_format = ''json'',
     it_filename = ''p.json''\<rparr>"

definition demo_export :: export_env where
  "demo_export = \<lparr>pe_dispatch = demo_env\<lparr>de_answer := (\<lambda>k. Some \<lparr>hr_status = 200, hr_retry_after = '''',
       hr_body = ''{}'', hr_broken = None\<rparr>)\<rparr>,
     pe_token = ''t'', pe_base = ''u'', pe_request = (\<lambda>m t b. True),
     pe_parse = (\<lambda>s. Some (JObj [(''data'', JObj [(''plan'', JObj [])])])), pe_quote = (\<lambda>s. s),
     pe_order = provider_collections, xe_slot = (\<lambda>k. True), xe_root = (\<lambda>k. True),
     xe_lstat = (\<lambda>k. LstatAbsent), xe_random = (\<lambda>k. Some [1, 2]), xe_create = (\<lambda>k. CreateDone),
     xe_write = (\<lambda>k. Some 2), xe_close = (\<lambda>k. True), xe_link = (\<lambda>k. True), xe_print = (\<lambda>j. Some ''''),
     xe_export_root = ''/x''\<rparr>"

lemma demo_export_parts:
  "trim_space '''' = ''''" "valid_export_filename ''p.json''"
  "valid_ynab_envelope (JObj [(''data'', JObj [(''plan'', JObj [])])]) ''plan''"
  "stage_name [1, 2] = ''.export-0102.partial''"
  by code_simp+

lemmas eight_tries = new_export_temp.simps(2)[of 7, simplified]

lemma demo_export_run:
  "map_option pr_status (fst (run_state (export_item demo_export 0 demo_item) demo_world)) = Some StatusSuccess"
  by (simp add: demo_export_parts eight_tries export_item_def demo_export_def demo_env_def demo_world_def
      demo_item_def look_def emit_def export_source_def request_provider_def route_def plan_path_def item_answer_def
      provider_query_def dispatch_def read_attempts_def numeral_2_eq_2 dispatch_attempt_def reserve_slot_def
      transact_def quota_reserve_def empty_db_def State_Monad.get_def Let_def no_result_def provider_env.defs
      token_slots_def prune_def quota_limit_def circuit_admit_def read_circuit_def new_circuit_def send_attempt_def
      read_answer_def retry_time_def read_success_def read_body_def max_provider_bytes_def finish_attempt_def
      quota_record_def circuit_record_def circuit_complete_def after_attempt_def write_circuit_def
      export_response_def export_payload_def max_export_bytes_def publish_export_def fill_and_link_def
      write_export.simps[of _ _ "''{}''"] write_export.simps[of _ _ "''''"] export_write_chunk_def)

theorem export_all_or_nothing_witness:
  "\<exists>r w'. run_state (export_item demo_export 0 demo_item) demo_world = (Some r, w') \<and>
     pr_status r = StatusSuccess \<and> export_shape demo_export 0 demo_item r (exports (tk_trace w'))"
proof -
  obtain r w' where run: "run_state (export_item demo_export 0 demo_item) demo_world = (Some r, w')"
    and "pr_status r = StatusSuccess"
    using demo_export_run by (cases "run_state (export_item demo_export 0 demo_item) demo_world") auto
  with export_all_or_nothing[OF run demo_start] show ?thesis by blast
qed

end
