(* ===== verification/YnabBatch.thy ===== *)
theory YnabBatch
  imports YnabExport
begin

text \<open>
  One call of a YNAB tool (\<^verbatim>\<open>internal/tools/ynab/tools.go\<close>: \<^verbatim>\<open>execute\<close>, \<^verbatim>\<open>appendNotAttempted\<close>): the
  batch is checked as a whole before anything is dispatched, its items run in order, adjacent
  transactions of one plan as one native request, and a failure stops the rest.
\<close>

definition max_items :: nat where "max_items = 10"

record batch_env = export_env +
  be_today :: "nat \<Rightarrow> date"
  be_row_size :: "json \<Rightarrow> nat"
  be_answer_size :: "item_result list \<Rightarrow> nat option"

section \<open>Checks before dispatch\<close>

fun check_items :: "batch_env \<Rightarrow> verb \<Rightarrow> nat \<Rightarrow> item list \<Rightarrow> item_result list" where
  "check_items e v i [] = []"
| "check_items e v i (x # xs) =
     (case validate_item (be_today e i) v x of
        Some err \<Rightarrow> error_result i (error_text (pe_quote e) err) ''invalid_request'' ''fix_request''
      | None \<Rightarrow>
          (error_result i ''not dispatched because batch validation failed'' ''invalid_request'' ''fix_request'')
            \<lparr>pr_status := NotAttempted\<rparr>) # check_items e v (i + 1) xs"

definition batch_invalid :: "batch_env \<Rightarrow> verb \<Rightarrow> item list \<Rightarrow> bool" where
  "batch_invalid e v xs \<longleftrightarrow> (\<exists>i \<in> set [0..<length xs]. validate_item (be_today e i) v (xs ! i) \<noteq> None)"

section \<open>Running the items\<close>

text \<open>The rest of a batch after a failure takes its code, recovery and retry time from the result before
  it.\<close>

fun not_attempted_from :: "nat \<Rightarrow> item list \<Rightarrow> item_result option \<Rightarrow> item_result list" where
  "not_attempted_from i [] previous = []"
| "not_attempted_from i (x # xs) previous =
     (let r0 = (plain_error i ''not dispatched after an earlier batch failure'')\<lparr>pr_status := NotAttempted\<rparr>;
          r = (case previous of
                 None \<Rightarrow> r0
               | Some p \<Rightarrow> r0\<lparr>pr_code := pr_code p, pr_recovery := pr_recovery p, pr_retry_at := pr_retry_at p\<rparr>)
      in r # not_attempted_from (i + 1) xs (Some r))"

definition stops_batch :: "verb \<Rightarrow> item_result \<Rightarrow> bool" where
  "stops_batch v r \<longleftrightarrow>
     (mutating v \<or> pr_code r \<in> {''rate_limited'', ''authentication'', ''permission'', ''canceled'', ''local_state''} \<or>
      pr_code r = ''upstream_unavailable'' \<and> pr_recovery r = ''wait'') \<and>
     pr_status r \<noteq> StatusSuccess"

definition native_run :: "verb \<Rightarrow> item \<Rightarrow> item list \<Rightarrow> item list" where
  "native_run v x xs = x # takeWhile (\<lambda>y. is_native v y \<and> it_plan y = it_plan x) xs"

definition run_item :: "batch_env \<Rightarrow> verb \<Rightarrow> nat \<Rightarrow> item \<Rightarrow> item_result option dispatch_io" where
  "run_item e v i x = do {
     answer \<leftarrow> (if v = VCreate \<and> it_type x = ''export''
               then export_item (export_env.truncate e) i x
               else request_provider (provider_env.truncate e) i v x True);
     State_Monad.return (map_option (\<lambda>r.
       if mutating v \<and> pr_status r = StatusSuccess
       then acknowledge (if v = VUpdate \<and> it_type x = ''transaction''
                         then confirm_transaction_fields (pe_parse e) x r else r)
       else r) answer)
   }"

definition uses_native :: "verb \<Rightarrow> item \<Rightarrow> item list \<Rightarrow> bool" where
  "uses_native v x xs \<longleftrightarrow>
     mutating v \<and> is_native v x \<and> length (native_run v x xs) > 1 \<and> native_identifiable v (native_run v x xs) []"

text \<open>The results of the items from \<open>i\<close> on, \<open>previous\<close> being the last result before them.  \<open>fuel\<close> is the number
  of items left or more.\<close>

fun run_items :: "nat \<Rightarrow> batch_env \<Rightarrow> verb \<Rightarrow> nat \<Rightarrow> item list \<Rightarrow> item_result list option dispatch_io" where
  "run_items fuel e v i [] = State_Monad.return (Some [])"
| "run_items 0 e v i (x # xs) = State_Monad.return None"
| "run_items (Suc fuel) e v i (x # xs) =
     (if uses_native v x xs then do {
        answer \<leftarrow> native_transactions (provider_env.truncate e) v i (native_run v x xs);
        (let n = length (native_run v x xs); rest = drop n (x # xs) in
         case answer of
           None \<Rightarrow> State_Monad.return None
         | Some rs \<Rightarrow>
             if list_ex (\<lambda>r. pr_status r \<noteq> StatusSuccess) rs
             then State_Monad.return (Some (rs @ not_attempted_from (i + n) rest (Some (last rs))))
             else do {
               more \<leftarrow> run_items fuel e v (i + n) rest;
               State_Monad.return (map_option ((@) rs) more) }) }
      else do {
        answer \<leftarrow> run_item e v i x;
        (case answer of
           None \<Rightarrow> State_Monad.return None
         | Some r \<Rightarrow>
             if stops_batch v r
             then State_Monad.return (Some (r # not_attempted_from (i + 1) xs (Some r)))
             else do {
               more \<leftarrow> run_items fuel e v (i + 1) xs;
               State_Monad.return (map_option ((#) r) more) }) })"

text \<open>The answer of a call, and whether it is an error.\<close>

definition execute :: "batch_env \<Rightarrow> verb \<Rightarrow> item list \<Rightarrow> (bool \<times> item_result list) option dispatch_io" where
  "execute e v xs =
     (if xs = [] \<or> length xs > max_items
      then State_Monad.return (Some (True,
        [error_result 0 ''items must contain 1 through 10 items'' ''invalid_request'' ''fix_request'']))
      else if batch_invalid e v xs then State_Monad.return (Some (True, check_items e v 0 xs))
      else do {
        answer \<leftarrow> run_items (length xs) e v 0 xs;
        State_Monad.return (map_option
          (\<lambda>rs. finish_output (be_row_size e) (be_answer_size e) rs (mutating v)) answer) })"

section \<open>Writes and results\<close>

definition writes :: "dispatch_event list \<Rightarrow> dispatch_event list" where
  "writes t = filter (\<lambda>ev. case ev of Sent k _ _ \<Rightarrow> fst k \<noteq> ''GET'' | _ \<Rightarrow> False) t"

lemma writes_append [simp]: "writes (t @ u) = writes t @ writes u"
  by (simp add: writes_def)

lemma writes_Nil [simp]: "writes [] = []"
  by (simp add: writes_def)

text \<open>The events of an item and its result: at most one write, and no write behind a result that says
  the item was not attempted.\<close>

definition accounted :: "dispatch_event list \<Rightarrow> item_result \<Rightarrow> bool" where
  "accounted d r \<longleftrightarrow> length (writes d) \<le> 1 \<and> (writes d \<noteq> [] \<longrightarrow> pr_status r \<noteq> NotAttempted)"

lemma accounted_Nil [simp]: "accounted [] r"
  by (simp add: accounted_def)

lemma attempt_writes:
  assumes "attempt_shape token verb resource n r d"
  shows "length (writes d) \<le> 1" "verb = ''GET'' \<Longrightarrow> writes d = []" "writes d \<noteq> [] \<Longrightarrow> sends d \<noteq> []"
  using assms by (auto simp: attempt_shape_def sent_result_def writes_def sends_def)

lemma call_writes:
  assumes "call_shape token verb resource r d"
  shows "length (writes d) \<le> 1 \<and> (verb = ''GET'' \<longrightarrow> writes d = []) \<and>
    (\<forall>raw res. r = Some (raw, res) \<and> writes d \<noteq> [] \<longrightarrow> pr_status res \<noteq> NotAttempted)"
  using assms
proof (cases rule: call_cases)
  case one
  from attempt_writes[OF this] this show ?thesis using attempt_report(2) by blast
next
  case (two p db answer outcome ok t d1)
  from attempt_writes(2)[OF two(4) two(1)] two(1,3) show ?thesis by (simp add: writes_def)
qed

lemma project_attempted:
  "project_provider_result order parse i raw expected = Some r \<Longrightarrow> pr_status r = StatusSuccess \<or> pr_status r = StatusError"
  by (auto simp: project_provider_result_def bad_resource_def split: option.splits project_error.splits
      sum.splits if_splits)

lemma item_answer_attempted:
  assumes "item_answer e i v x proj r (Some (data, failure)) = Some res"
  shows "pr_status res = NotAttempted \<longleftrightarrow> pr_status failure = NotAttempted"
  using assms project_attempted[of "pe_order e" "pe_parse e" i data "expected_keys v x r"]
  by (fastforce simp: item_answer_def split: if_splits)

lemma call_accounted:
  assumes "call_shape token verb resource ans d" "item_answer e i v x proj r ans = Some res"
  shows "accounted d res"
proof -
  obtain data failure where ans: "ans = Some (data, failure)"
    using assms(2) by (auto simp: item_answer_def split: option.splits)
  from call_writes[OF assms(1)] item_answer_attempted[OF assms(2)[unfolded ans]] ans show ?thesis
    by (auto simp: accounted_def)
qed

lemma request_accounted:
  "yields (request_provider e i v x proj) (\<lambda>res d. \<forall>r. res = Some r \<longrightarrow> accounted d r \<and> named i r)"
  by (rule yields_weaken[OF request_provider_yields]) (auto intro: call_accounted item_answer_named)

lemma request_reads:
  assumes "\<And>r. route v x = Inr r \<Longrightarrow> op_method r = ''GET''"
  shows "yields (request_provider e i v x proj) (\<lambda>res d. writes d = [] \<and> (\<forall>r. res = Some r \<longrightarrow> named i r))"
  by (rule yields_weaken[OF request_provider_yields]) (use assms call_writes item_answer_named in auto)

lemma export_source_reads: "route (fst (export_source x)) (snd (export_source x)) = Inr r \<Longrightarrow> op_method r = ''GET''"
  by (auto simp: export_source_def route_def transaction_route_def Let_def unsupported_def split: if_splits)

lemma export_shape_writes: "export_shape e i x r d \<Longrightarrow> writes d = []"
  by (auto simp: export_shape_def writes_def filter_empty_conv)

text \<open>What a run from item \<open>i\<close> on leaves: the events of its items in order, each accounted for by the
  result of its item.\<close>

definition run_spec :: "nat \<Rightarrow> nat \<Rightarrow> dispatch_event list \<Rightarrow> item_result list \<Rightarrow> bool" where
  "run_spec i n d rs \<longleftrightarrow>
     (\<exists>ds. d = concat ds \<and> list_all2 accounted ds rs) \<and>
     map ir_index rs = [i..<i + n] \<and> list_all (\<lambda>r. pr_status r \<noteq> StatusNone) rs"

lemma run_spec_Nil [simp]: "run_spec i 0 [] []"
  by (auto simp: run_spec_def intro: exI[of _ "[]"])

lemma run_spec_append:
  assumes "run_spec i n d rs" "run_spec (i + n) m d' rs'"
  shows "run_spec i (n + m) (d @ d') (rs @ rs')"
proof -
  from assms obtain ds ds' where "d = concat ds" "list_all2 accounted ds rs" "d' = concat ds'" "list_all2 accounted ds' rs'"
    by (auto simp: run_spec_def)
  then have "\<exists>es. d @ d' = concat es \<and> list_all2 accounted es (rs @ rs')"
    by (intro exI[of _ "ds @ ds'"]) (simp add: list_all2_appendI)
  moreover have "[i..<i + (n + m)] = [i..<i + n] @ [i + n..<i + (n + m)]"
    using upt_add_eq_append[of i "i + n" m] by (simp add: add.assoc)
  ultimately show ?thesis using assms by (simp add: run_spec_def add.assoc)
qed

lemma run_spec_one: "accounted d r \<Longrightarrow> named i r \<Longrightarrow> run_spec i 1 d [r]"
  by (auto simp: run_spec_def named_def intro!: exI[of _ "[d]"])

lemma run_spec_skipped:
  "run_spec i (length xs) [] (not_attempted_from i xs previous)"
proof (induction i xs previous rule: not_attempted_from.induct)
  case (2 i x xs previous)
  let ?r0 = "(plain_error i ''not dispatched after an earlier batch failure'')\<lparr>pr_status := NotAttempted\<rparr>"
  let ?r = "case previous of None \<Rightarrow> ?r0
    | Some p \<Rightarrow> ?r0\<lparr>pr_code := pr_code p, pr_recovery := pr_recovery p, pr_retry_at := pr_retry_at p\<rparr>"
  have "named i ?r" by (simp add: named_def plain_error_def split: option.split)
  then have "run_spec i 1 [] [?r]" by (intro run_spec_one) simp_all
  from run_spec_append[OF this 2[OF refl refl]] show ?case
    unfolding not_attempted_from.simps Let_def by simp
qed simp

section \<open>One item\<close>

lemma acknowledge_simps [simp]:
  "ir_index (acknowledge r) = ir_index r"
  "pr_status (acknowledge r) = NotAttempted \<longleftrightarrow> pr_status r = NotAttempted"
  "pr_status (acknowledge r) = StatusNone \<longleftrightarrow> pr_status r = StatusNone"
  by (auto simp: acknowledge_def Let_def)

lemma confirm_cases:
  "confirm_transaction_fields parse x r = r \<or>
   (\<exists>ms. confirm_transaction_fields parse x r = unconfirmed_transaction r ms \<and> pr_status r = StatusSuccess)"
  by (auto simp: confirm_transaction_fields_def Let_def split: option.splits prod.splits)

lemma unconfirmed_index [simp]: "ir_index (unconfirmed_transaction r ms) = ir_index r"
  by (simp add: unconfirmed_transaction_def)

lemma confirm_simps [simp]:
  "ir_index (confirm_transaction_fields parse x r) = ir_index r"
  "pr_status (confirm_transaction_fields parse x r) = NotAttempted \<longleftrightarrow> pr_status r = NotAttempted"
  "pr_status (confirm_transaction_fields parse x r) = StatusNone \<longleftrightarrow> pr_status r = StatusNone"
  using confirm_cases[of parse x r] by auto

lemma export_item_accounted:
  "yields (export_item e i x) (\<lambda>res d. \<forall>r. res = Some r \<longrightarrow> accounted d r \<and> named i r)"
proof -
  have w: "writes (TookExport # d) = writes d" "writes [GaveExport] = []" for d by (simp_all add: writes_def)
  show ?thesis
    unfolding export_item_def
  proof (intro yields_intro, goal_cases)
    case (3 slot c)
    show ?case
    proof (rule yields_then[OF request_reads[OF export_source_reads]], assumption, goal_cases)
      case (1 answer d)
      show ?case
      proof (cases answer)
        case None
        then show ?thesis by (simp, intro yields_intro) simp
      next
        case (Some res)
        with 1 have res: "named i res" "writes d = []" by auto
        show ?thesis
        proof (cases "pr_status res = StatusSuccess")
          case True
          have "yields (State_Monad.bind (export_response e i x (ir_data res))
              (\<lambda>done. State_Monad.bind (emit GaveExport) (\<lambda>_. State_Monad.return (Some done))))
            (\<lambda>y d'. \<forall>r. y = Some r \<longrightarrow> accounted (TookExport # d @ d') r \<and> named i r)"
            by (rule yields_then[OF export_response_yields], intro yields_intro)
              (use res(2) export_shape_writes in \<open>auto simp: accounted_def w export_shape_def\<close>)
          then show ?thesis unfolding Some option.case using True by simp
        next
          case False
          with res show ?thesis unfolding Some option.case
            by simp (intro yields_intro, simp add: accounted_def w)
        qed
      qed
    qed
  qed (simp_all add: accounted_def writes_def)
qed

lemma run_item_spec:
  "yields (run_item e v i x) (\<lambda>res d. \<forall>r. res = Some r \<longrightarrow> run_spec i 1 d [r])"
proof -
  have "yields (if v = VCreate \<and> it_type x = ''export''
        then export_item (export_env.truncate e) i x
        else request_provider (provider_env.truncate e) i v x True)
      (\<lambda>res d. \<forall>r. res = Some r \<longrightarrow> accounted d r \<and> named i r)"
    using export_item_accounted request_accounted by simp
  then show ?thesis
    unfolding run_item_def
    by (rule yields_then, intro yields_intro)
      (auto intro!: run_spec_one[unfolded One_nat_def] simp: accounted_def named_def)
qed

section \<open>A native request\<close>

lemma run_spec_group:
  assumes "rs \<noteq> []" "length (writes d) \<le> 1" "map ir_index rs = [i..<i + length rs]"
    and "list_all (\<lambda>r. pr_status r \<noteq> StatusNone) rs"
    and "writes d \<noteq> [] \<Longrightarrow> list_all (\<lambda>r. pr_status r \<noteq> NotAttempted) rs"
  shows "run_spec i (length rs) d rs"
proof -
  obtain r rs' where rs: "rs = r # rs'" using assms(1) by (cases rs) auto
  have "list_all2 accounted (replicate (length rs') []) rs'"
    by (simp add: list_all2_conv_all_nth)
  moreover have "accounted d r" using assms(2,5) by (auto simp: accounted_def rs)
  ultimately have "\<exists>ds. d = concat ds \<and> list_all2 accounted ds rs"
    unfolding rs by (intro exI[of _ "d # replicate (length rs') []"]) simp
  with assms(3,4) show ?thesis by (simp add: run_spec_def)
qed

lemma group_results_props:
  "length (group_results i xs base) = length xs"
  "map ir_index (group_results i xs base) = [i..<i + length xs]"
  "list_all (\<lambda>r. pr_status r = pr_status base) (group_results i xs base)"
  by (induction i xs base rule: group_results.induct) (auto simp: upt_conv_Cons simp del: upt_Suc)

lemma correlate_one_props:
  "ir_index (correlate_one provider i x) = i"
  "pr_status (correlate_one provider i x) \<in> {StatusSuccess, StatusUncertain}"
  by (auto simp: correlate_one_def split: prod.splits)

lemma correlate_native_props:
  "length (correlate_native i xs provider) = length xs"
  "map ir_index (correlate_native i xs provider) = [i..<i + length xs]"
  "list_all (\<lambda>r. pr_status r \<in> {StatusSuccess, StatusUncertain}) (correlate_native i xs provider)"
  using correlate_one_props
  by (induction i xs provider rule: correlate_native.induct) (auto simp: upt_conv_Cons simp del: upt_Suc)

lemma confirm_status:
  "pr_status r \<in> {StatusSuccess, StatusUncertain} \<Longrightarrow>
     pr_status (confirm_transaction_fields parse x r) \<in> {StatusSuccess, StatusUncertain}"
  using confirm_cases[of parse x r] by auto

lemma map2_confirm:
  assumes "length xs = length rs"
  shows "map ir_index (map2 (\<lambda>x r. (confirm_transaction_fields parse x (r\<lparr>ir_data := raw\<rparr>))\<lparr>ir_data := ''''\<rparr>) xs rs)
      = map ir_index rs"
    and "list_all (\<lambda>r. pr_status r \<in> {StatusSuccess, StatusUncertain}) rs \<Longrightarrow>
      list_all (\<lambda>r. pr_status r \<in> {StatusSuccess, StatusUncertain})
        (map2 (\<lambda>x r. (confirm_transaction_fields parse x (r\<lparr>ir_data := raw\<rparr>))\<lparr>ir_data := ''''\<rparr>) xs rs)"
  using assms confirm_status[of "_\<lparr>ir_data := raw\<rparr>" parse] by (induction xs rs rule: list_induct2) simp_all

lemma native_answer_props:
  assumes "native_answer e v i xs (Some (raw, failure)) = Some rs"
  shows "length rs = length xs \<and> map ir_index rs = [i..<i + length xs] \<and>
    list_all (\<lambda>r. pr_status r \<noteq> StatusNone \<and> (pr_status r = NotAttempted \<longrightarrow> pr_status failure = NotAttempted)) rs"
proof (cases "pr_status failure = StatusNone")
  case False
  with assms have "rs = group_results i xs (with_index 0 failure)" by (simp add: native_answer_def)
  with False group_results_props[where i = i and xs = xs and base = "with_index 0 failure"] show ?thesis by (auto simp: list_all_iff)
next
  case True
  with assms obtain p where p: "project_provider_result (pe_order e) (pe_parse e) i raw
      [''transactions'', ''transaction_ids'', ''duplicate_import_ids''] = Some p"
    by (auto simp: native_answer_def split: option.splits)
  show ?thesis
  proof (cases "pr_status p = StatusSuccess")
    case False
    with assms True p have "rs = group_results i xs (p\<lparr>pr_status := StatusUncertain\<rparr>)"
      by (simp add: native_answer_def)
    with group_results_props[where i = i and xs = xs and base = "p\<lparr>pr_status := StatusUncertain\<rparr>"] show ?thesis
      by (auto simp: list_all_iff)
  next
    case ok: True
    note c = correlate_native_props[where i = i and xs = xs and provider = p]
    note m = map2_confirm[OF c(1)[symmetric], of "pe_parse e" raw]
    from assms True p ok have rs: "rs = (if v = VUpdate
        then map2 (\<lambda>x r. (confirm_transaction_fields (pe_parse e) x (r\<lparr>ir_data := raw\<rparr>))\<lparr>ir_data := ''''\<rparr>) xs
          (correlate_native i xs p) else correlate_native i xs p)"
      by (simp add: native_answer_def Let_def)
    have "list_all (\<lambda>r. pr_status r \<in> {StatusSuccess, StatusUncertain}) rs"
    proof (cases "v = VUpdate")
      case True
      with rs m(2)[OF c(3)] show ?thesis by simp
    next
      case False
      with rs c(3) show ?thesis by simp
    qed
    then have "list_all (\<lambda>r. pr_status r \<noteq> StatusNone \<and> (pr_status r = NotAttempted \<longrightarrow> pr_status failure = NotAttempted)) rs"
      by (rule list.pred_mono_strong) auto
    moreover have "length rs = length xs \<and> map ir_index rs = [i..<i + length xs]"
    proof (cases "v = VUpdate")
      case True
      with rs c(1,2) m(1) show ?thesis by simp
    next
      case False
      with rs c(1,2) show ?thesis by simp
    qed
    ultimately show ?thesis by simp
  qed
qed

lemma native_spec:
  assumes "xs \<noteq> []"
  shows "yields (native_transactions e v i xs) (\<lambda>res d. \<forall>rs. res = Some rs \<longrightarrow> run_spec i (length xs) d rs)"
proof (rule yields_weaken[OF native_transactions_yields], intro allI impI, elim disjE exE conjE, goal_cases)
  case (1 res d rs)
  then show ?case by simp
next
  case (2 res d rs m)
  then have rs: "rs = group_results i xs (plain_error 0 m)" by simp
  note g = group_results_props[where i = i and xs = xs and base = "plain_error 0 m"]
  have "run_spec i (length rs) [] rs"
    using assms g by (intro run_spec_group) (auto simp: rs list_all_iff plain_error_def)
  with 2 g rs show ?case by simp
next
  case (3 res d rs ans)
  then obtain raw failure where ans: "ans = Some (raw, failure)"
    by (auto simp: native_answer_def split: option.splits)
  from 3 have "native_answer e v i xs (Some (raw, failure)) = Some rs" by (simp add: ans)
  note p = native_answer_props[OF this] and w = call_writes[OF 3(2), unfolded ans]
  have "run_spec i (length rs) d rs"
    using assms p w by (intro run_spec_group) (auto simp: list_all_iff)
  with p show ?case by simp
qed


section \<open>The run\<close>

lemma native_run_length: "1 \<le> length (native_run v x xs) \<and> length (native_run v x xs) \<le> length (x # xs)"
  by (simp add: native_run_def length_takeWhile_le)

lemma native_run_drop:
  "length (native_run v x xs) + length (drop (length (native_run v x xs)) (x # xs)) = length (x # xs)"
  using native_run_length[of v x xs] by simp

lemma run_spec_continue:
  assumes "run_spec i n d rs" "yields next_run (\<lambda>res d'. \<forall>rs'. res = Some rs' \<longrightarrow> run_spec (i + n) m d' rs')"
  shows "yields (State_Monad.bind next_run (\<lambda>x. State_Monad.return (map_option ((@) rs) x)))
    (\<lambda>res d'. \<forall>rs'. res = Some rs' \<longrightarrow> run_spec i (n + m) (d @ d') rs')"
  by (rule yields_then[OF assms(2)], rule yields_return) (use assms(1) run_spec_append in auto)

lemma run_spec_stop:
  assumes "run_spec i n d rs"
  shows "yields (State_Monad.return (Some (rs @ not_attempted_from (i + n) xs previous)))
    (\<lambda>res d'. \<forall>rs'. res = Some rs' \<longrightarrow> run_spec i (n + length xs) (d @ d') rs')"
  by (rule yields_return) (use run_spec_append[OF assms run_spec_skipped] in simp)

lemma run_items_spec:
  "yields (run_items fuel e v i xs) (\<lambda>res d. \<forall>rs. res = Some rs \<longrightarrow> run_spec i (length xs) d rs)"
proof (induction fuel e v i xs rule: run_items.induct)
  case (1 fuel e v i)
  show ?case unfolding run_items.simps by (intro yields_intro) simp
next
  case (2 e v i x xs)
  show ?case unfolding run_items.simps by (intro yields_intro) simp
next
  case (3 fuel e v i x xs)
  show ?case
  proof (cases "uses_native v x xs")
    case True
    let ?n = "length (native_run v x xs)"
    note n = native_run_drop[of v x xs]
    have "native_run v x xs \<noteq> []" by (simp add: native_run_def)
    from native_spec[OF this] show ?thesis unfolding run_items.simps if_P[OF True] Let_def
    proof (rule yields_then, goal_cases)
      case (1 answer d)
      show ?case
      proof (cases answer)
        case None
        then show ?thesis unfolding None option.case by (intro yields_intro) simp
      next
        case (Some rs)
        with 1 have rs: "run_spec i ?n d rs" by simp
        from run_spec_stop[OF rs] run_spec_continue[OF rs 3(1)[OF True refl refl Some]]
        show ?thesis unfolding Some option.case n[symmetric] by (intro yields_if)
      qed
    qed
  next
    case False
    show ?thesis unfolding run_items.simps if_not_P[OF False]
    proof (rule yields_then[OF run_item_spec], goal_cases)
      case (1 answer d)
      show ?case
      proof (cases answer)
        case None
        then show ?thesis unfolding None option.case by (intro yields_intro) simp
      next
        case (Some r)
        with 1 have r: "run_spec i 1 d [r]" by simp
        have c: "map_option ((@) [r]) = map_option ((#) r)" by (intro arg_cong[where f = map_option]) auto
        show ?thesis unfolding Some option.case
        proof (rule yields_if, goal_cases)
          case 1
          from run_spec_stop[OF r, of xs "Some r"] show ?case by simp
        next
          case 2
          from run_spec_continue[OF r 3(2)[OF False 2]] show ?case by (simp add: c)
        qed
      qed
    qed
  qed
qed


section \<open>The answer\<close>

lemma run_spec_map:
  assumes "run_spec i n d rs"
    and "\<And>r. ir_index (f r) = ir_index r" "\<And>r. pr_status r \<noteq> StatusNone \<Longrightarrow> pr_status (f r) \<noteq> StatusNone"
    and "\<And>r. pr_status r \<noteq> NotAttempted \<Longrightarrow> pr_status (f r) \<noteq> NotAttempted"
  shows "run_spec i n d (map f rs)"
proof -
  from assms(1) obtain ds where ds: "d = concat ds" "list_all2 accounted ds rs" by (auto simp: run_spec_def)
  have "list_all2 accounted ds (map f rs)"
    unfolding list.rel_map using ds(2) by (rule list_all2_mono) (use assms(4) in \<open>auto simp: accounted_def\<close>)
  with ds(1) assms(1,2,3) show ?thesis by (auto simp: run_spec_def list.pred_set comp_def)
qed

lemma too_large_simps:
  "ir_index (too_large_result m r) = ir_index r"
  "pr_status (too_large_result m r) \<noteq> StatusNone"
  "pr_status r \<noteq> NotAttempted \<Longrightarrow> pr_status (too_large_result m r) \<noteq> NotAttempted"
  by (simp_all add: too_large_result_def error_result_def)

lemma finish_output_spec:
  assumes "run_spec i n d rs" "finish_output row_size answer_size rs m = (failed, out)"
  shows "run_spec i n d out"
proof -
  have norm: "run_spec i n d (map normalize_result rs)" by (rule run_spec_map[OF assms(1)]) simp_all
  have "run_spec i n d (map (too_large_result m) (map normalize_result rs))"
    by (rule run_spec_map[OF norm]) (use too_large_simps in auto)
  with norm assms(2) show ?thesis by (auto simp: finish_output_def Let_def split: if_splits)
qed

lemma check_items_props:
  "map ir_index (check_items e v i xs) = [i..<i + length xs]"
  "list_all (\<lambda>r. pr_status r \<in> {StatusError, NotAttempted}) (check_items e v i xs)"
  by (induction e v i xs rule: check_items.induct)
    (auto simp: upt_conv_Cons error_result_def simp del: upt_Suc split: option.splits)

lemma check_items_spec: "run_spec i (length xs) [] (check_items e v i xs)"
proof -
  let ?rs = "check_items e v i xs"
  have "list_all2 accounted (replicate (length ?rs) []) ?rs" by (simp add: list_all2_conv_all_nth)
  then have "\<exists>ds. [] = concat ds \<and> list_all2 accounted ds ?rs"
    by (intro exI[of _ "replicate (length ?rs) []"]) simp
  with check_items_props[where e = e and v = v and i = i and xs = xs] show ?thesis
    by (auto simp: run_spec_def list.pred_set)
qed

lemma execute_spec:
  assumes "run_state (execute e v xs) w = (Some (failed, rs), w')" "xs \<noteq> []" "length xs \<le> max_items"
  shows "\<exists>d. tk_trace w' = tk_trace w @ d \<and> run_spec 0 (length xs) d rs"
proof (cases "batch_invalid e v xs")
  case True
  with assms check_items_spec[where i = 0 and e = e and v = v and xs = xs] show ?thesis by (simp add: execute_def)
next
  case False
  let ?finish = "\<lambda>rs. finish_output (be_row_size e) (be_answer_size e) rs (mutating v)"
  let ?m = "State_Monad.bind (run_items (length xs) e v 0 xs) (\<lambda>answer. State_Monad.return (map_option ?finish answer))"
  have "yields ?m (\<lambda>res d. \<forall>failed rs. res = Some (failed, rs) \<longrightarrow> run_spec 0 (length xs) d rs)"
    by (rule yields_then[OF run_items_spec], rule yields_return) (auto intro: finish_output_spec)
  then have "\<exists>d. tk_trace (snd (run_state ?m w)) = tk_trace w @ d \<and>
      (\<forall>failed rs. fst (run_state ?m w) = Some (failed, rs) \<longrightarrow> run_spec 0 (length xs) d rs)"
    unfolding yields_def by blast
  moreover have "execute e v xs = ?m" using False assms(2,3) by (simp add: execute_def)
  ultimately show ?thesis using assms(1) by simp
qed


text \<open>C37. A batch answers every item.  The results of a batch of one to ten items that returns carry
  the indices of its items, each once and in order, and every result has a status.\<close>

theorem batch_answers_every_item:
  assumes "run_state (execute e v xs) w = (Some (failed, rs), w')" "xs \<noteq> []" "length xs \<le> max_items"
  shows "map ir_index rs = [0..<length xs] \<and> list_all (\<lambda>r. pr_status r \<noteq> StatusNone) rs"
  using execute_spec[OF assms] by (auto simp: run_spec_def)

text \<open>C35. A batch never repeats a write or hides one.  The events of a batch split into one group per
  item, in order: each group holds at most one request other than a read, and an item that is
  reported as not attempted sent none.\<close>

theorem batch_accounts_for_writes:
  assumes "run_state (execute e v xs) w = (Some (failed, rs), w')" "xs \<noteq> []" "length xs \<le> max_items"
  shows "\<exists>ds. tk_trace w' = tk_trace w @ concat ds \<and> list_all2 accounted ds rs"
  using execute_spec[OF assms] by (auto simp: run_spec_def)


section \<open>A batch\<close>

text \<open>Two accounts to create, sent to the provider of \<^const>\<open>demo_env\<close>, whose first answer is a
  failure.\<close>

definition demo_account :: "string \<Rightarrow> item" where
  "demo_account plan = \<lparr>it_type = ''account'', it_plan = plan, it_id = '''', it_transaction = '''', it_account = '''',
     it_category = '''', it_category_group = '''', it_payee = '''', it_payee_location = '''', it_scheduled = '''',
     it_month = '''', it_since = '''', it_until = '''', it_knowledge = None,
     it_filter = '''', it_include_accounts = False,
     it_data = Some (JObj [(''name'', JStr ''n''), (''type'', JStr ''cash''), (''balance'', JNum ''0'')]),
     it_source = '''', it_format = '''', it_filename = ''''\<rparr>"

definition demo_batch :: batch_env where
  "demo_batch = export_env.extend (demo_export\<lparr>pe_dispatch := demo_env\<rparr>) (batch_env.fields (\<lambda>i. (2026, 9, 1)) (\<lambda>j. 0) (\<lambda>rs. Some 1))"

lemma demo_accounts_valid: "validate_item (2026, 9, 1) VCreate (demo_account ''p'') = None"
  "validate_item (2026, 9, 1) VCreate (demo_account '''') \<noteq> None"
  by code_simp+


lemma demo_dispatch: "\<exists>raw r w'. run_state (dispatch demo_env ''t'' ''POST'' ''account'') demo_world = (Some (raw, r), w') \<and>
  pr_status r = StatusUncertain"
proof -
  let ?run = "run_state (dispatch demo_env ''t'' ''POST'' ''account'') demo_world"
  have "map_option (\<lambda>(raw, r). pr_status r) (fst ?run) = Some StatusUncertain" by code_simp
  then show ?thesis by (cases ?run; cases "fst ?run") auto
qed

lemma demo_batch_parts:
  "pe_dispatch (provider_env.truncate demo_batch) = demo_env" "pe_token (provider_env.truncate demo_batch) = ''t''"
  "pe_request (provider_env.truncate demo_batch) = (\<lambda>m t b. True)" "be_today demo_batch = (\<lambda>i. (2026, 9, 1))"
  "be_row_size demo_batch = (\<lambda>j. 0)" "be_answer_size demo_batch = (\<lambda>rs. Some 1)"
  by (simp_all add: demo_batch_def demo_export_def provider_env.defs export_env.defs batch_env.defs)

lemma demo_account_route:
  "route VCreate (demo_account ''p'') = Inr \<lparr>op_method = ''POST'', op_path = ''/plans/p/accounts'', op_requires_id = False\<rparr>"
  "provider_body (demo_account ''p'') \<noteq> None" "is_native VCreate (demo_account ''p'') = False"
  "it_type (demo_account ''p'') = ''account''"
  by (code_simp, simp_all add: provider_body_def is_native_def demo_account_def)

lemma demo_item_run:
  "\<exists>r w'. run_state (run_item demo_batch VCreate 0 (demo_account ''p'')) demo_world = (Some r, w') \<and>
    pr_status r = StatusUncertain"
proof -
  from demo_dispatch obtain raw r w' where "run_state (dispatch demo_env ''t'' ''POST'' ''account'') demo_world = (Some (raw, r), w')"
    and "pr_status r = StatusUncertain" by blast
  then show ?thesis
    by (simp add: run_item_def request_provider_def demo_account_route demo_batch_parts item_answer_def Let_def
        mutating_def)
qed

lemma demo_batch_run:
  "\<exists>failed rs w'. run_state (execute demo_batch VCreate [demo_account ''p'', demo_account ''p'']) demo_world =
    (Some (failed, rs), w')"
proof -
  from demo_item_run obtain r w' where "run_state (run_item demo_batch VCreate 0 (demo_account ''p'')) demo_world = (Some r, w')"
    and "pr_status r = StatusUncertain" by blast
  moreover have "\<not> batch_invalid demo_batch VCreate [demo_account ''p'', demo_account ''p'']"
    using demo_accounts_valid by (simp add: batch_invalid_def demo_batch_parts)
  ultimately show ?thesis
    by (simp add: execute_def max_items_def uses_native_def demo_account_route stops_batch_def mutating_def
        case_prod_unfold prod_eq_iff)
qed


theorem batch_answers_every_item_witness:
  "\<exists>failed rs w'. run_state (execute demo_batch VCreate [demo_account ''p'', demo_account ''p'']) demo_world =
    (Some (failed, rs), w') \<and> map ir_index rs = [0, 1]"
proof -
  from demo_batch_run obtain failed rs w' where run: "run_state (execute demo_batch VCreate
    [demo_account ''p'', demo_account ''p'']) demo_world = (Some (failed, rs), w')" by blast
  from batch_answers_every_item[OF run] run show ?thesis by (simp add: max_items_def)
qed

theorem batch_accounts_for_writes_witness:
  "\<exists>failed rs w' ds. run_state (execute demo_batch VCreate [demo_account ''p'', demo_account ''p'']) demo_world =
    (Some (failed, rs), w') \<and> tk_trace w' = concat ds \<and> list_all2 accounted ds rs"
proof -
  from demo_batch_run obtain failed rs w' where run: "run_state (execute demo_batch VCreate
    [demo_account ''p'', demo_account ''p'']) demo_world = (Some (failed, rs), w')" by blast
  from batch_accounts_for_writes[OF run] run show ?thesis by (auto simp: max_items_def demo_world_def)
qed

end
