(* ===== verification/Spec2Isabelle.thy ===== *)
theory Spec2Isabelle
  imports ReleaseManagerPolicy MutationDemo LsTool YnabBatch
begin

text \<open>
  Verification of the personal MCP gateway.

  \<^bold>\<open>The program.\<close>  The gateway serves two tool sets over MCP.  The vault tools read and change the notes
  below one directory (\<^verbatim>\<open>internal/fsx\<close>, \<^verbatim>\<open>internal/tools/obsidian\<close>); a change runs in a helper process
  that is driven over a pipe.  The budget tools (\<^verbatim>\<open>internal/tools/ynab\<close>) turn a batch of items into
  requests to one provider, under an allowance and outage circuits that all processes share through
  a database.  A separate command replaces the installed gateway and can always return to the
  release before it (\<^verbatim>\<open>internal/releaseactivation\<close>).

  \<^bold>\<open>Theories.\<close>  Names follow the code; a record has the fields of its struct under a short prefix.
  \<^item> \<open>Prelude\<close>, \<open>GoPath\<close>, \<open>GoBinary\<close>, \<open>GoJson\<close>: the parts of Go's standard library the code uses: strings,
    \<^verbatim>\<open>path\<close>, big-endian integers and \<^verbatim>\<open>io.ReadFull\<close>, decoding of parsed JSON into Go values.  The
    locale \<open>wire\<close> states what a framing must satisfy for its messages to survive a byte stream.
  \<^item> \<open>ReleaseTypes\<close>, \<open>ReleasePaths\<close>, \<open>ReleaseModel\<close>: \<^verbatim>\<open>types.go\<close>, \<^verbatim>\<open>path_validation.go\<close>, \<^verbatim>\<open>model.go\<close>: the
    data, the topology checks and the pure decision function \<open>decide\<close>, which is shown to refine a
    small abstract life cycle.
  \<^item> \<open>ReleaseStore\<close>, \<open>ReleaseStoreSafety\<close>: \<^verbatim>\<open>store.go\<close>: a two-level directory whose every system call may
    fail, the lock, authentication on load, publication, rewriting, clearing, removal of orphans.
    The locale \<open>entry_store\<close> is the interface of one directory level.
  \<^item> \<open>ReleaseRuntime\<close>, \<open>ReleaseRuntimeSafety\<close>: \<^verbatim>\<open>runtime.go\<close>: observation, replacement of the target,
    readiness, restart, bounded output of child processes.  The locale \<open>runtime_frame\<close> is what the
    manager relies on: a runtime leaves the store alone.
  \<^item> \<open>ReleaseManager\<close>, \<open>ReleaseManagerSafety\<close>, \<open>ReleaseManagerPolicy\<close>: \<^verbatim>\<open>manager.go\<close>: the interpreter of the
    decisions over store and runtime.  The locale \<open>managed\<close> extends \<open>runtime_frame\<close>; it is interpreted on
    the manager over the host's runtime.
  \<^item> \<open>MutationProtocol\<close>, \<open>MutationSession\<close>: \<^verbatim>\<open>internal/fsx/mutation_protocol.go\<close>: the two endpoints, and
    their joint runs over a pair of pipes as an inductive step relation.
  \<^item> \<open>VaultPath\<close>: \<^verbatim>\<open>internal/fsx/fsx.go\<close>, \<^verbatim>\<open>path_unix.go\<close>, \<^verbatim>\<open>internal/tools/obsidian/path_coordinate.go\<close>:
    normalisation of tool paths, the walk from the root that follows no link, and the coordinates
    answers are given in.
  \<^item> \<open>TraceIO\<close>, \<open>FsIO\<close>: operations in a world that cannot be predicted, as a state monad over a schedule
    and a trace with backward rules for what an operation appends to the trace; the system calls
    on descriptors, file identities and fingerprints (\<^verbatim>\<open>internal/fsx/file_unix.go\<close>).
  \<^item> \<open>MutationTarget\<close>: \<^verbatim>\<open>mutation_target_darwin.go\<close>, \<^verbatim>\<open>mutation_direct_darwin.go\<close>: opening and fingerprinting
    the target of a change, moving and deleting.
  \<^item> \<open>MutationHelper\<close>, \<open>MutationLauncher\<close>, \<open>MutationDemo\<close>: \<^verbatim>\<open>mutation_helper_darwin.go\<close>,
    \<^verbatim>\<open>mutation_launcher_darwin.go\<close>, \<^verbatim>\<open>mutation_staged_darwin.go\<close>: the helper process, the process that starts
    it, \<^verbatim>\<open>CreateFile\<close> and \<^verbatim>\<open>ReplaceFile\<close>, each side with a trace of its own; one creation and one
    replacement evaluated on both sides.
  \<^item> \<open>VaultList\<close>: \<^verbatim>\<open>list_unix.go\<close>: one page of a directory, from one scan with a bounded heap, the order-free
    fingerprint of its names, and the two rounds of stats.
  \<^item> \<open>GoBase64\<close>, \<open>Cursor\<close>: \<^verbatim>\<open>internal/fsx/opaque_unix.go\<close>, \<^verbatim>\<open>internal/tools/obsidian/cursor.go\<close>: what a vault
    seals, and the sealed cursors of the vault tools.
  \<^item> \<open>LsTool\<close>: \<^verbatim>\<open>internal/tools/obsidian/tools.go\<close>, \<^verbatim>\<open>coverage.go\<close>, \<^verbatim>\<open>response_fit.go\<close>: the handlers of \<^verbatim>\<open>ls\<close> and
    \<^verbatim>\<open>resolve\<close>, coverage, and the fitting of a page into the result budget.
  \<^item> \<open>YnabQuota\<close>, \<open>YnabDispatch\<close>: \<^verbatim>\<open>internal/tools/ynab/quota.go\<close>, \<^verbatim>\<open>reliability.go\<close>: the two transactions on
    the shared tables, and the attempts of one call in the state monad.
  \<^item> \<open>YnabItem\<close>, \<open>YnabResult\<close>, \<open>YnabProvider\<close>, \<open>YnabExport\<close>, \<open>YnabBatch\<close>: \<^verbatim>\<open>tools.go\<close>, \<^verbatim>\<open>validation_data.go\<close>,
    \<^verbatim>\<open>projection.go\<close>, \<^verbatim>\<open>transaction_result.go\<close>, \<^verbatim>\<open>response_fit.go\<close>, \<^verbatim>\<open>exports.go\<close>: checks and routes of an item,
    projection and confirmation of an answer, requests, file exports, and the batch that composes
    them.

  \<^bold>\<open>What is shown.\<close>  For releases: whatever fails, the slot keeps what is needed to go back; effects
  follow what has been persisted; success is claimed on evidence; the disk operations are atomic at
  one point each.  For mutations: honest endpoints never reject each other, the payload that is
  committed is the payload that was announced, and a session can always be completed; a change has at
  most one effect, right after the checks it depends on; and over both processes together, creating
  and replacing say what happened unless they say that they do not know.  For paths: a
  resolved path is a chain of listed, visible, real directories, and presentation and normalisation
  are inverse.  For listings: a page holds exactly the first entries behind a position, read while the
  directory stayed as it was; a cursor comes back as it was made and cannot be altered under its seal;
  a page is the longest that fits; and following the cursors of an unchanged directory shows every
  visible name once and in order.  For the provider: the allowance is never overdrawn, a circuit has one probe, a call
  returns after at most two requests, each behind its reservation, and reports honestly what was sent;
  a batch is checked before anything happens, never repeats or hides a write, answers every item; an
  export is published whole or not at all; an update that stays a success was applied.

  \<^bold>\<open>Style of the environment.\<close>  What the code does not determine is an argument: each system call, clock,
  random source, context and network answer is a function of a step counter in an environment
  record, so every theorem quantifies over all schedules.  Digests, the JSON and manifest codecs,
  Unicode normalisation and folding, \<^verbatim>\<open>strconv.Quote\<close>, HTTP dates and \<^verbatim>\<open>json.Marshal\<close> sizes are functions
  given as arguments.  The order in which Go visits a map is an argument where the code ranges over
  one.

  \<^bold>\<open>Assumptions.\<close>  Child processes act on the host and not on the store's directory; the operating system
  named to the release controller does not change; pipes deliver bytes in order without loss;
  pointers the constructors set are not nil; a removal that fails has removed nothing; a transaction
  that fails to commit leaves the tables as they were; lists a JSON document gives twice are not
  merged; counters of type \<^verbatim>\<open>int\<close> do not reach 64 bits.  Opening the environment file of a service
  through a symbolic link counts as failure.

  \<^bold>\<open>Loops and fuel.\<close>  Structural recursion where the code consumes a list; measures for the write loops.
  The attempt loop of a call has fuel \<open>read_attempts\<close> and is shown never to run out; a batch has its
  length as fuel, every round consuming an item.  Polling loops carry the code's own bound on rounds.

  \<^bold>\<open>Not modelled.\<close>  Searching and reading of notes and recursive walks (regular expressions, YAML, worker
  pools), the MCP transport and SDK glue, telemetry, schemas and texts,
  configuration, the audit log, and the commands that assemble, measure or generate the gateway.  Of
  the exports, the descent to the export directory is one answer of the environment.
\<close>

end
